(* ===== verification/Safrod_Prelude.thy ===== *)
theory Safrod_Prelude
  imports Main "HOL-Library.Word" "HOL-Library.Sublist" "HOL-Library.Char_ord"
    "HOL-Library.List_Lexorder" "HOL-Library.Product_Lexorder"
begin

text \<open>
  Shared vocabulary of the development: the machine integers of the Rust sources, results as
  sums, the parts of the Rust standard library that the sources call on strings (byte strings
  in UTF-8), rows of a table, and the generic lemmas every component uses.

  \<^item> \<open>u8\<close>, \<open>u32\<close>, \<open>u64\<close> are words; a signed database column (\<open>i32\<close>, \<open>i64\<close>) is an
    \<open>int\<close> whose range is checked where the code checks it.
  \<^item> \<open>Result<T, E>\<close> is \<open>'e + 'a\<close>, \<open>Inl\<close> being \<open>Err\<close>; \<open>Option<T>\<close> is \<open>'a option\<close>.
  \<^item> a \<open>String\<close> is the list of its bytes.
\<close>

named_theorems row_simps \<open>equations of the table operations\<close>
named_theorems word_bounds \<open>facts that move checked word arithmetic to natural numbers\<close>

type_synonym u8 = "8 word"
type_synonym u16 = "16 word"
type_synonym u32 = "32 word"
type_synonym u64 = "64 word"

text \<open>A point in time (\<open>DateTime<Utc>\<close>, \<open>timestamptz\<close>): microseconds since the epoch.\<close>

type_synonym instant = int

abbreviation seconds :: "int \<Rightarrow> int" where
  "seconds n \<equiv> n * 1000000"

section \<open>Checked machine arithmetic (core::num)\<close>

definition checked_add :: "'n::len word \<Rightarrow> 'n word \<Rightarrow> 'n word option" where
  "checked_add a b = (if unat a + unat b < 2 ^ LENGTH('n) then Some (a + b) else None)"

definition checked_sub :: "'n::len word \<Rightarrow> 'n word \<Rightarrow> 'n word option" where
  "checked_sub a b = (if b \<le> a then Some (a - b) else None)"

definition checked_mul :: "'n::len word \<Rightarrow> 'n word \<Rightarrow> 'n word option" where
  "checked_mul a b = (if unat a * unat b < 2 ^ LENGTH('n) then Some (a * b) else None)"

definition saturating_sub :: "'n::len word \<Rightarrow> 'n word \<Rightarrow> 'n word" where
  "saturating_sub a b = (if b \<le> a then a - b else 0)"

definition saturating_mul :: "'n::len word \<Rightarrow> 'n word \<Rightarrow> 'n word" where
  "saturating_mul a b = (case checked_mul a b of Some c \<Rightarrow> c | None \<Rightarrow> - 1)"

text \<open>Wrap-around of a signed 64-bit result (release builds).\<close>

definition wrap_i64 :: "int \<Rightarrow> int" where
  "wrap_i64 i = (i + 2 ^ 63) mod 2 ^ 64 - 2 ^ 63"

definition wrap_i32 :: "int \<Rightarrow> int" where
  "wrap_i32 i = (i + 2 ^ 31) mod 2 ^ 32 - 2 ^ 31"

definition in_i64 :: "int \<Rightarrow> bool" where
  "in_i64 i \<longleftrightarrow> - (2 ^ 63) \<le> i \<and> i < 2 ^ 63"

definition in_i32 :: "int \<Rightarrow> bool" where
  "in_i32 i \<longleftrightarrow> - (2 ^ 31) \<le> i \<and> i < 2 ^ 31"

section \<open>Strings (core::str)\<close>

text \<open>ASCII classes of a byte, as \<open>u8\<close> / \<open>char\<close> methods of the standard library.\<close>

definition code :: "char \<Rightarrow> nat" where
  "code c = of_char c"

definition is_ascii_digit :: "char \<Rightarrow> bool" where
  "is_ascii_digit c \<longleftrightarrow> 48 \<le> code c \<and> code c \<le> 57"

definition is_ascii_hexdigit :: "char \<Rightarrow> bool" where
  "is_ascii_hexdigit c \<longleftrightarrow> is_ascii_digit c \<or> (65 \<le> code c \<and> code c \<le> 70) \<or> (97 \<le> code c \<and> code c \<le> 102)"

definition is_ascii_byte :: "char \<Rightarrow> bool" where
  "is_ascii_byte c \<longleftrightarrow> code c < 128"

definition to_lower :: "char \<Rightarrow> char" where
  "to_lower c = (if 65 \<le> code c \<and> code c \<le> 90 then char_of (code c + 32) else c)"

definition to_upper :: "char \<Rightarrow> char" where
  "to_upper c = (if 97 \<le> code c \<and> code c \<le> 122 then char_of (code c - 32) else c)"

definition to_ascii_lowercase :: "string \<Rightarrow> string" where
  "to_ascii_lowercase s = map to_lower s"

definition to_ascii_uppercase :: "string \<Rightarrow> string" where
  "to_ascii_uppercase s = map to_upper s"

definition starts_with :: "string \<Rightarrow> string \<Rightarrow> bool" where
  "starts_with s p \<longleftrightarrow> take (length p) s = p"

definition strip_prefix :: "string \<Rightarrow> string \<Rightarrow> string option" where
  "strip_prefix p s = (if starts_with s p then Some (drop (length p) s) else None)"

text \<open>\<open>str::split_once\<close> on one byte: the text before and after its first occurrence.\<close>

fun split_once :: "char \<Rightarrow> string \<Rightarrow> (string \<times> string) option" where
  "split_once c [] = None"
| "split_once c (x # xs) =
     (if x = c then Some ([], xs)
      else case split_once c xs of None \<Rightarrow> None | Some (a, b) \<Rightarrow> Some (x # a, b))"

text \<open>\<open>str::split\<close> on one byte: always at least one part.\<close>

fun split_on :: "char \<Rightarrow> string \<Rightarrow> string list" where
  "split_on c [] = [[]]"
| "split_on c (x # xs) =
     (if x = c then [] # split_on c xs
      else case split_on c xs of [] \<Rightarrow> [[x]] | p # ps \<Rightarrow> (x # p) # ps)"

text \<open>
  \<open>str::trim\<close> removes Unicode white space: the UTF-8 encodings of the characters with the
  property \<open>White_Space\<close>.
\<close>

definition white_space :: "string list" where
  "white_space = map (map char_of)
     [[9], [10], [11], [12], [13], [32], [194, 133], [194, 160], [225, 154, 128],
      [226, 128, 128], [226, 128, 129], [226, 128, 130], [226, 128, 131], [226, 128, 132],
      [226, 128, 133], [226, 128, 134], [226, 128, 135], [226, 128, 136], [226, 128, 137],
      [226, 128, 138], [226, 128, 168], [226, 128, 169], [226, 128, 175], [226, 129, 159],
      [227, 128, 128 :: nat]]"

text \<open>Leading occurrences of the given patterns are dropped; each pattern is non-empty.\<close>

fun drop_leading :: "nat \<Rightarrow> string list \<Rightarrow> string \<Rightarrow> string" where
  "drop_leading 0 ws s = s"
| "drop_leading (Suc n) ws s =
     (case find (\<lambda>w. starts_with s w) ws of
        None \<Rightarrow> s
      | Some w \<Rightarrow> drop_leading n ws (drop (length w) s))"

definition trim_start :: "string \<Rightarrow> string" where
  "trim_start s = drop_leading (length s) white_space s"

definition trim_end :: "string \<Rightarrow> string" where
  "trim_end s = rev (drop_leading (length s) (map rev white_space) (rev s))"

definition trim :: "string \<Rightarrow> string" where
  "trim s = trim_end (trim_start s)"

section \<open>Decimal numbers (core::num::FromStr, Display)\<close>

definition digit_val :: "char \<Rightarrow> nat" where
  "digit_val c = code c - 48"

fun digits_val :: "nat \<Rightarrow> string \<Rightarrow> nat" where
  "digits_val acc [] = acc"
| "digits_val acc (c # cs) = digits_val (10 * acc + digit_val c) cs"

text \<open>An unsigned parse: an optional plus sign, one or more digits, and the range of the type.\<close>

definition parse_unsigned :: "nat \<Rightarrow> string \<Rightarrow> nat option" where
  "parse_unsigned bound s =
     (let d = (case s of c # cs \<Rightarrow> if c = CHR ''+'' then cs else s | [] \<Rightarrow> [])
      in if d \<noteq> [] \<and> list_all is_ascii_digit d \<and> digits_val 0 d < bound
         then Some (digits_val 0 d) else None)"

definition parse_u64 :: "string \<Rightarrow> u64 option" where
  "parse_u64 s = map_option of_nat (parse_unsigned (2 ^ 64) s)"

text \<open>A signed parse accepts a minus sign as well.\<close>

definition parse_signed :: "nat \<Rightarrow> string \<Rightarrow> int option" where
  "parse_signed bits s =
     (case s of
        c # cs \<Rightarrow>
          if c = CHR ''-''
          then (if cs \<noteq> [] \<and> list_all is_ascii_digit cs \<and> digits_val 0 cs \<le> 2 ^ (bits - 1)
                then Some (- int (digits_val 0 cs)) else None)
          else map_option int (parse_unsigned (2 ^ (bits - 1)) s)
      | [] \<Rightarrow> None)"

fun nat_digits :: "nat \<Rightarrow> string" where
  "nat_digits n =
     (if n < 10 then [char_of (48 + n)] else nat_digits (n div 10) @ [char_of (48 + n mod 10)])"

declare nat_digits.simps [simp del]

definition int_text :: "int \<Rightarrow> string" where
  "int_text i = (if i < 0 then CHR ''-'' # nat_digits (nat (- i)) else nat_digits (nat i))"

text \<open>\<open>text.chars().take(n)\<close> on UTF-8: continuation bytes belong to the character before them.\<close>

fun take_chars :: "nat \<Rightarrow> string \<Rightarrow> string" where
  "take_chars n [] = []"
| "take_chars n (c # cs) =
     (if 128 \<le> code c \<and> code c < 192 then c # take_chars n cs
      else case n of 0 \<Rightarrow> [] | Suc m \<Rightarrow> c # take_chars m cs)"

section \<open>Hexadecimal bytes (the format specifier 02x and its inverse)\<close>

definition hex_digit :: "nat \<Rightarrow> char" where
  "hex_digit n = (if n < 10 then char_of (48 + n) else char_of (87 + n))"

definition hex_val :: "char \<Rightarrow> nat option" where
  "hex_val c =
     (if is_ascii_digit c then Some (code c - 48)
      else if 97 \<le> code c \<and> code c \<le> 102 then Some (code c - 87)
      else if 65 \<le> code c \<and> code c \<le> 70 then Some (code c - 55)
      else None)"

definition byte_hex :: "u8 \<Rightarrow> string" where
  "byte_hex b = [hex_digit (unat b div 16), hex_digit (unat b mod 16)]"

definition bytes_hex :: "u8 list \<Rightarrow> string" where
  "bytes_hex bs = concat (map byte_hex bs)"

fun hex_bytes :: "string \<Rightarrow> u8 list option" where
  "hex_bytes [] = Some []"
| "hex_bytes [_] = None"
| "hex_bytes (a # b # cs) =
     (case (hex_val a, hex_val b, hex_bytes cs) of
        (Some x, Some y, Some bs) \<Rightarrow> Some (of_nat (16 * x + y) # bs)
      | _ \<Rightarrow> None)"

text \<open>\<open>u64::to_be_bytes\<close>.\<close>

definition to_be_bytes :: "u64 \<Rightarrow> string" where
  "to_be_bytes w = map (\<lambda>i. char_of (unat w div 256 ^ (7 - i) mod 256)) [0..<8]"

section \<open>Rows of a table\<close>

text \<open>The three row operations a statement of the repositories performs.\<close>

definition select_one :: "('r \<Rightarrow> bool) \<Rightarrow> 'r list \<Rightarrow> 'r option" where
  "select_one P t = find P t"

definition update_where :: "('r \<Rightarrow> bool) \<Rightarrow> ('r \<Rightarrow> 'r) \<Rightarrow> 'r list \<Rightarrow> 'r list" where
  "update_where P f t = map (\<lambda>r. if P r then f r else r) t"

definition insert_row :: "'r \<Rightarrow> 'r list \<Rightarrow> 'r list" where
  "insert_row r t = t @ [r]"

text \<open>\<open>order by k limit n\<close>: a stable sort on the key, then a prefix.\<close>

definition top_by :: "('r \<Rightarrow> 'k::linorder) \<Rightarrow> nat \<Rightarrow> 'r list \<Rightarrow> 'r list" where
  "top_by k n t = take n (sort_key k t)"

text \<open>
  \<open>order by k desc\<close>, and the cursor query of the list endpoints:
  \<open>where (cursor is null or k < (select k ... where id = cursor)) order by k desc limit n\<close>. A cursor that
  names no row compares with null and selects nothing. The generated identifiers that break ties
  are lower-case hexadecimal, for which every collation agrees with the order of the bytes.
\<close>

definition desc_by :: "('r \<Rightarrow> 'k::linorder) \<Rightarrow> 'r list \<Rightarrow> 'r list" where
  "desc_by k t = rev (sort_key k t)"

definition page_desc ::
  "('r \<Rightarrow> 'k::linorder) \<Rightarrow> ('r \<Rightarrow> string) \<Rightarrow> string option \<Rightarrow> nat \<Rightarrow> 'r list \<Rightarrow> 'r list" where
  "page_desc k i cursor n t =
     (case cursor of
        None \<Rightarrow> take n (desc_by k t)
      | Some c \<Rightarrow>
          (case select_one (\<lambda>r. i r = c) t of
             None \<Rightarrow> []
           | Some r0 \<Rightarrow> take n (filter (\<lambda>r. k r < k r0) (desc_by k t))))"

text \<open>
  How a table may change over time: every old row is still there, at its place, changed only as \<open>le\<close>
  allows; new rows come after.
\<close>

definition grows :: "('r \<Rightarrow> 'r \<Rightarrow> bool) \<Rightarrow> 'r list \<Rightarrow> 'r list \<Rightarrow> bool" where
  "grows le t t' \<longleftrightarrow> list_all2 le t (take (length t) t')"


section \<open>Lemmas: checked arithmetic\<close>

lemma checked_add_Some [word_bounds]:
  "checked_add a b = Some c \<longleftrightarrow> unat a + unat b < 2 ^ LENGTH('n) \<and> unat c = unat a + unat b"
  for a b c :: "'n::len word"
  by (auto simp: checked_add_def unat_word_ariths intro: word_unat_eq_iff [THEN iffD2])

lemma checked_sub_Some [word_bounds]:
  "checked_sub a b = Some c \<longleftrightarrow> unat b \<le> unat a \<and> unat c = unat a - unat b"
  for a b c :: "'n::len word"
  by (auto simp: checked_sub_def word_le_nat_alt unat_sub intro: word_unat_eq_iff [THEN iffD2])

lemma checked_mul_Some [word_bounds]:
  "checked_mul a b = Some c \<longleftrightarrow> unat a * unat b < 2 ^ LENGTH('n) \<and> unat c = unat a * unat b"
  for a b c :: "'n::len word"
  by (auto simp: checked_mul_def unat_word_ariths intro: word_unat_eq_iff [THEN iffD2])

lemma checked_mul_None [word_bounds]:
  "checked_mul a b = None \<longleftrightarrow> 2 ^ LENGTH('n) \<le> unat a * unat b" for a b :: "'n::len word"
  by (auto simp: checked_mul_def)

lemma checked_add_None [word_bounds]:
  "checked_add a b = None \<longleftrightarrow> 2 ^ LENGTH('n) \<le> unat a + unat b" for a b :: "'n::len word"
  by (auto simp: checked_add_def)

lemma wrap_i64_id: "in_i64 i \<Longrightarrow> wrap_i64 i = i"
  by (simp add: in_i64_def wrap_i64_def)

lemma wrap_i64_range: "in_i64 (wrap_i64 i)"
proof -
  have "0 \<le> (i + 2 ^ 63) mod 2 ^ 64" and "(i + 2 ^ 63) mod 2 ^ 64 < (2 ^ 64 :: int)"
    by simp_all
  then show ?thesis by (simp add: in_i64_def wrap_i64_def)
qed

lemma uint_pos [simp]: "0 < uint w \<longleftrightarrow> w \<noteq> 0" "uint w \<le> 0 \<longleftrightarrow> w = 0" for w :: "'n::len word"
proof -
  show "0 < uint w \<longleftrightarrow> w \<noteq> 0"
    using unsigned_greater_eq [of w, where 'a = int] by (auto simp: less_le unsigned_eq_0_iff)
  then show "uint w \<le> 0 \<longleftrightarrow> w = 0" by auto
qed

section \<open>Lemmas: strings\<close>

lemma code_bound [simp]: "code c < 256"
  unfolding code_def by (rule nat_of_char_less_256)

lemma code_char_of [simp]: "code (char_of n) = n mod 256"
  by (simp add: code_def)

lemma starts_with_prefix: "starts_with s p \<longleftrightarrow> (\<exists>t. s = p @ t)"
  unfolding starts_with_def by (metis append_eq_conv_conj append_take_drop_id)

lemma starts_with_append [simp]: "starts_with (p @ s) p"
  by (auto simp: starts_with_prefix)

lemma starts_with_Nil [simp]: "starts_with s []"
  by (simp add: starts_with_def)

lemma strip_prefix_append [simp]: "strip_prefix p (p @ s) = Some s"
  by (simp add: strip_prefix_def)

lemma strip_prefix_Some: "strip_prefix p s = Some r \<longleftrightarrow> s = p @ r"
  by (auto simp: strip_prefix_def starts_with_prefix)

lemma strip_prefix_None: "strip_prefix p s = None \<longleftrightarrow> (\<forall>r. s \<noteq> p @ r)"
  by (auto simp: strip_prefix_def starts_with_prefix)

lemma length_to_ascii_lowercase [simp]: "length (to_ascii_lowercase s) = length s"
  by (simp add: to_ascii_lowercase_def)

lemma to_lower_idem [simp]: "to_lower (to_lower c) = to_lower c"
  by (auto simp: to_lower_def)

lemma to_ascii_lowercase_idem [simp]:
  "to_ascii_lowercase (to_ascii_lowercase s) = to_ascii_lowercase s"
  by (simp add: to_ascii_lowercase_def)

lemma to_ascii_lowercase_append [simp]:
  "to_ascii_lowercase (s @ t) = to_ascii_lowercase s @ to_ascii_lowercase t"
  by (simp add: to_ascii_lowercase_def)

lemma split_once_append:
  "c \<notin> set a \<Longrightarrow> split_once c (a @ c # b) = Some (a, b)"
  by (induction a) auto

lemma split_once_Some: "split_once c s = Some (a, b) \<Longrightarrow> s = a @ c # b \<and> c \<notin> set a"
  by (induction s arbitrary: a) (auto split: if_splits option.splits)

lemma split_once_None: "split_once c s = None \<longleftrightarrow> c \<notin> set s"
  by (induction s) (auto split: option.splits)

lemma split_on_nonempty [simp]: "split_on c s \<noteq> []"
  by (induction s) (auto split: list.splits)

lemma split_on_single: "c \<notin> set a \<Longrightarrow> split_on c a = [a]"
  by (induction a) auto

lemma split_on_append: "c \<notin> set a \<Longrightarrow> split_on c (a @ c # b) = a # split_on c b"
  by (induction a) auto

subsection \<open>Trimming\<close>

definition white_lead :: "char \<Rightarrow> bool" where
  "white_lead c \<longleftrightarrow> code c \<in> {9, 10, 11, 12, 13, 32, 194, 225, 226, 227}"

definition white_tail :: "char \<Rightarrow> bool" where
  "white_tail c \<longleftrightarrow> code c \<in> {9, 10, 11, 12, 13, 32} \<or> (128 \<le> code c \<and> code c < 192)"

lemma white_space_lead: "w \<in> set white_space \<Longrightarrow> \<exists>c cs. w = c # cs \<and> white_lead c"
  by (auto simp: white_space_def white_lead_def)

lemma white_space_tail: "w \<in> set (map rev white_space) \<Longrightarrow> \<exists>c cs. w = c # cs \<and> white_tail c"
  by (auto simp: white_space_def white_tail_def)

lemma drop_leading_none:
  "(\<And>w. w \<in> set ws \<Longrightarrow> \<not> starts_with s w) \<Longrightarrow> drop_leading n ws s = s"
  by (cases n) (auto simp: find_Some_iff split: option.splits)

lemma drop_leading_fixed:
  assumes "\<And>w. w \<in> set ws \<Longrightarrow> w \<noteq> []" and "length s \<le> n" and "w \<in> set ws"
  shows "\<not> starts_with (drop_leading n ws s) w"
  using assms(2)
proof (induction n arbitrary: s)
  case 0
  then show ?case using assms(1,3) by (auto simp: starts_with_def)
next
  case (Suc n)
  show ?case
  proof (cases "find (starts_with s) ws")
    case None
    then have "\<not> starts_with s w" using assms(3) by (auto simp: find_None_iff)
    with None show ?thesis by simp
  next
    case (Some v)
    then have "v \<in> set ws" by (auto simp: find_Some_iff)
    then have "0 < length v" using assms(1) by blast
    then have "length (drop (length v) s) \<le> n" using Suc.prems by (simp, arith)
    then have "\<not> starts_with (drop_leading n ws (drop (length v) s)) w" by (rule Suc.IH)
    with Some show ?thesis by simp
  qed
qed

lemma trim_start_id: "s = [] \<or> \<not> white_lead (hd s) \<Longrightarrow> trim_start s = s"
  unfolding trim_start_def
  by (rule drop_leading_none) (auto simp: starts_with_prefix dest!: white_space_lead)

lemma trim_end_id: "s = [] \<or> \<not> white_tail (last s) \<Longrightarrow> trim_end s = s"
proof -
  assume a: "s = [] \<or> \<not> white_tail (last s)"
  have "drop_leading (length s) (map rev white_space) (rev s) = rev s"
  proof (rule drop_leading_none)
    fix w assume "w \<in> set (map rev white_space)"
    then obtain c cs where w: "w = c # cs" "white_tail c" by (blast dest: white_space_tail)
    show "\<not> starts_with (rev s) w"
    proof
      assume "starts_with (rev s) w"
      then obtain t where "rev s = c # cs @ t" using w by (auto simp: starts_with_prefix)
      then have "s = rev (cs @ t) @ [c]" by (metis rev_rev_ident rev.simps(2))
      with a w show False by simp
    qed
  qed
  then show ?thesis by (simp add: trim_end_def)
qed

lemma trim_id:
  "s = [] \<or> (\<not> white_lead (hd s) \<and> \<not> white_tail (last s)) \<Longrightarrow> trim s = s"
  by (auto simp: trim_def trim_start_id trim_end_id)

text \<open>Text of printable ASCII without blanks is left alone.\<close>

definition graphic :: "char \<Rightarrow> bool" where
  "graphic c \<longleftrightarrow> 32 < code c \<and> code c < 127"

lemma graphic_not_white: "graphic c \<Longrightarrow> \<not> white_lead c \<and> \<not> white_tail c"
  by (auto simp: graphic_def white_lead_def white_tail_def)

lemma trim_graphic: "list_all graphic s \<Longrightarrow> trim s = s"
  by (rule trim_id, cases "s = []") (simp_all add: list_all_iff graphic_not_white)

section \<open>Lemmas: numbers as text\<close>

lemma digits_val_append: "digits_val acc (s @ [c]) = 10 * digits_val acc s + digit_val c"
  by (induction s arbitrary: acc) auto

lemma nat_digits_nonempty [simp]: "nat_digits n \<noteq> []"
  by (subst nat_digits.simps) simp

lemma nat_digits_digits: "list_all is_ascii_digit (nat_digits n)"
proof (induction n rule: nat_digits.induct)
  case (1 n)
  have "is_ascii_digit (char_of (48 + k))" if "k < 10" for k :: nat
    using that by (simp add: is_ascii_digit_def)
  with 1 show ?case by (subst nat_digits.simps) simp
qed

lemma digits_val_nat_digits [simp]: "digits_val 0 (nat_digits n) = n"
proof (induction n rule: nat_digits.induct)
  case (1 n)
  then show ?case
    by (subst nat_digits.simps) (auto simp: digits_val_append digit_val_def)
qed

lemma digit_not_sign: "is_ascii_digit c \<Longrightarrow> c \<noteq> CHR ''+'' \<and> c \<noteq> CHR ''-''"
  by (auto simp: is_ascii_digit_def code_def)

lemma parse_unsigned_nat_digits:
  "n < bound \<Longrightarrow> parse_unsigned bound (nat_digits n) = Some n"
proof -
  assume n: "n < bound"
  obtain c cs where cs: "nat_digits n = c # cs" by (cases "nat_digits n") auto
  with nat_digits_digits [of n] have "c \<noteq> CHR ''+''" by (simp add: digit_not_sign)
  moreover have "digits_val 0 (c # cs) = n" and "list_all is_ascii_digit (c # cs)"
    using digits_val_nat_digits [of n] nat_digits_digits [of n] cs by simp_all
  ultimately show ?thesis using n cs by (simp only: parse_unsigned_def Let_def list.case) simp
qed

lemma parse_u64_nat_digits: "parse_u64 (nat_digits (unat w)) = Some w"
  using unsigned_less [of w, where 'a = nat] by (simp add: parse_u64_def parse_unsigned_nat_digits)

lemma parse_signed_int_text:
  assumes "- (2 ^ (bits - 1)) \<le> i" and "i < 2 ^ (bits - 1)"
  shows "parse_signed bits (int_text i) = Some i"
proof (cases "i < 0")
  case True
  have "nat (- i) \<le> 2 ^ (bits - 1)" using assms(1) True by (simp add: nat_le_iff)
  then show ?thesis using True nat_digits_digits [of "nat (- i)"]
    by (simp add: int_text_def parse_signed_def)
next
  case False
  have n: "nat i < 2 ^ (bits - 1)" using assms(2) False by (simp add: nat_less_iff)
  obtain c cs where cs: "nat_digits (nat i) = c # cs" by (cases "nat_digits (nat i)") auto
  then have "c \<noteq> CHR ''-''" using nat_digits_digits [of "nat i"] digit_not_sign by auto
  then have "parse_signed bits (nat_digits (nat i)) =
      map_option int (parse_unsigned (2 ^ (bits - 1)) (nat_digits (nat i)))"
    using cs by (simp add: parse_signed_def)
  then show ?thesis using False n by (simp add: int_text_def parse_unsigned_nat_digits)
qed

lemma graphic_digit: "is_ascii_digit c \<Longrightarrow> graphic c"
  by (simp add: is_ascii_digit_def graphic_def)

lemma int_text_graphic: "list_all graphic (int_text i)"
proof -
  have "list_all graphic (nat_digits n)" for n
    using nat_digits_digits [of n] by (auto simp: list_all_iff graphic_digit)
  then show ?thesis by (simp add: int_text_def graphic_def code_def)
qed

lemma int_text_chars: "c \<in> set (int_text i) \<Longrightarrow> is_ascii_digit c \<or> c = CHR ''-''"
  using nat_digits_digits by (auto simp: int_text_def list_all_iff split: if_splits)

lemma length_to_be_bytes [simp]: "length (to_be_bytes w) = 8"
  by (simp add: to_be_bytes_def)

lemma base_digits_eq:
  fixes n m :: nat
  assumes "n < 256 ^ k" and "m < 256 ^ k" and "\<And>j. j < k \<Longrightarrow> n div 256 ^ j mod 256 = m div 256 ^ j mod 256"
  shows "n = m"
  using assms
proof (induction k arbitrary: n m)
  case (Suc k)
  have "n div 256 < 256 ^ k" "m div 256 < 256 ^ k"
    using Suc.prems(1,2) by (simp_all add: less_mult_imp_div_less mult.commute)
  moreover have "n div 256 div 256 ^ j mod 256 = m div 256 div 256 ^ j mod 256" if "j < k" for j
    using Suc.prems(3) [of "Suc j"] that by (simp add: div_mult2_eq)
  ultimately have "n div 256 = m div 256" by (rule Suc.IH)
  moreover have "n mod 256 = m mod 256" using Suc.prems(3) [of 0] by simp
  ultimately show ?case by (metis div_mult_mod_eq)
qed simp

lemma to_be_bytes_inj: "to_be_bytes a = to_be_bytes b \<longleftrightarrow> a = b"
proof
  assume eq: "to_be_bytes a = to_be_bytes b"
  have "unat a div 256 ^ j mod 256 = unat b div 256 ^ j mod 256" if j: "j < 8" for j
  proof -
    have "[0..<8] ! (7 - j) = 7 - j" using nth_upt [of 0 "7 - j" 8] by simp
    moreover have "to_be_bytes a ! (7 - j) = to_be_bytes b ! (7 - j)" using eq by simp
    ultimately show ?thesis using j by (simp add: to_be_bytes_def)
  qed
  moreover have "unat a < 256 ^ 8" "unat b < 256 ^ 8" using unsigned_less [of a, where 'a = nat] unsigned_less [of b, where 'a = nat] by simp_all
  ultimately show "a = b" using base_digits_eq [of "unat a" 8 "unat b"] by (simp add: word_unat_eq_iff)
qed simp

lemma hex_digit_hexdigit: "n < 16 \<Longrightarrow> is_ascii_hexdigit (hex_digit n)"
  by (auto simp: hex_digit_def is_ascii_hexdigit_def is_ascii_digit_def)

lemma hex_val_hex_digit: "n < 16 \<Longrightarrow> hex_val (hex_digit n) = Some n"
  by (auto simp: hex_digit_def hex_val_def is_ascii_digit_def)

lemma hex_bytes_bytes_hex [simp]: "hex_bytes (bytes_hex bs) = Some bs"
proof (induction bs)
  case Nil
  then show ?case by (simp add: bytes_hex_def)
next
  case (Cons b bs)
  have "unat b < 256" using unsigned_less [of b] by simp
  then have "unat b div 16 < 16" "unat b mod 16 < 16" by auto
  then show ?case using Cons
    by (simp add: bytes_hex_def byte_hex_def hex_val_hex_digit
        del: of_nat_add of_nat_mult of_nat_numeral)
qed

lemma bytes_hex_hexdigits: "list_all is_ascii_hexdigit (bytes_hex bs)"
proof -
  have "list_all is_ascii_hexdigit (byte_hex b)" for b
  proof -
    have "unat b < 256" using unsigned_less [of b] by simp
    then have "unat b div 16 < 16" "unat b mod 16 < 16" by auto
    then show ?thesis by (simp add: byte_hex_def hex_digit_hexdigit)
  qed
  then show ?thesis by (induction bs) (auto simp: bytes_hex_def)
qed

lemma length_bytes_hex [simp]: "length (bytes_hex bs) = 2 * length bs"
  by (induction bs) (auto simp: bytes_hex_def byte_hex_def)

section \<open>Lemmas: rows\<close>

lemma update_where_Nil [row_simps]: "update_where P f [] = []"
  by (simp add: update_where_def)

lemma update_where_Cons [row_simps]:
  "update_where P f (r # t) = (if P r then f r else r) # update_where P f t"
  by (simp add: update_where_def)

lemma length_update_where [simp]: "length (update_where P f t) = length t"
  by (simp add: update_where_def)

lemma set_update_where: "set (update_where P f t) = (\<lambda>r. if P r then f r else r) ` set t"
  by (simp add: update_where_def)

lemma update_where_none: "(\<And>r. r \<in> set t \<Longrightarrow> \<not> P r) \<Longrightarrow> update_where P f t = t"
  by (induction t) (auto simp: update_where_def)

lemma map_update_where_same:
  "(\<And>r. r \<in> set t \<Longrightarrow> P r \<Longrightarrow> k (f r) = k r) \<Longrightarrow> map k (update_where P f t) = map k t"
  by (induction t) (auto simp: update_where_def)

lemma image_update_where:
  assumes "\<And>r. r \<in> set t \<Longrightarrow> P r \<Longrightarrow> k (f r) = k r"
  shows "k ` set (update_where P f t) = k ` set t"
proof -
  have "map k (update_where P f t) = map k t" using assms by (rule map_update_where_same)
  then show ?thesis by (metis set_map)
qed

lemma select_one_Some: "select_one P t = Some r \<Longrightarrow> r \<in> set t \<and> P r"
  by (auto simp: select_one_def find_Some_iff)

lemma select_one_None: "select_one P t = None \<longleftrightarrow> (\<forall>r \<in> set t. \<not> P r)"
  by (auto simp: select_one_def find_None_iff)

lemma select_one_unique:
  "distinct (map k t) \<Longrightarrow> r \<in> set t \<Longrightarrow> select_one (\<lambda>x. k x = k r) t = Some r"
  by (induction t) (auto simp: select_one_def image_iff split: if_splits)

lemma distinct_map_eq: "distinct (map k t) \<Longrightarrow> x \<in> set t \<Longrightarrow> y \<in> set t \<Longrightarrow> k x = k y \<Longrightarrow> x = y"
  by (auto simp: distinct_map dest: inj_onD)

lemma select_one_only:
  assumes "r \<in> set t" and "P r" and "\<And>x. x \<in> set t \<Longrightarrow> P x \<Longrightarrow> x = r"
  shows "select_one P t = Some r"
proof (cases "select_one P t")
  case None
  then show ?thesis using assms(1,2) unfolding select_one_None by blast
next
  case (Some x)
  then show ?thesis using assms(3) select_one_Some [OF Some] by simp
qed

lemma update_where_const:
  assumes "distinct (map k t)" and "r \<in> set t"
  shows "update_where (\<lambda>x. k x = k r) f t = update_where (\<lambda>x. k x = k r) (\<lambda>_. f r) t"
proof -
  have "x = r" if "x \<in> set t" "k x = k r" for x
    using that assms by (auto simp: distinct_map dest: inj_onD)
  then show ?thesis by (auto simp: update_where_def)
qed

lemma select_one_update_where:
  assumes "\<And>x. x \<in> set t \<Longrightarrow> k (f x) = k x"
  shows "select_one (\<lambda>x. k x = a) (update_where P f t)
         = map_option (\<lambda>x. if P x then f x else x) (select_one (\<lambda>x. k x = a) t)"
  using assms by (induction t) (auto simp: select_one_def update_where_def)

lemma select_one_insert_row:
  "select_one P (insert_row r t)
   = (case select_one P t of Some x \<Rightarrow> Some x | None \<Rightarrow> if P r then Some r else None)"
  by (induction t) (auto simp: select_one_def insert_row_def)

lemma set_insert_row [simp]: "set (insert_row r t) = insert r (set t)"
  by (auto simp: insert_row_def)

lemma map_insert_row [simp]: "map k (insert_row r t) = map k t @ [k r]"
  by (simp add: insert_row_def)

lemma filter_insert_row [simp]:
  "filter P (insert_row r t) = filter P t @ (if P r then [r] else [])"
  by (simp add: insert_row_def)

lemma set_top_by: "set (top_by k n t) \<subseteq> set t"
  unfolding top_by_def using set_take_subset [of n "sort_key k t"] by simp

lemma length_top_by: "length (top_by k n t) = min n (length t)"
  by (simp add: top_by_def)

lemma set_desc_by [simp]: "set (desc_by k t) = set t"
  by (simp add: desc_by_def)

lemma length_desc_by [simp]: "length (desc_by k t) = length t"
  by (simp add: desc_by_def)

lemma filter_less_desc:
  "sorted_wrt (\<lambda>a b. k b < k a) xs \<Longrightarrow> j < length xs \<Longrightarrow>
     filter (\<lambda>r. k r < k (xs ! j)) xs = drop (Suc j) xs" for k :: "'r \<Rightarrow> 'k::linorder"
proof (induction xs arbitrary: j)
  case Nil
  then show ?case by simp
next
  case (Cons x xs)
  show ?case
  proof (cases j)
    case 0
    with Cons.prems(1) show ?thesis by (auto simp: filter_id_conv)
  next
    case (Suc i)
    with Cons.prems have "k (xs ! i) < k x" by (auto simp: all_set_conv_all_nth)
    then have "\<not> k x < k (xs ! i)" by simp
    with Suc Cons show ?thesis by simp
  qed
qed

lemma desc_by_strict:
  "distinct (map k t) \<Longrightarrow> sorted_wrt (\<lambda>a b. k b < k a) (desc_by k t)" for k :: "'r \<Rightarrow> 'k::linorder"
proof -
  assume "distinct (map k t)"
  then have "distinct (map k (sort_key k t))"
    by (simp add: distinct_map)
  then have "sorted_wrt (<) (map k (sort_key k t))"
    by (simp add: strict_sorted_iff)
  then show ?thesis by (simp add: desc_by_def sorted_wrt_rev sorted_wrt_map)
qed

text \<open>The page after the last row of a page is the next stretch of the listing.\<close>

lemma page_desc_next:
  assumes "distinct (map i t)" and "distinct (map k t)" and "j < length t"
  shows "page_desc k i (Some (i (desc_by k t ! j))) n t = take n (drop (Suc j) (desc_by k t))"
proof -
  let ?r = "desc_by k t ! j"
  have "?r \<in> set t" using assms(3) by (metis nth_mem length_desc_by set_desc_by)
  then have "select_one (\<lambda>r. i r = i ?r) t = Some ?r" by (rule select_one_unique [OF assms(1)])
  moreover have "filter (\<lambda>r. k r < k ?r) (desc_by k t) = drop (Suc j) (desc_by k t)"
    using assms by (intro filter_less_desc desc_by_strict) auto
  ultimately show ?thesis by (simp add: page_desc_def)
qed

lemma grows_refl: "(\<And>r. le r r) \<Longrightarrow> grows le t t"
  by (simp add: grows_def list_all2_same)

lemma grows_app: "grows le t (u @ v) \<longleftrightarrow> list_all2 le t u" if "length u = length t"
  using that by (simp add: grows_def)

lemma grows_length: "grows le t t' \<Longrightarrow> length t \<le> length t'"
  by (auto simp: grows_def dest!: list_all2_lengthD)

lemma grows_trans:
  assumes "transp le" and "grows le t t'" and "grows le t' t''"
  shows "grows le t t''"
proof -
  have l: "length t \<le> length t'" using assms(2) by (rule grows_length)
  have "list_all2 le (take (length t) t') (take (length t) (take (length t') t''))"
    using assms(3) unfolding grows_def by (rule list_all2_takeI)
  moreover have "take (length t) (take (length t') t'') = take (length t) t''"
    using l by (simp add: min_def)
  ultimately show ?thesis
    using list_all2_trans [of le le le] assms(1,2) unfolding grows_def transp_def by metis
qed

lemma grows_insert: "(\<And>r. le r r) \<Longrightarrow> grows le t (insert_row r t)"
  by (simp add: grows_def insert_row_def list_all2_same)

lemma grows_append: "(\<And>r. le r r) \<Longrightarrow> grows le t (t @ u)"
  by (simp add: grows_def list_all2_same)

lemma grows_update:
  "(\<And>r. le r r) \<Longrightarrow> (\<And>r. r \<in> set t \<Longrightarrow> P r \<Longrightarrow> le r (f r)) \<Longrightarrow> grows le t (update_where P f t)"
  unfolding grows_def by (induction t) (auto simp: update_where_def)

lemma grows_mem: "grows le t t' \<Longrightarrow> r \<in> set t \<Longrightarrow> \<exists>r' \<in> set t'. le r r'"
  unfolding grows_def by (metis in_set_conv_nth in_set_takeD list_all2_conv_all_nth)

lemma grows_map:
  "grows le t t' \<Longrightarrow> (\<And>r r'. le r r' \<Longrightarrow> k r' = k r) \<Longrightarrow> prefix (map k t) (map k t')"
proof -
  assume g: "grows le t t'" and k: "\<And>r r'. le r r' \<Longrightarrow> k r' = k r"
  from g have l: "list_all2 le t (take (length t) t')" by (simp add: grows_def)
  have "map k t = map k (take (length t) t')"
  proof (rule nth_equalityI)
    show "length (map k t) = length (map k (take (length t) t'))"
      using list_all2_lengthD [OF l] by simp
    show "map k t ! i = map k (take (length t) t') ! i" if "i < length (map k t)" for i
      using that grows_length [OF g] k [OF list_all2_nthD [OF l]] by simp
  qed
  then have "map k t' = map k t @ map k (drop (length t) t')" by (metis append_take_drop_id map_append)
  then show ?thesis by (simp add: prefix_def)
qed

lemma update_where_unique:
  assumes "distinct (map k t)" and "r \<in> set t"
  shows "set (update_where (\<lambda>x. k x = k r) f t) = insert (f r) (set t - {r})"
proof -
  have "k x = k r \<longleftrightarrow> x = r" if "x \<in> set t" for x
    using assms that by (auto simp: distinct_map dest: inj_onD)
  then show ?thesis using assms(2) by (auto simp: set_update_where image_iff)
qed

lemma sum_update_one:
  assumes "distinct (map k t)" and "r \<in> set t"
  shows "(\<Sum>x\<leftarrow>update_where (\<lambda>x. k x = k r) f t. g x) = (\<Sum>x\<leftarrow>t. g x) - g r + (g (f r) :: int)"
  using assms
proof (induction t)
  case (Cons a t)
  show ?case
  proof (cases "a = r")
    case True
    then have "k x \<noteq> k r" if "x \<in> set t" for x using Cons.prems(1) that by (auto simp: image_iff)
    then have "update_where (\<lambda>x. k x = k r) f t = t" by (rule update_where_none)
    then show ?thesis using True by (simp add: update_where_Cons)
  next
    case False
    then have r: "r \<in> set t" using Cons.prems(2) by simp
    then have "k a \<noteq> k r" using Cons.prems(1) by (auto simp: image_iff)
    then show ?thesis using Cons r by (simp add: update_where_Cons)
  qed
qed simp

end
