(* ===== verification/Core_Base.thy ===== *)
theory Core_Base
  imports Safrod_Prelude
begin

text \<open>
  \<open>crates/safrod-core\<close>: the error type (\<open>error.rs\<close>), the interface of the enumerations that
  have a text form (the macro \<open>status_enum!\<close> of \<open>state.rs\<close>, \<open>Scope\<close>, \<open>Scenario\<close>,
  \<open>Currency\<close>, \<open>Network\<close>), the interface of a status machine, and the money types
  (\<open>money.rs\<close>).
\<close>

section \<open>error.rs\<close>

datatype core_error =
    InvalidAmount string
  | UnknownNetwork string
  | NetworkMismatch string string string
  | IllegalTransition string string
  | InvalidId
  | InvalidApiKey
  | UnknownScope string

section \<open>Enumerations with a text form\<close>

text \<open>
  What every user of such an enumeration relies on: the text of a value parses back to it.
  The strict ones accept nothing else; the currencies and networks also accept other
  capitalisations.
\<close>

locale text_enum =
  fixes as_str :: "'a \<Rightarrow> string" and from_str :: "string \<Rightarrow> 'e + 'a"
  assumes parse_as_str: "from_str (as_str x) = Inr x"
begin

lemma as_str_inj: "as_str x = as_str y \<longleftrightarrow> x = y"
  using parse_as_str by (metis sum.inject(2))

end

locale strict_text_enum = text_enum as_str from_str
  for as_str :: "'a \<Rightarrow> string" and from_str :: "string \<Rightarrow> 'e + 'a" +
  assumes parse_sound: "from_str s = Inr x \<Longrightarrow> as_str x = s"
begin

lemma parse_iff: "from_str s = Inr x \<longleftrightarrow> s = as_str x"
  using parse_as_str parse_sound by metis

lemma parse_rejects: "(\<exists>e. from_str s = Inl e) \<longleftrightarrow> s \<notin> range as_str"
proof (cases "from_str s")
  case (Inl e)
  then have "s \<notin> range as_str" using parse_as_str by auto
  with Inl show ?thesis by simp
next
  case (Inr x)
  then have "s = as_str x" using parse_sound by simp
  with Inr show ?thesis by simp
qed

end

section \<open>Status machines\<close>

text \<open>
  A status machine has a transition test, final statuses without successors, and a rank every
  transition raises, so that a history of accepted transitions never repeats a status.
\<close>

locale status_machine =
  fixes can :: "'s \<Rightarrow> 's \<Rightarrow> bool" and final :: "'s \<Rightarrow> bool" and rank :: "'s \<Rightarrow> nat"
  assumes final_stuck: "final s \<Longrightarrow> \<not> can s t"
    and rank_raises: "can s t \<Longrightarrow> rank s < rank t"
begin

lemma can_irrefl: "\<not> can s s"
  using rank_raises by blast

lemma final_absorbing: "can\<^sup>*\<^sup>* s t \<Longrightarrow> final s \<Longrightarrow> t = s"
  by (induction rule: rtranclp_induct) (auto simp: final_stuck)

lemma rank_mono: "can\<^sup>*\<^sup>* s t \<Longrightarrow> rank s \<le> rank t"
  by (induction rule: rtranclp_induct) (auto dest: rank_raises)

lemma no_return: "can\<^sup>*\<^sup>* s t \<Longrightarrow> can\<^sup>*\<^sup>* t s \<Longrightarrow> s = t"
proof (induction rule: rtranclp_induct)
  case base
  show ?case by simp
next
  case (step t u)
  then have "rank u \<le> rank s" "rank s \<le> rank t" "rank t < rank u"
    by (auto dest: rank_mono rank_raises)
  then show ?case by simp
qed

lemma history_bounded: "(can ^^ n) s t \<Longrightarrow> rank s + n \<le> rank t"
proof (induction n arbitrary: t)
  case 0
  then show ?case by simp
next
  case (Suc n)
  then obtain u where "(can ^^ n) s u" "can u t" by auto
  with Suc.IH [of u] rank_raises [of u t] show ?case by simp
qed

end

section \<open>money.rs\<close>

definition MSAT_PER_SAT :: u64 where
  "MSAT_PER_SAT = 1000"

definition MAX_SATS :: u64 where
  "MAX_SATS = 21000000 * 100000000"

datatype satoshis = Satoshis (sat: u64)

datatype millisatoshis = Millisatoshis (msat: u64)

definition sat_from_request :: "u64 \<Rightarrow> core_error + satoshis" where
  "sat_from_request sats =
     (if sats = 0 then Inl (InvalidAmount ''amount must be greater than zero'')
      else if sats > MAX_SATS then Inl (InvalidAmount ''amount exceeds the bitcoin supply'')
      else Inr (Satoshis sats))"

definition sat_checked_add :: "satoshis \<Rightarrow> satoshis \<Rightarrow> satoshis option" where
  "sat_checked_add a b = map_option Satoshis (checked_add (sat a) (sat b))"

definition sat_checked_sub :: "satoshis \<Rightarrow> satoshis \<Rightarrow> satoshis option" where
  "sat_checked_sub a b = map_option Satoshis (checked_sub (sat a) (sat b))"

definition to_msat :: "satoshis \<Rightarrow> millisatoshis option" where
  "to_msat a = map_option Millisatoshis (checked_mul (sat a) MSAT_PER_SAT)"

definition msat_checked_add :: "millisatoshis \<Rightarrow> millisatoshis \<Rightarrow> millisatoshis option" where
  "msat_checked_add a b = map_option Millisatoshis (checked_add (msat a) (msat b))"

definition msat_checked_sub :: "millisatoshis \<Rightarrow> millisatoshis \<Rightarrow> millisatoshis option" where
  "msat_checked_sub a b = map_option Millisatoshis (checked_sub (msat a) (msat b))"

definition to_sats_floor :: "millisatoshis \<Rightarrow> satoshis" where
  "to_sats_floor m = Satoshis (msat m div MSAT_PER_SAT)"

lemma unat_MAX_SATS [simp]: "unat MAX_SATS = 2100000000000000"
  by (simp add: MAX_SATS_def)

lemma unat_MSAT_PER_SAT [simp]: "unat MSAT_PER_SAT = 1000"
  by (simp add: MSAT_PER_SAT_def)

lemma sat_from_request_Inr:
  "sat_from_request s = Inr a \<longleftrightarrow> a = Satoshis s \<and> 0 < unat s \<and> unat s \<le> 2100000000000000"
  by (auto simp: sat_from_request_def word_le_nat_alt word_less_nat_alt unat_gt_0
      split: if_splits)

lemma unat_to_sats_floor: "unat (sat (to_sats_floor m)) = unat (msat m) div 1000"
  by (simp add: to_sats_floor_def unat_div)

text \<open>
  C22. Every amount a client may request converts to millisatoshis without overflow, the result is
  exactly a thousand times as large, it fits the signed 64-bit database column, and rounding it
  down gives the requested amount back.
\<close>

theorem accepted_amount_converts:
  assumes "sat_from_request s = Inr a"
  shows "\<exists>m. to_msat a = Some m \<and> unat (msat m) = 1000 * unat s
             \<and> unat (msat m) < 2 ^ 63 \<and> to_sats_floor m = a"
proof -
  have s: "a = Satoshis s" "unat s \<le> 2100000000000000"
    using assms by (simp_all add: sat_from_request_Inr)
  then obtain w where w: "checked_mul s MSAT_PER_SAT = Some w"
    by (cases "checked_mul s MSAT_PER_SAT") (auto simp: word_bounds)
  then have "unat w = 1000 * unat s" by (simp add: word_bounds)
  moreover from this have "to_sats_floor (Millisatoshis w) = Satoshis s"
    by (simp add: to_sats_floor_def word_unat_eq_iff unat_div)
  ultimately show ?thesis using s w by (simp add: to_msat_def)
qed

theorem accepted_amount_converts_witness:
  "\<exists>m. to_msat (Satoshis 2500) = Some m \<and> unat (msat m) = 1000 * unat (2500 :: u64)
       \<and> unat (msat m) < 2 ^ 63 \<and> to_sats_floor m = Satoshis 2500"
  by (rule accepted_amount_converts) (simp add: sat_from_request_def MAX_SATS_def)

end
