(* ===== verification/Core_State.thy ===== *)
theory Core_State
  imports Core_Base
begin

text \<open>
  \<open>crates/safrod-core/src/state.rs\<close>: the six status enumerations with their text forms, the
  transition tests of invoices, payments and payouts, and the status of an on-chain deposit.
  Each enumeration interprets \<open>strict_text_enum\<close> and each machine \<open>status_machine\<close>.
\<close>

section \<open>InvoiceStatus\<close>

datatype invoice_status = InvOpen | InvPaid | InvExpired

fun invoice_as_str :: "invoice_status \<Rightarrow> string" where
  "invoice_as_str InvOpen = ''open''"
| "invoice_as_str InvPaid = ''paid''"
| "invoice_as_str InvExpired = ''expired''"

definition invoice_from_str :: "string \<Rightarrow> core_error + invoice_status" where
  "invoice_from_str s =
     (if s = ''open'' then Inr InvOpen else if s = ''paid'' then Inr InvPaid
      else if s = ''expired'' then Inr InvExpired else Inl InvalidId)"

definition invoice_is_final :: "invoice_status \<Rightarrow> bool" where
  "invoice_is_final s \<longleftrightarrow> s \<noteq> InvOpen"

fun invoice_can_transition_to :: "invoice_status \<Rightarrow> invoice_status \<Rightarrow> bool" where
  "invoice_can_transition_to InvOpen InvPaid = True"
| "invoice_can_transition_to InvOpen InvExpired = True"
| "invoice_can_transition_to _ _ = False"

section \<open>PaymentStatus\<close>

datatype payment_status = PayCreated | PayPending | PaySucceeded | PayFailed | PayUnknown

fun payment_as_str :: "payment_status \<Rightarrow> string" where
  "payment_as_str PayCreated = ''created''"
| "payment_as_str PayPending = ''pending''"
| "payment_as_str PaySucceeded = ''succeeded''"
| "payment_as_str PayFailed = ''failed''"
| "payment_as_str PayUnknown = ''unknown''"

definition payment_from_str :: "string \<Rightarrow> core_error + payment_status" where
  "payment_from_str s =
     (if s = ''created'' then Inr PayCreated else if s = ''pending'' then Inr PayPending
      else if s = ''succeeded'' then Inr PaySucceeded else if s = ''failed'' then Inr PayFailed
      else if s = ''unknown'' then Inr PayUnknown else Inl InvalidId)"

definition payment_is_final :: "payment_status \<Rightarrow> bool" where
  "payment_is_final s \<longleftrightarrow> s = PaySucceeded \<or> s = PayFailed"

fun payment_can_transition_to :: "payment_status \<Rightarrow> payment_status \<Rightarrow> bool" where
  "payment_can_transition_to PayCreated PayPending = True"
| "payment_can_transition_to PayCreated PayFailed = True"
| "payment_can_transition_to PayPending PaySucceeded = True"
| "payment_can_transition_to PayPending PayFailed = True"
| "payment_can_transition_to PayPending PayUnknown = True"
| "payment_can_transition_to PayUnknown PaySucceeded = True"
| "payment_can_transition_to PayUnknown PayFailed = True"
| "payment_can_transition_to _ _ = False"

definition payment_transition :: "payment_status \<Rightarrow> payment_status \<Rightarrow> core_error + payment_status" where
  "payment_transition s next =
     (if payment_can_transition_to s next then Inr next
      else Inl (IllegalTransition (payment_as_str s) (payment_as_str next)))"

section \<open>OnchainStatus\<close>

datatype onchain_status = Awaiting | Unconfirmed | Confirming | Confirmed

fun onchain_as_str :: "onchain_status \<Rightarrow> string" where
  "onchain_as_str Awaiting = ''awaiting''"
| "onchain_as_str Unconfirmed = ''unconfirmed''"
| "onchain_as_str Confirming = ''confirming''"
| "onchain_as_str Confirmed = ''confirmed''"

definition onchain_from_str :: "string \<Rightarrow> core_error + onchain_status" where
  "onchain_from_str s =
     (if s = ''awaiting'' then Inr Awaiting else if s = ''unconfirmed'' then Inr Unconfirmed
      else if s = ''confirming'' then Inr Confirming else if s = ''confirmed'' then Inr Confirmed
      else Inl InvalidId)"

definition from_confirmations :: "u32 \<Rightarrow> u32 \<Rightarrow> onchain_status" where
  "from_confirmations confirmations required =
     (if confirmations = 0 then Unconfirmed
      else if confirmations < required then Confirming else Confirmed)"

section \<open>DeliveryStatus, QuoteStatus, PayoutStatus\<close>

datatype delivery_status = DlvPending | DlvDelivered | DlvFailed

fun delivery_as_str :: "delivery_status \<Rightarrow> string" where
  "delivery_as_str DlvPending = ''pending''"
| "delivery_as_str DlvDelivered = ''delivered''"
| "delivery_as_str DlvFailed = ''failed''"

definition delivery_from_str :: "string \<Rightarrow> core_error + delivery_status" where
  "delivery_from_str s =
     (if s = ''pending'' then Inr DlvPending else if s = ''delivered'' then Inr DlvDelivered
      else if s = ''failed'' then Inr DlvFailed else Inl InvalidId)"

datatype quote_status = QteOpen | QteUsed | QteExpired

fun quote_as_str :: "quote_status \<Rightarrow> string" where
  "quote_as_str QteOpen = ''open''"
| "quote_as_str QteUsed = ''used''"
| "quote_as_str QteExpired = ''expired''"

definition quote_from_str :: "string \<Rightarrow> core_error + quote_status" where
  "quote_from_str s =
     (if s = ''open'' then Inr QteOpen else if s = ''used'' then Inr QteUsed
      else if s = ''expired'' then Inr QteExpired else Inl InvalidId)"

datatype payout_status = PotReserved | PotPending | PotSucceeded | PotFailed | PotUnknown

fun payout_as_str :: "payout_status \<Rightarrow> string" where
  "payout_as_str PotReserved = ''reserved''"
| "payout_as_str PotPending = ''pending''"
| "payout_as_str PotSucceeded = ''succeeded''"
| "payout_as_str PotFailed = ''failed''"
| "payout_as_str PotUnknown = ''unknown''"

definition payout_from_str :: "string \<Rightarrow> core_error + payout_status" where
  "payout_from_str s =
     (if s = ''reserved'' then Inr PotReserved else if s = ''pending'' then Inr PotPending
      else if s = ''succeeded'' then Inr PotSucceeded else if s = ''failed'' then Inr PotFailed
      else if s = ''unknown'' then Inr PotUnknown else Inl InvalidId)"

fun payout_can_transition_to :: "payout_status \<Rightarrow> payout_status \<Rightarrow> bool" where
  "payout_can_transition_to PotReserved PotPending = True"
| "payout_can_transition_to PotPending PotSucceeded = True"
| "payout_can_transition_to PotPending PotFailed = True"
| "payout_can_transition_to PotPending PotUnknown = True"
| "payout_can_transition_to PotUnknown PotSucceeded = True"
| "payout_can_transition_to PotUnknown PotFailed = True"
| "payout_can_transition_to _ _ = False"

section \<open>Interpretations\<close>

interpretation inv_text: strict_text_enum invoice_as_str invoice_from_str
proof
  show "invoice_from_str (invoice_as_str x) = Inr x" for x
    by (cases x) (simp_all add: invoice_from_str_def)
  show "invoice_from_str s = Inr x \<Longrightarrow> invoice_as_str x = s" for s x
    by (auto simp: invoice_from_str_def split: if_splits)
qed

interpretation pay_text: strict_text_enum payment_as_str payment_from_str
proof
  show "payment_from_str (payment_as_str x) = Inr x" for x
    by (cases x) (simp_all add: payment_from_str_def)
  show "payment_from_str s = Inr x \<Longrightarrow> payment_as_str x = s" for s x
    by (auto simp: payment_from_str_def split: if_splits)
qed

interpretation chain_text: strict_text_enum onchain_as_str onchain_from_str
proof
  show "onchain_from_str (onchain_as_str x) = Inr x" for x
    by (cases x) (simp_all add: onchain_from_str_def)
  show "onchain_from_str s = Inr x \<Longrightarrow> onchain_as_str x = s" for s x
    by (auto simp: onchain_from_str_def split: if_splits)
qed

interpretation dlv_text: strict_text_enum delivery_as_str delivery_from_str
proof
  show "delivery_from_str (delivery_as_str x) = Inr x" for x
    by (cases x) (simp_all add: delivery_from_str_def)
  show "delivery_from_str s = Inr x \<Longrightarrow> delivery_as_str x = s" for s x
    by (auto simp: delivery_from_str_def split: if_splits)
qed

interpretation qte_text: strict_text_enum quote_as_str quote_from_str
proof
  show "quote_from_str (quote_as_str x) = Inr x" for x
    by (cases x) (simp_all add: quote_from_str_def)
  show "quote_from_str s = Inr x \<Longrightarrow> quote_as_str x = s" for s x
    by (auto simp: quote_from_str_def split: if_splits)
qed

interpretation pot_text: strict_text_enum payout_as_str payout_from_str
proof
  show "payout_from_str (payout_as_str x) = Inr x" for x
    by (cases x) (simp_all add: payout_from_str_def)
  show "payout_from_str s = Inr x \<Longrightarrow> payout_as_str x = s" for s x
    by (auto simp: payout_from_str_def split: if_splits)
qed

lemmas status_text [simp] =
  inv_text.parse_as_str pay_text.parse_as_str chain_text.parse_as_str
  dlv_text.parse_as_str qte_text.parse_as_str pot_text.parse_as_str

text \<open>Ranks that every transition raises.\<close>

fun payment_rank :: "payment_status \<Rightarrow> nat" where
  "payment_rank PayCreated = 0"
| "payment_rank PayPending = 1"
| "payment_rank PayUnknown = 2"
| "payment_rank PaySucceeded = 3"
| "payment_rank PayFailed = 3"

fun payout_rank :: "payout_status \<Rightarrow> nat" where
  "payout_rank PotReserved = 0"
| "payout_rank PotPending = 1"
| "payout_rank PotUnknown = 2"
| "payout_rank PotSucceeded = 3"
| "payout_rank PotFailed = 3"

definition payout_is_final :: "payout_status \<Rightarrow> bool" where
  "payout_is_final s \<longleftrightarrow> s = PotSucceeded \<or> s = PotFailed"

interpretation pay_machine: status_machine payment_can_transition_to payment_is_final payment_rank
proof
  show "payment_is_final s \<Longrightarrow> \<not> payment_can_transition_to s t" for s t
    by (auto simp: payment_is_final_def)
  show "payment_can_transition_to s t \<Longrightarrow> payment_rank s < payment_rank t" for s t
    by (cases "(s, t)" rule: payment_can_transition_to.cases) auto
qed

interpretation inv_machine: status_machine invoice_can_transition_to invoice_is_final
  "\<lambda>s. if invoice_is_final s then 1 else 0"
proof
  show "invoice_is_final s \<Longrightarrow> \<not> invoice_can_transition_to s t" for s t
    by (cases s) (auto simp: invoice_is_final_def)
  show "invoice_can_transition_to s t \<Longrightarrow>
      (if invoice_is_final s then 1 else 0) < (if invoice_is_final t then 1 else 0 :: nat)" for s t
    by (cases "(s, t)" rule: invoice_can_transition_to.cases) (auto simp: invoice_is_final_def)
qed

interpretation pot_machine: status_machine payout_can_transition_to payout_is_final payout_rank
proof
  show "payout_is_final s \<Longrightarrow> \<not> payout_can_transition_to s t" for s t
    by (auto simp: payout_is_final_def)
  show "payout_can_transition_to s t \<Longrightarrow> payout_rank s < payout_rank t" for s t
    by (cases "(s, t)" rule: payout_can_transition_to.cases) auto
qed

section \<open>Properties\<close>

text \<open>
  Any number of accepted transitions of a payment is at most three, never leaves
  \<open>succeeded\<close> or \<open>failed\<close>, and from \<open>unknown\<close> reaches only \<open>unknown\<close> itself, \<open>succeeded\<close> or
  \<open>failed\<close>.
\<close>

theorem payment_history:
  assumes "(payment_can_transition_to ^^ n) s t"
  shows "n \<le> 3 \<and> (payment_is_final s \<longrightarrow> n = 0 \<and> t = s)
         \<and> (s = PayUnknown \<longrightarrow> t \<in> {PayUnknown, PaySucceeded, PayFailed})"
proof (intro conjI impI)
  have r: "payment_rank t \<le> 3" by (cases t) simp_all
  have h: "payment_rank s + n \<le> payment_rank t" by (rule pay_machine.history_bounded [OF assms])
  show "n \<le> 3" using h r by simp
  show "n = 0" if "payment_is_final s" using that h r by (auto simp: payment_is_final_def)
  have "payment_can_transition_to\<^sup>*\<^sup>* s t" using assms by (rule relpowp_imp_rtranclp)
  then show "t = s" if "payment_is_final s" using that by (rule pay_machine.final_absorbing)
  show "t \<in> {PayUnknown, PaySucceeded, PayFailed}" if "s = PayUnknown"
    using h that by (cases t) auto
qed

theorem payment_history_witness:
  "(payment_can_transition_to ^^ 1) PayUnknown PayFailed
   \<and> PayFailed \<in> {PayUnknown, PaySucceeded, PayFailed}"
proof -
  have a: "(payment_can_transition_to ^^ 1) PayUnknown PayFailed" by (simp only: relpowp_1) simp
  with payment_history [OF a] show ?thesis by blast
qed

end
