(* ===== verification/Core_Ids.thy ===== *)
theory Core_Ids
  imports Core_Base
begin

text \<open>
  \<open>crates/safrod-core/src/ids.rs\<close> (the macro \<open>prefixed_id!\<close> and its eleven instances) and
  \<open>network.rs\<close> (the Bitcoin networks and the BOLT11 prefix check). The text of a fresh UUID is
  an argument of \<open>id_new\<close>: it comes from the \<open>uuid\<close> crate, whose \<open>simple()\<close> form is 32 lower-case
  hexadecimal digits (\<open>simple_uuid\<close>).
\<close>

section \<open>ids.rs\<close>

datatype id_kind =
    ProjectId | ApiKeyId | InvoiceId | PaymentId | AddressId | TransactionId | EventId
  | WebhookEndpointId | DeliveryId | QuoteId | PayoutId

fun id_prefix :: "id_kind \<Rightarrow> string" where
  "id_prefix ProjectId = ''prj''"
| "id_prefix ApiKeyId = ''key''"
| "id_prefix InvoiceId = ''inv''"
| "id_prefix PaymentId = ''pay''"
| "id_prefix AddressId = ''adr''"
| "id_prefix TransactionId = ''txn''"
| "id_prefix EventId = ''evt''"
| "id_prefix WebhookEndpointId = ''whe''"
| "id_prefix DeliveryId = ''dlv''"
| "id_prefix QuoteId = ''qte''"
| "id_prefix PayoutId = ''pot''"

definition id_new :: "id_kind \<Rightarrow> string \<Rightarrow> string" where
  "id_new k uuid = id_prefix k @ ''_'' @ uuid"

definition id_from_str :: "id_kind \<Rightarrow> string \<Rightarrow> core_error + string" where
  "id_from_str k s =
     (case strip_prefix (id_prefix k @ ''_'') s of
        None \<Rightarrow> Inl InvalidId
      | Some rest \<Rightarrow>
          if length rest = 32 \<and> list_all is_ascii_hexdigit rest
          then Inr (to_ascii_lowercase s) else Inl InvalidId)"

section \<open>network.rs\<close>

datatype network = Regtest | Signet | Testnet | Bitcoin

fun network_as_str :: "network \<Rightarrow> string" where
  "network_as_str Regtest = ''regtest''"
| "network_as_str Signet = ''signet''"
| "network_as_str Testnet = ''testnet''"
| "network_as_str Bitcoin = ''bitcoin''"

definition is_supported :: "network \<Rightarrow> bool" where
  "is_supported n \<longleftrightarrow> n \<noteq> Bitcoin"

fun bolt11_prefix :: "network \<Rightarrow> string" where
  "bolt11_prefix Regtest = ''lnbcrt''"
| "bolt11_prefix Signet = ''lntbs''"
| "bolt11_prefix Testnet = ''lntb''"
| "bolt11_prefix Bitcoin = ''lnbc''"

text \<open>The closure given to \<open>find\<close>: the prefix, then a digit or the separator \<open>1\<close>.\<close>

definition invoice_for :: "string \<Rightarrow> network \<Rightarrow> bool" where
  "invoice_for lower n \<longleftrightarrow>
     starts_with lower (bolt11_prefix n) \<and>
     (case drop (length (bolt11_prefix n)) lower of
        [] \<Rightarrow> False
      | c # _ \<Rightarrow> is_ascii_digit c \<or> c = CHR ''1'')"

definition check_invoice_prefix :: "network \<Rightarrow> string \<Rightarrow> core_error + unit" where
  "check_invoice_prefix self invoice =
     (let lower = to_ascii_lowercase (trim invoice)
      in case find (invoice_for lower) [Regtest, Signet, Testnet, Bitcoin] of
           Some n \<Rightarrow>
             if n = self then Inr ()
             else Inl (NetworkMismatch ''invoice'' (network_as_str self) (network_as_str n))
         | None \<Rightarrow> Inl (NetworkMismatch ''invoice'' (network_as_str self) ''unknown''))"

definition network_from_str :: "string \<Rightarrow> core_error + network" where
  "network_from_str s =
     (let l = to_ascii_lowercase s in
      if l = ''regtest'' then Inr Regtest
      else if l = ''signet'' then Inr Signet
      else if l = ''testnet'' then Inr Testnet
      else if l = ''bitcoin'' \<or> l = ''mainnet'' then Inr Bitcoin
      else Inl (UnknownNetwork l))"

interpretation net_text: text_enum network_as_str network_from_str
proof
  show "network_from_str (network_as_str x) = Inr x" for x
    by (cases x) (simp_all add: network_from_str_def to_ascii_lowercase_def to_lower_def code_def)
qed

section \<open>Lemmas\<close>

lemma length_id_prefix [simp]: "length (id_prefix k) = 3"
  by (cases k) simp_all

lemma id_prefix_inj: "id_prefix k = id_prefix k' \<longleftrightarrow> k = k'"
  by (cases k; cases k') simp_all

lemma lower_id_prefix [simp]: "to_ascii_lowercase (id_prefix k) = id_prefix k"
  by (cases k) (simp_all add: to_ascii_lowercase_def to_lower_def code_def)

lemma hexdigit_to_lower: "is_ascii_hexdigit c \<Longrightarrow> is_ascii_hexdigit (to_lower c)"
  by (auto simp: to_lower_def is_ascii_hexdigit_def is_ascii_digit_def)

lemma lower_underscore [simp]: "to_ascii_lowercase (CHR ''_'' # s) = CHR ''_'' # to_ascii_lowercase s"
  by (simp add: to_ascii_lowercase_def to_lower_def code_def)

lemma id_from_str_Inr:
  "id_from_str k s = Inr i \<longleftrightarrow>
     (\<exists>r. s = id_prefix k @ ''_'' @ r \<and> length r = 32 \<and> list_all is_ascii_hexdigit r
          \<and> i = id_prefix k @ ''_'' @ to_ascii_lowercase r)"
  by (auto simp: id_from_str_def strip_prefix_Some strip_prefix_None
      split: option.splits if_splits)

lemma id_from_str_other:
  assumes "id_from_str k s = Inr i" and "id_from_str k' s = Inr i'"
  shows "k = k'"
proof -
  obtain r r' where "id_prefix k @ ''_'' @ r = id_prefix k' @ ''_'' @ r'"
    using assms by (auto simp: id_from_str_Inr)
  then have "id_prefix k = id_prefix k'" by (metis append_eq_append_conv length_id_prefix)
  then show ?thesis by (simp add: id_prefix_inj)
qed

lemma invoice_for_unique: "invoice_for l m \<Longrightarrow> invoice_for l n \<Longrightarrow> m = n"
  by (cases m; cases n)
    (auto simp: invoice_for_def starts_with_prefix is_ascii_digit_def code_def split: list.splits)

lemma find_invoice_for:
  "find (invoice_for l) [Regtest, Signet, Testnet, Bitcoin] = Some n \<longleftrightarrow> invoice_for l n"
  by (cases n) (auto dest: invoice_for_unique)

text \<open>The documented form of \<open>Uuid::simple()\<close>: no hyphens, lower case.\<close>

definition simple_uuid :: "string \<Rightarrow> bool" where
  "simple_uuid u \<longleftrightarrow> length u = 32 \<and> list_all is_ascii_hexdigit u \<and> to_ascii_lowercase u = u"

lemma lower_idem [simp]: "to_ascii_lowercase (to_ascii_lowercase s) = to_ascii_lowercase s"
  by (simp add: to_ascii_lowercase_def to_lower_def code_def)

lemma lower_hexdigits:
  "list_all is_ascii_hexdigit r \<Longrightarrow> list_all is_ascii_hexdigit (to_ascii_lowercase r)"
  by (auto simp: list_all_iff to_ascii_lowercase_def hexdigit_to_lower)

text \<open>The forms that \<open>new\<close> makes are the forms that parsing gives.\<close>

lemma id_from_str_forms: "(\<exists>s. id_from_str k s = Inr i) \<longleftrightarrow> (\<exists>u. simple_uuid u \<and> i = id_new k u)"
proof
  assume "\<exists>s. id_from_str k s = Inr i"
  then obtain r where "length r = 32" "list_all is_ascii_hexdigit r" "i = id_new k (to_ascii_lowercase r)"
    by (auto simp: id_from_str_Inr id_new_def)
  then show "\<exists>u. simple_uuid u \<and> i = id_new k u"
    by (intro exI [of _ "to_ascii_lowercase r"]) (simp add: simple_uuid_def lower_hexdigits)
next
  assume "\<exists>u. simple_uuid u \<and> i = id_new k u"
  then show "\<exists>s. id_from_str k s = Inr i"
    by (auto simp: id_from_str_Inr id_new_def simple_uuid_def)
qed

lemma id_new_parses: "simple_uuid u \<Longrightarrow> id_from_str k (id_new k u) = Inr (id_new k u)"
  by (auto simp: id_from_str_Inr id_new_def simple_uuid_def)

lemma id_new_other:
  assumes "simple_uuid u" and "k' \<noteq> k"
  shows "id_from_str k' (id_new k u) = Inl InvalidId"
proof (cases "id_from_str k' (id_new k u)")
  case (Inl e)
  then show ?thesis by (auto simp: id_from_str_def split: option.splits if_splits)
next
  case (Inr j)
  then show ?thesis using id_from_str_other [OF Inr id_new_parses [OF assms(1)]] assms(2) by simp
qed

section \<open>Properties\<close>

text \<open>
  C21. Generated identifiers and parsed identifiers are the same texts. Given that the \<open>uuid\<close> crate
  prints a UUID as 32 lower-case hexadecimal digits, what \<open>new\<close> makes parses to itself, has 36
  characters, belongs to no other kind and shows which UUID was drawn; and what \<open>from_str\<close> gives for
  an accepted text is the text in lower case and is the identifier \<open>new\<close> makes of some such UUID, so
  parsing it again changes nothing.
\<close>

theorem id_parse_canonical:
  assumes "simple_uuid u" and "id_from_str k s = Inr i"
  shows "id_from_str k (id_new k u) = Inr (id_new k u) \<and> length (id_new k u) = 36
    \<and> (\<forall>k'. k' \<noteq> k \<longrightarrow> id_from_str k' (id_new k u) = Inl InvalidId)
    \<and> (\<forall>k' u'. id_new k' u' = id_new k u \<longrightarrow> k' = k \<and> u' = u)
    \<and> i = to_ascii_lowercase s \<and> id_from_str k i = Inr i \<and> (\<exists>u'. simple_uuid u' \<and> i = id_new k u')"
proof -
  obtain u' where u': "simple_uuid u'" "i = id_new k u'" using assms(2) id_from_str_forms by blast
  have "k' = k \<and> v = u" if "id_new k' v = id_new k u" for k' v
  proof -
    have "id_prefix k' = id_prefix k" using that by (simp add: id_new_def)
    then show ?thesis using that by (simp add: id_new_def id_prefix_inj)
  qed
  moreover have "to_ascii_lowercase s = id_new k u'"
    using assms(2) u'(2) by (auto simp: id_from_str_def split: option.splits if_splits)
  moreover have "length (id_new k u) = 36" using assms(1) by (simp add: id_new_def simple_uuid_def)
  ultimately show ?thesis using u' by (auto simp: id_new_parses [OF assms(1)] id_new_parses [OF u'(1)] id_new_other [OF assms(1)])
qed

text \<open>A payment identifier, given back in capitals.\<close>

lemma lower_A: "to_lower (CHR ''A'') = CHR ''a''"
  by code_simp

lemma lower_As: "to_ascii_lowercase (replicate n (CHR ''A'')) = replicate n (CHR ''a'')"
  by (simp add: to_ascii_lowercase_def lower_A)

lemma id_sample: "simple_uuid (replicate 32 (CHR ''a''))"
  "id_from_str PaymentId (''pay_'' @ replicate 32 (CHR ''A'')) = Inr (id_new PaymentId (replicate 32 (CHR ''a'')))"
proof -
  show "simple_uuid (replicate 32 (CHR ''a''))"
    using lower_idem [of "replicate 32 (CHR ''A'')"]
    by (simp add: simple_uuid_def lower_As list_all_iff is_ascii_hexdigit_def is_ascii_digit_def code_def)
  have "list_all is_ascii_hexdigit (replicate 32 (CHR ''A''))"
    by (simp add: list_all_iff is_ascii_hexdigit_def is_ascii_digit_def code_def)
  then show "id_from_str PaymentId (''pay_'' @ replicate 32 (CHR ''A'')) = Inr (id_new PaymentId (replicate 32 (CHR ''a'')))"
    unfolding id_from_str_Inr
    by (intro exI [of _ "replicate 32 (CHR ''A'')"]) (simp add: id_new_def lower_As)
qed

theorem id_parse_canonical_witness:
  "id_from_str PaymentId (id_new PaymentId (replicate 32 (CHR ''a'')))
     = Inr (id_new PaymentId (replicate 32 (CHR ''a'')))
   \<and> id_from_str InvoiceId (id_new PaymentId (replicate 32 (CHR ''a''))) = Inl InvalidId"
proof -
  note c = id_parse_canonical [OF id_sample]
  then have "id_from_str InvoiceId (id_new PaymentId (replicate 32 (CHR ''a''))) = Inl InvalidId" by blast
  with c show ?thesis by blast
qed

text \<open>
  The invoice check accepts exactly the invoices whose trimmed, lower-cased text starts with the
  network's own prefix followed by a digit; the order in which the overlapping prefixes are tried
  does not matter, and an invoice accepted on one network is refused on every other, which is
  reported with both names.
\<close>

theorem invoice_prefix_exact:
  "(check_invoice_prefix n s = Inr () \<longleftrightarrow> invoice_for (to_ascii_lowercase (trim s)) n)
   \<and> (check_invoice_prefix n s = Inr () \<longrightarrow> (\<forall>m. m \<noteq> n \<longrightarrow> check_invoice_prefix m s
        = Inl (NetworkMismatch ''invoice'' (network_as_str m) (network_as_str n))))"
proof -
  let ?l = "to_ascii_lowercase (trim s)"
  show ?thesis
  proof (cases "find (invoice_for ?l) [Regtest, Signet, Testnet, Bitcoin]")
    case None
    then have "\<not> invoice_for ?l n" using find_invoice_for [of ?l n] by simp
    then show ?thesis using None by (simp add: check_invoice_prefix_def Let_def)
  next
    case (Some m)
    then have m: "invoice_for ?l m" using find_invoice_for by blast
    then have "invoice_for ?l n \<longleftrightarrow> m = n" using invoice_for_unique by blast
    then show ?thesis using Some by (auto simp: check_invoice_prefix_def Let_def)
  qed
qed

theorem invoice_prefix_exact_witness:
  "check_invoice_prefix Regtest ''lnbcrt1u1pabc'' = Inr ()
   \<and> check_invoice_prefix Bitcoin ''lnbcrt1u1pabc''
     = Inl (NetworkMismatch ''invoice'' ''bitcoin'' ''regtest'')"
proof -
  have t: "trim ''lnbcrt1u1pabc'' = ''lnbcrt1u1pabc''"
    by (rule trim_graphic) (simp add: graphic_def code_def)
  have "invoice_for (to_ascii_lowercase (trim ''lnbcrt1u1pabc'')) Regtest"
    by (simp add: t invoice_for_def starts_with_def is_ascii_digit_def code_def
        to_ascii_lowercase_def to_lower_def)
  with invoice_prefix_exact [of Regtest "''lnbcrt1u1pabc''"] show ?thesis by auto
qed

end
