(* ===== verification/Storage_Db.thy ===== *)
theory Storage_Db
  imports Core_State Core_Ids
begin

text \<open>
  \<open>crates/safrod-storage\<close>: the database. Each table of \<open>migrations/0001_initial.sql\<close> is the list of
  its rows in insertion order (the row types of \<open>models.rs\<close>, with the columns the records leave
  out); \<open>db\<close> is all tables with the event sequence and the supply of UUIDs.

  A repository method is a function from the database to \<open>storage_error + result \<times> db\<close>. It models
  one transaction: \<open>Inl\<close> is a rollback, after which the caller still has the database it had, and a
  method that returns without committing gives the database back unchanged. Transactions are atomic
  (the code locks the rows it reads with \<open>for update\<close>). Statements that violate a constraint fail as
  in \<open>error.rs\<close>: a unique violation is \<open>Conflict\<close>, any other is \<open>Database\<close>. Loss of the connection is
  not modelled. \<open>now()\<close> and the random UUIDs are the environment \<open>env\<close>.

  This theory also holds \<open>events.rs\<close>: the transactional outbox \<open>emit\<close> and the de-duplication of node
  events.
\<close>

section \<open>error.rs, lib.rs\<close>

datatype storage_error =
    SNotFound
  | SConflict
  | SIdempotencyMismatch
  | SIllegalTransition string string
  | SInsufficientBalance
  | SAmountOutOfRange
  | SDatabase string

definition to_i64 :: "u64 \<Rightarrow> storage_error + int" where
  "to_i64 v = (if unat v < 2 ^ 63 then Inr (int (unat v)) else Inl SAmountOutOfRange)"

section \<open>models.rs and the schema\<close>

text \<open>
  \<open>serde_json::Value\<close>. \<open>JTime\<close> is a timestamp, which \<open>chrono\<close> writes as a string in RFC 3339
  form.
\<close>

datatype json =
    JNull
  | JBool bool
  | JInt int
  | JStr string
  | JTime instant
  | JArr "json list"
  | JObj "(string \<times> json) list"

definition jopt :: "('a \<Rightarrow> json) \<Rightarrow> 'a option \<Rightarrow> json" where
  "jopt f x = (case x of None \<Rightarrow> JNull | Some v \<Rightarrow> f v)"

record project_row =
  prj_id :: string
  prj_name :: string
  prj_network :: string
  prj_created_at :: instant

record api_key_row =
  key_id :: string
  key_project_id :: string
  key_label :: string
  key_prefix :: string
  key_hash :: "u8 list"
  key_scopes :: "string list"
  key_revoked_at :: "instant option"
  key_created_at :: instant

record invoice_row =
  inv_id :: string
  inv_project_id :: string
  inv_idempotency_key :: "string option"
  inv_amount_msat :: int
  inv_description :: string
  inv_bolt11 :: string
  inv_payment_hash :: string
  inv_status :: string
  inv_expires_at :: instant
  inv_paid_at :: "instant option"
  inv_amount_received_msat :: "int option"
  inv_metadata :: json
  inv_created_at :: instant
  inv_updated_at :: instant

record payment_row =
  pay_id :: string
  pay_project_id :: string
  pay_idempotency_key :: string
  pay_request_hash :: "u8 list"
  pay_bolt11 :: string
  pay_payment_hash :: string
  pay_amount_msat :: int
  pay_fee_msat :: "int option"
  pay_status :: string
  pay_failure_reason :: "string option"
  pay_preimage :: "string option"
  pay_metadata :: json
  pay_created_at :: instant
  pay_updated_at :: instant

record address_row =
  adr_id :: string
  adr_project_id :: string
  adr_address :: string
  adr_label :: string
  adr_required_confirmations :: int
  adr_created_at :: instant

record transaction_row =
  txn_id :: string
  txn_project_id :: string
  txn_address_id :: string
  txn_txid :: string
  txn_vout :: int
  txn_amount_sat :: int
  txn_block_height :: "int option"
  txn_confirmations :: int
  txn_status :: string
  txn_first_seen_at :: instant
  txn_updated_at :: instant

record event_row =
  ev_seq :: int
  ev_id :: string
  ev_project_id :: string
  ev_kind :: string
  ev_resource_id :: string
  ev_data :: json
  ev_simulated :: bool
  ev_created_at :: instant

record endpoint_row =
  whe_id :: string
  whe_project_id :: string
  whe_url :: string
  whe_secret :: string
  whe_enabled :: bool
  whe_created_at :: instant

record delivery_row =
  dlv_id :: string
  dlv_event_seq :: int
  dlv_endpoint_id :: string
  dlv_status :: string
  dlv_attempts :: int
  dlv_next_attempt_at :: instant
  dlv_last_status :: "int option"
  dlv_last_error :: "string option"
  dlv_delivered_at :: "instant option"
  dlv_created_at :: instant

record node_event_row =
  nev_dedupe_key :: string
  nev_kind :: string
  nev_payload :: json

record quote_row =
  qte_id :: string
  qte_project_id :: string
  qte_source_currency :: string
  qte_target_currency :: string
  qte_source_minor :: int
  qte_target_minor :: int
  qte_rate_ppm :: int
  qte_btc_amount_msat :: int
  qte_status :: string
  qte_expires_at :: instant
  qte_created_at :: instant

record payout_row =
  pot_id :: string
  pot_project_id :: string
  pot_quote_id :: string
  pot_idempotency_key :: string
  pot_scenario :: string
  pot_settlement_bolt11 :: "string option"
  pot_status :: string
  pot_payment_id :: "string option"
  pot_created_at :: instant
  pot_updated_at :: instant

record balance_row =
  bal_project_id :: string
  bal_currency :: string
  bal_minor :: int

record db =
  t_projects :: "project_row list"
  t_api_keys :: "api_key_row list"
  t_invoices :: "invoice_row list"
  t_payments :: "payment_row list"
  t_addresses :: "address_row list"
  t_transactions :: "transaction_row list"
  t_events :: "event_row list"
  t_endpoints :: "endpoint_row list"
  t_deliveries :: "delivery_row list"
  t_node_events :: "node_event_row list"
  t_quotes :: "quote_row list"
  t_payouts :: "payout_row list"
  t_balances :: "balance_row list"
  next_seq :: int
  next_uuid :: nat

text \<open>The clock of the transaction and the stream of random UUIDs.\<close>

record env =
  env_now :: instant
  env_uuid :: "nat \<Rightarrow> string"

definition fresh_id :: "env \<Rightarrow> id_kind \<Rightarrow> db \<Rightarrow> string \<times> db" where
  "fresh_id e k d = (id_new k (env_uuid e (next_uuid d)), d\<lparr>next_uuid := next_uuid d + 1\<rparr>)"

definition empty_db :: db where
  "empty_db = \<lparr>t_projects = [], t_api_keys = [], t_invoices = [], t_payments = [], t_addresses = [],
     t_transactions = [], t_events = [], t_endpoints = [], t_deliveries = [], t_node_events = [],
     t_quotes = [], t_payouts = [], t_balances = [], next_seq = 1, next_uuid = 0\<rparr>"

section \<open>events.rs\<close>

text \<open>The rows the second statement of \<open>emit\<close> inserts: one per enabled endpoint of the project.\<close>

definition outbox_rows :: "env \<Rightarrow> string \<Rightarrow> int \<Rightarrow> db \<Rightarrow> delivery_row list" where
  "outbox_rows e project_id seq d =
     map (\<lambda>(n, w). \<lparr>dlv_id = id_new DeliveryId (env_uuid e n), dlv_event_seq = seq,
            dlv_endpoint_id = whe_id w, dlv_status = ''pending'', dlv_attempts = 0,
            dlv_next_attempt_at = env_now e, dlv_last_status = None, dlv_last_error = None,
            dlv_delivered_at = None, dlv_created_at = env_now e\<rparr>)
       (enumerate (next_uuid d)
         (filter (\<lambda>w. whe_project_id w = project_id \<and> whe_enabled w) (t_endpoints d)))"

definition new_event :: "env \<Rightarrow> string \<Rightarrow> string \<Rightarrow> string \<Rightarrow> json \<Rightarrow> bool \<Rightarrow> db \<Rightarrow> event_row" where
  "new_event e project_id kind resource_id data simulated d =
     \<lparr>ev_seq = next_seq d, ev_id = fst (fresh_id e EventId d), ev_project_id = project_id,
      ev_kind = kind, ev_resource_id = resource_id, ev_data = data, ev_simulated = simulated,
      ev_created_at = env_now e\<rparr>"

definition emit ::
  "env \<Rightarrow> string \<Rightarrow> string \<Rightarrow> string \<Rightarrow> json \<Rightarrow> bool \<Rightarrow> db \<Rightarrow> storage_error + event_row \<times> db" where
  "emit e project_id kind resource_id data simulated d =
     (let ev = new_event e project_id kind resource_id data simulated d;
          d1 = snd (fresh_id e EventId d);
          rows = outbox_rows e project_id (ev_seq ev) d1
      in if ev_id ev \<in> set (map ev_id (t_events d)) then Inl SConflict
         else if project_id \<notin> set (map prj_id (t_projects d)) then Inl (SDatabase ''foreign key'')
         else if \<not> distinct (map dlv_id (t_deliveries d @ rows)) then Inl SConflict
         else Inr (ev, d1\<lparr>t_events := insert_row ev (t_events d), next_seq := next_seq d + 1,
                t_deliveries := t_deliveries d @ rows,
                next_uuid := next_uuid d1 + length rows\<rparr>))"

definition claim_node_event :: "string \<Rightarrow> string \<Rightarrow> json \<Rightarrow> db \<Rightarrow> bool \<times> db" where
  "claim_node_event dedupe_key kind payload d =
     (if dedupe_key \<in> set (map nev_dedupe_key (t_node_events d)) then (False, d)
      else (True, d\<lparr>t_node_events := insert_row
              \<lparr>nev_dedupe_key = dedupe_key, nev_kind = kind, nev_payload = payload\<rparr>
              (t_node_events d)\<rparr>))"

definition list_events ::
  "string \<Rightarrow> int option \<Rightarrow> string option \<Rightarrow> int \<Rightarrow> db \<Rightarrow> storage_error + event_row list" where
  "list_events project_id after_seq kind limit d =
     (if limit < 0 then Inl (SDatabase ''limit must not be negative'')
      else Inr (top_by ev_seq (nat limit)
        (filter (\<lambda>r. ev_project_id r = project_id
                     \<and> ev_seq r > (case after_seq of Some s \<Rightarrow> s | None \<Rightarrow> 0)
                     \<and> (case kind of None \<Rightarrow> True | Some k \<Rightarrow> ev_kind r = k))
           (t_events d))))"

definition get_event :: "string \<Rightarrow> string \<Rightarrow> db \<Rightarrow> storage_error + event_row" where
  "get_event project_id i d =
     (case select_one (\<lambda>r. ev_project_id r = project_id \<and> ev_id r = i) (t_events d) of
        None \<Rightarrow> Inl SNotFound
      | Some r \<Rightarrow> Inr r)"

definition emit_standalone ::
  "env \<Rightarrow> string \<Rightarrow> string \<Rightarrow> string \<Rightarrow> json \<Rightarrow> bool \<Rightarrow> db \<Rightarrow> storage_error + event_row \<times> db" where
  "emit_standalone e project_id kind resource_id data simulated d =
     emit e project_id kind resource_id data simulated d"

definition node_event_count :: "db \<Rightarrow> int" where
  "node_event_count d = int (length (t_node_events d))"

definition event_envelope :: "string \<Rightarrow> string \<Rightarrow> instant \<Rightarrow> bool \<Rightarrow> json \<Rightarrow> json" where
  "event_envelope i kind created_at simulated data =
     JObj [(''id'', JStr i), (''type'', JStr kind), (''created_at'', JTime created_at),
       (''simulated'', JBool simulated), (''data'', data)]"

section \<open>Freshness of generated identifiers\<close>

text \<open>
  Random UUIDs do not repeat: the stream is injective, and every generated identifier in the
  database was drawn from it earlier. Under this assumption no insert of a generated identifier
  conflicts.
\<close>

definition drawn :: "env \<Rightarrow> id_kind \<Rightarrow> nat \<Rightarrow> string list \<Rightarrow> bool" where
  "drawn e k n ids \<longleftrightarrow> distinct ids \<and> (\<forall>i \<in> set ids. \<exists>m < n. i = id_new k (env_uuid e m))"

definition events_fresh :: "env \<Rightarrow> db \<Rightarrow> bool" where
  "events_fresh e d \<longleftrightarrow> inj (env_uuid e) \<and> drawn e EventId (next_uuid d) (map ev_id (t_events d))
     \<and> drawn e DeliveryId (next_uuid d) (map dlv_id (t_deliveries d))"

text \<open>Event sequence numbers are the ones already handed out, in increasing order.\<close>

definition seqs_ok :: "db \<Rightarrow> bool" where
  "seqs_ok d \<longleftrightarrow> sorted_wrt (<) (map ev_seq (t_events d)) \<and> (\<forall>r \<in> set (t_events d). ev_seq r < next_seq d)
     \<and> 0 < next_seq d \<and> (\<forall>r \<in> set (t_deliveries d). dlv_event_seq r < next_seq d)"

lemma id_new_inj: "id_new k u = id_new k' u' \<longleftrightarrow> k = k' \<and> u = u'"
proof
  assume "id_new k u = id_new k' u'"
  then have "id_prefix k @ ''_'' @ u = id_prefix k' @ ''_'' @ u'" by (simp add: id_new_def)
  then show "k = k' \<and> u = u'" by (subst (asm) append_eq_append_conv) (simp_all add: id_prefix_inj)
qed simp

lemma drawn_mono: "drawn e k n ids \<Longrightarrow> n \<le> n' \<Longrightarrow> drawn e k n' ids"
  by (force simp: drawn_def)

lemma drawn_fresh:
  "inj (env_uuid e) \<Longrightarrow> drawn e k n ids \<Longrightarrow> n \<le> m \<Longrightarrow> id_new k (env_uuid e m) \<notin> set ids"
  by (force simp: drawn_def id_new_inj dest: injD)

lemma drawn_snoc:
  assumes "inj (env_uuid e)" and "drawn e k n ids"
  shows "drawn e k (Suc n) (ids @ [id_new k (env_uuid e n)])"
proof -
  have "id_new k (env_uuid e n) \<notin> set ids" using assms by (rule drawn_fresh) simp
  with assms(2) show ?thesis unfolding drawn_def by (auto intro: less_SucI)
qed

lemma drawn_append:
  assumes "inj (env_uuid e)" and "drawn e k n ids"
  shows "drawn e k (n + m) (ids @ map (\<lambda>j. id_new k (env_uuid e j)) [n..<n + m])"
proof (induction m)
  case 0
  then show ?case using assms by simp
next
  case (Suc m)
  from drawn_snoc [OF assms(1) this] show ?case by simp
qed

lemma outbox_ids:
  "map dlv_id (outbox_rows e p s d) = map (\<lambda>j. id_new DeliveryId (env_uuid e j))
     [next_uuid d..<next_uuid d + length (outbox_rows e p s d)]"
proof -
  have "map (\<lambda>(n, w). f n) (enumerate k xs) = map f [k..<k + length xs]" for f :: "nat \<Rightarrow> string" and k xs
    by (simp add: enumerate_eq_zip map_fst_zip_take prod.case_distrib case_prod_unfold
        flip: map_map [of f fst, unfolded comp_def])
  then show ?thesis by (simp add: outbox_rows_def case_prod_unfold comp_def)
qed

lemma outbox_endpoints:
  "map dlv_endpoint_id (outbox_rows e p s d)
   = map whe_id (filter (\<lambda>w. whe_project_id w = p \<and> whe_enabled w) (t_endpoints d))"
proof -
  have "map (\<lambda>x. f (snd x)) (enumerate k xs) = map f xs" for f :: "endpoint_row \<Rightarrow> string" and k xs
    by (simp flip: map_map [of f snd, unfolded comp_def])
  then show ?thesis by (simp add: outbox_rows_def case_prod_unfold comp_def)
qed

lemma outbox_row_fields:
  "r \<in> set (outbox_rows e p s d) \<Longrightarrow> dlv_event_seq r = s \<and> dlv_status r = ''pending''
     \<and> dlv_attempts r = 0 \<and> dlv_next_attempt_at r = env_now e"
  by (auto simp: outbox_rows_def)

lemma outbox_rows_cong:
  "t_endpoints d = t_endpoints d' \<Longrightarrow> next_uuid d = next_uuid d' \<Longrightarrow>
     outbox_rows e p s d = outbox_rows e p s d'"
  by (simp add: outbox_rows_def)

text \<open>What a successful \<open>emit\<close> did: one event, one pending delivery per enabled endpoint, no more.\<close>

definition emitted ::
  "env \<Rightarrow> string \<Rightarrow> string \<Rightarrow> string \<Rightarrow> json \<Rightarrow> bool \<Rightarrow> db \<Rightarrow> event_row \<Rightarrow> db \<Rightarrow> bool" where
  "emitted e p kind res data sim d ev d' \<longleftrightarrow>
     ev = new_event e p kind res data sim d
     \<and> d' = d\<lparr>t_events := t_events d @ [ev],
             t_deliveries := t_deliveries d @ outbox_rows e p (next_seq d) (snd (fresh_id e EventId d)),
             next_seq := next_seq d + 1,
             next_uuid := next_uuid d + 1
               + length (outbox_rows e p (next_seq d) (snd (fresh_id e EventId d)))\<rparr>"

lemma emit_Inr: "emit e p kind res data sim d = Inr (ev, d') \<Longrightarrow> emitted e p kind res data sim d ev d'"
  by (auto simp: emit_def emitted_def Let_def fresh_id_def new_event_def insert_row_def
      split: if_splits)

lemma emit_total:
  assumes "events_fresh e d" and "p \<in> set (map prj_id (t_projects d))"
  shows "\<exists>ev d'. emit e p kind res data sim d = Inr (ev, d')"
proof -
  let ?ev = "new_event e p kind res data sim d"
  let ?d1 = "snd (fresh_id e EventId d)"
  have "ev_id ?ev \<notin> set (map ev_id (t_events d))"
    using assms(1) drawn_fresh [of e EventId "next_uuid d" "map ev_id (t_events d)" "next_uuid d"]
    by (simp add: events_fresh_def new_event_def fresh_id_def)
  moreover have "drawn e DeliveryId (next_uuid ?d1) (map dlv_id (t_deliveries d))"
    using assms(1) by (auto simp: events_fresh_def fresh_id_def intro: drawn_mono)
  then have "drawn e DeliveryId (next_uuid ?d1 + length (outbox_rows e p (ev_seq ?ev) ?d1))
      (map dlv_id (t_deliveries d @ outbox_rows e p (ev_seq ?ev) ?d1))"
    unfolding map_append outbox_ids using assms(1) by (simp add: drawn_append events_fresh_def)
  then have "distinct (map dlv_id (t_deliveries d @ outbox_rows e p (ev_seq ?ev) ?d1))"
    unfolding drawn_def by blast
  ultimately show ?thesis using assms(2) by (simp add: emit_def Let_def)
qed

lemma emitted_fresh: "emitted e p kind res data sim d ev d' \<Longrightarrow> events_fresh e d \<Longrightarrow> events_fresh e d'"
proof -
  assume em: "emitted e p kind res data sim d ev d'" and fr: "events_fresh e d"
  let ?d1 = "snd (fresh_id e EventId d)"
  let ?rows = "outbox_rows e p (next_seq d) ?d1"
  have i: "inj (env_uuid e)" using fr by (simp add: events_fresh_def)
  have "drawn e EventId (Suc (next_uuid d)) (map ev_id (t_events d) @ [ev_id ev])"
    using em fr drawn_snoc [OF i, of EventId "next_uuid d" "map ev_id (t_events d)"]
    by (simp add: emitted_def events_fresh_def new_event_def fresh_id_def)
  then have "drawn e EventId (next_uuid ?d1 + length ?rows) (map ev_id (t_events d) @ [ev_id ev])"
    by (rule drawn_mono) (simp add: fresh_id_def)
  moreover have "drawn e DeliveryId (next_uuid ?d1 + length ?rows) (map dlv_id (t_deliveries d @ ?rows))"
    unfolding map_append outbox_ids
  proof (rule drawn_append [OF i])
    have "drawn e DeliveryId (next_uuid d) (map dlv_id (t_deliveries d))"
      using fr by (simp add: events_fresh_def)
    then show "drawn e DeliveryId (next_uuid ?d1) (map dlv_id (t_deliveries d))"
      by (rule drawn_mono) (simp add: fresh_id_def)
  qed
  ultimately show "events_fresh e d'" using em i
    by (simp add: emitted_def events_fresh_def fresh_id_def)
qed

lemma emitted_seqs: "emitted e p kind res data sim d ev d' \<Longrightarrow> seqs_ok d \<Longrightarrow> seqs_ok d'"
  by (auto simp: emitted_def seqs_ok_def new_event_def sorted_wrt_append dest: outbox_row_fields)

section \<open>A small database\<close>

text \<open>A clock, a UUID stream and a database with one project and two webhook endpoints.\<close>

definition sample_env :: env where
  "sample_env = \<lparr>env_now = 1000, env_uuid = nat_digits\<rparr>"

definition sample_db :: db where
  "sample_db = empty_db\<lparr>
     t_projects := [\<lparr>prj_id = ''prj_a'', prj_name = ''shop'', prj_network = ''regtest'', prj_created_at = 0\<rparr>],
     t_endpoints :=
       [\<lparr>whe_id = ''whe_a'', whe_project_id = ''prj_a'', whe_url = ''https://a'', whe_secret = ''s'',
         whe_enabled = True, whe_created_at = 0\<rparr>,
        \<lparr>whe_id = ''whe_b'', whe_project_id = ''prj_a'', whe_url = ''https://b'', whe_secret = ''s'',
         whe_enabled = False, whe_created_at = 0\<rparr>]\<rparr>"

lemma sample_fresh: "events_fresh sample_env sample_db"
proof -
  have "inj nat_digits" by (rule inj_on_inverseI [of _ "digits_val 0"]) simp
  then show ?thesis by (simp add: events_fresh_def sample_env_def sample_db_def empty_db_def drawn_def)
qed

end
