(* ===== verification/Storage_Schema.thy ===== *)
theory Storage_Schema
  imports Storage_Db
begin

text \<open>
  The constraints of \<open>migrations/0001_initial.sql\<close> as an invariant of the database, how the database
  may change from one transaction to the next, and the contract \<open>db_op\<close> that every repository
  method meets: it keeps the constraints, never removes a row of the ledger tables and only moves
  a status forward.
\<close>

section \<open>The constraints of the schema\<close>

definition parses :: "(string \<Rightarrow> core_error + 'a) \<Rightarrow> string \<Rightarrow> bool" where
  "parses from_str s \<longleftrightarrow> \<not> isl (from_str s)"

definition payments_table :: "string set \<Rightarrow> payment_row list \<Rightarrow> bool" where
  "payments_table ps t \<longleftrightarrow> distinct (map pay_id t)
     \<and> distinct (map (\<lambda>r. (pay_project_id r, pay_idempotency_key r)) t)
     \<and> (\<forall>r \<in> set t. pay_project_id r \<in> ps \<and> 0 < pay_amount_msat r
          \<and> parses payment_from_str (pay_status r))"

definition keyed_invoices :: "invoice_row list \<Rightarrow> invoice_row list" where
  "keyed_invoices t = filter (\<lambda>r. inv_idempotency_key r \<noteq> None) t"

definition invoices_table :: "string set \<Rightarrow> invoice_row list \<Rightarrow> bool" where
  "invoices_table ps t \<longleftrightarrow> distinct (map inv_id t) \<and> distinct (map inv_payment_hash t)
     \<and> distinct (map (\<lambda>r. (inv_project_id r, inv_idempotency_key r)) (keyed_invoices t))
     \<and> (\<forall>r \<in> set t. inv_project_id r \<in> ps \<and> 0 < inv_amount_msat r
          \<and> parses invoice_from_str (inv_status r))"

definition api_keys_table :: "string set \<Rightarrow> api_key_row list \<Rightarrow> bool" where
  "api_keys_table ps t \<longleftrightarrow> distinct (map key_id t) \<and> distinct (map key_hash t)
     \<and> (\<forall>r \<in> set t. key_project_id r \<in> ps)"

definition addresses_table :: "string set \<Rightarrow> address_row list \<Rightarrow> bool" where
  "addresses_table ps t \<longleftrightarrow> distinct (map adr_id t) \<and> distinct (map adr_address t)
     \<and> (\<forall>r \<in> set t. adr_project_id r \<in> ps \<and> 0 < adr_required_confirmations r)"

definition transactions_table :: "string set \<Rightarrow> string set \<Rightarrow> transaction_row list \<Rightarrow> bool" where
  "transactions_table ps as t \<longleftrightarrow> distinct (map txn_id t)
     \<and> distinct (map (\<lambda>r. (txn_txid r, txn_vout r)) t)
     \<and> (\<forall>r \<in> set t. txn_project_id r \<in> ps \<and> txn_address_id r \<in> as \<and> 0 < txn_amount_sat r
          \<and> txn_status r \<in> {''unconfirmed'', ''confirming'', ''confirmed''})"

definition endpoints_table :: "string set \<Rightarrow> endpoint_row list \<Rightarrow> bool" where
  "endpoints_table ps t \<longleftrightarrow> distinct (map whe_id t) \<and> (\<forall>r \<in> set t. whe_project_id r \<in> ps)"

definition deliveries_table :: "string set \<Rightarrow> int set \<Rightarrow> delivery_row list \<Rightarrow> bool" where
  "deliveries_table es ss t \<longleftrightarrow> distinct (map dlv_id t)
     \<and> distinct (map (\<lambda>r. (dlv_event_seq r, dlv_endpoint_id r)) t)
     \<and> (\<forall>r \<in> set t. dlv_endpoint_id r \<in> es \<and> dlv_event_seq r \<in> ss
          \<and> parses delivery_from_str (dlv_status r))"

definition events_table :: "string set \<Rightarrow> int \<Rightarrow> event_row list \<Rightarrow> bool" where
  "events_table ps n t \<longleftrightarrow> distinct (map ev_id t) \<and> sorted_wrt (<) (map ev_seq t)
     \<and> (\<forall>r \<in> set t. ev_project_id r \<in> ps \<and> ev_seq r < n)"

definition quotes_table :: "string set \<Rightarrow> quote_row list \<Rightarrow> bool" where
  "quotes_table ps t \<longleftrightarrow> distinct (map qte_id t)
     \<and> (\<forall>r \<in> set t. qte_project_id r \<in> ps \<and> 0 < qte_source_minor r \<and> 0 < qte_target_minor r
          \<and> 0 < qte_btc_amount_msat r \<and> parses quote_from_str (qte_status r))"

definition payouts_table :: "string set \<Rightarrow> string set \<Rightarrow> payout_row list \<Rightarrow> bool" where
  "payouts_table ps qs t \<longleftrightarrow> distinct (map pot_id t) \<and> distinct (map pot_quote_id t)
     \<and> distinct (map (\<lambda>r. (pot_project_id r, pot_idempotency_key r)) t)
     \<and> (\<forall>r \<in> set t. pot_project_id r \<in> ps \<and> pot_quote_id r \<in> qs
          \<and> pot_scenario r \<in> {''success'', ''failure'', ''timeout''}
          \<and> parses payout_from_str (pot_status r))"

definition balances_table :: "string set \<Rightarrow> balance_row list \<Rightarrow> bool" where
  "balances_table ps t \<longleftrightarrow> distinct (map (\<lambda>r. (bal_project_id r, bal_currency r)) t)
     \<and> (\<forall>r \<in> set t. bal_project_id r \<in> ps \<and> in_i64 (bal_minor r))"

abbreviation project_ids :: "db \<Rightarrow> string set" where
  "project_ids d \<equiv> prj_id ` set (t_projects d)"

definition schema_ok :: "db \<Rightarrow> bool" where
  "schema_ok d \<longleftrightarrow> distinct (map prj_id (t_projects d))
     \<and> api_keys_table (project_ids d) (t_api_keys d)
     \<and> invoices_table (project_ids d) (t_invoices d)
     \<and> payments_table (project_ids d) (t_payments d)
     \<and> addresses_table (project_ids d) (t_addresses d)
     \<and> transactions_table (project_ids d) (adr_id ` set (t_addresses d)) (t_transactions d)
     \<and> events_table (project_ids d) (next_seq d) (t_events d)
     \<and> endpoints_table (project_ids d) (t_endpoints d)
     \<and> deliveries_table (whe_id ` set (t_endpoints d)) (ev_seq ` set (t_events d)) (t_deliveries d)
     \<and> distinct (map nev_dedupe_key (t_node_events d))
     \<and> quotes_table (project_ids d) (t_quotes d)
     \<and> payouts_table (project_ids d) (qte_id ` set (t_quotes d)) (t_payouts d)
     \<and> balances_table (project_ids d) (t_balances d)
     \<and> 0 < next_seq d"

lemmas table_defs = payments_table_def invoices_table_def api_keys_table_def addresses_table_def
  transactions_table_def endpoints_table_def deliveries_table_def events_table_def quotes_table_def
  payouts_table_def balances_table_def

section \<open>How rows may change\<close>

text \<open>The columns no statement updates.\<close>

definition payment_fixed where
  "payment_fixed r = (pay_id r, pay_project_id r, pay_idempotency_key r, pay_request_hash r,
     pay_bolt11 r, pay_payment_hash r, pay_amount_msat r, pay_metadata r, pay_created_at r)"

definition invoice_fixed where
  "invoice_fixed r = (inv_id r, inv_project_id r, inv_idempotency_key r, inv_amount_msat r,
     inv_description r, inv_bolt11 r, inv_payment_hash r, inv_expires_at r, inv_metadata r,
     inv_created_at r)"

definition payout_fixed where
  "payout_fixed r = (pot_id r, pot_project_id r, pot_quote_id r, pot_idempotency_key r,
     pot_scenario r, pot_settlement_bolt11 r, pot_created_at r)"

definition transaction_fixed where
  "transaction_fixed r = (txn_id r, txn_project_id r, txn_address_id r, txn_txid r, txn_vout r,
     txn_amount_sat r, txn_first_seen_at r)"

definition payment_le :: "payment_row \<Rightarrow> payment_row \<Rightarrow> bool" where
  "payment_le r r' \<longleftrightarrow> r' = r \<or>
     (payment_fixed r' = payment_fixed r
      \<and> (\<exists>s s'. pay_status r = payment_as_str s \<and> pay_status r' = payment_as_str s'
            \<and> payment_can_transition_to\<^sup>+\<^sup>+ s s'))"

definition invoice_le :: "invoice_row \<Rightarrow> invoice_row \<Rightarrow> bool" where
  "invoice_le r r' \<longleftrightarrow> r' = r \<or>
     (invoice_fixed r' = invoice_fixed r \<and> inv_status r = ''open'' \<and> inv_status r' \<noteq> ''open'')"

definition payout_le :: "payout_row \<Rightarrow> payout_row \<Rightarrow> bool" where
  "payout_le r r' \<longleftrightarrow> payout_fixed r' = payout_fixed r
     \<and> (pot_status r' = pot_status r
        \<or> (\<exists>s s'. pot_status r = payout_as_str s \<and> pot_status r' = payout_as_str s'
              \<and> payout_can_transition_to\<^sup>+\<^sup>+ s s'))"

definition quote_le :: "quote_row \<Rightarrow> quote_row \<Rightarrow> bool" where
  "quote_le r r' \<longleftrightarrow> r' = r \<or> (qte_status r = ''open'' \<and> r' = r\<lparr>qte_status := ''used''\<rparr>)"

definition key_le :: "api_key_row \<Rightarrow> api_key_row \<Rightarrow> bool" where
  "key_le r r' \<longleftrightarrow> r' = r \<or> (key_revoked_at r = None \<and> (\<exists>t. r' = r\<lparr>key_revoked_at := Some t\<rparr>))"

definition endpoint_le :: "endpoint_row \<Rightarrow> endpoint_row \<Rightarrow> bool" where
  "endpoint_le r r' \<longleftrightarrow> r' = r \<or> r' = r\<lparr>whe_enabled := False\<rparr>"

definition delivery_le :: "delivery_row \<Rightarrow> delivery_row \<Rightarrow> bool" where
  "delivery_le r r' \<longleftrightarrow> dlv_id r' = dlv_id r \<and> dlv_event_seq r' = dlv_event_seq r
     \<and> dlv_endpoint_id r' = dlv_endpoint_id r \<and> dlv_attempts r \<le> dlv_attempts r'"

definition transaction_le :: "transaction_row \<Rightarrow> transaction_row \<Rightarrow> bool" where
  "transaction_le r r' \<longleftrightarrow> transaction_fixed r' = transaction_fixed r"

definition evolves :: "db \<Rightarrow> db \<Rightarrow> bool" where
  "evolves d d' \<longleftrightarrow> grows (=) (t_projects d) (t_projects d')
     \<and> grows (=) (t_events d) (t_events d')
     \<and> grows (=) (t_node_events d) (t_node_events d')
     \<and> grows (=) (t_addresses d) (t_addresses d')
     \<and> grows payment_le (t_payments d) (t_payments d')
     \<and> grows invoice_le (t_invoices d) (t_invoices d')
     \<and> grows payout_le (t_payouts d) (t_payouts d')
     \<and> grows quote_le (t_quotes d) (t_quotes d')
     \<and> grows key_le (t_api_keys d) (t_api_keys d')
     \<and> grows endpoint_le (t_endpoints d) (t_endpoints d')
     \<and> grows delivery_le (t_deliveries d) (t_deliveries d')
     \<and> grows transaction_le (t_transactions d) (t_transactions d')"

lemma row_le_refl [simp]:
  "payment_le r r" "invoice_le i i" "payout_le p p" "quote_le q q" "key_le k k" "endpoint_le w w"
  "delivery_le v v" "transaction_le x x"
  by (simp_all add: payment_le_def invoice_le_def payout_le_def quote_le_def key_le_def
      endpoint_le_def delivery_le_def transaction_le_def)

lemma row_le_trans:
  "transp payment_le" "transp invoice_le" "transp payout_le" "transp quote_le" "transp key_le"
  "transp endpoint_le" "transp delivery_le" "transp transaction_le" "transp ((=) :: 'r \<Rightarrow> 'r \<Rightarrow> bool)"
proof -
  show "transp payment_le"
    unfolding payment_le_def transp_def by (metis pay_text.as_str_inj tranclp_trans)
  show "transp payout_le"
    unfolding payout_le_def transp_def by (metis pot_text.as_str_inj tranclp_trans)
qed (auto simp: transp_def invoice_le_def quote_le_def key_le_def endpoint_le_def delivery_le_def
      transaction_le_def)

lemma evolves_refl [simp]: "evolves d d"
  by (simp add: evolves_def grows_refl)

lemmas grows_row_trans = row_le_trans [THEN grows_trans]

lemma evolves_trans: "evolves d d' \<Longrightarrow> evolves d' d'' \<Longrightarrow> evolves d d''"
  unfolding evolves_def by (elim conjE, intro conjI) (erule (1) grows_row_trans)+

text \<open>What the order says of one row.\<close>

lemma payment_le_final:
  "payment_le r r' \<Longrightarrow> payment_from_str (pay_status r) = Inr s \<Longrightarrow> payment_is_final s \<Longrightarrow> r' = r"
proof -
  assume le: "payment_le r r'" and p: "payment_from_str (pay_status r) = Inr s" and f: "payment_is_final s"
  have "\<not> payment_can_transition_to\<^sup>+\<^sup>+ s t" for t
    using f by (auto dest!: tranclpD simp: payment_is_final_def)
  then show "r' = r" using le p by (auto simp: payment_le_def)
qed

lemma payment_le_fixed: "payment_le r r' \<Longrightarrow> payment_fixed r' = payment_fixed r"
  by (auto simp: payment_le_def)

lemma payment_le_step:
  "payment_from_str (pay_status r) = Inr s \<Longrightarrow> payment_can_transition_to s s' \<Longrightarrow>
     payment_fixed r' = payment_fixed r \<Longrightarrow> pay_status r' = payment_as_str s' \<Longrightarrow> payment_le r r'"
  by (auto simp: payment_le_def pay_text.parse_iff)

lemma payout_le_step:
  "payout_from_str (pot_status r) = Inr s \<Longrightarrow> payout_can_transition_to s s' \<Longrightarrow>
     payout_fixed r' = payout_fixed r \<Longrightarrow> pot_status r' = payout_as_str s' \<Longrightarrow> payout_le r r'"
  by (auto simp: payout_le_def pot_text.parse_iff)

section \<open>Emitting an event keeps the schema\<close>

lemma parses_as_str [simp]:
  "parses payment_from_str (payment_as_str s)" "parses invoice_from_str (invoice_as_str i)"
  "parses payout_from_str (payout_as_str p)" "parses quote_from_str (quote_as_str q)"
  "parses delivery_from_str (delivery_as_str v)"
  by (simp_all add: parses_def)

lemma parses_literals [simp]:
  "parses payment_from_str ''created''" "parses invoice_from_str ''open''"
  "parses invoice_from_str ''paid''" "parses invoice_from_str ''expired''"
  "parses delivery_from_str ''pending''" "parses delivery_from_str ''delivered''"
  "parses delivery_from_str ''failed''" "parses quote_from_str ''open''"
  "parses quote_from_str ''used''" "parses payout_from_str ''reserved''"
  by (simp_all add: parses_def payment_from_str_def invoice_from_str_def delivery_from_str_def
      quote_from_str_def payout_from_str_def)

text \<open>
  Two databases with the same tables but for the outbox; \<open>emit\<close> changes nothing else.
\<close>

lemma outbox_endpoint_mem:
  "r \<in> set (outbox_rows e p s d) \<Longrightarrow> dlv_endpoint_id r \<in> whe_id ` set (t_endpoints d)"
proof -
  assume "r \<in> set (outbox_rows e p s d)"
  then have "dlv_endpoint_id r \<in> set (map dlv_endpoint_id (outbox_rows e p s d))" by simp
  then show ?thesis unfolding outbox_endpoints by auto
qed

lemma outbox_pairs_distinct:
  assumes "distinct (map whe_id (t_endpoints d))"
  shows "distinct (map (\<lambda>r. (dlv_event_seq r, dlv_endpoint_id r)) (outbox_rows e p s d))"
proof -
  have "distinct (map dlv_endpoint_id (outbox_rows e p s d))"
    unfolding outbox_endpoints using assms by (simp add: distinct_map_filter)
  then show ?thesis by (auto simp: distinct_map inj_on_def)
qed

lemma emit_deliveries:
  assumes "deliveries_table es ss ds" and "endpoints_table ps (t_endpoints d)"
    and "es = whe_id ` set (t_endpoints d)" and "s \<notin> ss"
    and "distinct (map dlv_id (ds @ outbox_rows e p s d))"
  shows "deliveries_table es (insert s ss) (ds @ outbox_rows e p s d)"
proof -
  have "dlv_event_seq r \<noteq> s" if "r \<in> set ds" for r
    using that assms(1,4) by (auto simp: deliveries_table_def)
  moreover have "dlv_event_seq r = s" if "r \<in> set (outbox_rows e p s d)" for r
    using outbox_row_fields that by blast
  ultimately have "(\<lambda>r. (dlv_event_seq r, dlv_endpoint_id r)) ` set ds
      \<inter> (\<lambda>r. (dlv_event_seq r, dlv_endpoint_id r)) ` set (outbox_rows e p s d) = {}" by auto
  then show ?thesis using assms outbox_pairs_distinct [of d e p s]
    by (auto simp: deliveries_table_def endpoints_table_def dest: outbox_row_fields
        outbox_endpoint_mem)
qed

lemma emit_schema:
  assumes "emit e p kind res data sim d = Inr (ev, d')" and "schema_ok d"
  shows "schema_ok d'"
proof -
  have em: "emitted e p kind res data sim d ev d'" using assms(1) by (rule emit_Inr)
  have c: "ev_id ev \<notin> ev_id ` set (t_events d)" "p \<in> project_ids d"
      "distinct (map dlv_id (t_deliveries d @ outbox_rows e p (next_seq d) (snd (fresh_id e EventId d))))"
    using assms(1) em by (auto simp: emit_def emitted_def Let_def new_event_def split: if_splits)
  have "events_table (project_ids d) (next_seq d + 1) (t_events d @ [ev])"
    using assms(2) c em
    by (auto simp: schema_ok_def events_table_def emitted_def new_event_def sorted_wrt_append)
  moreover have "deliveries_table (whe_id ` set (t_endpoints d))
      (insert (next_seq d) (ev_seq ` set (t_events d)))
      (t_deliveries d @ outbox_rows e p (next_seq d) (snd (fresh_id e EventId d)))"
    using assms(2) c(3)
    by (intro emit_deliveries [where ps = "project_ids d"])
      (auto simp: schema_ok_def fresh_id_def events_table_def)
  ultimately show ?thesis using assms(2) em
    by (simp add: schema_ok_def emitted_def new_event_def)
qed

lemma emit_evolves: "emit e p kind res data sim d = Inr (ev, d') \<Longrightarrow> evolves d d'"
  using emit_Inr [of e p kind res data sim d ev d']
  by (simp add: emitted_def evolves_def grows_refl grows_append)

lemma emit_keeps:
  assumes "schema_ok d" and "evolves d0 d" and "emit e p kind res data sim d = Inr (ev, d')"
  shows "schema_ok d' \<and> evolves d0 d'"
  using emit_schema [OF assms(3,1)] evolves_trans [OF assms(2) emit_evolves [OF assms(3)]] by simp

section \<open>Changing one table\<close>

lemma schema_table:
  "schema_ok d \<Longrightarrow> payments_table (project_ids d) t1 \<Longrightarrow> schema_ok (d\<lparr>t_payments := t1\<rparr>)"
  "schema_ok d \<Longrightarrow> invoices_table (project_ids d) t2 \<Longrightarrow> schema_ok (d\<lparr>t_invoices := t2\<rparr>)"
  "schema_ok d \<Longrightarrow> api_keys_table (project_ids d) t3 \<Longrightarrow> schema_ok (d\<lparr>t_api_keys := t3\<rparr>)"
  "schema_ok d \<Longrightarrow> transactions_table (project_ids d) (adr_id ` set (t_addresses d)) t4 \<Longrightarrow>
     schema_ok (d\<lparr>t_transactions := t4\<rparr>)"
  "schema_ok d \<Longrightarrow> payouts_table (project_ids d) (qte_id ` set (t_quotes d)) t5 \<Longrightarrow>
     schema_ok (d\<lparr>t_payouts := t5\<rparr>)"
  "schema_ok d \<Longrightarrow> balances_table (project_ids d) t6 \<Longrightarrow> schema_ok (d\<lparr>t_balances := t6\<rparr>)"
  "schema_ok d \<Longrightarrow> distinct (map nev_dedupe_key t7) \<Longrightarrow> schema_ok (d\<lparr>t_node_events := t7\<rparr>)"
  "schema_ok d \<Longrightarrow> deliveries_table (whe_id ` set (t_endpoints d)) (ev_seq ` set (t_events d)) t8 \<Longrightarrow>
     schema_ok (d\<lparr>t_deliveries := t8\<rparr>)"
  "schema_ok d \<Longrightarrow> schema_ok (d\<lparr>next_uuid := n\<rparr>)"
  by (simp_all add: schema_ok_def)

lemma evolves_table:
  "grows payment_le (t_payments d) t1 \<Longrightarrow> evolves d (d\<lparr>t_payments := t1\<rparr>)"
  "grows invoice_le (t_invoices d) t2 \<Longrightarrow> evolves d (d\<lparr>t_invoices := t2\<rparr>)"
  "grows key_le (t_api_keys d) t3 \<Longrightarrow> evolves d (d\<lparr>t_api_keys := t3\<rparr>)"
  "grows transaction_le (t_transactions d) t4 \<Longrightarrow> evolves d (d\<lparr>t_transactions := t4\<rparr>)"
  "grows payout_le (t_payouts d) t5 \<Longrightarrow> evolves d (d\<lparr>t_payouts := t5\<rparr>)"
  "evolves d (d\<lparr>t_balances := t6\<rparr>)"
  "grows (=) (t_node_events d) t7 \<Longrightarrow> evolves d (d\<lparr>t_node_events := t7\<rparr>)"
  "grows delivery_le (t_deliveries d) t8 \<Longrightarrow> evolves d (d\<lparr>t_deliveries := t8\<rparr>)"
  "grows quote_le (t_quotes d) t9 \<Longrightarrow> evolves d (d\<lparr>t_quotes := t9\<rparr>)"
  "evolves d (d\<lparr>next_uuid := n\<rparr>)"
  by (simp_all add: evolves_def grows_refl)

lemma payments_table_update:
  assumes "payments_table ps t"
    and "\<And>r. r \<in> set t \<Longrightarrow> P r \<Longrightarrow> payment_fixed (f r) = payment_fixed r \<and> parses payment_from_str (pay_status (f r))"
  shows "payments_table ps (update_where P f t)"
proof -
  have "map pay_id (update_where P f t) = map pay_id t"
    and "map (\<lambda>r. (pay_project_id r, pay_idempotency_key r)) (update_where P f t)
         = map (\<lambda>r. (pay_project_id r, pay_idempotency_key r)) t"
    using assms(2) by (auto intro!: map_update_where_same simp: payment_fixed_def)
  then show ?thesis using assms
    by (auto simp: payments_table_def set_update_where payment_fixed_def)
qed

lemma invoices_table_update:
  assumes "invoices_table ps t"
    and "\<And>r. r \<in> set t \<Longrightarrow> P r \<Longrightarrow> invoice_fixed (f r) = invoice_fixed r \<and> parses invoice_from_str (inv_status (f r))"
  shows "invoices_table ps (update_where P f t)"
proof -
  have k: "keyed_invoices (update_where P f t) = update_where P f (keyed_invoices t)"
    using assms(2) unfolding keyed_invoices_def
    by (induction t) (auto simp: update_where_def invoice_fixed_def)
  have "map inv_id (update_where P f t) = map inv_id t"
    and "map inv_payment_hash (update_where P f t) = map inv_payment_hash t"
    and "map (\<lambda>r. (inv_project_id r, inv_idempotency_key r)) (update_where P f (keyed_invoices t))
         = map (\<lambda>r. (inv_project_id r, inv_idempotency_key r)) (keyed_invoices t)"
    using assms(2) by (auto intro!: map_update_where_same simp: invoice_fixed_def keyed_invoices_def)
  then show ?thesis using assms
    by (auto simp: invoices_table_def set_update_where invoice_fixed_def k)
qed

text \<open>Claiming a node event.\<close>

lemma claim_schema: "schema_ok d \<Longrightarrow> claim_node_event k kind pl d = (b, d') \<Longrightarrow> schema_ok d'"
  by (auto simp: claim_node_event_def insert_row_def schema_ok_def split: if_splits)

lemma claim_evolves: "claim_node_event k kind pl d = (b, d') \<Longrightarrow> evolves d d'"
  by (auto simp: claim_node_event_def evolves_def grows_refl grows_insert split: if_splits)

lemma claim_tables:
  "claim_node_event k kind pl d = (b, d') \<Longrightarrow> \<exists>t. d' = d\<lparr>t_node_events := t\<rparr>"
  by (cases d) (auto simp: claim_node_event_def split: if_splits)

section \<open>The contract of a repository method\<close>

locale db_op =
  fixes op :: "db \<Rightarrow> storage_error + 'r \<times> db"
  assumes op_schema: "schema_ok d \<Longrightarrow> op d = Inr (r, d') \<Longrightarrow> schema_ok d'"
    and op_evolves: "schema_ok d \<Longrightarrow> op d = Inr (r, d') \<Longrightarrow> evolves d d'"
begin

text \<open>A final payment survives the operation unchanged.\<close>

lemma op_final_payment:
  assumes "schema_ok d" and "op d = Inr (r, d')" and "x \<in> set (t_payments d)"
    and "payment_from_str (pay_status x) = Inr s" and "payment_is_final s"
  shows "x \<in> set (t_payments d')"
proof -
  have "grows payment_le (t_payments d) (t_payments d')"
    using op_evolves [OF assms(1,2)] by (simp add: evolves_def)
  then obtain x' where "x' \<in> set (t_payments d')" "payment_le x x'" using assms(3) grows_mem by metis
  then show ?thesis using payment_le_final assms(4,5) by blast
qed

end

lemma sample_schema: "schema_ok sample_db"
  by (simp add: schema_ok_def table_defs sample_db_def empty_db_def keyed_invoices_def)

end
