(* ===== verification/Core_Apikey.thy ===== *)
theory Core_Apikey
  imports Core_Base
begin

text \<open>
  \<open>crates/safrod-core/src/apikey.rs\<close>: scopes and API keys. Random bytes, SHA-256 and the hex
  encoder come from other crates; they are the arguments \<open>bytes\<close>, \<open>sha256\<close> and \<open>enc\<close>.
\<close>

datatype scope =
    InvoicesRead | InvoicesWrite | PaymentsRead | PaymentsWrite | BitcoinRead | BitcoinWrite
  | EventsRead | WebhooksWrite | SandboxWrite

definition scope_ALL :: "scope list" where
  "scope_ALL = [InvoicesRead, InvoicesWrite, PaymentsRead, PaymentsWrite, BitcoinRead,
     BitcoinWrite, EventsRead, WebhooksWrite, SandboxWrite]"

fun scope_as_str :: "scope \<Rightarrow> string" where
  "scope_as_str InvoicesRead = ''invoices:read''"
| "scope_as_str InvoicesWrite = ''invoices:write''"
| "scope_as_str PaymentsRead = ''payments:read''"
| "scope_as_str PaymentsWrite = ''payments:write''"
| "scope_as_str BitcoinRead = ''bitcoin:read''"
| "scope_as_str BitcoinWrite = ''bitcoin:write''"
| "scope_as_str EventsRead = ''events:read''"
| "scope_as_str WebhooksWrite = ''webhooks:write''"
| "scope_as_str SandboxWrite = ''sandbox:write''"

definition scope_from_str :: "string \<Rightarrow> core_error + scope" where
  "scope_from_str s =
     (case find (\<lambda>c. scope_as_str c = s) scope_ALL of
        Some c \<Rightarrow> Inr c
      | None \<Rightarrow> Inl (UnknownScope s))"

definition KEY_PREFIX :: string where
  "KEY_PREFIX = ''sfd''"

record generated_key =
  gk_secret :: string
  gk_prefix :: string
  gk_hash :: "u8 list"

definition hash_secret :: "(string \<Rightarrow> u8 list) \<Rightarrow> string \<Rightarrow> u8 list" where
  "hash_secret sha256 secret = sha256 secret"

definition generate ::
  "(string \<Rightarrow> u8 list) \<Rightarrow> (u8 list \<Rightarrow> string) \<Rightarrow> u8 list \<Rightarrow> string \<Rightarrow> generated_key" where
  "generate sha256 enc bytes label =
     (let secret = KEY_PREFIX @ ''_'' @ label @ ''_'' @ enc bytes
      in \<lparr>gk_secret = secret,
          gk_prefix = take (min (length secret) (length KEY_PREFIX + length label + 9)) secret,
          gk_hash = hash_secret sha256 secret\<rparr>)"

definition looks_like_key :: "string \<Rightarrow> core_error + unit" where
  "looks_like_key candidate =
     (if starts_with candidate ''sfd_'' \<and> length candidate \<le> 128 \<and> list_all is_ascii_byte candidate
      then Inr () else Inl InvalidApiKey)"

definition digest_matches :: "(string \<Rightarrow> u8 list) \<Rightarrow> u8 list \<Rightarrow> string \<Rightarrow> bool" where
  "digest_matches sha256 stored candidate \<longleftrightarrow> stored = hash_secret sha256 candidate"

section \<open>Interfaces\<close>

text \<open>What the sources rely on of a hex codec: it round-trips and writes hex digits, two a byte.\<close>

locale hex_codec =
  fixes enc :: "u8 list \<Rightarrow> string" and dec :: "string \<Rightarrow> u8 list option"
  assumes dec_enc: "dec (enc bs) = Some bs"
    and enc_hex: "list_all is_ascii_hexdigit (enc bs)"
    and length_enc: "length (enc bs) = 2 * length bs"
begin

lemma enc_plain: "c \<in> set (enc bs) \<Longrightarrow> c \<noteq> CHR '','' \<and> c \<noteq> CHR ''='' \<and> graphic c"
  using enc_hex [of bs]
  by (auto simp: list_all_iff is_ascii_hexdigit_def is_ascii_digit_def graphic_def code_def)

lemma enc_ascii: "list_all is_ascii_byte (enc bs)"
  using enc_hex [of bs]
  by (auto simp: list_all_iff is_ascii_hexdigit_def is_ascii_digit_def is_ascii_byte_def)

lemma enc_inj: "enc a = enc b \<longleftrightarrow> a = b"
  using dec_enc by (metis option.inject)

end

interpretation plain_hex: hex_codec bytes_hex hex_bytes
  by unfold_locales (simp_all add: bytes_hex_hexdigits)

interpretation scope_text: strict_text_enum scope_as_str scope_from_str
proof
  show "scope_from_str (scope_as_str x) = Inr x" for x
    by (cases x) (simp_all add: scope_from_str_def scope_ALL_def)
  show "scope_from_str s = Inr x \<Longrightarrow> scope_as_str x = s" for s x
    by (auto simp: scope_from_str_def find_Some_iff split: option.splits)
qed

section \<open>Properties\<close>

text \<open>
  A generated key with 32 random bytes passes the shape check, matches its own stored digest,
  and the prefix kept for display reveals exactly seven of the 64 random hex digits.
\<close>

theorem generated_key_usable:
  assumes "hex_codec enc dec" and "length bytes = 32"
    and "list_all is_ascii_byte label" and "length label \<le> 59"
    and "k = generate sha256 enc bytes label"
  shows "looks_like_key (gk_secret k) = Inr () \<and> digest_matches sha256 (gk_hash k) (gk_secret k)
         \<and> gk_prefix k = ''sfd_'' @ label @ ''_'' @ take 7 (enc bytes)"
proof -
  have n: "length (enc bytes) = 64"
    using hex_codec.length_enc [OF assms(1), of bytes] assms(2) by simp
  have secret: "gk_secret k = ''sfd_'' @ label @ ''_'' @ enc bytes"
    using assms(5) by (simp add: generate_def Let_def KEY_PREFIX_def)
  have "list_all is_ascii_byte (gk_secret k)"
    using assms(3) hex_codec.enc_ascii [OF assms(1), of bytes]
    by (simp add: secret is_ascii_byte_def code_def)
  then have "looks_like_key (gk_secret k) = Inr ()"
    using n assms(4) by (simp add: looks_like_key_def starts_with_def secret)
  moreover have "digest_matches sha256 (gk_hash k) (gk_secret k)"
    using assms(5) by (simp add: digest_matches_def generate_def Let_def)
  moreover have "gk_prefix k = take (12 + length label) (gk_secret k)"
    using assms(5) n by (simp add: generate_def Let_def KEY_PREFIX_def)
  then have "gk_prefix k = take (12 + length label) ((''sfd_'' @ label @ ''_'') @ enc bytes)"
    by (simp add: secret)
  then have "gk_prefix k = ''sfd_'' @ label @ ''_'' @ take 7 (enc bytes)"
    by (subst (asm) take_append) simp
  ultimately show ?thesis by blast
qed

theorem generated_key_usable_witness:
  "looks_like_key (gk_secret (generate (\<lambda>_. [7]) bytes_hex (replicate 32 171) ''test'')) = Inr ()"
proof -
  let ?k = "generate (\<lambda>_. [7]) bytes_hex (replicate 32 171) ''test''"
  have "length (replicate 32 (171 :: u8)) = 32" by (simp only: length_replicate)
  moreover have "list_all is_ascii_byte ''test''" by (simp add: is_ascii_byte_def code_def)
  moreover have "length ''test'' \<le> 59" by simp
  ultimately show ?thesis
    by (rule generated_key_usable [OF plain_hex.hex_codec_axioms _ _ _ refl, THEN conjunct1])
qed

end
