(* ===== verification/Storage_Projects.thy ===== *)
theory Storage_Projects
  imports Storage_Schema Core_Apikey
begin

text \<open>
  \<open>crates/safrod-storage/src/projects.rs\<close>: projects, API keys stored by digest, and the ledger totals
  of a project.
\<close>

section \<open>Types\<close>

record auth_context =
  ac_project_id :: string
  ac_key_id :: string
  ac_scopes :: "string list"

record totals =
  lightning_received_msat :: int
  lightning_sent_msat :: int
  lightning_fees_msat :: int
  lightning_in_flight_msat :: int
  onchain_confirmed_sat :: int
  onchain_unconfirmed_sat :: int

section \<open>Methods\<close>

definition create_project :: "env \<Rightarrow> string \<Rightarrow> string \<Rightarrow> db \<Rightarrow> storage_error + project_row \<times> db" where
  "create_project e name network d =
     (let (i, d1) = fresh_id e ProjectId d;
          r = \<lparr>prj_id = i, prj_name = name, prj_network = network, prj_created_at = env_now e\<rparr>
      in if i \<in> set (map prj_id (t_projects d)) then Inl SConflict
         else Inr (r, d1\<lparr>t_projects := insert_row r (t_projects d1)\<rparr>))"

definition get_project :: "string \<Rightarrow> db \<Rightarrow> storage_error + project_row" where
  "get_project i d =
     (case select_one (\<lambda>r. prj_id r = i) (t_projects d) of None \<Rightarrow> Inl SNotFound | Some r \<Rightarrow> Inr r)"

definition create_api_key ::
  "env \<Rightarrow> string \<Rightarrow> string \<Rightarrow> string list \<Rightarrow> generated_key \<Rightarrow> db \<Rightarrow> storage_error + api_key_row \<times> db" where
  "create_api_key e project_id label scopes key d =
     (let (i, d1) = fresh_id e ApiKeyId d;
          r = \<lparr>key_id = i, key_project_id = project_id, key_label = label, key_prefix = gk_prefix key,
               key_hash = gk_hash key, key_scopes = scopes, key_revoked_at = None,
               key_created_at = env_now e\<rparr>
      in if i \<in> set (map key_id (t_api_keys d)) \<or> gk_hash key \<in> set (map key_hash (t_api_keys d))
         then Inl SConflict
         else if project_id \<notin> set (map prj_id (t_projects d)) then Inl (SDatabase ''foreign key'')
         else Inr (r, d1\<lparr>t_api_keys := insert_row r (t_api_keys d1)\<rparr>))"

definition list_api_keys :: "string \<Rightarrow> db \<Rightarrow> api_key_row list" where
  "list_api_keys project_id d =
     desc_by key_created_at (filter (\<lambda>r. key_project_id r = project_id) (t_api_keys d))"

definition revoke_row :: "env \<Rightarrow> api_key_row \<Rightarrow> api_key_row" where
  "revoke_row e r =
     r\<lparr>key_revoked_at := (case key_revoked_at r of Some t \<Rightarrow> Some t | None \<Rightarrow> Some (env_now e))\<rparr>"

definition revoke_api_key :: "env \<Rightarrow> string \<Rightarrow> string \<Rightarrow> db \<Rightarrow> storage_error + unit \<times> db" where
  "revoke_api_key e project_id i d =
     (let P = (\<lambda>r. key_id r = i \<and> key_project_id r = project_id)
      in if filter P (t_api_keys d) = [] then Inl SNotFound
         else Inr ((), d\<lparr>t_api_keys := update_where P (revoke_row e) (t_api_keys d)\<rparr>))"

definition db_authenticate :: "u8 list \<Rightarrow> db \<Rightarrow> auth_context option" where
  "db_authenticate hash d =
     map_option (\<lambda>r. \<lparr>ac_project_id = key_project_id r, ac_key_id = key_id r, ac_scopes = key_scopes r\<rparr>)
       (select_one (\<lambda>r. key_hash r = hash \<and> key_revoked_at r = None) (t_api_keys d))"

text \<open>\<open>coalesce((select sum(column) ...), 0)\<close>; the sum skips nulls.\<close>

definition col_sum :: "('r \<Rightarrow> bool) \<Rightarrow> ('r \<Rightarrow> int option) \<Rightarrow> 'r list \<Rightarrow> int" where
  "col_sum P c t = (\<Sum>r\<leftarrow>filter P t. case c r of Some v \<Rightarrow> v | None \<Rightarrow> 0)"

definition project_sums :: "string \<Rightarrow> db \<Rightarrow> totals" where
  "project_sums project_id d =
     \<lparr>lightning_received_msat =
        col_sum (\<lambda>r. inv_project_id r = project_id \<and> inv_status r = ''paid'') inv_amount_received_msat
          (t_invoices d),
      lightning_sent_msat =
        col_sum (\<lambda>r. pay_project_id r = project_id \<and> pay_status r = ''succeeded'')
          (\<lambda>r. Some (pay_amount_msat r)) (t_payments d),
      lightning_fees_msat =
        col_sum (\<lambda>r. pay_project_id r = project_id \<and> pay_status r = ''succeeded'') pay_fee_msat
          (t_payments d),
      lightning_in_flight_msat =
        col_sum (\<lambda>r. pay_project_id r = project_id \<and> pay_status r \<in> {''pending'', ''unknown''})
          (\<lambda>r. Some (pay_amount_msat r)) (t_payments d),
      onchain_confirmed_sat =
        col_sum (\<lambda>r. txn_project_id r = project_id \<and> txn_status r = ''confirmed'')
          (\<lambda>r. Some (txn_amount_sat r)) (t_transactions d),
      onchain_unconfirmed_sat =
        col_sum (\<lambda>r. txn_project_id r = project_id \<and> txn_status r \<noteq> ''confirmed'')
          (\<lambda>r. Some (txn_amount_sat r)) (t_transactions d)\<rparr>"

text \<open>The sums are of type \<open>numeric\<close>; the cast to \<open>bigint\<close> fails out of range.\<close>

definition project_totals :: "string \<Rightarrow> db \<Rightarrow> storage_error + totals" where
  "project_totals project_id d =
     (let t = project_sums project_id d
      in if list_all in_i64 [lightning_received_msat t, lightning_sent_msat t, lightning_fees_msat t,
              lightning_in_flight_msat t, onchain_confirmed_sat t, onchain_unconfirmed_sat t]
         then Inr t else Inl (SDatabase ''bigint out of range''))"

section \<open>The contract\<close>

interpretation create_project_op: db_op "create_project e name net" for e name net
proof
  fix d r d' assume ok: "schema_ok d" and c: "create_project e name net d = Inr (r, d')"
  have r: "d' = d\<lparr>t_projects := insert_row r (t_projects d), next_uuid := next_uuid d + 1\<rparr>"
      "prj_id r \<notin> project_ids d"
    using c by (auto simp: create_project_def fresh_id_def Let_def split: if_splits)
  then show "schema_ok d'" using ok by (simp add: schema_ok_def table_defs)
  show "evolves d d'" using r(1) by (simp add: evolves_def grows_refl grows_insert)
qed

interpretation create_key_op: db_op "create_api_key e p l s k" for e p l s k
proof
  fix d r d' assume ok: "schema_ok d" and c: "create_api_key e p l s k d = Inr (r, d')"
  have r: "d' = d\<lparr>t_api_keys := insert_row r (t_api_keys d), next_uuid := next_uuid d + 1\<rparr>"
      "key_id r \<notin> key_id ` set (t_api_keys d)" "key_hash r \<notin> key_hash ` set (t_api_keys d)"
      "key_project_id r \<in> project_ids d"
    using c by (auto simp: create_api_key_def fresh_id_def Let_def split: if_splits)
  then show "schema_ok d'" using ok by (auto simp: schema_ok_def api_keys_table_def)
  show "evolves d d'" using r(1) by (simp add: evolves_def grows_refl grows_insert)
qed

lemma revoke_row_le: "key_le r (revoke_row e r)"
  by (cases "key_revoked_at r") (auto simp: key_le_def revoke_row_def)

lemma key_le_cols: "key_le r r' \<Longrightarrow> key_id r' = key_id r \<and> key_hash r' = key_hash r
    \<and> key_project_id r' = key_project_id r \<and> key_scopes r' = key_scopes r
    \<and> (key_revoked_at r \<noteq> None \<longrightarrow> key_revoked_at r' \<noteq> None)"
  by (auto simp: key_le_def)

interpretation revoke_op: db_op "revoke_api_key e p i" for e p i
proof
  fix d r d' assume ok: "schema_ok d" and c: "revoke_api_key e p i d = Inr (r, d')"
  let ?P = "\<lambda>r :: api_key_row. key_id r = i \<and> key_project_id r = p"
  let ?t = "update_where ?P (revoke_row e) (t_api_keys d)"
  have d': "d' = d\<lparr>t_api_keys := ?t\<rparr>"
    using c by (auto simp: revoke_api_key_def Let_def split: if_splits)
  have "map key_id ?t = map key_id (t_api_keys d)" "map key_hash ?t = map key_hash (t_api_keys d)"
    using key_le_cols [OF revoke_row_le] by (auto intro!: map_update_where_same)
  then have "api_keys_table (project_ids d) ?t"
    using ok key_le_cols [OF revoke_row_le] by (auto simp: schema_ok_def api_keys_table_def set_update_where)
  then show "schema_ok d'" using ok d' schema_table(3) by blast
  show "evolves d d'" using d' by (auto intro!: evolves_table grows_update simp: revoke_row_le)
qed

section \<open>Properties\<close>

text \<open>A key authenticates exactly while it is stored and not revoked.\<close>

lemma db_authenticate_row:
  assumes "schema_ok d" and "r \<in> set (t_api_keys d)"
  shows "db_authenticate (key_hash r) d =
    (if key_revoked_at r = None
     then Some \<lparr>ac_project_id = key_project_id r, ac_key_id = key_id r, ac_scopes = key_scopes r\<rparr> else None)"
proof -
  have d: "distinct (map key_hash (t_api_keys d))" using assms(1) by (simp add: schema_ok_def api_keys_table_def)
  show ?thesis
  proof (cases "key_revoked_at r = None")
    case True
    have "select_one (\<lambda>x. key_hash x = key_hash r \<and> key_revoked_at x = None) (t_api_keys d) = Some r"
      using assms(2) True d by (intro select_one_only) (auto intro: distinct_map_eq)
    then show ?thesis using True by (simp add: db_authenticate_def)
  next
    case False
    have "select_one (\<lambda>x. key_hash x = key_hash r \<and> key_revoked_at x = None) (t_api_keys d) = None"
      using assms(2) False d distinct_map_eq [of key_hash "t_api_keys d"] unfolding select_one_None by metis
    then show ?thesis using False by (simp add: db_authenticate_def)
  qed
qed

text \<open>
  C16. A key that was created authenticates with its project and scopes, and once it is revoked its
  digest never authenticates again, however the database evolves.
\<close>

theorem api_key_lifecycle:
  assumes "schema_ok d" and "create_api_key e p l scopes k d = Inr (r, d1)"
    and "schema_ok d2" and "evolves d1 d2" and "revoke_api_key e' p (key_id r) d2 = Inr (u, d3)"
    and "schema_ok d4" and "evolves d3 d4"
  shows "db_authenticate (gk_hash k) d1
      = Some \<lparr>ac_project_id = p, ac_key_id = key_id r, ac_scopes = scopes\<rparr>
    \<and> db_authenticate (gk_hash k) d4 = None"
proof
  have r: "r \<in> set (t_api_keys d1)" "key_hash r = gk_hash k" "key_project_id r = p" "key_scopes r = scopes"
      "key_revoked_at r = None"
    using assms(2) by (auto simp: create_api_key_def fresh_id_def Let_def split: if_splits)
  have ok1: "schema_ok d1" using create_key_op.op_schema [OF assms(1,2)] .
  show "db_authenticate (gk_hash k) d1 = Some \<lparr>ac_project_id = p, ac_key_id = key_id r, ac_scopes = scopes\<rparr>"
    using db_authenticate_row [OF ok1 r(1)] r by simp
  obtain r2 where r2: "r2 \<in> set (t_api_keys d2)" "key_le r r2"
    using grows_mem [OF _ r(1)] assms(4) unfolding evolves_def by blast
  note c2 = key_le_cols [OF r2(2)]
  have "revoke_row e' r2 \<in> set (t_api_keys d3)"
    using assms(5) r2(1) c2 r(3)
    by (auto simp: revoke_api_key_def Let_def set_update_where split: if_splits intro!: image_eqI [of _ _ r2])
  moreover have "grows key_le (t_api_keys d3) (t_api_keys d4)" using assms(7) by (simp add: evolves_def)
  ultimately obtain r4 where r4: "r4 \<in> set (t_api_keys d4)" "key_le (revoke_row e' r2) r4"
    using grows_mem [of key_le "t_api_keys d3" "t_api_keys d4"] by blast
  have "key_revoked_at (revoke_row e' r2) \<noteq> None" by (simp add: revoke_row_def split: option.split)
  then have "key_revoked_at r4 \<noteq> None" "key_hash r4 = gk_hash k"
    using key_le_cols [OF r4(2)] key_le_cols [OF revoke_row_le [of r2 e']] c2 r(2) by simp_all
  then show "db_authenticate (gk_hash k) d4 = None" using db_authenticate_row [OF assms(6) r4(1)] by simp
qed

theorem api_key_lifecycle_witness:
  "\<exists>r d1 d3. create_api_key sample_env ''prj_a'' ''ci'' [''invoices:read'']
       \<lparr>gk_secret = ''x'', gk_prefix = ''x'', gk_hash = [7]\<rparr> sample_db = Inr (r, d1)
     \<and> revoke_api_key sample_env ''prj_a'' (key_id r) d1 = Inr ((), d3)
     \<and> db_authenticate [7] d1 \<noteq> None \<and> db_authenticate [7] d3 = None"
proof -
  let ?k = "\<lparr>gk_secret = ''x'', gk_prefix = ''x'', gk_hash = [7]\<rparr>"
  have "\<exists>r d1. create_api_key sample_env ''prj_a'' ''ci'' [''invoices:read''] ?k sample_db = Inr (r, d1)
      \<and> t_api_keys d1 = [r] \<and> key_project_id r = ''prj_a''"
    by (simp add: create_api_key_def sample_db_def empty_db_def fresh_id_def insert_row_def Let_def)
  then obtain r d1 where c: "create_api_key sample_env ''prj_a'' ''ci'' [''invoices:read''] ?k sample_db
      = Inr (r, d1)" "t_api_keys d1 = [r]" "key_project_id r = ''prj_a''" by blast
  then obtain d3 where v: "revoke_api_key sample_env ''prj_a'' (key_id r) d1 = Inr ((), d3)"
    by (simp add: revoke_api_key_def)
  have ok: "schema_ok d1" using create_key_op.op_schema [OF sample_schema c(1)] .
  have ok3: "schema_ok d3" using revoke_op.op_schema [OF ok v] .
  from api_key_lifecycle [OF sample_schema c(1) ok evolves_refl v ok3 evolves_refl] c(1) v
  show ?thesis by fastforce
qed

end
