(* ===== verification/Storage_Payments.thy ===== *)
theory Storage_Payments
  imports Storage_Schema
begin

text \<open>
  \<open>crates/safrod-storage/src/payments.rs\<close>: outgoing payments. \<open>begin_payment\<close> reserves an idempotency
  key, \<open>transition_payment\<close> moves a payment along the status machine and writes the event of a
  resolution in the same transaction. \<open>PaymentRecord\<close> is a \<open>payment_row\<close>; the column \<open>request_hash\<close>,
  which the record leaves out, is read in \<open>begin_payment\<close> only.
\<close>

section \<open>Types\<close>

record new_payment =
  np_id :: string
  np_project_id :: string
  np_idempotency_key :: string
  np_request_hash :: "u8 list"
  np_bolt11 :: string
  np_payment_hash :: string
  np_amount_msat :: u64
  np_metadata :: json

record begin_outcome =
  bo_payment :: payment_row
  bo_created :: bool

record resolution =
  rs_fee_msat :: "u64 option"
  rs_failure_reason :: "string option"
  rs_preimage :: "string option"

definition no_resolution :: resolution where
  "no_resolution = \<lparr>rs_fee_msat = None, rs_failure_reason = None, rs_preimage = None\<rparr>"

record transitioned =
  tr_payment :: payment_row
  tr_changed :: bool

definition payment_event_data :: "payment_row \<Rightarrow> json" where
  "payment_event_data payment =
     JObj [(''payment_id'', JStr (pay_id payment)), (''status'', JStr (pay_status payment)),
       (''amount_msat'', JInt (pay_amount_msat payment)),
       (''fee_msat'', jopt JInt (pay_fee_msat payment)),
       (''payment_hash'', JStr (pay_payment_hash payment)),
       (''failure_reason'', jopt JStr (pay_failure_reason payment)),
       (''real_regtest_lightning'', JBool True)]"

section \<open>Methods\<close>

definition begin_payment :: "env \<Rightarrow> new_payment \<Rightarrow> db \<Rightarrow> storage_error + begin_outcome \<times> db" where
  "begin_payment e new d =
     (case to_i64 (np_amount_msat new) of
        Inl err \<Rightarrow> Inl err
      | Inr amount \<Rightarrow>
          if amount \<le> 0 then Inl (SDatabase ''check amount_msat'')
          else
            (case select_one (\<lambda>r. pay_project_id r = np_project_id new
                               \<and> pay_idempotency_key r = np_idempotency_key new) (t_payments d) of
               None \<Rightarrow>
                 if np_id new \<in> set (map pay_id (t_payments d)) then Inl SConflict
                 else if np_project_id new \<notin> set (map prj_id (t_projects d))
                 then Inl (SDatabase ''foreign key'')
                 else
                   (let payment = \<lparr>pay_id = np_id new, pay_project_id = np_project_id new,
                          pay_idempotency_key = np_idempotency_key new,
                          pay_request_hash = np_request_hash new, pay_bolt11 = np_bolt11 new,
                          pay_payment_hash = np_payment_hash new, pay_amount_msat = amount,
                          pay_fee_msat = None, pay_status = ''created'', pay_failure_reason = None,
                          pay_preimage = None, pay_metadata = np_metadata new,
                          pay_created_at = env_now e, pay_updated_at = env_now e\<rparr>
                    in Inr (\<lparr>bo_payment = payment, bo_created = True\<rparr>,
                            d\<lparr>t_payments := insert_row payment (t_payments d)\<rparr>))
             | Some existing \<Rightarrow>
                 if pay_request_hash existing \<noteq> np_request_hash new then Inl SIdempotencyMismatch
                 else Inr (\<lparr>bo_payment = existing, bo_created = False\<rparr>, d)))"

definition get_payment :: "string \<Rightarrow> string \<Rightarrow> db \<Rightarrow> storage_error + payment_row" where
  "get_payment project_id i d =
     (case select_one (\<lambda>r. pay_project_id r = project_id \<and> pay_id r = i) (t_payments d) of
        None \<Rightarrow> Inl SNotFound
      | Some r \<Rightarrow> Inr r)"

definition list_payments ::
  "string \<Rightarrow> string option \<Rightarrow> int \<Rightarrow> db \<Rightarrow> storage_error + payment_row list" where
  "list_payments project_id starting_after limit d =
     (if limit < 0 then Inl (SDatabase ''limit must not be negative'')
      else Inr (page_desc (\<lambda>r. (pay_created_at r, pay_id r)) pay_id starting_after (nat limit)
             (filter (\<lambda>r. pay_project_id r = project_id) (t_payments d))))"

definition unresolved :: "payment_row \<Rightarrow> bool" where
  "unresolved r \<longleftrightarrow> pay_status r \<in> {''created'', ''pending'', ''unknown''}"

definition unresolved_payments :: "db \<Rightarrow> payment_row list" where
  "unresolved_payments d = sort_key pay_created_at (filter unresolved (t_payments d))"

definition find_unresolved_payment_by_hash :: "string \<Rightarrow> db \<Rightarrow> payment_row option" where
  "find_unresolved_payment_by_hash payment_hash d =
     (case desc_by pay_created_at
             (filter (\<lambda>r. pay_payment_hash r = payment_hash \<and> unresolved r) (t_payments d)) of
        [] \<Rightarrow> None
      | r # _ \<Rightarrow> Some r)"

text \<open>The \<open>update ... set\<close> of \<open>transition_payment\<close>: \<open>coalesce\<close> keeps a column for which no value is given.\<close>

definition resolve_row ::
  "env \<Rightarrow> payment_status \<Rightarrow> int option \<Rightarrow> resolution \<Rightarrow> payment_row \<Rightarrow> payment_row" where
  "resolve_row e next fee res r =
     r\<lparr>pay_status := payment_as_str next, pay_updated_at := env_now e,
       pay_fee_msat := (case fee of Some f \<Rightarrow> Some f | None \<Rightarrow> pay_fee_msat r),
       pay_failure_reason :=
         (case rs_failure_reason res of Some x \<Rightarrow> Some x | None \<Rightarrow> pay_failure_reason r),
       pay_preimage := (case rs_preimage res of Some x \<Rightarrow> Some x | None \<Rightarrow> pay_preimage r)\<rparr>"

definition fee_column :: "resolution \<Rightarrow> storage_error + int option" where
  "fee_column res =
     (case rs_fee_msat res of
        None \<Rightarrow> Inr None
      | Some v \<Rightarrow> (case to_i64 v of Inl err \<Rightarrow> Inl err | Inr i \<Rightarrow> Inr (Some i)))"

definition transition_payment ::
  "env \<Rightarrow> string option \<Rightarrow> string \<Rightarrow> payment_status \<Rightarrow> resolution \<Rightarrow> db
   \<Rightarrow> storage_error + transitioned \<times> db" where
  "transition_payment e dedupe_key payment_id next res d =
     (case select_one (\<lambda>r. pay_id r = payment_id) (t_payments d) of
        None \<Rightarrow> Inl SNotFound
      | Some current \<Rightarrow>
          (let (claimed, d1) =
                 (case dedupe_key of
                    None \<Rightarrow> (True, d)
                  | Some key \<Rightarrow> claim_node_event key ''payment_outcome''
                      (JObj [(''payment_id'', JStr payment_id),
                             (''status'', JStr (payment_as_str next))]) d)
           in if \<not> claimed then Inr (\<lparr>tr_payment = current, tr_changed = False\<rparr>, d)
              else
                (case payment_from_str (pay_status current) of
                   Inl _ \<Rightarrow> Inl SNotFound
                 | Inr from \<Rightarrow>
                     if from = next then Inr (\<lparr>tr_payment = current, tr_changed = False\<rparr>, d)
                     else
                       (case payment_transition from next of
                          Inl _ \<Rightarrow> Inl (SIllegalTransition (payment_as_str from) (payment_as_str next))
                        | Inr _ \<Rightarrow>
                            (case fee_column res of
                               Inl err \<Rightarrow> Inl err
                             | Inr fee \<Rightarrow>
                                 (let updated = resolve_row e next fee res current;
                                      d2 = d1\<lparr>t_payments := update_where (\<lambda>r. pay_id r = payment_id)
                                                 (resolve_row e next fee res) (t_payments d1)\<rparr>
                                  in if next \<in> {PaySucceeded, PayFailed, PayUnknown}
                                     then (case emit e (pay_project_id updated)
                                                  (''payment.'' @ payment_as_str next) (pay_id updated)
                                                  (payment_event_data updated) False d2 of
                                             Inl err \<Rightarrow> Inl err
                                           | Inr (_, d3) \<Rightarrow>
                                               Inr (\<lparr>tr_payment = updated, tr_changed = True\<rparr>, d3))
                                     else Inr (\<lparr>tr_payment = updated, tr_changed = True\<rparr>, d2)))))))"

section \<open>Lemmas\<close>

lemma to_i64_Inr: "to_i64 v = Inr i \<longleftrightarrow> unat v < 2 ^ 63 \<and> i = int (unat v)"
  by (auto simp: to_i64_def)

lemma resolve_row_fixed [simp]: "payment_fixed (resolve_row e s fee res r) = payment_fixed r"
  by (simp add: resolve_row_def payment_fixed_def)

lemma resolve_row_status [simp]: "pay_status (resolve_row e s fee res r) = payment_as_str s"
  by (simp add: resolve_row_def)

lemma payment_fixed_cols:
  "payment_fixed r' = payment_fixed r \<Longrightarrow> pay_id r' = pay_id r \<and> pay_project_id r' = pay_project_id r
     \<and> pay_idempotency_key r' = pay_idempotency_key r \<and> pay_request_hash r' = pay_request_hash r
     \<and> pay_payment_hash r' = pay_payment_hash r \<and> pay_amount_msat r' = pay_amount_msat r"
  by (simp add: payment_fixed_def)

lemma unresolved_iff:
  "payment_from_str (pay_status r) = Inr s \<Longrightarrow> unresolved r \<longleftrightarrow> \<not> payment_is_final s"
  by (cases s) (simp_all add: unresolved_def payment_is_final_def pay_text.parse_iff)

text \<open>The two ways \<open>begin_payment\<close> succeeds.\<close>

lemma begin_payment_cases:
  assumes "begin_payment e new d = Inr (out, d')"
  obtains (created) "bo_created out" "d' = d\<lparr>t_payments := insert_row (bo_payment out) (t_payments d)\<rparr>"
      "pay_status (bo_payment out) = ''created''" "pay_id (bo_payment out) = np_id new"
      "np_id new \<notin> pay_id ` set (t_payments d)" "np_project_id new \<in> project_ids d"
      "pay_project_id (bo_payment out) = np_project_id new"
      "pay_idempotency_key (bo_payment out) = np_idempotency_key new"
      "pay_request_hash (bo_payment out) = np_request_hash new"
      "pay_amount_msat (bo_payment out) = int (unat (np_amount_msat new))" "np_amount_msat new \<noteq> 0"
      "pay_bolt11 (bo_payment out) = np_bolt11 new"
      "pay_payment_hash (bo_payment out) = np_payment_hash new"
      "\<forall>r \<in> set (t_payments d). \<not> (pay_project_id r = np_project_id new
          \<and> pay_idempotency_key r = np_idempotency_key new)"
    | (replayed) "\<not> bo_created out" "d' = d" "bo_payment out \<in> set (t_payments d)"
      "pay_project_id (bo_payment out) = np_project_id new"
      "pay_idempotency_key (bo_payment out) = np_idempotency_key new"
      "pay_request_hash (bo_payment out) = np_request_hash new"
proof (cases "select_one (\<lambda>r. pay_project_id r = np_project_id new
                 \<and> pay_idempotency_key r = np_idempotency_key new) (t_payments d)")
  case None
  then have "\<forall>r \<in> set (t_payments d). \<not> (pay_project_id r = np_project_id new
      \<and> pay_idempotency_key r = np_idempotency_key new)" by (simp add: select_one_None)
  then show ?thesis
    by (intro created)
      (use assms None in \<open>auto simp: begin_payment_def Let_def to_i64_def split: if_splits\<close>)
next
  case (Some r)
  then show ?thesis using assms replayed select_one_Some [OF Some]
    by (auto simp: begin_payment_def split: sum.splits if_splits)
qed

interpretation begin_op: db_op "begin_payment e new" for e new
proof
  fix d r d' assume ok: "schema_ok d" and b: "begin_payment e new d = Inr (r, d')"
  have pt: "payments_table (project_ids d) (t_payments d)" using ok by (simp add: schema_ok_def)
  show "schema_ok d'" using b
  proof (cases rule: begin_payment_cases)
    case created
    have "payments_table (project_ids d) (insert_row (bo_payment r) (t_payments d))"
      using pt created by (auto simp: payments_table_def)
    then show ?thesis using ok created(2) schema_table(1) by simp
  qed (use ok in simp)
  show "evolves d d'" using b
    by (cases rule: begin_payment_cases) (auto intro!: evolves_table grows_insert)
qed

text \<open>
  What a successful \<open>transition_payment\<close> did: nothing, or one legal step of one payment with the
  event of a resolution.
\<close>

definition resolution_emitted ::
  "env \<Rightarrow> payment_status \<Rightarrow> payment_row \<Rightarrow> db \<Rightarrow> db \<Rightarrow> bool" where
  "resolution_emitted e next updated d2 d' \<longleftrightarrow>
     (if next \<in> {PaySucceeded, PayFailed, PayUnknown}
      then \<exists>ev. emit e (pay_project_id updated) (''payment.'' @ payment_as_str next) (pay_id updated)
             (payment_event_data updated) False d2 = Inr (ev, d')
      else d' = d2)"

lemma transition_payment_cases:
  assumes "transition_payment e key pid next res d = Inr (out, d')"
  obtains (unchanged) "\<not> tr_changed out" "d' = d" "tr_payment out \<in> set (t_payments d)"
      "pay_id (tr_payment out) = pid"
    | (moved) d1 current fr fee where "tr_changed out" "current \<in> set (t_payments d)" "pay_id current = pid"
      "payment_from_str (pay_status current) = Inr fr" "payment_can_transition_to fr next"
      "d1 = d \<or> (\<exists>k pl. key = Some k \<and> claim_node_event k ''payment_outcome'' pl d = (True, d1))"
      "tr_payment out = resolve_row e next fee res current"
      "resolution_emitted e next (tr_payment out)
         (d1\<lparr>t_payments := update_where (\<lambda>r. pay_id r = pid) (resolve_row e next fee res) (t_payments d)\<rparr>) d'"
proof (cases "select_one (\<lambda>r. pay_id r = pid) (t_payments d)")
  case None
  then show ?thesis using assms by (simp add: transition_payment_def)
next
  case (Some current)
  have c: "current \<in> set (t_payments d)" "pay_id current = pid" using select_one_Some [OF Some] by auto
  define cl where "cl = (case key of None \<Rightarrow> (True, d)
     | Some k \<Rightarrow> claim_node_event k ''payment_outcome''
        (JObj [(''payment_id'', JStr pid), (''status'', JStr (payment_as_str next))]) d)"
  obtain b d1 where cl1: "cl = (b, d1)" by (cases cl) auto
  show ?thesis
  proof (cases "b \<and> payment_from_str (pay_status current) \<noteq> Inr next")
    case False
    then have "out = \<lparr>tr_payment = current, tr_changed = False\<rparr> \<and> d' = d" using assms Some cl1
      by (cases b) (simp_all add: transition_payment_def cl_def [symmetric])
    then show ?thesis using c unchanged by simp
  next
    case True
    then obtain fr fee where f: "payment_from_str (pay_status current) = Inr fr"
        "payment_can_transition_to fr next" "fee_column res = Inr fee"
      using assms Some cl1
      by (auto simp: transition_payment_def cl_def [symmetric] payment_transition_def
          split: sum.splits if_splits)
    have t: "t_payments d1 = t_payments d"
      using cl1 unfolding cl_def by (cases key) (auto dest!: claim_tables)
    have d1: "d1 = d \<or> (\<exists>k pl. key = Some k \<and> claim_node_event k ''payment_outcome'' pl d = (True, d1))"
      using cl1 True unfolding cl_def by (cases key) auto
    have "fr \<noteq> next" using f True by auto
    then have out: "tr_payment out = resolve_row e next fee res current" "tr_changed out"
       "resolution_emitted e next (tr_payment out)
         (d1\<lparr>t_payments := update_where (\<lambda>r. pay_id r = pid) (resolve_row e next fee res) (t_payments d)\<rparr>) d'"
      using assms Some cl1 True f t
      by (auto simp: transition_payment_def cl_def [symmetric] payment_transition_def Let_def
          resolution_emitted_def split: sum.splits if_splits)
    show ?thesis by (rule moved [OF out(2) c f(1,2) d1 out(1) out(3)])
  qed
qed

lemma resolution_schema:
  "resolution_emitted e next u d2 d' \<Longrightarrow> schema_ok d2 \<Longrightarrow> schema_ok d'"
  by (auto simp: resolution_emitted_def split: if_splits dest: emit_schema)

lemma resolution_evolves: "resolution_emitted e next u d2 d' \<Longrightarrow> evolves d2 d'"
  by (auto simp: resolution_emitted_def split: if_splits dest: emit_evolves)

lemma resolution_payments: "resolution_emitted e next u d2 d' \<Longrightarrow> t_payments d' = t_payments d2"
  by (auto simp: resolution_emitted_def emitted_def split: if_splits dest!: emit_Inr)

text \<open>The update statement alone keeps the contract.\<close>

lemma resolve_step:
  assumes ok: "schema_ok d" and cur: "current \<in> set (t_payments d)"
    and st: "payment_from_str (pay_status current) = Inr fr" "payment_can_transition_to fr next"
    and d2: "d2 = d\<lparr>t_payments := update_where (\<lambda>r. pay_id r = pay_id current) (resolve_row e next fee res)
              (t_payments d)\<rparr>"
  shows "schema_ok d2 \<and> evolves d d2"
proof -
  have dist: "distinct (map pay_id (t_payments d))"
    and pt: "payments_table (project_ids d) (t_payments d)"
    using ok by (auto simp: schema_ok_def payments_table_def)
  have "payments_table (project_ids d)
      (update_where (\<lambda>r. pay_id r = pay_id current) (resolve_row e next fee res) (t_payments d))"
    by (rule payments_table_update [OF pt]) simp
  moreover have "payment_le r (resolve_row e next fee res r)"
    if "r \<in> set (t_payments d)" "pay_id r = pay_id current" for r
  proof -
    have "r = current" using that cur dist by (auto simp: distinct_map dest: inj_onD)
    then show ?thesis using payment_le_step [OF st] by simp
  qed
  ultimately show ?thesis using ok d2 by (auto intro!: schema_table evolves_table grows_update)
qed

interpretation transition_op: db_op "transition_payment e key pid next res" for e key pid "next" res
proof -
  have "schema_ok d' \<and> evolves d d'"
    if ok: "schema_ok d" and t: "transition_payment e key pid next res d = Inr (out, d')"
    for e key pid "next" res d out d'
    using t
  proof (cases rule: transition_payment_cases)
    case unchanged
    then show ?thesis using ok by simp
  next
    case (moved d1 current fr fee)
    have d1: "schema_ok d1" "evolves d d1"
      using moved(6) ok by (auto dest: claim_schema claim_evolves)
    have "t_payments d1 = t_payments d" using moved(6) by (auto dest!: claim_tables)
    note d1 = d1 this
    define d2 where "d2 = d1\<lparr>t_payments := update_where (\<lambda>r. pay_id r = pay_id current)
        (resolve_row e next fee res) (t_payments d1)\<rparr>"
    have "current \<in> set (t_payments d1)" using moved(2) d1(3) by simp
    then have "schema_ok d2 \<and> evolves d1 d2" by (rule resolve_step [OF d1(1) _ moved(4,5) d2_def])
    moreover have "resolution_emitted e next (tr_payment out) d2 d'"
      using moved(3,8) d1(3) by (simp add: d2_def)
    ultimately show ?thesis
      using d1(2) by (blast intro: resolution_schema resolution_evolves evolves_trans)
  qed
  then show "\<And>e key pid next res. db_op (transition_payment e key pid next res)"
    by unfold_locales blast+
qed

text \<open>The new rows of the outbox after a transition.\<close>

lemma resolution_outbox:
  assumes "resolution_emitted e next u d2 d'"
  shows "map ev_kind (drop (length (t_events d2)) (t_events d'))
      = (if next \<in> {PaySucceeded, PayFailed, PayUnknown} then [''payment.'' @ payment_as_str next] else [])"
    and "map dlv_endpoint_id (drop (length (t_deliveries d2)) (t_deliveries d'))
      = (if next \<in> {PaySucceeded, PayFailed, PayUnknown}
         then map whe_id (filter (\<lambda>w. whe_project_id w = pay_project_id u \<and> whe_enabled w) (t_endpoints d2))
         else [])"
  using assms
  by (auto simp: resolution_emitted_def emitted_def new_event_def outbox_endpoints fresh_id_def
      split: if_splits dest!: emit_Inr)

text \<open>A legal step always goes through when the generated identifiers are fresh.\<close>

lemma transition_total:
  assumes ok: "schema_ok d" and fresh: "events_fresh e d" and r: "r \<in> set (t_payments d)"
    and st: "payment_from_str (pay_status r) = Inr fr" "payment_can_transition_to fr next"
    and fee: "fee_column res = Inr fee"
  shows "\<exists>out d'. transition_payment e None (pay_id r) next res d = Inr (out, d') \<and> tr_changed out
           \<and> tr_payment out = resolve_row e next fee res r"
proof -
  have sel: "select_one (\<lambda>x. pay_id x = pay_id r) (t_payments d) = Some r"
    using ok r by (intro select_one_unique) (auto simp: schema_ok_def payments_table_def)
  have ne: "fr \<noteq> next" using st(2) by (cases fr) auto
  define u where "u = resolve_row e next fee res r"
  define d2 where "d2 = d\<lparr>t_payments := update_where (\<lambda>x. pay_id x = pay_id r)
      (resolve_row e next fee res) (t_payments d)\<rparr>"
  have "pay_project_id u \<in> set (map prj_id (t_projects d2))"
    using ok r by (auto simp: schema_ok_def payments_table_def u_def d2_def resolve_row_def)
  moreover have "events_fresh e d2" using fresh by (simp add: events_fresh_def d2_def)
  ultimately obtain ev d3 where "emit e (pay_project_id u) (''payment.'' @ payment_as_str next)
      (pay_id u) (payment_event_data u) False d2 = Inr (ev, d3)"
    using emit_total by blast
  then show ?thesis using sel st ne fee
    by (simp add: transition_payment_def payment_transition_def Let_def u_def d2_def)
qed

text \<open>Where a payment that was begun is found later, under its idempotency key.\<close>

lemma begun_found:
  assumes "begin_payment e new d = Inr (out, d1)" and "schema_ok d2" and "evolves d1 d2"
  shows "\<exists>r \<in> set (t_payments d2). payment_le (bo_payment out) r
    \<and> select_one (\<lambda>x. pay_project_id x = np_project_id new
        \<and> pay_idempotency_key x = np_idempotency_key new) (t_payments d2) = Some r
    \<and> pay_request_hash r = np_request_hash new"
proof -
  from assms(1) have out: "bo_payment out \<in> set (t_payments d1)"
      "pay_project_id (bo_payment out) = np_project_id new"
      "pay_idempotency_key (bo_payment out) = np_idempotency_key new"
      "pay_request_hash (bo_payment out) = np_request_hash new"
    by (cases rule: begin_payment_cases; simp)+
  have "grows payment_le (t_payments d1) (t_payments d2)" using assms(3) by (simp add: evolves_def)
  then obtain r where r: "r \<in> set (t_payments d2)" "payment_le (bo_payment out) r"
    using grows_mem [OF _ out(1)] by blast
  note cols = payment_fixed_cols [OF payment_le_fixed [OF r(2)]]
  have "distinct (map (\<lambda>r. (pay_project_id r, pay_idempotency_key r)) (t_payments d2))"
    using assms(2) by (simp add: schema_ok_def payments_table_def)
  then have "select_one (\<lambda>x. pay_project_id x = np_project_id new
      \<and> pay_idempotency_key x = np_idempotency_key new) (t_payments d2) = Some r"
    using r(1) cols out(2,3)
    by (intro select_one_only) (simp_all add: distinct_map_eq [where k = "\<lambda>r. (pay_project_id r, pay_idempotency_key r)"])
  then show ?thesis using r cols out(4) by auto
qed

text \<open>A transition answers with the payment it was asked for; one that changed nothing stays so.\<close>

lemma transition_result_id:
  "transition_payment e key pid next res d = Inr (out, d') \<Longrightarrow> pay_id (tr_payment out) = pid"
  by (erule transition_payment_cases) (simp_all add: resolve_row_def)

lemma transition_unchanged_again:
  assumes "transition_payment e key pid next res d = Inr (out, d')" and "\<not> tr_changed out"
  shows "transition_payment e' key pid next res d = Inr (out, d)"
  using assms
  by (auto simp: transition_payment_def Let_def split: option.splits prod.splits if_splits sum.splits)

section \<open>Properties\<close>

text \<open>
  An idempotency key begins at most one payment: however the database evolves after a
  successful \<open>begin_payment\<close>, a request that repeats the key with the same hash gets the stored
  payment, marked as not created, and changes nothing; with another hash it is refused.
\<close>

theorem begin_payment_once:
  assumes "schema_ok d" and "begin_payment e new d = Inr (out, d1)"
    and "schema_ok d2" and "evolves d1 d2"
    and "np_project_id retry = np_project_id new"
    and "np_idempotency_key retry = np_idempotency_key new"
    and "np_amount_msat retry \<noteq> 0" and "unat (np_amount_msat retry) < 2 ^ 63"
  shows "\<exists>r \<in> set (t_payments d2). payment_le (bo_payment out) r \<and> pay_id r = pay_id (bo_payment out)
           \<and> begin_payment e' retry d2 =
              (if np_request_hash retry = np_request_hash new
               then Inr (\<lparr>bo_payment = r, bo_created = False\<rparr>, d2) else Inl SIdempotencyMismatch)"
proof -
  obtain r where r: "r \<in> set (t_payments d2)" "payment_le (bo_payment out) r"
      "select_one (\<lambda>x. pay_project_id x = np_project_id new
        \<and> pay_idempotency_key x = np_idempotency_key new) (t_payments d2) = Some r"
      "pay_request_hash r = np_request_hash new"
    using begun_found [OF assms(2-4)] by blast
  have "pay_id r = pay_id (bo_payment out)" using payment_fixed_cols [OF payment_le_fixed [OF r(2)]] by simp
  then show ?thesis using r assms(5-8)
    by (intro bexI [of _ r]) (auto simp: begin_payment_def to_i64_def unsigned_eq_0_iff)
qed

text \<open>
  C12. A transition that reports a change moved exactly the named payment along a legal edge, and
  wrote in the same transaction one event per resolution with one delivery for every enabled
  endpoint of the project; one that reports no change left the database as it was.
\<close>

theorem transition_payment_exact:
  assumes "schema_ok d" and "transition_payment e key pid next res d = Inr (out, d')"
  shows "if tr_changed out
    then \<exists>current fr. current \<in> set (t_payments d) \<and> pay_id current = pid
        \<and> payment_from_str (pay_status current) = Inr fr \<and> payment_can_transition_to fr next
        \<and> pay_status (tr_payment out) = payment_as_str next
        \<and> payment_fixed (tr_payment out) = payment_fixed current
        \<and> t_payments d' = update_where (\<lambda>r. pay_id r = pid) (\<lambda>_. tr_payment out) (t_payments d)
        \<and> map ev_kind (drop (length (t_events d)) (t_events d'))
          = (if next \<in> {PaySucceeded, PayFailed, PayUnknown}
             then [''payment.'' @ payment_as_str next] else [])
        \<and> map dlv_endpoint_id (drop (length (t_deliveries d)) (t_deliveries d'))
          = (if next \<in> {PaySucceeded, PayFailed, PayUnknown}
             then map whe_id (filter (\<lambda>w. whe_project_id w = pay_project_id current \<and> whe_enabled w)
                    (t_endpoints d)) else [])
    else d' = d"
  using assms(2)
proof (cases rule: transition_payment_cases)
  case unchanged
  then show ?thesis by simp
next
  case (moved d1 current fr fee)
  have d1: "t_events d1 = t_events d" "t_deliveries d1 = t_deliveries d" "t_endpoints d1 = t_endpoints d"
    using moved(6) by (auto dest!: claim_tables)
  have "distinct (map pay_id (t_payments d))"
    using assms(1) by (simp add: schema_ok_def payments_table_def)
  then have "t_payments d' = update_where (\<lambda>r. pay_id r = pid) (\<lambda>_. tr_payment out) (t_payments d)"
    using resolution_payments [OF moved(8)] update_where_const [of pay_id "t_payments d" current] moved
    by simp
  moreover have "pay_project_id (tr_payment out) = pay_project_id current"
    using moved(7) by (simp add: resolve_row_def)
  ultimately show ?thesis using moved resolution_outbox [OF moved(8)] d1 by auto
qed

text \<open>A payment of 21 satoshis in the small database.\<close>

definition sample_payment :: new_payment where
  "sample_payment = \<lparr>np_id = ''pay_1'', np_project_id = ''prj_a'', np_idempotency_key = ''k'',
     np_request_hash = [1], np_bolt11 = ''lnbcrt1x'', np_payment_hash = ''h'',
     np_amount_msat = 21000, np_metadata = JObj []\<rparr>"

definition sample_begun :: "begin_outcome \<times> db" where
  "sample_begun = (case begin_payment sample_env sample_payment sample_db of
     Inr x \<Rightarrow> x | Inl _ \<Rightarrow> undefined)"

lemma sample_begun_eq: "begin_payment sample_env sample_payment sample_db = Inr sample_begun"
  by (simp add: sample_begun_def begin_payment_def sample_payment_def sample_db_def empty_db_def
      to_i64_def select_one_def Let_def)

theorem begin_payment_once_witness:
  "\<exists>r \<in> set (t_payments (snd sample_begun)). pay_id r = ''pay_1''
     \<and> begin_payment sample_env sample_payment (snd sample_begun)
       = Inr (\<lparr>bo_payment = r, bo_created = False\<rparr>, snd sample_begun)
     \<and> begin_payment sample_env (sample_payment\<lparr>np_request_hash := [2]\<rparr>) (snd sample_begun)
       = Inl SIdempotencyMismatch"
proof -
  obtain out d1 where b: "sample_begun = (out, d1)" by (cases sample_begun)
  then have eq: "begin_payment sample_env sample_payment sample_db = Inr (out, d1)"
    using sample_begun_eq by simp
  have ok: "schema_ok d1" using begin_op.op_schema [OF sample_schema eq] .
  have i: "pay_id (bo_payment out) = ''pay_1''"
    using eq by (auto simp: begin_payment_def sample_payment_def sample_db_def empty_db_def to_i64_def
        select_one_def Let_def)
  from begin_payment_once [OF sample_schema eq ok evolves_refl, of sample_payment sample_env]
    begin_payment_once [OF sample_schema eq ok evolves_refl, of "sample_payment\<lparr>np_request_hash := [2]\<rparr>" sample_env]
  show ?thesis unfolding b using i by (auto simp: sample_payment_def)
qed

theorem transition_payment_exact_witness:
  "\<exists>out d'. transition_payment sample_env None ''pay_1'' PayPending no_resolution (snd sample_begun)
      = Inr (out, d') \<and> tr_changed out \<and> pay_status (tr_payment out) = ''pending''"
proof -
  obtain out d1 where b: "sample_begun = (out, d1)" by (cases sample_begun)
  then have eq: "begin_payment sample_env sample_payment sample_db = Inr (out, d1)"
    using sample_begun_eq by simp
  have ok: "schema_ok d1" using begin_op.op_schema [OF sample_schema eq] .
  have "\<exists>out d'. transition_payment sample_env None ''pay_1'' PayPending no_resolution d1 = Inr (out, d')
      \<and> tr_changed out"
    using eq by (auto simp: begin_payment_def sample_payment_def sample_db_def empty_db_def to_i64_def
        select_one_def insert_row_def transition_payment_def payment_from_str_def
        payment_transition_def fee_column_def no_resolution_def Let_def)
  then show ?thesis using transition_payment_exact [OF ok] unfolding b by fastforce
qed

end
