(* ===== verification/Lightning_Backend.thy ===== *)
theory Lightning_Backend
  imports Core_Ids
begin

text \<open>
  \<open>crates/safrod-lightning\<close>: the types of \<open>lib.rs\<close>, the trait \<open>LightningBackend\<close> as a record of
  functions over the state of a node, and the in-memory backend of \<open>mock.rs\<close>. What the engine relies
  on is the locale \<open>lightning_backend\<close>, interpreted on the mock backend. The adapter to LDK Node
  (\<open>ldk.rs\<close>) is the theory \<open>Ldk_Backend\<close>.
\<close>

section \<open>lib.rs\<close>

datatype lightning_error =
    LnInvalidInvoice string
  | LnNetworkMismatch string string
  | LnInvoiceExpired
  | LnAmountRequired
  | LnDuplicatePayment
  | LnNoRoute
  | LnNotRunning
  | LnNode string

record ln_new_invoice =
  lni_amount_msat :: u64
  lni_description :: string
  lni_expiry_secs :: u32

record created_invoice =
  ci_bolt11 :: string
  ci_payment_hash :: string
  ci_expires_at_unix :: u64

record parsed_invoice =
  pi_payment_hash :: string
  pi_amount_msat :: "u64 option"

datatype node_payment_status = NodePending | NodeSucceeded | NodeFailed

record node_payment =
  nop_status :: node_payment_status
  nop_preimage :: "string option"
  nop_fee_msat :: "u64 option"

record node_info =
  nif_node_id :: string
  nif_network :: string
  nif_listening_addresses :: "string list"
  nif_best_block_height :: u32
  nif_running :: bool

record channel_info =
  chn_channel_id :: string
  chn_peer_node_id :: string
  chn_capacity_sat :: u64
  chn_outbound_capacity_msat :: u64
  chn_inbound_capacity_msat :: u64
  chn_is_ready :: bool
  chn_is_usable :: bool

record node_balances =
  nob_onchain_total_sat :: u64
  nob_onchain_spendable_sat :: u64
  nob_lightning_total_sat :: u64
  nob_outbound_capacity_msat :: u64
  nob_inbound_capacity_msat :: u64

datatype node_event =
    PaymentReceived string u64
  | PaymentSuccessful string "string option" "u64 option"
  | PaymentFailed "string option" string
  | ChannelReady string
  | ChannelClosed string string
  | OtherEvent string

text \<open>The trait. A method that changes the node returns its next state; \<open>payment\<close> reads its record.\<close>

record 'n backend =
  be_info :: "'n \<Rightarrow> node_info"
  be_create_invoice :: "'n \<Rightarrow> ln_new_invoice \<Rightarrow> (lightning_error + created_invoice) \<times> 'n"
  be_parse_invoice :: "'n \<Rightarrow> string \<Rightarrow> lightning_error + parsed_invoice"
  be_send_payment :: "'n \<Rightarrow> string \<Rightarrow> u64 option \<Rightarrow> (lightning_error + string) \<times> 'n"
  be_payment :: "'n \<Rightarrow> string \<Rightarrow> node_payment option"
  be_new_onchain_address :: "'n \<Rightarrow> (lightning_error + string) \<times> 'n"
  be_open_channel :: "'n \<Rightarrow> string \<Rightarrow> string \<Rightarrow> u64 \<Rightarrow> u64 option \<Rightarrow> (lightning_error + string) \<times> 'n"
  be_channels :: "'n \<Rightarrow> channel_info list"
  be_balances :: "'n \<Rightarrow> node_balances"

text \<open>
  What callers rely on: a send is accepted only for an invoice with no live record, leaves a pending
  record under the hash of the invoice and returns that hash; a record that is pending or succeeded
  survives every send; a refused send leaves nothing that may still be paid; no other call touches
  the records. A hash may have several spellings, which share their record.
\<close>

locale lightning_backend =
  fixes be :: "'n backend"
  assumes send_accepted: "be_send_payment be n b a = (Inr h, n') \<Longrightarrow>
      (\<exists>p. be_parse_invoice be n b = Inr p \<and> pi_payment_hash p = h)
      \<and> (\<forall>np. be_payment be n h = Some np \<longrightarrow> nop_status np = NodeFailed)
      \<and> (\<exists>np. be_payment be n' h = Some np \<and> nop_status np = NodePending)"
    and send_frame: "be_send_payment be n b a = (Inr h, n') \<Longrightarrow>
      be_payment be n' h' = be_payment be n h' \<or> be_payment be n' h' = be_payment be n' h"
    and send_keeps: "be_send_payment be n b a = (res, n') \<Longrightarrow> be_payment be n h' = Some np \<Longrightarrow>
      nop_status np \<noteq> NodeFailed \<Longrightarrow> be_payment be n' h' = Some np"
    and send_refused: "be_send_payment be n b a = (Inl err, n') \<Longrightarrow> be_payment be n' h' = Some np \<Longrightarrow>
      nop_status np \<noteq> NodeFailed \<Longrightarrow> be_payment be n h' = Some np"
    and create_frame: "be_create_invoice be n r = (res', n') \<Longrightarrow> be_payment be n' h' = be_payment be n h'"
    and address_frame: "be_new_onchain_address be n = (res'', n') \<Longrightarrow> be_payment be n' h' = be_payment be n h'"
    and channel_frame: "be_open_channel be n i ad cap push = (res'', n') \<Longrightarrow> be_payment be n' h' = be_payment be n h'"
begin

text \<open>The node never accepts a hash it is paying or has paid: a second send of an invoice is refused.\<close>

lemma second_send_refused:
  assumes "be_payment be n h = Some np" and "nop_status np \<noteq> NodeFailed"
    and "be_parse_invoice be n b = Inr p" and "pi_payment_hash p = h"
  shows "\<exists>err n'. be_send_payment be n b a = (Inl err, n')"
proof (cases "be_send_payment be n b a")
  case (Pair res n')
  then show ?thesis using send_accepted [of n b a _ n'] assms by (cases res) auto
qed

text \<open>A refused send gives no hash a live record.\<close>

lemma refused_not_live:
  assumes "be_send_payment be n b a = (Inl err, n')"
    and "\<forall>np. be_payment be n h = Some np \<longrightarrow> nop_status np = NodeFailed"
  shows "\<forall>np. be_payment be n' h = Some np \<longrightarrow> nop_status np = NodeFailed"
  using send_refused [OF assms(1), of h] assms(2) by blast

end

section \<open>mock.rs\<close>

record mock_state =
  mk_counter :: u64
  mk_payments :: "string \<rightharpoonup> node_payment"
  mk_fail_next_send :: "lightning_error option"

definition mock_new :: mock_state where
  "mock_new = \<lparr>mk_counter = 0, mk_payments = Map.empty, mk_fail_next_send = None\<rparr>"

definition mock_fail_next_send :: "lightning_error \<Rightarrow> mock_state \<Rightarrow> mock_state" where
  "mock_fail_next_send err s = s\<lparr>mk_fail_next_send := Some err\<rparr>"

definition mock_forget_payment :: "string \<Rightarrow> mock_state \<Rightarrow> mock_state" where
  "mock_forget_payment h s = s\<lparr>mk_payments := (mk_payments s)(h := None)\<rparr>"

definition mock_set_payment :: "string \<Rightarrow> node_payment \<Rightarrow> mock_state \<Rightarrow> mock_state" where
  "mock_set_payment h p s = s\<lparr>mk_payments := (mk_payments s)(h \<mapsto> p)\<rparr>"

text \<open>The format specifiers \<open>064x\<close> and \<open>034\<close>: zero-padded digits.\<close>

fun nat_hex :: "nat \<Rightarrow> string" where
  "nat_hex n = (if n < 16 then [hex_digit n] else nat_hex (n div 16) @ [hex_digit (n mod 16)])"

declare nat_hex.simps [simp del]

definition zero_pad :: "nat \<Rightarrow> string \<Rightarrow> string" where
  "zero_pad w s = replicate (w - length s) (CHR ''0'') @ s"

definition fake_hash :: "u64 \<Rightarrow> string" where
  "fake_hash counter = zero_pad 64 (nat_hex (unat counter))"

definition mock_info :: "mock_state \<Rightarrow> node_info" where
  "mock_info s = \<lparr>nif_node_id = ''02'' @ concat (replicate 32 ''ab''), nif_network = ''regtest'',
     nif_listening_addresses = [''127.0.0.1:0''], nif_best_block_height = 101, nif_running = True\<rparr>"

definition mock_create_invoice ::
  "mock_state \<Rightarrow> ln_new_invoice \<Rightarrow> (lightning_error + created_invoice) \<times> mock_state" where
  "mock_create_invoice s request =
     (let s1 = s\<lparr>mk_counter := mk_counter s + 1\<rparr>;
          hash = fake_hash (mk_counter s1)
      in (Inr \<lparr>ci_bolt11 = ''lnbcrt'' @ nat_digits (unat (lni_amount_msat request div 100)) @ ''n1mock'' @ hash,
               ci_payment_hash = hash, ci_expires_at_unix = 4000000000\<rparr>, s1))"

text \<open>\<open>str::split\<close> on a pattern: the text before and after its first occurrence.\<close>

fun split_once_str :: "string \<Rightarrow> string \<Rightarrow> (string \<times> string) option" where
  "split_once_str pat [] = (if pat = [] then Some ([], []) else None)"
| "split_once_str pat (x # xs) =
     (if starts_with (x # xs) pat then Some ([], drop (length pat) (x # xs))
      else case split_once_str pat xs of None \<Rightarrow> None | Some (a, b) \<Rightarrow> Some (x # a, b))"

definition first_part :: "string \<Rightarrow> string \<Rightarrow> string" where
  "first_part pat s = (case split_once_str pat s of None \<Rightarrow> s | Some (a, _) \<Rightarrow> a)"

definition second_part :: "string \<Rightarrow> string \<Rightarrow> string option" where
  "second_part pat s = (case split_once_str pat s of None \<Rightarrow> None | Some (_, b) \<Rightarrow> Some (first_part pat b))"

definition strip_suffix :: "string \<Rightarrow> string \<Rightarrow> string option" where
  "strip_suffix suf s = map_option rev (strip_prefix (rev suf) (rev s))"

definition mock_amount :: "string \<Rightarrow> u64 option" where
  "mock_amount bolt11 =
     (let head = first_part ''mock'' (drop_leading (length bolt11) [''lnbcrt''] bolt11)
      in (case strip_suffix ''n1'' head of
            None \<Rightarrow> None
          | Some digits \<Rightarrow> map_option (\<lambda>n. n * 100) (parse_u64 digits)))"

text \<open>The text of the error in \<open>map_err\<close> is the \<open>Display\<close> form of the core error, a parameter here.\<close>

definition mock_parse_invoice ::
  "(core_error \<Rightarrow> string) \<Rightarrow> mock_state \<Rightarrow> string \<Rightarrow> lightning_error + parsed_invoice" where
  "mock_parse_invoice show_err s bolt11 =
     (case second_part ''mock'' bolt11 of
        None \<Rightarrow> Inl (LnInvalidInvoice ''not a mock invoice'')
      | Some hash \<Rightarrow>
          if length hash \<noteq> 64 then Inl (LnInvalidInvoice ''not a mock invoice'')
          else
            (case check_invoice_prefix Regtest bolt11 of
               Inl e \<Rightarrow> Inl (LnInvalidInvoice (show_err e))
             | Inr _ \<Rightarrow> Inr \<lparr>pi_payment_hash = hash, pi_amount_msat = mock_amount bolt11\<rparr>))"

definition mock_send_payment ::
  "(core_error \<Rightarrow> string) \<Rightarrow> mock_state \<Rightarrow> string \<Rightarrow> u64 option
   \<Rightarrow> (lightning_error + string) \<times> mock_state" where
  "mock_send_payment show_err s bolt11 amount_msat =
     (case mock_parse_invoice show_err s bolt11 of
        Inl err \<Rightarrow> (Inl err, s)
      | Inr parsed \<Rightarrow>
          (case mk_fail_next_send s of
             Some err \<Rightarrow> (Inl err, s\<lparr>mk_fail_next_send := None\<rparr>)
           | None \<Rightarrow>
               if mk_payments s (pi_payment_hash parsed) \<noteq> None then (Inl LnDuplicatePayment, s)
               else (Inr (pi_payment_hash parsed),
                     s\<lparr>mk_payments := (mk_payments s)(pi_payment_hash parsed \<mapsto>
                         \<lparr>nop_status = NodePending, nop_preimage = None, nop_fee_msat = None\<rparr>)\<rparr>)))"

definition mock_payment :: "mock_state \<Rightarrow> string \<Rightarrow> node_payment option" where
  "mock_payment s payment_hash = mk_payments s payment_hash"

definition mock_new_onchain_address :: "mock_state \<Rightarrow> (lightning_error + string) \<times> mock_state" where
  "mock_new_onchain_address s =
     (let s1 = s\<lparr>mk_counter := mk_counter s + 1\<rparr>
      in (Inr (''bcrt1qmock'' @ zero_pad 34 (nat_digits (unat (mk_counter s1)))), s1))"

definition mock_open_channel ::
  "mock_state \<Rightarrow> string \<Rightarrow> string \<Rightarrow> u64 \<Rightarrow> u64 option \<Rightarrow> (lightning_error + string) \<times> mock_state" where
  "mock_open_channel s peer_node_id peer_address capacity_sat push_msat =
     (Inl (LnNode ''the mock backend cannot open channels''), s)"

definition mock_balances :: "mock_state \<Rightarrow> node_balances" where
  "mock_balances s = \<lparr>nob_onchain_total_sat = 0, nob_onchain_spendable_sat = 0, nob_lightning_total_sat = 0,
     nob_outbound_capacity_msat = 0, nob_inbound_capacity_msat = 0\<rparr>"

definition mock_backend :: "(core_error \<Rightarrow> string) \<Rightarrow> mock_state backend" where
  "mock_backend show_err =
     \<lparr>be_info = mock_info, be_create_invoice = mock_create_invoice,
      be_parse_invoice = mock_parse_invoice show_err, be_send_payment = mock_send_payment show_err,
      be_payment = mock_payment, be_new_onchain_address = mock_new_onchain_address,
      be_open_channel = mock_open_channel, be_channels = (\<lambda>_. []), be_balances = mock_balances\<rparr>"

section \<open>The mock backend meets the contract\<close>

lemma mock_parse_state: "mock_parse_invoice show_err s b = mock_parse_invoice show_err s' b"
  by (simp add: mock_parse_invoice_def)

interpretation mock: lightning_backend "mock_backend show_err" for show_err
proof
  fix n b a h n'
  assume "be_send_payment (mock_backend show_err) n b a = (Inr h, n')"
  then show "(\<exists>p. be_parse_invoice (mock_backend show_err) n b = Inr p \<and> pi_payment_hash p = h)
      \<and> (\<forall>np. be_payment (mock_backend show_err) n h = Some np \<longrightarrow> nop_status np = NodeFailed)
      \<and> (\<exists>np. be_payment (mock_backend show_err) n' h = Some np \<and> nop_status np = NodePending)"
    by (auto simp: mock_backend_def mock_send_payment_def mock_payment_def split: sum.splits option.splits if_splits)
qed (auto simp: mock_backend_def mock_send_payment_def mock_payment_def mock_create_invoice_def
      mock_new_onchain_address_def mock_open_channel_def Let_def split: sum.splits option.splits if_splits)

section \<open>Round trip of a mock invoice\<close>

lemma nat_hex_hexdigits: "list_all is_ascii_hexdigit (nat_hex n)"
proof (induction n rule: nat_hex.induct)
  case (1 n)
  then show ?case by (subst nat_hex.simps) (simp add: hex_digit_hexdigit)
qed

lemma nat_hex_length: "n < 16 ^ k \<Longrightarrow> 0 < k \<Longrightarrow> length (nat_hex n) \<le> k"
proof (induction k arbitrary: n)
  case (Suc k)
  show ?case
  proof (cases "n < 16")
    case True
    then show ?thesis by (subst nat_hex.simps) simp
  next
    case False
    then have "k \<noteq> 0" using Suc.prems by (cases k) auto
    moreover have "n div 16 < 16 ^ k" using Suc.prems by (simp add: less_mult_imp_div_less mult.commute)
    ultimately show ?thesis using Suc.IH [of "n div 16"] False by (subst nat_hex.simps) simp
  qed
qed simp

lemma fake_hash_shape: "length (fake_hash c) = 64" "list_all is_ascii_hexdigit (fake_hash c)"
proof -
  have "unat c < 2 ^ 64" using unsigned_less [of c] by simp
  then have "unat c < 16 ^ 64" by (rule less_le_trans) simp
  then have "length (nat_hex (unat c)) \<le> 64" by (rule nat_hex_length) simp
  then show "length (fake_hash c) = 64" by (simp add: fake_hash_def zero_pad_def)
  show "list_all is_ascii_hexdigit (fake_hash c)"
    using nat_hex_hexdigits [of "unat c"]
    by (auto simp: fake_hash_def zero_pad_def list_all_iff is_ascii_hexdigit_def is_ascii_digit_def code_def)
qed

lemma split_once_str_none:
  "pat \<noteq> [] \<Longrightarrow> hd pat \<notin> set s \<Longrightarrow> split_once_str pat s = None"
  by (induction s) (auto simp: starts_with_prefix Cons_eq_append_conv)

lemma split_once_str_append:
  "pat \<noteq> [] \<Longrightarrow> hd pat \<notin> set a \<Longrightarrow> split_once_str pat (a @ pat @ b) = Some (a, b)"
proof (induction a)
  case Nil
  then obtain p ps where "pat = p # ps" by (cases pat) auto
  then show ?case by (simp add: starts_with_def)
next
  case (Cons x xs)
  then have "\<not> starts_with (x # xs @ pat @ b) pat" by (cases pat) (auto simp: starts_with_prefix)
  then show ?case using Cons by simp
qed

lemma hexdigit_not_m: "is_ascii_hexdigit c \<Longrightarrow> c \<noteq> CHR ''m''"
  by (auto simp: is_ascii_hexdigit_def is_ascii_digit_def code_def)

lemma digit_plain: "is_ascii_digit c \<Longrightarrow> c \<noteq> CHR ''m'' \<and> c \<noteq> CHR ''l'' \<and> to_lower c = c"
  by (auto simp: is_ascii_digit_def to_lower_def code_def)

lemma hexdigit_graphic: "is_ascii_hexdigit c \<Longrightarrow> graphic c"
  by (auto simp: is_ascii_hexdigit_def is_ascii_digit_def graphic_def)

text \<open>The shape of a mock invoice.\<close>

definition mock_bolt11 :: "string \<Rightarrow> string \<Rightarrow> string" where
  "mock_bolt11 ds hash = ''lnbcrt'' @ ds @ ''n1mock'' @ hash"

lemma mock_second:
  assumes ds: "ds \<noteq> []" "list_all is_ascii_digit ds" and hash: "list_all is_ascii_hexdigit hash"
  shows "second_part ''mock'' (mock_bolt11 ds hash) = Some hash"
proof -
  have m: "CHR ''m'' \<notin> set (''lnbcrt'' @ ds @ ''n1'')" "CHR ''m'' \<notin> set hash"
    using ds(2) hash digit_plain hexdigit_not_m by (fastforce simp: list_all_iff)+
  have "split_once_str ''mock'' ((''lnbcrt'' @ ds @ ''n1'') @ ''mock'' @ hash) = Some (''lnbcrt'' @ ds @ ''n1'', hash)"
    using m(1) by (intro split_once_str_append) simp_all
  then show ?thesis using split_once_str_none [of "''mock''" hash] m(2)
    by (simp add: second_part_def first_part_def mock_bolt11_def)
qed

lemma mock_amount_digits:
  assumes ds: "ds \<noteq> []" "list_all is_ascii_digit ds" and hash: "list_all is_ascii_hexdigit hash"
  shows "mock_amount (mock_bolt11 ds hash) = map_option (\<lambda>n. n * 100) (parse_u64 ds)"
proof -
  obtain c cs where cs: "ds = c # cs" "is_ascii_digit c" using ds by (cases ds) auto
  have "\<not> starts_with (ds @ ''n1mock'' @ hash) ''lnbcrt''"
    using cs digit_plain by (auto simp: starts_with_prefix)
  then have "drop_leading n [''lnbcrt''] (ds @ ''n1mock'' @ hash) = ds @ ''n1mock'' @ hash" for n
    by (intro drop_leading_none) simp
  then have "drop_leading (length (mock_bolt11 ds hash)) [''lnbcrt''] (mock_bolt11 ds hash) = ds @ ''n1mock'' @ hash"
    by (simp add: mock_bolt11_def starts_with_def)
  moreover have "CHR ''m'' \<notin> set (ds @ ''n1'')" using ds(2) digit_plain by (fastforce simp: list_all_iff)
  then have "split_once_str ''mock'' ((ds @ ''n1'') @ ''mock'' @ hash) = Some (ds @ ''n1'', hash)"
    by (intro split_once_str_append) simp_all
  moreover have "strip_suffix ''n1'' (ds @ ''n1'') = Some ds"
    using strip_prefix_append [of "rev ''n1''" "rev ds"] by (simp add: strip_suffix_def)
  ultimately show ?thesis by (simp add: mock_amount_def first_part_def)
qed

lemma mock_trim:
  assumes ds: "ds \<noteq> []" "list_all is_ascii_digit ds" and hash: "list_all is_ascii_hexdigit hash"
  shows "trim (mock_bolt11 ds hash) = mock_bolt11 ds hash"
proof (rule trim_graphic)
  show "list_all graphic (mock_bolt11 ds hash)"
    using ds(2) hash graphic_digit hexdigit_graphic
    by (auto simp: mock_bolt11_def list_all_iff graphic_def code_def)
qed

lemma mock_prefix:
  assumes ds: "ds \<noteq> []" "list_all is_ascii_digit ds" and hash: "list_all is_ascii_hexdigit hash"
  shows "check_invoice_prefix Regtest (mock_bolt11 ds hash) = Inr ()"
proof -
  have "trim (mock_bolt11 ds hash) = mock_bolt11 ds hash" using assms by (rule mock_trim)
  moreover obtain c cs where cs: "ds = c # cs" "is_ascii_digit c" using ds by (cases ds) auto
  then have "to_ascii_lowercase (mock_bolt11 ds hash) = ''lnbcrt'' @ c # to_ascii_lowercase (cs @ ''n1mock'' @ hash)"
    using digit_plain by (simp add: mock_bolt11_def to_ascii_lowercase_def) (simp add: to_lower_def code_def)
  ultimately show ?thesis using cs(2) by (simp add: check_invoice_prefix_def invoice_for_def starts_with_def)
qed

text \<open>An invoice for 21000 msat.\<close>

definition sample_bolt11 :: string where
  "sample_bolt11 = mock_bolt11 (nat_digits 210) (fake_hash 1)"

lemma sample_bolt11_trim [simp]: "trim sample_bolt11 = sample_bolt11"
  unfolding sample_bolt11_def by (rule mock_trim) (simp_all add: nat_digits_digits fake_hash_shape)

lemma sample_bolt11_parse [simp]:
  "mock_parse_invoice show_err s sample_bolt11
   = Inr \<lparr>pi_payment_hash = fake_hash 1, pi_amount_msat = Some 21000\<rparr>"
proof -
  have d: "nat_digits 210 \<noteq> []" "list_all is_ascii_digit (nat_digits 210)"
      "list_all is_ascii_hexdigit (fake_hash 1)" "length (fake_hash 1) = 64"
    by (simp_all add: nat_digits_digits fake_hash_shape)
  have "parse_u64 (nat_digits 210) = Some 210" using parse_u64_nat_digits [of 210] by simp
  then show ?thesis
    using mock_second [OF d(1-3)] mock_prefix [OF d(1-3)] mock_amount_digits [OF d(1-3)] d(4)
    by (simp add: mock_parse_invoice_def sample_bolt11_def)
qed

text \<open>
  A mock invoice reads back as it was made: parsing what \<open>create_invoice\<close> printed gives its
  payment hash and the amount rounded down to the 100 msat the format can carry.
\<close>

theorem mock_invoice_roundtrip:
  "\<exists>ci s'. mock_create_invoice s request = (Inr ci, s')
     \<and> mock_parse_invoice show_err s' (ci_bolt11 ci)
       = Inr \<lparr>pi_payment_hash = ci_payment_hash ci,
              pi_amount_msat = Some (lni_amount_msat request div 100 * 100)\<rparr>"
proof -
  define h where "h = fake_hash (mk_counter s + 1)"
  define w where "w = lni_amount_msat request div 100"
  have d: "nat_digits (unat w) \<noteq> []" "list_all is_ascii_digit (nat_digits (unat w))"
    using nat_digits_digits by simp_all
  have h: "list_all is_ascii_hexdigit h" "length h = 64" using fake_hash_shape by (simp_all add: h_def)
  have "mock_parse_invoice show_err s' (mock_bolt11 (nat_digits (unat w)) h)
      = Inr \<lparr>pi_payment_hash = h, pi_amount_msat = Some (w * 100)\<rparr>" for s'
    using mock_second [OF d h(1)] mock_prefix [OF d h(1)] mock_amount_digits [OF d h(1)] h(2)
    by (simp add: mock_parse_invoice_def parse_u64_nat_digits)
  then show ?thesis
    by (simp add: mock_create_invoice_def mock_bolt11_def h_def w_def Let_def)
qed

end
