(* ===== verification/Api_Base.thy ===== *)
theory Api_Base
  imports Storage_Projects Storage_Payments Lightning_Backend
begin

text \<open>
  \<open>crates/safrod-api\<close>: the error bodies of \<open>error.rs\<close>, the authentication of \<open>auth.rs\<close>, and the header,
  paging and rendering helpers of \<open>json.rs\<close>. A header is looked up by name; a value whose bytes are not
  text is \<open>Some None\<close>. SHA-256 is a parameter.
\<close>

section \<open>error.rs\<close>

record api_error =
  ae_status :: nat
  ae_code :: string
  ae_message :: string

definition api_new :: "nat \<Rightarrow> string \<Rightarrow> string \<Rightarrow> api_error" where
  "api_new status c message = \<lparr>ae_status = status, ae_code = c, ae_message = message\<rparr>"

definition api_validation :: "string \<Rightarrow> api_error" where
  "api_validation message = api_new 422 ''validation_error'' message"

definition api_bad_request :: "string \<Rightarrow> string \<Rightarrow> api_error" where
  "api_bad_request c message = api_new 400 c message"

definition api_unauthorized :: api_error where
  "api_unauthorized = api_new 401 ''unauthorized'' ''missing or invalid API key''"

definition api_forbidden :: "string \<Rightarrow> api_error" where
  "api_forbidden message = api_new 403 ''forbidden'' message"

definition api_not_found :: "string \<Rightarrow> api_error" where
  "api_not_found what = api_new 404 ''not_found'' (what @ '' not found'')"

definition api_conflict :: "string \<Rightarrow> string \<Rightarrow> api_error" where
  "api_conflict c message = api_new 409 c message"

definition api_unavailable :: "string \<Rightarrow> api_error" where
  "api_unavailable message = api_new 503 ''service_unavailable'' message"

definition api_internal :: api_error where
  "api_internal = api_new 500 ''internal_error'' ''internal error; quote the request id when reporting it''"

definition error_response :: "string \<Rightarrow> api_error \<Rightarrow> nat \<times> json" where
  "error_response request_id err =
     (ae_status err, JObj [(''error'', JObj [(''code'', JStr (ae_code err)),
        (''message'', JStr (ae_message err)), (''request_id'', JStr request_id)])])"

fun api_of_storage :: "storage_error \<Rightarrow> api_error" where
  "api_of_storage SNotFound = api_not_found ''resource''"
| "api_of_storage SConflict = api_conflict ''conflict'' ''resource already exists''"
| "api_of_storage SIdempotencyMismatch = api_conflict ''idempotency_key_reused''
     ''this Idempotency-Key was already used with different parameters''"
| "api_of_storage (SIllegalTransition s t) =
     api_conflict ''invalid_state'' (''cannot move from '' @ s @ '' to '' @ t)"
| "api_of_storage SInsufficientBalance = api_new 422 ''insufficient_simulated_balance''
     ''the simulated balance is too low for this payout''"
| "api_of_storage SAmountOutOfRange = api_validation ''amount is out of range''"
| "api_of_storage (SDatabase _) = api_internal"

fun api_of_lightning :: "lightning_error \<Rightarrow> api_error" where
  "api_of_lightning (LnInvalidInvoice _) = api_new 422 ''invalid_invoice'' ''the invoice could not be parsed''"
| "api_of_lightning (LnNetworkMismatch expected found) = api_new 422 ''network_mismatch''
     (''invoice is for '' @ found @ '' but this node runs on '' @ expected)"
| "api_of_lightning LnInvoiceExpired = api_new 422 ''invoice_expired'' ''the invoice has expired''"
| "api_of_lightning LnAmountRequired = api_new 422 ''amount_required''
     ''the invoice has no amount; supply amount_msat''"
| "api_of_lightning LnDuplicatePayment = api_conflict ''duplicate_payment''
     ''this invoice is already being paid or was already paid''"
| "api_of_lightning LnNoRoute = api_new 422 ''no_route''
     ''insufficient outbound liquidity or no route to the destination''"
| "api_of_lightning LnNotRunning = api_unavailable ''the lightning node is not running''"
| "api_of_lightning (LnNode _) = api_unavailable ''the lightning node reported an error''"

section \<open>lib.rs\<close>

record api_config =
  cfg_network :: network
  cfg_admin_token :: "string option"
  cfg_webhook_allow_private :: bool
  cfg_default_confirmations :: int
  cfg_enable_dev_endpoints :: bool

text \<open>
  \<open>AppState\<close>: the database, the node behind the backend, and the configuration. The chain client is
  modelled with the chain watcher.
\<close>

record 'n app =
  app_db :: db
  app_node :: 'n

type_synonym headers = "string \<Rightarrow> string option option"

section \<open>auth.rs\<close>

definition authenticate :: "(string \<Rightarrow> u8 list) \<Rightarrow> db \<Rightarrow> headers \<Rightarrow> api_error + auth_context" where
  "authenticate sha256 d headers =
     (case headers ''authorization'' of
        Some (Some value) \<Rightarrow>
          (case strip_prefix ''Bearer '' value of
             None \<Rightarrow> Inl api_unauthorized
           | Some rest \<Rightarrow>
               (let token = trim rest
                in (case looks_like_key token of
                      Inl _ \<Rightarrow> Inl api_unauthorized
                    | Inr _ \<Rightarrow>
                        (case db_authenticate (hash_secret sha256 token) d of
                           None \<Rightarrow> Inl api_unauthorized
                         | Some ctx \<Rightarrow> Inr ctx))))
      | _ \<Rightarrow> Inl api_unauthorized)"

definition authorize :: "(string \<Rightarrow> u8 list) \<Rightarrow> db \<Rightarrow> headers \<Rightarrow> scope \<Rightarrow> api_error + auth_context" where
  "authorize sha256 d headers scope =
     (case authenticate sha256 d headers of
        Inl err \<Rightarrow> Inl err
      | Inr ctx \<Rightarrow>
          if scope_as_str scope \<in> set (ac_scopes ctx) then Inr ctx
          else Inl (api_forbidden (''this API key lacks the '' @ scope_as_str scope @ '' scope'')))"

definition require_admin :: "(string \<Rightarrow> u8 list) \<Rightarrow> api_config \<Rightarrow> headers \<Rightarrow> api_error + unit" where
  "require_admin sha256 config headers =
     (case cfg_admin_token config of
        None \<Rightarrow> Inl (api_forbidden ''the admin API is disabled on this node'')
      | Some expected \<Rightarrow>
          (case headers ''x-admin-token'' of
             Some (Some provided) \<Rightarrow>
               if sha256 expected = sha256 provided then Inr ()
               else Inl (api_forbidden ''admin token required'')
           | _ \<Rightarrow> Inl (api_forbidden ''admin token required'')))"

section \<open>json.rs\<close>

definition idempotency_key :: "headers \<Rightarrow> bool \<Rightarrow> api_error + string option" where
  "idempotency_key headers required =
     (case headers ''idempotency-key'' of
        None \<Rightarrow>
          if required then Inl (api_bad_request ''idempotency_key_required''
                                  ''an Idempotency-Key header is required'')
          else Inr None
      | Some None \<Rightarrow> Inl (api_bad_request ''invalid_idempotency_key'' ''Idempotency-Key must be ascii'')
      | Some (Some value) \<Rightarrow>
          (let key = trim value
           in if key = [] \<or> length key > 255
              then Inl (api_bad_request ''invalid_idempotency_key''
                          ''Idempotency-Key must be 1 to 255 characters'')
              else Inr (Some key)))"

definition created_response :: "bool \<Rightarrow> json \<Rightarrow> nat \<times> json" where
  "created_response created body = (if created then 201 else 200, body)"

definition ok_response :: "json \<Rightarrow> nat \<times> json" where
  "ok_response body = (200, body)"

definition page_from_query :: "int option \<Rightarrow> api_error + int" where
  "page_from_query limit =
     (case limit of
        None \<Rightarrow> Inr 20
      | Some n \<Rightarrow>
          if 1 \<le> n \<and> n \<le> 100 then Inr n else Inl (api_validation ''limit must be between 1 and 100''))"

definition page_fetch :: "int \<Rightarrow> int" where
  "page_fetch limit = limit + 1"

definition page_wrap :: "int \<Rightarrow> 'r list \<Rightarrow> ('r \<Rightarrow> json) \<Rightarrow> ('r \<Rightarrow> string) \<Rightarrow> json" where
  "page_wrap limit rows to_json id_of =
     (let has_more = int (length rows) > limit;
          rows = take (nat limit) rows;
          next_cursor = (if has_more then (if rows = [] then None else Some (id_of (last rows))) else None)
      in JObj [(''object'', JStr ''list''), (''data'', JArr (map to_json rows)),
               (''has_more'', JBool has_more), (''next_cursor'', jopt JStr next_cursor)])"

definition json_invoice :: "invoice_row \<Rightarrow> json" where
  "json_invoice r =
     JObj [(''object'', JStr ''lightning_invoice''), (''id'', JStr (inv_id r)),
       (''status'', JStr (inv_status r)), (''amount_msat'', JInt (inv_amount_msat r)),
       (''description'', JStr (inv_description r)), (''bolt11'', JStr (inv_bolt11 r)),
       (''payment_hash'', JStr (inv_payment_hash r)), (''expires_at'', JTime (inv_expires_at r)),
       (''paid_at'', jopt JTime (inv_paid_at r)),
       (''amount_received_msat'', jopt JInt (inv_amount_received_msat r)),
       (''metadata'', inv_metadata r), (''created_at'', JTime (inv_created_at r)),
       (''real_regtest_lightning'', JBool True), (''simulated'', JBool False)]"

definition json_payment :: "payment_row \<Rightarrow> bool \<Rightarrow> json" where
  "json_payment r reveal_preimage =
     JObj [(''object'', JStr ''lightning_payment''), (''id'', JStr (pay_id r)),
       (''status'', JStr (pay_status r)), (''amount_msat'', JInt (pay_amount_msat r)),
       (''fee_msat'', jopt JInt (pay_fee_msat r)), (''bolt11'', JStr (pay_bolt11 r)),
       (''payment_hash'', JStr (pay_payment_hash r)),
       (''preimage'', jopt JStr (if reveal_preimage then pay_preimage r else None)),
       (''failure_reason'', jopt JStr (pay_failure_reason r)), (''metadata'', pay_metadata r),
       (''created_at'', JTime (pay_created_at r)), (''updated_at'', JTime (pay_updated_at r)),
       (''real_regtest_lightning'', JBool True), (''simulated'', JBool False)]"

definition json_address :: "address_row \<Rightarrow> json" where
  "json_address r =
     JObj [(''object'', JStr ''bitcoin_address''), (''id'', JStr (adr_id r)),
       (''address'', JStr (adr_address r)), (''label'', JStr (adr_label r)),
       (''required_confirmations'', JInt (adr_required_confirmations r)),
       (''created_at'', JTime (adr_created_at r))]"

definition json_onchain_tx :: "transaction_row \<Rightarrow> string \<Rightarrow> json" where
  "json_onchain_tx r address =
     JObj [(''object'', JStr ''bitcoin_transaction''), (''id'', JStr (txn_id r)),
       (''address_id'', JStr (txn_address_id r)), (''address'', JStr address),
       (''txid'', JStr (txn_txid r)), (''vout'', JInt (txn_vout r)),
       (''amount_sat'', JInt (txn_amount_sat r)), (''confirmations'', JInt (txn_confirmations r)),
       (''block_height'', jopt JInt (txn_block_height r)), (''status'', JStr (txn_status r)),
       (''first_seen_at'', JTime (txn_first_seen_at r)), (''updated_at'', JTime (txn_updated_at r)),
       (''simulated'', JBool False)]"

definition json_event :: "event_row \<Rightarrow> json" where
  "json_event r =
     JObj [(''object'', JStr ''event''), (''id'', JStr (ev_id r)), (''seq'', JInt (ev_seq r)),
       (''type'', JStr (ev_kind r)), (''resource_id'', JStr (ev_resource_id r)), (''data'', ev_data r),
       (''simulated'', JBool (ev_simulated r)), (''created_at'', JTime (ev_created_at r))]"

definition json_endpoint :: "endpoint_row \<Rightarrow> json" where
  "json_endpoint r =
     JObj [(''object'', JStr ''webhook_endpoint''), (''id'', JStr (whe_id r)), (''url'', JStr (whe_url r)),
       (''enabled'', JBool (whe_enabled r)), (''created_at'', JTime (whe_created_at r))]"

definition json_delivery :: "delivery_row \<Rightarrow> json" where
  "json_delivery r =
     JObj [(''object'', JStr ''webhook_delivery''), (''id'', JStr (dlv_id r)),
       (''event_seq'', JInt (dlv_event_seq r)), (''endpoint_id'', JStr (dlv_endpoint_id r)),
       (''status'', JStr (dlv_status r)), (''attempts'', JInt (dlv_attempts r)),
       (''next_attempt_at'', JTime (dlv_next_attempt_at r)), (''last_status'', jopt JInt (dlv_last_status r)),
       (''last_error'', jopt JStr (dlv_last_error r)), (''delivered_at'', jopt JTime (dlv_delivered_at r)),
       (''created_at'', JTime (dlv_created_at r))]"

definition json_quote :: "quote_row \<Rightarrow> json" where
  "json_quote r =
     JObj [(''object'', JStr ''sandbox_quote''), (''id'', JStr (qte_id r)), (''status'', JStr (qte_status r)),
       (''source'', JObj [(''currency'', JStr (qte_source_currency r)), (''minor_units'', JInt (qte_source_minor r))]),
       (''target'', JObj [(''currency'', JStr (qte_target_currency r)), (''minor_units'', JInt (qte_target_minor r))]),
       (''rate_ppm'', JInt (qte_rate_ppm r)), (''btc_amount_msat'', JInt (qte_btc_amount_msat r)),
       (''expires_at'', JTime (qte_expires_at r)), (''created_at'', JTime (qte_created_at r)),
       (''simulated_fiat'', JBool True), (''real_regtest_lightning'', JBool False)]"

definition json_payout :: "payout_row \<Rightarrow> json" where
  "json_payout r =
     JObj [(''object'', JStr ''sandbox_payout''), (''id'', JStr (pot_id r)), (''quote_id'', JStr (pot_quote_id r)),
       (''status'', JStr (pot_status r)), (''scenario'', JStr (pot_scenario r)),
       (''payment_id'', jopt JStr (pot_payment_id r)), (''created_at'', JTime (pot_created_at r)),
       (''updated_at'', JTime (pot_updated_at r)), (''simulated_fiat'', JBool True),
       (''real_regtest_lightning'', JBool (pot_payment_id r \<noteq> None))]"

section \<open>Following the pages\<close>

text \<open>One page of payments as the client gets it, and a client that follows the cursors.\<close>

definition payments_page :: "db \<Rightarrow> string \<Rightarrow> int \<Rightarrow> (payment_row \<Rightarrow> json) \<Rightarrow> string option \<Rightarrow> json option" where
  "payments_page d p limit to_json cursor =
     (case list_payments p cursor (page_fetch limit) d of
        Inl _ \<Rightarrow> None
      | Inr rows \<Rightarrow> Some (page_wrap limit rows to_json pay_id))"

fun page_data :: "json \<Rightarrow> json list" where
  "page_data (JObj fs) = (case map_of fs ''data'' of Some (JArr xs) \<Rightarrow> xs | _ \<Rightarrow> [])"
| "page_data _ = []"

fun page_next :: "json \<Rightarrow> string option" where
  "page_next (JObj fs) = (case map_of fs ''next_cursor'' of Some (JStr c) \<Rightarrow> Some c | _ \<Rightarrow> None)"
| "page_next _ = None"

fun follow_pages :: "nat \<Rightarrow> (string option \<Rightarrow> json option) \<Rightarrow> string option \<Rightarrow> json list option" where
  "follow_pages 0 get cursor = None"
| "follow_pages (Suc n) get cursor =
     (case get cursor of
        None \<Rightarrow> None
      | Some page \<Rightarrow>
          (case page_next page of
             None \<Rightarrow> Some (page_data page)
           | Some c \<Rightarrow> map_option (\<lambda>rest. page_data page @ rest) (follow_pages n get (Some c))))"

definition cursor_at :: "payment_row list \<Rightarrow> nat \<Rightarrow> string option" where
  "cursor_at rows k = (if k = 0 then None else Some (pay_id (rows ! (k - 1))))"

lemma list_payments_at:
  assumes "1 \<le> limit" and "distinct (map pay_id (filter (\<lambda>r. pay_project_id r = p) (t_payments d)))"
    and "rows = desc_by (\<lambda>r. (pay_created_at r, pay_id r)) (filter (\<lambda>r. pay_project_id r = p) (t_payments d))"
    and "k \<le> length rows"
  shows "list_payments p (cursor_at rows k) (page_fetch limit) d = Inr (take (nat limit + 1) (drop k rows))"
proof -
  let ?t = "filter (\<lambda>r. pay_project_id r = p) (t_payments d)"
  have "distinct (map (\<lambda>r. (pay_created_at r, pay_id r)) ?t)"
    using assms(2) by (auto simp: distinct_map inj_on_def)
  then have "page_desc (\<lambda>r. (pay_created_at r, pay_id r)) pay_id (cursor_at rows k) n ?t = take n (drop k rows)" for n
    using assms(2-4) page_desc_next [of pay_id ?t "\<lambda>r. (pay_created_at r, pay_id r)" "k - 1" n]
    by (cases k) (simp_all add: cursor_at_def page_desc_def)
  then show ?thesis using assms(1) by (simp add: list_payments_def page_fetch_def nat_add_distrib)
qed

lemma list_payments_other:
  assumes "1 \<le> limit" and "c \<notin> pay_id ` {r \<in> set (t_payments d). pay_project_id r = p}"
  shows "list_payments p (Some c) (page_fetch limit) d = Inr []"
proof -
  have "select_one (\<lambda>r. pay_id r = c) (filter (\<lambda>r. pay_project_id r = p) (t_payments d)) = None"
    using assms(2) by (auto simp: select_one_None)
  then show ?thesis using assms(1) by (simp add: list_payments_def page_fetch_def page_desc_def)
qed

lemma page_wrap_at:
  assumes "1 \<le> limit"
  shows "page_wrap limit (take (nat limit + 1) (drop k rows)) to_json id_of
      = JObj [(''object'', JStr ''list''), (''data'', JArr (map to_json (take (nat limit) (drop k rows)))),
          (''has_more'', JBool (k + nat limit < length rows)),
          (''next_cursor'', if k + nat limit < length rows then JStr (id_of (rows ! (k + nat limit - 1))) else JNull)]"
proof -
  have more: "int (length (take (nat limit + 1) (drop k rows))) > limit \<longleftrightarrow> k + nat limit < length rows"
    using assms by auto
  have take: "take (nat limit) (take (nat limit + 1) (drop k rows)) = take (nat limit) (drop k rows)"
    by (simp add: min_def)
  have "last (take (nat limit) (drop k rows)) = rows ! (k + nat limit - 1)"
    and "take (nat limit) (drop k rows) \<noteq> []" if "k + nat limit < length rows"
    using assms that by (auto simp: last_conv_nth min_def Suc_leI)
  then show ?thesis using more take by (auto simp: page_wrap_def Let_def jopt_def simp del: take_take)
qed

lemma payments_pages:
  assumes "1 \<le> limit" and "distinct (map pay_id (filter (\<lambda>r. pay_project_id r = p) (t_payments d)))"
    and "rows = desc_by (\<lambda>r. (pay_created_at r, pay_id r)) (filter (\<lambda>r. pay_project_id r = p) (t_payments d))"
    and "k \<le> length rows"
  shows "list_payments p (if k = 0 then None else Some (pay_id (rows ! (k - 1)))) (page_fetch limit) d
      = Inr (take (nat limit + 1) (drop k rows))
    \<and> page_wrap limit (take (nat limit + 1) (drop k rows)) to_json pay_id
      = JObj [(''object'', JStr ''list''), (''data'', JArr (map to_json (take (nat limit) (drop k rows)))),
          (''has_more'', JBool (k + nat limit < length rows)),
          (''next_cursor'', if k + nat limit < length rows then JStr (pay_id (rows ! (k + nat limit - 1))) else JNull)]"
  by (rule conjI [OF list_payments_at [OF assms, unfolded cursor_at_def] page_wrap_at [OF assms(1)]])

lemma follow_payments:
  assumes "1 \<le> limit" and "distinct (map pay_id (filter (\<lambda>r. pay_project_id r = p) (t_payments d)))"
    and "rows = desc_by (\<lambda>r. (pay_created_at r, pay_id r)) (filter (\<lambda>r. pay_project_id r = p) (t_payments d))"
    and "length rows < n"
  shows "follow_pages n (payments_page d p limit to_json) None = Some (map to_json rows)"
proof -
  have "follow_pages m (payments_page d p limit to_json) (cursor_at rows k) = Some (map to_json (drop k rows))"
    if "k \<le> length rows" "length rows - k < m" for m k
    using that
  proof (induction m arbitrary: k)
    case (Suc m)
    let ?page = "JObj [(''object'', JStr ''list''), (''data'', JArr (map to_json (take (nat limit) (drop k rows)))),
      (''has_more'', JBool (k + nat limit < length rows)),
      (''next_cursor'', if k + nat limit < length rows then JStr (pay_id (rows ! (k + nat limit - 1))) else JNull)]"
    have page: "payments_page d p limit to_json (cursor_at rows k) = Some ?page"
      unfolding payments_page_def list_payments_at [OF assms(1-3) Suc.prems(1)] sum.case
        page_wrap_at [OF assms(1)] by (rule refl)
    have data: "page_data ?page = map to_json (take (nat limit) (drop k rows))" by simp
    show ?case
    proof (cases "k + nat limit < length rows")
      case True
      have "cursor_at rows (k + nat limit) = Some (pay_id (rows ! (k + nat limit - 1)))"
        using assms(1) by (simp add: cursor_at_def)
      then have "page_next ?page = cursor_at rows (k + nat limit)"
        and c: "cursor_at rows (k + nat limit) \<noteq> None" using True by simp_all
      moreover have "follow_pages m (payments_page d p limit to_json) (cursor_at rows (k + nat limit))
          = Some (map to_json (drop (k + nat limit) rows))"
        using True Suc.prems assms(1) by (intro Suc.IH) auto
      moreover have "map to_json (take (nat limit) (drop k rows)) @ map to_json (drop (k + nat limit) rows)
          = map to_json (drop k rows)"
        by (metis append_take_drop_id drop_drop add.commute map_append)
      ultimately show ?thesis unfolding follow_pages.simps page option.case data by fastforce
    next
      case False
      then have "page_next ?page = None" "take (nat limit) (drop k rows) = drop k rows" by simp_all
      then show ?thesis unfolding follow_pages.simps page option.case data by simp
    qed
  qed simp
  from this [of 0 n] show ?thesis using assms(4) by (simp add: cursor_at_def)
qed

section \<open>Properties\<close>

text \<open>
  C17. Authorization is sound: a request that passes for a scope carried a bearer token whose digest
  is stored for a key that is not revoked and lists that scope, and it acts for that key's project.
\<close>

theorem authorize_sound:
  assumes "authorize sha256 d headers scope = Inr ctx"
  shows "\<exists>token r. headers ''authorization'' = Some (Some (''Bearer '' @ token))
    \<and> looks_like_key (trim token) = Inr ()
    \<and> r \<in> set (t_api_keys d) \<and> key_hash r = sha256 (trim token) \<and> key_revoked_at r = None
    \<and> scope_as_str scope \<in> set (key_scopes r)
    \<and> ctx = \<lparr>ac_project_id = key_project_id r, ac_key_id = key_id r, ac_scopes = key_scopes r\<rparr>"
proof -
  have a: "authenticate sha256 d headers = Inr ctx" "scope_as_str scope \<in> set (ac_scopes ctx)"
    using assms by (auto simp: authorize_def split: sum.splits if_splits)
  then obtain token where t: "headers ''authorization'' = Some (Some (''Bearer '' @ token))"
      "looks_like_key (trim token) = Inr ()" "db_authenticate (hash_secret sha256 (trim token)) d = Some ctx"
    by (auto simp: authenticate_def Let_def strip_prefix_Some split: option.splits sum.splits)
  then obtain r where r: "select_one (\<lambda>r. key_hash r = sha256 (trim token) \<and> key_revoked_at r = None) (t_api_keys d) = Some r"
      "ctx = \<lparr>ac_project_id = key_project_id r, ac_key_id = key_id r, ac_scopes = key_scopes r\<rparr>"
    by (auto simp: db_authenticate_def hash_secret_def)
  show ?thesis using t a(2) r select_one_Some [OF r(1)] by auto
qed

text \<open>
  C18. Paging is exact and complete, from the first page to the last. The listing of a project's
  payments holds each of them once, newest first. The page after the first \<open>k\<close> rows of the listing,
  asked for without a cursor when \<open>k\<close> is 0 and with the id of the last of those rows otherwise, holds the
  next \<open>limit\<close> rows, \<open>has_more\<close> says whether rows remain, and \<open>next_cursor\<close> is the id of the last row of the
  page when they do and null otherwise; storage is asked for one row more than the page. A cursor that
  is no payment of the project answers an empty listing. A client that starts without a cursor and
  follows \<open>next_cursor\<close> until it is null gets the whole listing, without gap or repetition.
\<close>

theorem list_payments_paging:
  assumes "schema_ok d" and "page_from_query q = Inr limit"
    and "rows = desc_by (\<lambda>r. (pay_created_at r, pay_id r)) (filter (\<lambda>r. pay_project_id r = p) (t_payments d))"
  shows "set rows = {r \<in> set (t_payments d). pay_project_id r = p} \<and> distinct rows
    \<and> sorted_wrt (\<lambda>a b. (pay_created_at b, pay_id b) < (pay_created_at a, pay_id a)) rows
    \<and> (\<forall>k \<le> length rows.
         list_payments p (if k = 0 then None else Some (pay_id (rows ! (k - 1)))) (page_fetch limit) d
           = Inr (take (nat limit + 1) (drop k rows))
         \<and> page_wrap limit (take (nat limit + 1) (drop k rows)) to_json pay_id
           = JObj [(''object'', JStr ''list''), (''data'', JArr (map to_json (take (nat limit) (drop k rows)))),
               (''has_more'', JBool (k + nat limit < length rows)),
               (''next_cursor'', if k + nat limit < length rows then JStr (pay_id (rows ! (k + nat limit - 1)))
                                 else JNull)])
    \<and> (\<forall>c. c \<notin> pay_id ` set rows \<longrightarrow> list_payments p (Some c) (page_fetch limit) d = Inr [])
    \<and> (\<forall>n > length rows. follow_pages n (payments_page d p limit to_json) None = Some (map to_json rows))"
proof -
  let ?t = "filter (\<lambda>r. pay_project_id r = p) (t_payments d)"
  have l: "1 \<le> limit" using assms(2) by (auto simp: page_from_query_def split: option.splits if_splits)
  have d: "distinct (map pay_id ?t)"
    using assms(1) by (auto simp: schema_ok_def payments_table_def intro: distinct_map_filter)
  then have k: "distinct (map (\<lambda>r. (pay_created_at r, pay_id r)) ?t)"
    by (auto simp: distinct_map inj_on_def)
  have "distinct (map pay_id (t_payments d))" using assms(1) by (simp add: schema_ok_def payments_table_def)
  moreover note desc_by_strict [OF k]
  ultimately show ?thesis
    using assms(3) d l payments_pages [OF l d assms(3)] follow_payments [OF l d assms(3)]
    by (auto simp: desc_by_def distinct_map list_payments_other)
qed

definition sample_keys :: db where
  "sample_keys = sample_db\<lparr>t_api_keys := [\<lparr>key_id = ''key_1'', key_project_id = ''prj_a'', key_label = ''ci'',
     key_prefix = ''sfd_ci'', key_hash = [7], key_scopes = [''events:read''], key_revoked_at = None,
     key_created_at = 0\<rparr>]\<rparr>"

definition sample_headers :: headers where
  "sample_headers name = (if name = ''authorization'' then Some (Some ''Bearer sfd_x'') else None)"

text \<open>SHA-256 replaced by a function that maps every text to one byte, its length.\<close>

theorem authorize_sound_witness:
  "authorize (\<lambda>s. [of_nat (length s) + 2]) sample_keys sample_headers EventsRead
     = Inr \<lparr>ac_project_id = ''prj_a'', ac_key_id = ''key_1'', ac_scopes = [''events:read'']\<rparr>
   \<and> (\<exists>r \<in> set (t_api_keys sample_keys). key_revoked_at r = None \<and> ''events:read'' \<in> set (key_scopes r))"
proof -
  have t: "trim ''sfd_x'' = ''sfd_x''" by (rule trim_graphic) (simp add: graphic_def code_def)
  have s: "strip_prefix ''Bearer '' ''Bearer sfd_x'' = Some ''sfd_x''"
    by (simp add: strip_prefix_def starts_with_def)
  have k: "looks_like_key ''sfd_x'' = Inr ()"
    by (simp add: looks_like_key_def starts_with_def is_ascii_byte_def code_def)
  have a: "authorize (\<lambda>s. [of_nat (length s) + 2]) sample_keys sample_headers EventsRead
     = Inr \<lparr>ac_project_id = ''prj_a'', ac_key_id = ''key_1'', ac_scopes = [''events:read'']\<rparr>"
    by (simp add: authorize_def authenticate_def sample_headers_def s t k hash_secret_def db_authenticate_def
        sample_keys_def select_one_def Let_def)
  then show ?thesis using authorize_sound [OF a] by auto
qed

theorem list_payments_paging_witness:
  "\<exists>row. list_payments ''prj_a'' None (page_fetch 20) (snd sample_begun) = Inr [row] \<and> pay_id row = ''pay_1''
     \<and> list_payments ''prj_a'' (Some ''pay_1'') (page_fetch 20) (snd sample_begun) = Inr []
     \<and> follow_pages 2 (payments_page (snd sample_begun) ''prj_a'' 20 (\<lambda>r. json_payment r True)) None
       = Some [json_payment row True]"
proof -
  obtain out d1 where b: "sample_begun = (out, d1)" by (cases sample_begun)
  then have eq: "begin_payment sample_env sample_payment sample_db = Inr (out, d1)"
    using sample_begun_eq by simp
  have ok: "schema_ok d1" using begin_op.op_schema [OF sample_schema eq] .
  have "t_payments d1 = [bo_payment out] \<and> pay_project_id (bo_payment out) = ''prj_a''
      \<and> pay_id (bo_payment out) = ''pay_1''"
    using eq by (auto simp: begin_payment_def sample_payment_def sample_db_def empty_db_def to_i64_def
        select_one_def Let_def insert_row_def)
  then have rows: "desc_by (\<lambda>r. (pay_created_at r, pay_id r)) (filter (\<lambda>r. pay_project_id r = ''prj_a'') (t_payments d1))
      = [bo_payment out]" and i: "pay_id (bo_payment out) = ''pay_1''" by (simp_all add: desc_by_def)
  have q: "page_from_query None = Inr 20" by (simp add: page_from_query_def)
  note p = list_payments_paging [OF ok q refl, of "''prj_a''" "\<lambda>r. json_payment r True", unfolded rows,
      THEN conjunct2, THEN conjunct2, THEN conjunct2]
  note pages = p [THEN conjunct1, rule_format, THEN conjunct1]
  have "list_payments ''prj_a'' None (page_fetch 20) d1 = Inr [bo_payment out]" using pages [of 0] by simp
  moreover have "list_payments ''prj_a'' (Some ''pay_1'') (page_fetch 20) d1 = Inr []"
    using pages [of 1] i by simp
  moreover have "follow_pages 2 (payments_page d1 ''prj_a'' 20 (\<lambda>r. json_payment r True)) None
      = Some (map (\<lambda>r. json_payment r True) [bo_payment out])"
    by (rule p [THEN conjunct2, THEN conjunct2, rule_format]) simp
  ultimately show ?thesis using i unfolding b snd_conv list.map by blast
qed

end
