(* ===== verification/Storage_Invoices.thy ===== *)
theory Storage_Invoices
  imports Storage_Schema
begin

text \<open>
  \<open>crates/safrod-storage/src/invoices.rs\<close>: incoming invoices. \<open>mark_invoice_paid\<close> applies a
  \<open>PaymentReceived\<close> node event under its de-duplication key, \<open>expire_invoices\<close> closes the overdue ones;
  each change of status writes its event in the same transaction.
\<close>

section \<open>Types\<close>

record new_invoice =
  ni_id :: string
  ni_project_id :: string
  ni_idempotency_key :: "string option"
  ni_amount_msat :: u64
  ni_description :: string
  ni_bolt11 :: string
  ni_payment_hash :: string
  ni_expires_at :: instant
  ni_metadata :: json

definition invoice_event_data :: "invoice_row \<Rightarrow> json" where
  "invoice_event_data invoice =
     JObj [(''invoice_id'', JStr (inv_id invoice)), (''status'', JStr (inv_status invoice)),
       (''amount_msat'', JInt (inv_amount_msat invoice)),
       (''amount_received_msat'', jopt JInt (inv_amount_received_msat invoice)),
       (''payment_hash'', JStr (inv_payment_hash invoice)),
       (''paid_at'', jopt JTime (inv_paid_at invoice)),
       (''real_regtest_lightning'', JBool True)]"

section \<open>Methods\<close>

definition insert_invoice :: "env \<Rightarrow> new_invoice \<Rightarrow> db \<Rightarrow> storage_error + invoice_row \<times> db" where
  "insert_invoice e new d =
     (case to_i64 (ni_amount_msat new) of
        Inl err \<Rightarrow> Inl err
      | Inr amount \<Rightarrow>
          if amount \<le> 0 then Inl (SDatabase ''check amount_msat'')
          else if ni_id new \<in> set (map inv_id (t_invoices d))
               \<or> ni_payment_hash new \<in> set (map inv_payment_hash (t_invoices d))
               \<or> (ni_idempotency_key new \<noteq> None
                  \<and> (ni_project_id new, ni_idempotency_key new)
                     \<in> set (map (\<lambda>r. (inv_project_id r, inv_idempotency_key r)) (t_invoices d)))
          then Inl SConflict
          else if ni_project_id new \<notin> set (map prj_id (t_projects d))
          then Inl (SDatabase ''foreign key'')
          else
            (let r = \<lparr>inv_id = ni_id new, inv_project_id = ni_project_id new,
                   inv_idempotency_key = ni_idempotency_key new, inv_amount_msat = amount,
                   inv_description = ni_description new, inv_bolt11 = ni_bolt11 new,
                   inv_payment_hash = ni_payment_hash new, inv_status = ''open'',
                   inv_expires_at = ni_expires_at new, inv_paid_at = None,
                   inv_amount_received_msat = None, inv_metadata = ni_metadata new,
                   inv_created_at = env_now e, inv_updated_at = env_now e\<rparr>
             in Inr (r, d\<lparr>t_invoices := insert_row r (t_invoices d)\<rparr>)))"

definition get_invoice :: "string \<Rightarrow> string \<Rightarrow> db \<Rightarrow> storage_error + invoice_row" where
  "get_invoice project_id i d =
     (case select_one (\<lambda>r. inv_project_id r = project_id \<and> inv_id r = i) (t_invoices d) of
        None \<Rightarrow> Inl SNotFound
      | Some r \<Rightarrow> Inr r)"

definition find_invoice_by_idempotency_key :: "string \<Rightarrow> string \<Rightarrow> db \<Rightarrow> invoice_row option" where
  "find_invoice_by_idempotency_key project_id key d =
     select_one (\<lambda>r. inv_project_id r = project_id \<and> inv_idempotency_key r = Some key) (t_invoices d)"

definition list_invoices ::
  "string \<Rightarrow> string option \<Rightarrow> int \<Rightarrow> db \<Rightarrow> storage_error + invoice_row list" where
  "list_invoices project_id starting_after limit d =
     (if limit < 0 then Inl (SDatabase ''limit must not be negative'')
      else Inr (page_desc (\<lambda>r. (inv_created_at r, inv_id r)) inv_id starting_after (nat limit)
             (filter (\<lambda>r. inv_project_id r = project_id) (t_invoices d))))"

definition pay_row :: "env \<Rightarrow> int \<Rightarrow> invoice_row \<Rightarrow> invoice_row" where
  "pay_row e amount r =
     r\<lparr>inv_status := ''paid'', inv_paid_at := Some (env_now e), inv_updated_at := env_now e,
       inv_amount_received_msat := Some amount\<rparr>"

definition mark_invoice_paid ::
  "env \<Rightarrow> string \<Rightarrow> string \<Rightarrow> u64 \<Rightarrow> db \<Rightarrow> storage_error + invoice_row option \<times> db" where
  "mark_invoice_paid e dedupe_key payment_hash amount_received_msat d =
     (let payload = JObj [(''payment_hash'', JStr payment_hash),
                          (''amount_msat'', JInt (uint amount_received_msat))];
          (claimed, d1) = claim_node_event dedupe_key ''payment_received'' payload d
      in if \<not> claimed then Inr (None, d)
         else
           (case select_one (\<lambda>r. inv_payment_hash r = payment_hash) (t_invoices d1) of
              None \<Rightarrow> Inl SNotFound
            | Some current \<Rightarrow>
                (case invoice_from_str (inv_status current) of
                   Inl _ \<Rightarrow> Inl SNotFound
                 | Inr status \<Rightarrow>
                     if status = InvPaid then Inr (None, d)
                     else if \<not> invoice_can_transition_to status InvPaid
                     then Inl (SIllegalTransition (invoice_as_str status) (invoice_as_str InvPaid))
                     else
                       (case to_i64 amount_received_msat of
                          Inl err \<Rightarrow> Inl err
                        | Inr amount \<Rightarrow>
                            (let paid = pay_row e amount current;
                                 d2 = d1\<lparr>t_invoices := update_where (\<lambda>r. inv_id r = inv_id current)
                                            (pay_row e amount) (t_invoices d1)\<rparr>
                             in (case emit e (inv_project_id paid) ''invoice.paid'' (inv_id paid)
                                        (invoice_event_data paid) False d2 of
                                   Inl err \<Rightarrow> Inl err
                                 | Inr (_, d3) \<Rightarrow> Inr (Some paid, d3)))))))"

text \<open>The rows the \<open>update\<close> of \<open>expire_invoices\<close> selects, what it does to them, and the loop of events.\<close>

definition overdue :: "env \<Rightarrow> invoice_row \<Rightarrow> bool" where
  "overdue e r \<longleftrightarrow> inv_status r = ''open'' \<and> inv_expires_at r < env_now e"

definition expire_row :: "env \<Rightarrow> invoice_row \<Rightarrow> invoice_row" where
  "expire_row e r = r\<lparr>inv_status := ''expired'', inv_updated_at := env_now e\<rparr>"

fun emit_expired :: "env \<Rightarrow> invoice_row list \<Rightarrow> db \<Rightarrow> storage_error + db" where
  "emit_expired e [] d = Inr d"
| "emit_expired e (invoice # rest) d =
     (case emit e (inv_project_id invoice) ''invoice.expired'' (inv_id invoice)
             (invoice_event_data invoice) False d of
        Inl err \<Rightarrow> Inl err
      | Inr (_, d') \<Rightarrow> emit_expired e rest d')"

definition expire_invoices :: "env \<Rightarrow> db \<Rightarrow> storage_error + nat \<times> db" where
  "expire_invoices e d =
     (let expired = map (expire_row e) (filter (overdue e) (t_invoices d));
          d1 = d\<lparr>t_invoices := update_where (overdue e) (expire_row e) (t_invoices d)\<rparr>
      in (case emit_expired e expired d1 of
            Inl err \<Rightarrow> Inl err
          | Inr d2 \<Rightarrow> Inr (length expired, d2)))"

section \<open>The contract\<close>

lemma pay_row_fixed [simp]: "invoice_fixed (pay_row e a r) = invoice_fixed r"
  by (simp add: pay_row_def invoice_fixed_def)

lemma expire_row_fixed [simp]: "invoice_fixed (expire_row e r) = invoice_fixed r"
  by (simp add: expire_row_def invoice_fixed_def)

interpretation insert_invoice_op: db_op "insert_invoice e new" for e new
proof
  fix d r d' assume ok: "schema_ok d" and i: "insert_invoice e new d = Inr (r, d')"
  have it: "invoices_table (project_ids d) (t_invoices d)" using ok by (simp add: schema_ok_def)
  have r: "d' = d\<lparr>t_invoices := insert_row r (t_invoices d)\<rparr>" "inv_id r \<notin> inv_id ` set (t_invoices d)"
      "inv_payment_hash r \<notin> inv_payment_hash ` set (t_invoices d)" "inv_project_id r \<in> project_ids d"
      "inv_idempotency_key r = None \<or> (inv_project_id r, inv_idempotency_key r)
         \<notin> (\<lambda>r. (inv_project_id r, inv_idempotency_key r)) ` set (t_invoices d)"
      "0 < inv_amount_msat r" "inv_status r = ''open''"
    using i by (auto simp: insert_invoice_def Let_def split: sum.splits if_splits)
  then have "invoices_table (project_ids d) (insert_row r (t_invoices d))"
    using it by (auto simp: invoices_table_def keyed_invoices_def)
  then show "schema_ok d'" using ok r(1) schema_table(2) by simp
  show "evolves d d'" using r(1) by (auto intro!: evolves_table grows_insert)
qed

text \<open>The two ways \<open>mark_invoice_paid\<close> succeeds.\<close>

lemma mark_invoice_paid_cases:
  assumes "mark_invoice_paid e key h amt d = Inr (out, d')"
  obtains (ignored) "out = None" "d' = d"
      "key \<in> nev_dedupe_key ` set (t_node_events d)
        \<or> (\<exists>r \<in> set (t_invoices d). inv_payment_hash r = h \<and> inv_status r = ''paid'')"
    | (paid) d1 current amount ev pl where "claim_node_event key ''payment_received'' pl d = (True, d1)"
      "current \<in> set (t_invoices d)" "inv_payment_hash current = h" "inv_status current = ''open''"
      "out = Some (pay_row e amount current)" "amount = int (unat amt)"
      "emit e (inv_project_id current) ''invoice.paid'' (inv_id current)
         (invoice_event_data (pay_row e amount current)) False
         (d1\<lparr>t_invoices := update_where (\<lambda>r. inv_id r = inv_id current) (pay_row e amount)
              (t_invoices d)\<rparr>) = Inr (ev, d')"
proof -
  define pl where "pl = JObj [(''payment_hash'', JStr h), (''amount_msat'', JInt (uint amt))]"
  obtain b d1 where cl: "claim_node_event key ''payment_received'' pl d = (b, d1)"
    by (cases "claim_node_event key ''payment_received'' pl d") auto
  have t: "t_invoices d1 = t_invoices d" using cl by (auto dest!: claim_tables)
  show thesis
  proof (cases b)
    case False
    then show ?thesis using assms cl ignored
      by (auto simp: mark_invoice_paid_def pl_def [symmetric] claim_node_event_def split: if_splits)
  next
    case b: True
    then obtain current where s: "select_one (\<lambda>r. inv_payment_hash r = h) (t_invoices d) = Some current"
      using assms cl t by (auto simp: mark_invoice_paid_def pl_def [symmetric] split: option.splits)
    note c = select_one_Some [OF s]
    show ?thesis
    proof (cases "invoice_from_str (inv_status current) = Inr InvPaid")
      case True
      then have "out = None \<and> d' = d"
        using assms cl t s b by (simp add: mark_invoice_paid_def pl_def [symmetric])
      moreover have "inv_status current = ''paid''" using True by (simp add: inv_text.parse_iff)
      ultimately show ?thesis using c ignored by blast
    next
      case False
      then obtain amount where op: "invoice_from_str (inv_status current) = Inr InvOpen"
          "to_i64 amt = Inr amount"
        using assms cl t s b
        by (auto simp: mark_invoice_paid_def pl_def [symmetric] Let_def
            split: sum.splits if_splits elim!: invoice_can_transition_to.elims)
      moreover have "inv_status current = ''open''" "amount = int (unat amt)"
        using op by (auto simp: inv_text.parse_iff to_i64_def split: if_splits)
      ultimately show ?thesis using assms cl t s b c paid [OF _ _ _ _ _ _]
        by (auto simp: mark_invoice_paid_def pl_def [symmetric] Let_def pay_row_def
            split: sum.splits)
    qed
  qed
qed

text \<open>Both updates of the table keep the contract.\<close>

lemma invoice_update_step:
  assumes ok: "schema_ok d"
    and f: "\<And>r. r \<in> set (t_invoices d) \<Longrightarrow> P r \<Longrightarrow> inv_status r = ''open'' \<and> invoice_fixed (f r) = invoice_fixed r
             \<and> inv_status (f r) \<in> {''paid'', ''expired''}"
  shows "schema_ok (d\<lparr>t_invoices := update_where P f (t_invoices d)\<rparr>)
       \<and> evolves d (d\<lparr>t_invoices := update_where P f (t_invoices d)\<rparr>)"
proof
  have "invoices_table (project_ids d) (t_invoices d)" using ok by (simp add: schema_ok_def)
  then have "invoices_table (project_ids d) (update_where P f (t_invoices d))"
    by (rule invoices_table_update) (use f in force)
  then show "schema_ok (d\<lparr>t_invoices := update_where P f (t_invoices d)\<rparr>)"
    using ok schema_table(2) by blast
  have "invoice_le r (f r)" if "r \<in> set (t_invoices d)" "P r" for r
    using f [OF that] by (auto simp: invoice_le_def)
  then show "evolves d (d\<lparr>t_invoices := update_where P f (t_invoices d)\<rparr>)"
    by (intro evolves_table grows_update) simp_all
qed

lemma invoice_same_id:
  "schema_ok d \<Longrightarrow> r \<in> set (t_invoices d) \<Longrightarrow> c \<in> set (t_invoices d) \<Longrightarrow> inv_id r = inv_id c \<Longrightarrow> r = c"
  by (auto simp: schema_ok_def invoices_table_def intro: distinct_map_eq)

interpretation mark_paid_op: db_op "mark_invoice_paid e key h amt" for e key h amt
proof -
  have "schema_ok d' \<and> evolves d d'"
    if ok: "schema_ok d" and m: "mark_invoice_paid e key h amt d = Inr (out, d')" for e key h amt d out d'
    using m
  proof (cases rule: mark_invoice_paid_cases)
    case ignored
    then show ?thesis using ok by simp
  next
    case (paid d1 current amount ev pl)
    have d1: "schema_ok d1" "evolves d d1" "t_invoices d1 = t_invoices d"
      using claim_schema [OF ok paid(1)] claim_evolves [OF paid(1)] claim_tables [OF paid(1)] by auto
    let ?d2 = "d1\<lparr>t_invoices := update_where (\<lambda>r. inv_id r = inv_id current) (pay_row e amount)
              (t_invoices d1)\<rparr>"
    have "schema_ok ?d2 \<and> evolves d1 ?d2"
    proof (rule invoice_update_step [OF d1(1)])
      fix r assume "r \<in> set (t_invoices d1)" "inv_id r = inv_id current"
      then have "r = current" using invoice_same_id [OF ok _ paid(2)] d1(3) by simp
      then show "inv_status r = ''open'' \<and> invoice_fixed (pay_row e amount r) = invoice_fixed r
             \<and> inv_status (pay_row e amount r) \<in> {''paid'', ''expired''}"
        using paid(4) by (simp add: pay_row_fixed) (simp add: pay_row_def)
    qed
    moreover have "emit e (inv_project_id current) ''invoice.paid'' (inv_id current)
         (invoice_event_data (pay_row e amount current)) False ?d2 = Inr (ev, d')"
      using paid(7) d1(3) by simp
    ultimately show ?thesis
      using emit_keeps [of ?d2 d] evolves_trans [OF d1(2), of ?d2] by blast
  qed
  then show "\<And>e key h amt. db_op (mark_invoice_paid e key h amt)"
    by unfold_locales blast+
qed

lemma emit_expired_keeps:
  "emit_expired e rs d = Inr d' \<Longrightarrow> schema_ok d \<Longrightarrow> schema_ok d' \<and> evolves d d'"
proof (induction rs arbitrary: d)
  case (Cons r rs)
  then obtain ev d1 where em: "emit e (inv_project_id r) ''invoice.expired'' (inv_id r)
      (invoice_event_data r) False d = Inr (ev, d1)" and rest: "emit_expired e rs d1 = Inr d'"
    by (auto split: sum.splits)
  have "schema_ok d1 \<and> evolves d d1" using emit_keeps [OF Cons.prems(2) evolves_refl em] .
  then show ?case using Cons.IH [OF rest] evolves_trans [of d d1 d'] by simp
qed simp

lemma expire_update_step:
  "schema_ok d \<Longrightarrow> schema_ok (d\<lparr>t_invoices := update_where (overdue e) (expire_row e) (t_invoices d)\<rparr>)
     \<and> evolves d (d\<lparr>t_invoices := update_where (overdue e) (expire_row e) (t_invoices d)\<rparr>)"
  by (rule invoice_update_step) (simp_all add: overdue_def, simp add: expire_row_def)

interpretation expire_op: db_op "expire_invoices e" for e
proof -
  have "schema_ok d' \<and> evolves d d'" if ok: "schema_ok d" and x: "expire_invoices e d = Inr (out, d')"
    for e d out d'
  proof -
    let ?d1 = "d\<lparr>t_invoices := update_where (overdue e) (expire_row e) (t_invoices d)\<rparr>"
    have "emit_expired e (map (expire_row e) (filter (overdue e) (t_invoices d))) ?d1 = Inr d'"
      using x by (auto simp: expire_invoices_def Let_def split: sum.splits)
    then show ?thesis
      using emit_expired_keeps expire_update_step [OF ok, of e] evolves_trans by blast
  qed
  then show "\<And>e. db_op (expire_invoices e)" by unfold_locales blast+
qed

lemma emit_expired_events:
  "emit_expired e rs d = Inr d' \<Longrightarrow> t_invoices d' = t_invoices d
     \<and> map (\<lambda>ev. (ev_kind ev, ev_resource_id ev)) (t_events d')
       = map (\<lambda>ev. (ev_kind ev, ev_resource_id ev)) (t_events d) @ map (\<lambda>r. (''invoice.expired'', inv_id r)) rs"
proof (induction rs arbitrary: d)
  case (Cons r rs)
  then obtain ev d1 where "emit e (inv_project_id r) ''invoice.expired'' (inv_id r)
      (invoice_event_data r) False d = Inr (ev, d1)" "emit_expired e rs d1 = Inr d'"
    by (auto split: sum.splits)
  with Cons.IH show ?case by (auto simp: emitted_def new_event_def dest!: emit_Inr)
qed simp

lemma emit_expired_total:
  "events_fresh e d \<Longrightarrow> (\<And>r. r \<in> set rs \<Longrightarrow> inv_project_id r \<in> project_ids d) \<Longrightarrow>
     \<exists>d'. emit_expired e rs d = Inr d'"
proof (induction rs arbitrary: d)
  case (Cons r rs)
  obtain ev d1 where em: "emit e (inv_project_id r) ''invoice.expired'' (inv_id r)
      (invoice_event_data r) False d = Inr (ev, d1)"
    using emit_total Cons.prems by (metis image_set list.set_intros(1))
  then have "events_fresh e d1" "project_ids d1 = project_ids d"
    using emit_Inr [OF em] Cons.prems(1) by (auto intro: emitted_fresh simp: emitted_def)
  then show ?case using Cons em by simp
qed simp

lemma mark_paid_total:
  assumes ok: "schema_ok d" and fresh: "events_fresh e d" and r: "r \<in> set (t_invoices d)"
    and st: "inv_status r = ''open''" and new: "key \<notin> nev_dedupe_key ` set (t_node_events d)"
    and amt: "to_i64 amt = Inr amount"
  shows "\<exists>d'. mark_invoice_paid e key (inv_payment_hash r) amt d = Inr (Some (pay_row e amount r), d')"
proof -
  have sel: "select_one (\<lambda>x. inv_payment_hash x = inv_payment_hash r) (t_invoices d) = Some r"
    using ok r by (intro select_one_unique) (auto simp: schema_ok_def invoices_table_def)
  have p: "inv_project_id (pay_row e amount r) \<in> set (map prj_id (t_projects d))"
    using ok r by (auto simp: schema_ok_def invoices_table_def pay_row_def)
  let ?d2 = "d\<lparr>t_node_events := insert_row \<lparr>nev_dedupe_key = key, nev_kind = ''payment_received'',
      nev_payload = JObj [(''payment_hash'', JStr (inv_payment_hash r)), (''amount_msat'', JInt (uint amt))]\<rparr>
        (t_node_events d),
      t_invoices := update_where (\<lambda>x. inv_id x = inv_id r) (pay_row e amount) (t_invoices d)\<rparr>"
  obtain ev d' where "emit e (inv_project_id (pay_row e amount r)) ''invoice.paid''
      (inv_id (pay_row e amount r)) (invoice_event_data (pay_row e amount r)) False ?d2 = Inr (ev, d')"
    using emit_total [of e ?d2] fresh p by (simp add: events_fresh_def) blast
  then show ?thesis using sel st new amt
    by (simp add: mark_invoice_paid_def claim_node_event_def Let_def invoice_from_str_def)
qed

text \<open>A paid invoice stays paid, and its event stays claimed.\<close>

lemma mark_paid_again:
  assumes "schema_ok d" and "mark_invoice_paid e key h amt d = Inr (Some paid, d1)"
    and "schema_ok d2" and "evolves d1 d2"
  shows "paid \<in> set (t_invoices d2) \<and> inv_status paid = ''paid''
    \<and> inv_amount_received_msat paid = Some (uint amt)
    \<and> mark_invoice_paid e' key h' amt' d2 = Inr (None, d2)
    \<and> mark_invoice_paid e' key' h amt' d2 = Inr (None, d2)"
  using assms(2)
proof (cases rule: mark_invoice_paid_cases)
  case (paid c1 current amount ev pl)
  define d1' where "d1' = c1\<lparr>t_invoices := update_where (\<lambda>r. inv_id r = inv_id current) (pay_row e amount)
              (t_invoices d)\<rparr>"
  have em: "t_invoices d1 = t_invoices d1'" "t_node_events d1 = t_node_events c1"
    using emit_Inr [OF paid(7)] by (simp_all add: emitted_def d1'_def)
  have p: "paid = pay_row e amount current" using paid(5) by simp
  have in1: "paid \<in> set (t_invoices d1)"
    using paid(2) em(1) by (auto simp: d1'_def p set_update_where intro!: image_eqI [of _ _ current])
  have k1: "key \<in> nev_dedupe_key ` set (t_node_events d1)"
    using paid(1) em(2) by (auto simp: claim_node_event_def split: if_splits)
  have st: "inv_status paid = ''paid''" "inv_payment_hash paid = h"
    using p paid(3) by (simp_all add: pay_row_def)
  obtain r where "r \<in> set (t_invoices d2)" "invoice_le paid r"
    using grows_mem [OF _ in1] assms(4) unfolding evolves_def by blast
  then have in2: "paid \<in> set (t_invoices d2)" using st(1) by (auto simp: invoice_le_def)
  have "prefix (map nev_dedupe_key (t_node_events d1)) (map nev_dedupe_key (t_node_events d2))"
    using assms(4) by (intro grows_map [of "(=)"]) (simp_all add: evolves_def)
  then have "key \<in> set (map nev_dedupe_key (t_node_events d2))"
    using k1 set_mono_prefix by fastforce
  then have "mark_invoice_paid e' key h' amt' d2 = Inr (None, d2)"
    by (simp add: mark_invoice_paid_def claim_node_event_def)
  moreover have "mark_invoice_paid e' key' h amt' d2 = Inr (None, d2)"
  proof -
    have "select_one (\<lambda>r. inv_payment_hash r = h) (t_invoices d2) = Some paid"
      using select_one_unique [OF _ in2, of inv_payment_hash] assms(3) st(2)
      by (simp add: schema_ok_def invoices_table_def)
    then show ?thesis using st(1)
      by (simp add: mark_invoice_paid_def claim_node_event_def invoice_from_str_def)
  qed
  ultimately show ?thesis using in2 st p paid(6) by (simp add: pay_row_def)
qed simp

section \<open>Properties\<close>

text \<open>
  Applying a \<open>PaymentReceived\<close> event is idempotent: after it has marked an invoice paid,
  however the database evolves, the same event, and any other event for the same payment hash,
  reports nothing and changes nothing, so the invoice is credited once.
\<close>

theorem mark_invoice_paid_once:
  assumes "schema_ok d" and "mark_invoice_paid e key h amt d = Inr (Some paid, d1)"
    and "schema_ok d2" and "evolves d1 d2"
  shows "paid \<in> set (t_invoices d2) \<and> inv_status paid = ''paid''
    \<and> inv_amount_received_msat paid = Some (uint amt)
    \<and> mark_invoice_paid e' key h' amt' d2 = Inr (None, d2)
    \<and> mark_invoice_paid e' key' h amt' d2 = Inr (None, d2)"
  using mark_paid_again [OF assms] .

text \<open>
  \<open>expire_invoices\<close> succeeds and expires exactly the open invoices that are overdue: every other
  invoice is left alone, each expired one gets one event, in order, and the count is returned. A
  second run at the same time finds nothing to do.
\<close>

theorem expire_invoices_exact:
  assumes "schema_ok d" and "events_fresh e d"
  shows "\<exists>d'. expire_invoices e d = Inr (length (filter (overdue e) (t_invoices d)), d')
    \<and> t_invoices d' = update_where (overdue e) (expire_row e) (t_invoices d)
    \<and> map (\<lambda>ev. (ev_kind ev, ev_resource_id ev)) (drop (length (t_events d)) (t_events d'))
      = map (\<lambda>r. (''invoice.expired'', inv_id r)) (filter (overdue e) (t_invoices d))
    \<and> expire_invoices e d' = Inr (0, d')"
proof -
  let ?d1 = "d\<lparr>t_invoices := update_where (overdue e) (expire_row e) (t_invoices d)\<rparr>"
  let ?rs = "map (expire_row e) (filter (overdue e) (t_invoices d))"
  have "\<And>r. r \<in> set ?rs \<Longrightarrow> inv_project_id r \<in> project_ids ?d1"
    using assms(1) by (auto simp: schema_ok_def invoices_table_def expire_row_def)
  moreover have "events_fresh e ?d1" using assms(2) by (simp add: events_fresh_def)
  ultimately obtain d' where d': "emit_expired e ?rs ?d1 = Inr d'" using emit_expired_total by blast
  note ev = emit_expired_events [OF d']
  have "\<not> overdue e r" if "r \<in> set (t_invoices d')" for r
    using that ev by (auto simp: set_update_where overdue_def expire_row_def split: if_splits)
  then have "update_where (overdue e) (expire_row e) (t_invoices d') = t_invoices d'"
      "filter (overdue e) (t_invoices d') = []"
    by (simp_all add: update_where_none filter_empty_conv)
  then have again: "expire_invoices e d' = Inr (0, d')" by (simp add: expire_invoices_def)
  have "map (\<lambda>ev. (ev_kind ev, ev_resource_id ev)) (drop (length (t_events d)) (t_events d'))
      = map (\<lambda>r. (''invoice.expired'', inv_id r)) ?rs"
    using ev by (simp add: drop_map [symmetric])
  then show ?thesis using d' ev again
    by (intro exI [of _ d']) (simp add: expire_invoices_def Let_def comp_def expire_row_def)
qed

definition sample_invoice :: invoice_row where
  "sample_invoice = \<lparr>inv_id = ''inv_1'', inv_project_id = ''prj_a'', inv_idempotency_key = Some ''k'',
     inv_amount_msat = 5000, inv_description = [], inv_bolt11 = ''lnbcrt1x'', inv_payment_hash = ''h'',
     inv_status = ''open'', inv_expires_at = 10, inv_paid_at = None, inv_amount_received_msat = None,
     inv_metadata = JObj [], inv_created_at = 0, inv_updated_at = 0\<rparr>"

definition sample_invoices :: db where
  "sample_invoices = sample_db\<lparr>t_invoices := [sample_invoice]\<rparr>"

lemma sample_invoices_ok: "schema_ok sample_invoices" "events_fresh sample_env sample_invoices"
proof -
  show "schema_ok sample_invoices"
    unfolding sample_invoices_def
    by (rule schema_table(2) [OF sample_schema])
      (simp add: invoices_table_def sample_invoice_def sample_db_def keyed_invoices_def)
  show "events_fresh sample_env sample_invoices"
    using sample_fresh by (simp add: events_fresh_def sample_invoices_def)
qed

theorem mark_invoice_paid_once_witness:
  "\<exists>paid d1. mark_invoice_paid sample_env ''lightning:h'' ''h'' 5000 sample_invoices = Inr (Some paid, d1)
     \<and> mark_invoice_paid sample_env ''lightning:h'' ''h'' 5000 d1 = Inr (None, d1)"
proof -
  have "\<exists>d1. mark_invoice_paid sample_env ''lightning:h'' (inv_payment_hash sample_invoice) 5000 sample_invoices
      = Inr (Some (pay_row sample_env 5000 sample_invoice), d1)"
    by (rule mark_paid_total [OF sample_invoices_ok])
      (simp_all add: sample_invoices_def sample_invoice_def sample_db_def empty_db_def to_i64_def)
  then obtain d1 where d1: "mark_invoice_paid sample_env ''lightning:h'' ''h'' 5000 sample_invoices
      = Inr (Some (pay_row sample_env 5000 sample_invoice), d1)" by (auto simp: sample_invoice_def)
  have "schema_ok d1" using mark_paid_op.op_schema [OF sample_invoices_ok(1) d1] .
  from mark_invoice_paid_once [OF sample_invoices_ok(1) d1 this evolves_refl] d1
  show ?thesis by blast
qed

theorem expire_invoices_exact_witness:
  "\<exists>d'. expire_invoices sample_env sample_invoices = Inr (1, d')
     \<and> map inv_status (t_invoices d') = [''expired'']"
proof -
  have "filter (overdue sample_env) (t_invoices sample_invoices) = [sample_invoice]"
    by (simp add: sample_invoices_def overdue_def sample_invoice_def sample_env_def)
  then show ?thesis using expire_invoices_exact [OF sample_invoices_ok]
    by (auto simp: sample_invoices_def update_where_def overdue_def sample_invoice_def sample_env_def
        expire_row_def)
qed

end
