(* ===== verification/Engine.thy ===== *)
theory Engine
  imports Api_Base Storage_Invoices
begin

text \<open>
  \<open>crates/safrod-api/src/engine.rs\<close>: the payment engine. A function gets the application state (the
  database and the node) and returns its result with the next state; a transaction that fails leaves
  the database as it was, and what was committed before an error stays.

  \<open>send_payment\<close> is the composition of its atomic parts (\<open>send_begin\<close>, \<open>send_pend\<close>, \<open>send_dispatch\<close>,
  \<open>send_refused\<close>), so that the last section can interleave them with crashes, reconciliation, node
  events and other requests. SHA-256, the text of a JSON value and the backend are parameters.
\<close>

section \<open>send_payment\<close>

record send_request =
  sr_bolt11 :: string
  sr_amount_msat :: "u64 option"
  sr_metadata :: json

record send_result =
  sd_payment :: payment_row
  sd_created :: bool

definition send_amount :: "u64 option \<Rightarrow> u64 option \<Rightarrow> api_error + u64" where
  "send_amount invoice_amount given_amount =
     (case (invoice_amount, given_amount) of
        (Some invoice, Some given) \<Rightarrow>
          if invoice \<noteq> given
          then Inl (api_validation ''amount_msat does not match the amount encoded in the invoice'')
          else Inr invoice
      | (Some invoice, None) \<Rightarrow> Inr invoice
      | (None, Some given) \<Rightarrow> Inr given
      | (None, None) \<Rightarrow> Inl (api_of_lightning LnAmountRequired))"

definition amount_in_supply :: "u64 \<Rightarrow> bool" where
  "amount_in_supply amount_msat \<longleftrightarrow>
     (let sats = to_sats_floor (Millisatoshis amount_msat) in sat sats \<noteq> 0 \<and> sat sats \<le> MAX_SATS)"

definition request_hash :: "(string \<Rightarrow> u8 list) \<Rightarrow> (json \<Rightarrow> string) \<Rightarrow> string \<Rightarrow> u64 \<Rightarrow> json \<Rightarrow> u8 list" where
  "request_hash sha256 json_text bolt11 amount_msat metadata =
     sha256 (bolt11 @ to_be_bytes amount_msat @ json_text metadata)"

text \<open>Up to the first commit: the outcome of \<open>begin_payment\<close>, the invoice and the amount for the node.\<close>

definition send_begin ::
  "'n backend \<Rightarrow> (string \<Rightarrow> u8 list) \<Rightarrow> (json \<Rightarrow> string) \<Rightarrow> env \<Rightarrow> string \<Rightarrow> string \<Rightarrow> send_request
   \<Rightarrow> 'n app \<Rightarrow> (api_error + begin_outcome \<times> string \<times> u64 option) \<times> 'n app" where
  "send_begin be sha256 json_text e project_id idem_key request s =
     (let bolt11 = trim (sr_bolt11 request)
      in (case be_parse_invoice be (app_node s) bolt11 of
            Inl err \<Rightarrow> (Inl (api_of_lightning err), s)
          | Inr parsed \<Rightarrow>
              (case send_amount (pi_amount_msat parsed) (sr_amount_msat request) of
                 Inl err \<Rightarrow> (Inl err, s)
               | Inr amount_msat \<Rightarrow>
                   if \<not> amount_in_supply amount_msat
                   then (Inl (api_validation ''amount must be between one satoshi and the bitcoin supply''), s)
                   else
                     (let (pid, d0) = fresh_id e PaymentId (app_db s)
                      in (case begin_payment e
                                 \<lparr>np_id = pid, np_project_id = project_id, np_idempotency_key = idem_key,
                                  np_request_hash = request_hash sha256 json_text bolt11 amount_msat
                                                      (sr_metadata request),
                                  np_bolt11 = bolt11, np_payment_hash = pi_payment_hash parsed,
                                  np_amount_msat = amount_msat, np_metadata = sr_metadata request\<rparr> d0 of
                            Inl err \<Rightarrow> (Inl (api_of_storage err), s)
                          | Inr (begun, d1) \<Rightarrow>
                              (Inr (begun, bolt11,
                                    if pi_amount_msat parsed = None then Some amount_msat else None),
                               s\<lparr>app_db := d1\<rparr>))))))"

text \<open>One \<open>transition_payment\<close> of the engine, with storage errors mapped to API errors.\<close>

definition engine_transition ::
  "env \<Rightarrow> string \<Rightarrow> payment_status \<Rightarrow> resolution \<Rightarrow> 'n app \<Rightarrow> (api_error + transitioned) \<times> 'n app" where
  "engine_transition e pid next res s =
     (case transition_payment e None pid next res (app_db s) of
        Inl err \<Rightarrow> (Inl (api_of_storage err), s)
      | Inr (tr, d') \<Rightarrow> (Inr tr, s\<lparr>app_db := d'\<rparr>))"

definition send_pend :: "env \<Rightarrow> string \<Rightarrow> 'n app \<Rightarrow> (api_error + transitioned) \<times> 'n app" where
  "send_pend e pid s = engine_transition e pid PayPending no_resolution s"

definition send_dispatch ::
  "'n backend \<Rightarrow> string \<Rightarrow> u64 option \<Rightarrow> 'n app \<Rightarrow> (lightning_error + string) \<times> 'n app" where
  "send_dispatch be bolt11 amount_for_node s =
     (let (sent, n') = be_send_payment be (app_node s) bolt11 amount_for_node
      in (sent, s\<lparr>app_node := n'\<rparr>))"

fun failure_label :: "lightning_error \<Rightarrow> string" where
  "failure_label LnNoRoute = ''no_route''"
| "failure_label LnDuplicatePayment = ''duplicate_payment''"
| "failure_label LnNotRunning = ''node_not_running''"
| "failure_label _ = ''node_rejected''"

definition send_refused ::
  "env \<Rightarrow> string \<Rightarrow> lightning_error \<Rightarrow> 'n app \<Rightarrow> (api_error + transitioned) \<times> 'n app" where
  "send_refused e pid err s =
     engine_transition e pid PayFailed (no_resolution\<lparr>rs_failure_reason := Some (failure_label err)\<rparr>) s"

definition send_payment ::
  "'n backend \<Rightarrow> (string \<Rightarrow> u8 list) \<Rightarrow> (json \<Rightarrow> string) \<Rightarrow> env \<Rightarrow> string \<Rightarrow> string \<Rightarrow> send_request
   \<Rightarrow> 'n app \<Rightarrow> (api_error + send_result) \<times> 'n app" where
  "send_payment be sha256 json_text e project_id idem_key request s =
     (case send_begin be sha256 json_text e project_id idem_key request s of
        (Inl err, s1) \<Rightarrow> (Inl err, s1)
      | (Inr (begun, bolt11, amount_for_node), s1) \<Rightarrow>
          if \<not> bo_created begun then (Inr \<lparr>sd_payment = bo_payment begun, sd_created = False\<rparr>, s1)
          else
            (case send_pend e (pay_id (bo_payment begun)) s1 of
               (Inl err, s2) \<Rightarrow> (Inl err, s2)
             | (Inr pending, s2) \<Rightarrow>
                 (case send_dispatch be bolt11 amount_for_node s2 of
                    (Inr _, s3) \<Rightarrow> (Inr \<lparr>sd_payment = tr_payment pending, sd_created = True\<rparr>, s3)
                  | (Inl err, s3) \<Rightarrow>
                      (case send_refused e (pay_id (bo_payment begun)) err s3 of
                         (Inl err, s4) \<Rightarrow> (Inl err, s4)
                       | (Inr failed, s4) \<Rightarrow>
                           (Inr \<lparr>sd_payment = tr_payment failed, sd_created = True\<rparr>, s4)))))"

section \<open>Reconciliation\<close>

text \<open>What the node's record means for a payment that is not final; \<open>None\<close> leaves it as it is.\<close>

definition reconcile_target ::
  "payment_status \<Rightarrow> node_payment option \<Rightarrow> (payment_status \<times> resolution) option" where
  "reconcile_target current node_view =
     (case node_view of
        Some p \<Rightarrow>
          (case nop_status p of
             NodeSucceeded \<Rightarrow>
               Some (PaySucceeded, no_resolution\<lparr>rs_fee_msat := nop_fee_msat p, rs_preimage := nop_preimage p\<rparr>)
           | NodeFailed \<Rightarrow>
               Some (PayFailed, no_resolution\<lparr>rs_failure_reason := Some ''reported_failed_by_node''\<rparr>)
           | NodePending \<Rightarrow> None)
      | None \<Rightarrow>
          if current = PayCreated
          then Some (PayFailed, no_resolution\<lparr>rs_failure_reason := Some ''never_dispatched''\<rparr>)
          else if current = PayUnknown then None
          else Some (PayUnknown, no_resolution))"

text \<open>\<open>Created\<close> passes through \<open>Pending\<close> on its way to any status but \<open>Failed\<close>.\<close>

definition pass_pending ::
  "env \<Rightarrow> payment_row \<Rightarrow> payment_status \<Rightarrow> payment_status \<Rightarrow> 'n app \<Rightarrow> (api_error + unit) \<times> 'n app" where
  "pass_pending e payment current next s =
     (if current = PayCreated \<and> next \<noteq> PayFailed
      then (case engine_transition e (pay_id payment) PayPending no_resolution s of
              (Inl err, s1) \<Rightarrow> (Inl err, s1)
            | (Inr _, s1) \<Rightarrow> (Inr (), s1))
      else (Inr (), s))"

definition reconcile_payment ::
  "'n backend \<Rightarrow> env \<Rightarrow> payment_row \<Rightarrow> 'n app \<Rightarrow> (api_error + payment_row) \<times> 'n app" where
  "reconcile_payment be e payment s =
     (case payment_from_str (pay_status payment) of
        Inl _ \<Rightarrow> (Inl api_internal, s)
      | Inr current \<Rightarrow>
          if payment_is_final current then (Inr payment, s)
          else
            (case reconcile_target current (be_payment be (app_node s) (pay_payment_hash payment)) of
               None \<Rightarrow> (Inr payment, s)
             | Some (next, res) \<Rightarrow>
                 (case pass_pending e payment current next s of
                    (Inl err, s1) \<Rightarrow> (Inl err, s1)
                  | (Inr _, s1) \<Rightarrow>
                      (case engine_transition e (pay_id payment) next res s1 of
                         (Inl err, s2) \<Rightarrow> (Inl err, s2)
                       | (Inr tr, s2) \<Rightarrow> (Inr (tr_payment tr), s2)))))"

fun reconcile_list ::
  "'n backend \<Rightarrow> env \<Rightarrow> payment_row list \<Rightarrow> nat \<Rightarrow> 'n app \<Rightarrow> (api_error + nat) \<times> 'n app" where
  "reconcile_list be e [] changed s = (Inr changed, s)"
| "reconcile_list be e (payment # rest) changed s =
     (case reconcile_payment be e payment s of
        (Inl err, s1) \<Rightarrow> (Inl err, s1)
      | (Inr after, s1) \<Rightarrow>
          reconcile_list be e rest (if pay_status after \<noteq> pay_status payment then changed + 1 else changed) s1)"

definition reconcile_all :: "'n backend \<Rightarrow> env \<Rightarrow> 'n app \<Rightarrow> (api_error + nat) \<times> 'n app" where
  "reconcile_all be e s = reconcile_list be e (unresolved_payments (app_db s)) 0 s"

section \<open>Node events\<close>

text \<open>The text of an \<open>EventError\<close> is the display form of the storage error it was made from.\<close>

datatype event_error = Permanent storage_error | Transient storage_error

fun classify :: "storage_error \<Rightarrow> event_error" where
  "classify SNotFound = Permanent SNotFound"
| "classify (SIllegalTransition s t) = Permanent (SIllegalTransition s t)"
| "classify err = Transient err"

definition settle_event ::
  "env \<Rightarrow> string \<Rightarrow> string \<Rightarrow> payment_status \<Rightarrow> resolution \<Rightarrow> db \<Rightarrow> (event_error + unit) \<times> db" where
  "settle_event e tag hash next res d =
     (case find_unresolved_payment_by_hash hash d of
        None \<Rightarrow> (Inr (), d)
      | Some payment \<Rightarrow>
          (case transition_payment e (Some (tag @ pay_id payment)) (pay_id payment) next res d of
             Inl err \<Rightarrow> (Inl (classify err), d)
           | Inr (_, d') \<Rightarrow> (Inr (), d')))"

definition handle_node_event :: "env \<Rightarrow> node_event \<Rightarrow> db \<Rightarrow> (event_error + unit) \<times> db" where
  "handle_node_event e event d =
     (case event of
        PaymentReceived payment_hash amount_msat \<Rightarrow>
          (case mark_invoice_paid e (''recv:'' @ payment_hash) payment_hash amount_msat d of
             Inl err \<Rightarrow> (Inl (classify err), d)
           | Inr (_, d') \<Rightarrow> (Inr (), d'))
      | PaymentSuccessful payment_hash preimage fee_msat \<Rightarrow>
          settle_event e ''sent_ok:'' payment_hash PaySucceeded
            (no_resolution\<lparr>rs_fee_msat := fee_msat, rs_preimage := preimage\<rparr>) d
      | PaymentFailed payment_hash reason \<Rightarrow>
          (case payment_hash of
             None \<Rightarrow> (Inr (), d)
           | Some hash \<Rightarrow>
               settle_event e ''sent_fail:'' hash PayFailed
                 (no_resolution\<lparr>rs_failure_reason := Some reason\<rparr>) d)
      | ChannelReady channel_id \<Rightarrow> (Inr (), d)
      | ChannelClosed channel_id reason \<Rightarrow> (Inr (), d)
      | OtherEvent kind \<Rightarrow> (Inr (), d))"

section \<open>Every function keeps the schema and only moves forward\<close>

definition app_steps :: "'n app \<Rightarrow> 'n app \<Rightarrow> bool" where
  "app_steps s s' \<longleftrightarrow> (schema_ok (app_db s) \<longrightarrow> schema_ok (app_db s') \<and> evolves (app_db s) (app_db s'))"

lemma app_steps_refl [simp]: "app_steps s s"
  by (simp add: app_steps_def)

lemma app_steps_trans: "app_steps s t \<Longrightarrow> app_steps t u \<Longrightarrow> app_steps s u"
  by (auto simp: app_steps_def intro: evolves_trans)

lemma fresh_id_steps: "fresh_id e k d = (i, d') \<Longrightarrow> d' = d\<lparr>next_uuid := next_uuid d + 1\<rparr>"
  by (auto simp: fresh_id_def)

lemma engine_transition_Inr:
  assumes "engine_transition e pid next res s = (Inr tr, s')"
  shows "transition_payment e None pid next res (app_db s) = Inr (tr, app_db s')"
    and "app_node s' = app_node s"
  using assms by (auto simp: engine_transition_def split: sum.splits)

lemma engine_transition_Inl: "engine_transition e pid next res s = (Inl err, s') \<Longrightarrow> s' = s"
  by (auto simp: engine_transition_def split: sum.splits)

lemma engine_transition_steps:
  assumes "engine_transition e pid next res s = (r, s')"
  shows "app_steps s s'" and "app_node s' = app_node s"
proof -
  show "app_steps s s'"
  proof (cases r)
    case (Inl err)
    then show ?thesis using engine_transition_Inl [of e pid "next" res s err s'] assms by simp
  next
    case (Inr tr)
    then have t: "transition_payment e None pid next res (app_db s) = Inr (tr, app_db s')"
      using engine_transition_Inr(1) assms by blast
    show ?thesis unfolding app_steps_def
      using transition_op.op_schema [OF _ t] transition_op.op_evolves [OF _ t] by blast
  qed
  show "app_node s' = app_node s"
    using assms by (auto simp: engine_transition_def split: sum.splits)
qed

text \<open>What \<open>send_begin\<close> does: an error changes nothing, otherwise one \<open>begin_payment\<close>.\<close>

lemma send_begin_Inr:
  assumes "send_begin be sha256 json_text e p k req s = (Inr (begun, b, a), s')"
  obtains parsed amount new d0 where
    "be_parse_invoice be (app_node s) (trim (sr_bolt11 req)) = Inr parsed"
    "send_amount (pi_amount_msat parsed) (sr_amount_msat req) = Inr amount"
    "amount_in_supply amount" "d0 = (app_db s)\<lparr>next_uuid := next_uuid (app_db s) + 1\<rparr>"
    "new = \<lparr>np_id = id_new PaymentId (env_uuid e (next_uuid (app_db s))), np_project_id = p,
       np_idempotency_key = k,
       np_request_hash = request_hash sha256 json_text (trim (sr_bolt11 req)) amount (sr_metadata req),
       np_bolt11 = trim (sr_bolt11 req), np_payment_hash = pi_payment_hash parsed,
       np_amount_msat = amount, np_metadata = sr_metadata req\<rparr>"
    "begin_payment e new d0 = Inr (begun, app_db s')" "app_node s' = app_node s"
    "b = trim (sr_bolt11 req)" "a = (if pi_amount_msat parsed = None then Some amount else None)"
  using assms
  by (auto simp: send_begin_def Let_def fresh_id_def split: sum.splits if_splits)

lemma send_begin_Inl: "send_begin be sha256 json_text e p k req s = (Inl err, s') \<Longrightarrow> s' = s"
  by (auto simp: send_begin_def Let_def split: sum.splits if_splits prod.splits)

lemma send_begin_steps:
  assumes "send_begin be sha256 json_text e p k req s = (r, s')"
  shows "app_steps s s'" and "app_node s' = app_node s"
proof -
  have "app_steps s s' \<and> app_node s' = app_node s"
  proof (cases r)
    case (Inl err)
    then show ?thesis using send_begin_Inl assms by (metis app_steps_refl)
  next
    case (Inr x)
    obtain begun b a where "x = (begun, b, a)" by (cases x)
    with Inr assms have "send_begin be sha256 json_text e p k req s = (Inr (begun, b, a), s')" by simp
    then show ?thesis
    proof (rule send_begin_Inr)
      fix parsed amount new d0
      assume d0: "d0 = (app_db s)\<lparr>next_uuid := next_uuid (app_db s) + 1\<rparr>"
        and bp: "begin_payment e new d0 = Inr (begun, app_db s')" and n: "app_node s' = app_node s"
      have "schema_ok (app_db s') \<and> evolves (app_db s) (app_db s')" if "schema_ok (app_db s)"
      proof -
        have "schema_ok d0" "evolves (app_db s) d0"
          using that d0 by (simp_all add: schema_table evolves_table)
        then show ?thesis
          using begin_op.op_schema [OF _ bp] begin_op.op_evolves [OF _ bp] evolves_trans by blast
      qed
      then show ?thesis using n by (simp add: app_steps_def)
    qed
  qed
  then show "app_steps s s'" and "app_node s' = app_node s" by simp_all
qed

lemma send_dispatch_db: "send_dispatch be b a s = (r, s') \<Longrightarrow> app_db s' = app_db s"
  by (auto simp: send_dispatch_def split: prod.splits)

lemma send_dispatch_steps: "send_dispatch be b a s = (r, s') \<Longrightarrow> app_steps s s'"
  by (auto simp: app_steps_def dest: send_dispatch_db)

lemma send_payment_steps:
  assumes "send_payment be sha256 json_text e p k req s = (r, s')"
  shows "app_steps s s'"
  using assms unfolding send_payment_def send_pend_def send_refused_def
  by (auto split: prod.splits sum.splits if_splits
      dest!: send_begin_steps(1) send_dispatch_steps engine_transition_steps(1) intro: app_steps_trans)

lemma pass_pending_steps:
  assumes "pass_pending e r c n s = (x, s')"
  shows "app_steps s s'" and "app_node s' = app_node s"
  using assms by (auto simp: pass_pending_def split: if_splits prod.splits sum.splits
      dest: engine_transition_steps)

lemma reconcile_payment_steps:
  assumes "reconcile_payment be e r s = (x, s')"
  shows "app_steps s s' \<and> app_node s' = app_node s"
  using assms unfolding reconcile_payment_def
  by (auto split: sum.splits if_splits option.splits prod.splits
      dest: pass_pending_steps engine_transition_steps
      intro: app_steps_trans [OF pass_pending_steps(1) engine_transition_steps(1)]
        trans [OF engine_transition_steps(2) pass_pending_steps(2)])

lemma settle_event_keeps:
  assumes "schema_ok d" and "settle_event e pre h n res d = (x, d')"
  shows "schema_ok d' \<and> evolves d d'"
  using assms
  by (auto simp: settle_event_def split: option.splits sum.splits
      dest: transition_op.op_schema transition_op.op_evolves)

lemma handle_node_event_keeps:
  assumes ok: "schema_ok d" and h: "handle_node_event e ev d = (x, d')"
  shows "schema_ok d' \<and> evolves d d'"
proof (cases ev)
  case (PaymentReceived hash amt)
  then show ?thesis using h ok
    by (auto simp: handle_node_event_def split: sum.splits dest: mark_paid_op.op_schema mark_paid_op.op_evolves)
next
  case (PaymentSuccessful hash pre fee)
  then show ?thesis using h settle_event_keeps [OF ok] by (simp add: handle_node_event_def)
next
  case (PaymentFailed hash reason)
  then show ?thesis using h ok settle_event_keeps [OF ok]
    by (auto simp: handle_node_event_def split: option.splits)
qed (use h ok in \<open>auto simp: handle_node_event_def\<close>)

section \<open>Properties\<close>

lemma amount_in_supply_nonzero: "amount_in_supply a \<Longrightarrow> a \<noteq> 0 \<and> unat a < 2 ^ 63"
proof -
  assume "amount_in_supply a"
  then have "unat (sat (to_sats_floor (Millisatoshis a))) \<noteq> 0"
      "unat (sat (to_sats_floor (Millisatoshis a))) \<le> 2100000000000000"
    by (simp_all add: amount_in_supply_def Let_def word_le_nat_alt unsigned_eq_0_iff)
  then have "unat a div 1000 \<noteq> 0" "unat a div 1000 \<le> 2100000000000000" by (simp_all add: unat_to_sats_floor)
  then have "unat a \<noteq> 0" "unat a < 2100000000000000 * 1000 + 1000" by auto
  then show ?thesis by auto
qed

text \<open>The payment a send answers with is the one \<open>begin_payment\<close> found or made.\<close>

lemma send_payment_begun:
  assumes "send_payment be sha256 json_text e p k req s = (Inr res, s')"
  obtains begun b a s1 where "send_begin be sha256 json_text e p k req s = (Inr (begun, b, a), s1)"
    "pay_id (sd_payment res) = pay_id (bo_payment begun)" "app_steps s1 s'"
proof -
  obtain begun b a s1 where bg: "send_begin be sha256 json_text e p k req s = (Inr (begun, b, a), s1)"
    using assms by (auto simp: send_payment_def split: prod.splits sum.splits)
  note id = transition_result_id [OF engine_transition_Inr(1)]
  have "pay_id (sd_payment res) = pay_id (bo_payment begun)"
    using assms bg unfolding send_payment_def send_pend_def send_refused_def
    by (auto split: prod.splits sum.splits if_splits dest: id)
  moreover have "app_steps s1 s'"
    using assms bg unfolding send_payment_def send_pend_def send_refused_def
    by (auto split: prod.splits sum.splits if_splits dest!: send_dispatch_steps engine_transition_steps(1)
        intro: app_steps_trans)
  ultimately show ?thesis using that bg by blast
qed

text \<open>
  C2. Retrying a send never pays twice: after \<open>send_payment\<close> answered, however the database evolves,
  the same request under the same idempotency key (while the node still parses the invoice) returns
  the stored payment, marked as not created, without calling the node and without changing any
  table.
\<close>

theorem send_payment_replay:
  assumes "schema_ok (app_db s)" and "send_payment be sha256 json_text e p k req s = (Inr res, s1)"
    and "schema_ok (app_db s2)" and "evolves (app_db s1) (app_db s2)"
    and "be_parse_invoice be (app_node s2) (trim (sr_bolt11 req))
         = be_parse_invoice be (app_node s) (trim (sr_bolt11 req))"
  shows "\<exists>r \<in> set (t_payments (app_db s2)). pay_id r = pay_id (sd_payment res)
    \<and> send_payment be sha256 json_text e' p k req s2
      = (Inr \<lparr>sd_payment = r, sd_created = False\<rparr>,
         s2\<lparr>app_db := (app_db s2)\<lparr>next_uuid := next_uuid (app_db s2) + 1\<rparr>\<rparr>)"
  using assms(2)
proof (rule send_payment_begun)
  fix begun b a sb
  assume bg: "send_begin be sha256 json_text e p k req s = (Inr (begun, b, a), sb)"
    and i: "pay_id (sd_payment res) = pay_id (bo_payment begun)" and st: "app_steps sb s1"
  have ev: "evolves (app_db sb) (app_db s2)"
    using send_begin_steps(1) [OF bg] st assms(1,4) evolves_trans by (auto simp: app_steps_def)
  from bg show ?thesis
  proof (rule send_begin_Inr)
    fix parsed amount new d0
    assume pr: "be_parse_invoice be (app_node s) (trim (sr_bolt11 req)) = Inr parsed"
      and am: "send_amount (pi_amount_msat parsed) (sr_amount_msat req) = Inr amount" "amount_in_supply amount"
      and new: "new = \<lparr>np_id = id_new PaymentId (env_uuid e (next_uuid (app_db s))), np_project_id = p,
         np_idempotency_key = k,
         np_request_hash = request_hash sha256 json_text (trim (sr_bolt11 req)) amount (sr_metadata req),
         np_bolt11 = trim (sr_bolt11 req), np_payment_hash = pi_payment_hash parsed,
         np_amount_msat = amount, np_metadata = sr_metadata req\<rparr>"
      and bp: "begin_payment e new d0 = Inr (begun, app_db sb)"
    obtain r where r: "r \<in> set (t_payments (app_db s2))" "payment_le (bo_payment begun) r"
        "select_one (\<lambda>x. pay_project_id x = p \<and> pay_idempotency_key x = k) (t_payments (app_db s2)) = Some r"
        "pay_request_hash r = request_hash sha256 json_text (trim (sr_bolt11 req)) amount (sr_metadata req)"
      using begun_found [OF bp assms(3) ev] new by auto
    have "pay_id r = pay_id (sd_payment res)"
      using i payment_fixed_cols [OF payment_le_fixed [OF r(2)]] by simp
    then show ?thesis using r(1,3,4) pr am assms(5) amount_in_supply_nonzero [OF am(2)]
      by (intro bexI [of _ r])
        (auto simp: send_payment_def send_begin_def Let_def fresh_id_def begin_payment_def to_i64_def unsigned_eq_0_iff)
  qed
qed

text \<open>What reconciliation should decide: the node's verdict, and doubt only where there is none.\<close>

definition settled_status :: "payment_status \<Rightarrow> node_payment option \<Rightarrow> payment_status" where
  "settled_status st view =
     (if payment_is_final st then st
      else case view of
        None \<Rightarrow> if st = PayCreated then PayFailed else PayUnknown
      | Some p \<Rightarrow> (case nop_status p of NodeSucceeded \<Rightarrow> PaySucceeded | NodeFailed \<Rightarrow> PayFailed | NodePending \<Rightarrow> st))"

lemma engine_transition_total:
  assumes "schema_ok (app_db s)" "events_fresh e (app_db s)" "r \<in> set (t_payments (app_db s))"
    "payment_from_str (pay_status r) = Inr fr" "payment_can_transition_to fr next" "fee_column res = Inr fee"
  shows "\<exists>d'. engine_transition e (pay_id r) next res s
    = (Inr \<lparr>tr_payment = resolve_row e next fee res r, tr_changed = True\<rparr>, s\<lparr>app_db := d'\<rparr>)"
proof -
  obtain out d' where "transition_payment e None (pay_id r) next res (app_db s) = Inr (out, d')" "tr_changed out"
      "tr_payment out = resolve_row e next fee res r"
    using transition_total [OF assms] by blast
  then show ?thesis by (intro exI [of _ d']) (simp add: engine_transition_def)
qed

lemma pend_keeps_fresh:
  assumes "schema_ok (app_db s)" and "events_fresh e (app_db s)"
    and "engine_transition e' pid PayPending no_resolution s = (Inr tr, s')"
  shows "events_fresh e (app_db s')"
proof -
  have "transition_payment e' None pid PayPending no_resolution (app_db s) = Inr (tr, app_db s')"
    using engine_transition_Inr(1) [OF assms(3)] .
  then show ?thesis
  proof (cases rule: transition_payment_cases)
    case unchanged
    then show ?thesis using assms(2) by simp
  next
    case (moved d1 current fr fee)
    then have "app_db s' = (app_db s)\<lparr>t_payments := t_payments (app_db s')\<rparr>"
      by (auto simp: resolution_emitted_def)
    then show ?thesis using assms(2) by (metis (no_types, lifting) db.select_convs(7,9,15) db.surjective
          db.update_convs(4) events_fresh_def)
  qed
qed

lemma reconcile_again:
  assumes "payment_from_str (pay_status r) = Inr st"
    and "payment_is_final st \<or> reconcile_target st (be_payment be (app_node s) (pay_payment_hash r)) = None"
  shows "reconcile_payment be e r s = (Inr r, s)"
  using assms by (auto simp: reconcile_payment_def)

lemma reconcile_moves:
  assumes ok: "schema_ok (app_db s)" "events_fresh e (app_db s)" "r \<in> set (t_payments (app_db s))"
    and st: "payment_from_str (pay_status r) = Inr st" "\<not> payment_is_final st"
    and tgt: "reconcile_target st (be_payment be (app_node s) (pay_payment_hash r)) = Some (next, res)"
    and fee: "fee_column res = Inr fee"
  shows "\<exists>r' d'. reconcile_payment be e r s = (Inr r', s\<lparr>app_db := d'\<rparr>)
    \<and> pay_status r' = payment_as_str next \<and> payment_fixed r' = payment_fixed r"
proof (cases "st = PayCreated \<and> next \<noteq> PayFailed")
  case False
  have "payment_can_transition_to st next"
    using tgt st(2) False
    by (cases st) (auto simp: reconcile_target_def payment_is_final_def split: option.splits node_payment_status.splits if_splits)
  from engine_transition_total [OF ok st(1) this fee] obtain d' where
    "engine_transition e (pay_id r) next res s
      = (Inr \<lparr>tr_payment = resolve_row e next fee res r, tr_changed = True\<rparr>, s\<lparr>app_db := d'\<rparr>)" by blast
  then show ?thesis using st tgt False by (auto simp: reconcile_payment_def pass_pending_def)
next
  case True
  have "payment_can_transition_to st PayPending" using True by simp
  from engine_transition_total [OF ok st(1) this, of no_resolution None] obtain d1 where
    t1: "engine_transition e (pay_id r) PayPending no_resolution s
      = (Inr \<lparr>tr_payment = resolve_row e PayPending None no_resolution r, tr_changed = True\<rparr>, s\<lparr>app_db := d1\<rparr>)"
    by (auto simp: fee_column_def no_resolution_def)
  let ?r1 = "resolve_row e PayPending None no_resolution r" and ?s1 = "s\<lparr>app_db := d1\<rparr>"
  have tr: "transition_payment e None (pay_id r) PayPending no_resolution (app_db s)
      = Inr (\<lparr>tr_payment = ?r1, tr_changed = True\<rparr>, d1)"
    using engine_transition_Inr(1) [OF t1] by simp
  have "?r1 \<in> set (t_payments d1)"
    using tr
  proof (cases rule: transition_payment_cases)
    case (moved c1 current fr fee')
    then show ?thesis using resolution_payments [OF moved(8)]
      by (auto simp: set_update_where intro!: image_eqI [of _ _ current])
  qed simp
  moreover have "schema_ok d1" using transition_op.op_schema [OF ok(1) tr] .
  moreover have "events_fresh e d1" using pend_keeps_fresh [OF ok(1,2) t1] by simp
  moreover have "payment_can_transition_to PayPending next"
    using tgt True by (auto simp: reconcile_target_def split: option.splits node_payment_status.splits)
  moreover have "payment_from_str (pay_status ?r1) = Inr PayPending" by (simp add: payment_from_str_def)
  ultimately obtain d' where "engine_transition e (pay_id ?r1) next res ?s1
      = (Inr \<lparr>tr_payment = resolve_row e next fee res ?r1, tr_changed = True\<rparr>, ?s1\<lparr>app_db := d'\<rparr>)"
    using engine_transition_total [of ?s1 e ?r1 PayPending "next" res fee] fee by auto
  moreover have "pay_id ?r1 = pay_id r" by (simp add: resolve_row_def)
  ultimately show ?thesis using st tgt True t1 by (auto simp: reconcile_payment_def pass_pending_def)
qed

text \<open>
  C3. Reconciliation follows the node: for a stored payment it succeeds, a final payment is left
  alone, the node's verdict decides whenever there is one, a payment still in flight at the node is
  left alone, and without a record a dispatched payment becomes \<open>unknown\<close>, never \<open>failed\<close>; only one
  that was never dispatched fails. Reconciling the result again changes nothing. A fee the node reports is
  assumed to be below \<open>2 ^ 63\<close> millisatoshis, the range of the column and far above the bitcoin supply.
\<close>

theorem reconcile_follows_node:
  assumes "schema_ok d" and "events_fresh e d" and "r \<in> set (t_payments d)"
    and "payment_from_str (pay_status r) = Inr st"
    and "view = be_payment be n (pay_payment_hash r)"
    and "\<forall>v f. view = Some v \<longrightarrow> nop_fee_msat v = Some f \<longrightarrow> unat f < 2 ^ 63"
  shows "\<exists>r' d'. reconcile_payment be e r \<lparr>app_db = d, app_node = n\<rparr> = (Inr r', \<lparr>app_db = d', app_node = n\<rparr>)
    \<and> pay_status r' = payment_as_str (settled_status st view) \<and> payment_fixed r' = payment_fixed r
    \<and> reconcile_payment be e' r' \<lparr>app_db = d', app_node = n\<rparr> = (Inr r', \<lparr>app_db = d', app_node = n\<rparr>)"
proof (cases "payment_is_final st \<or> reconcile_target st view = None")
  case True
  then have "settled_status st view = st"
    by (auto simp: settled_status_def reconcile_target_def split: option.splits node_payment_status.splits if_splits)
  then have "pay_status r = payment_as_str (settled_status st view)" using assms(4) by (simp add: pay_text.parse_iff)
  then show ?thesis
    using reconcile_again [OF assms(4), of be "\<lparr>app_db = d, app_node = n\<rparr>"] True assms(5) by auto
next
  case False
  then obtain nx res where t: "reconcile_target st view = Some (nx, res)" by auto
  have nf: "\<not> payment_is_final st" using False by simp
  have "\<forall>f. rs_fee_msat res = Some f \<longrightarrow> unat f < 2 ^ 63"
    using t assms(6)
    by (auto simp: reconcile_target_def no_resolution_def
        split: option.splits node_payment_status.splits if_splits)
  then obtain fee where "fee_column res = Inr fee"
    by (cases "rs_fee_msat res") (auto simp: fee_column_def to_i64_def)
  then obtain r' d' where r': "reconcile_payment be e r \<lparr>app_db = d, app_node = n\<rparr>
      = (Inr r', \<lparr>app_db = d, app_node = n\<rparr>\<lparr>app_db := d'\<rparr>)" "pay_status r' = payment_as_str nx"
      "payment_fixed r' = payment_fixed r"
    using reconcile_moves [of "\<lparr>app_db = d, app_node = n\<rparr>" e r st be nx res fee] assms nf t by auto
  have nx: "nx = settled_status st view"
    using t nf by (auto simp: settled_status_def reconcile_target_def split: option.splits node_payment_status.splits if_splits)
  have "pay_payment_hash r' = pay_payment_hash r" using payment_fixed_cols [OF r'(3)] by simp
  then have "reconcile_payment be e' r' \<lparr>app_db = d', app_node = n\<rparr> = (Inr r', \<lparr>app_db = d', app_node = n\<rparr>)"
    using t r'(2) assms(5) nf
    by (intro reconcile_again [of r' nx])
      (auto simp: reconcile_target_def payment_is_final_def split: option.splits node_payment_status.splits if_splits)
  then show ?thesis using r' nx by auto
qed

section \<open>Redelivery of node events\<close>

lemma find_unresolved_Some:
  assumes "find_unresolved_payment_by_hash h d = Some r"
  shows "r \<in> set (t_payments d) \<and> pay_payment_hash r = h \<and> unresolved r"
proof -
  let ?t = "filter (\<lambda>r. pay_payment_hash r = h \<and> unresolved r) (t_payments d)"
  obtain rest where "desc_by pay_created_at ?t = r # rest"
    using assms by (auto simp: find_unresolved_payment_by_hash_def split: list.splits)
  then have "r \<in> set (desc_by pay_created_at ?t)" by (simp del: set_desc_by)
  then show ?thesis by simp
qed

lemma find_unresolved_None:
  "find_unresolved_payment_by_hash h d = None \<longleftrightarrow>
     (\<forall>r \<in> set (t_payments d). pay_payment_hash r = h \<longrightarrow> \<not> unresolved r)"
proof -
  let ?t = "filter (\<lambda>r. pay_payment_hash r = h \<and> unresolved r) (t_payments d)"
  have "find_unresolved_payment_by_hash h d = None \<longleftrightarrow> desc_by pay_created_at ?t = []"
    by (auto simp: find_unresolved_payment_by_hash_def split: list.splits)
  also have "\<dots> \<longleftrightarrow> ?t = []" by (simp only: length_0_conv [symmetric] length_desc_by)
  finally show ?thesis by (auto simp: filter_empty_conv)
qed

definition one_open_per_hash :: "db \<Rightarrow> bool" where
  "one_open_per_hash d \<longleftrightarrow> (\<forall>r \<in> set (t_payments d). \<forall>r' \<in> set (t_payments d).
     unresolved r \<longrightarrow> unresolved r' \<longrightarrow> pay_payment_hash r = pay_payment_hash r' \<longrightarrow> r = r')"

lemma settle_again:
  assumes ok: "schema_ok d" and one: "one_open_per_hash d" and fin: "nx \<in> {PaySucceeded, PayFailed}"
    and s: "settle_event e tag h nx res d = (Inr (), d1)"
  shows "settle_event e' tag h nx res d1 = (Inr (), d1)"
proof (cases "find_unresolved_payment_by_hash h d")
  case None
  then show ?thesis using s by (simp add: settle_event_def)
next
  case (Some p)
  note p = find_unresolved_Some [OF Some]
  obtain out where t: "transition_payment e (Some (tag @ pay_id p)) (pay_id p) nx res d = Inr (out, d1)"
    using s Some by (auto simp: settle_event_def split: sum.splits)
  then show ?thesis
  proof (cases rule: transition_payment_cases)
    case unchanged
    then show ?thesis using transition_unchanged_again [OF t] Some by (simp add: settle_event_def)
  next
    case (moved c1 current fr fee)
    have pays: "t_payments d1 = update_where (\<lambda>r. pay_id r = pay_id p) (resolve_row e nx fee res) (t_payments d)"
      using resolution_payments [OF moved(8)] by simp
    have "\<not> unresolved r" if r: "r \<in> set (t_payments d1)" "pay_payment_hash r = h" for r
    proof
      assume u: "unresolved r"
      obtain r0 where r0: "r0 \<in> set (t_payments d)"
          "r = (if pay_id r0 = pay_id p then resolve_row e nx fee res r0 else r0)"
        using r(1) pays by (auto simp: set_update_where)
      show False
      proof (cases "pay_id r0 = pay_id p")
        case True
        then show ?thesis using r0(2) u fin by (auto simp: unresolved_def)
      next
        case False
        then show ?thesis using r0 u p r(2) one by (auto simp: one_open_per_hash_def)
      qed
    qed
    then have "find_unresolved_payment_by_hash h d1 = None" by (simp add: find_unresolved_None)
    then show ?thesis by (simp add: settle_event_def)
  qed
qed

text \<open>
  C11. Node events may be delivered again: once an event was handled, handling it again succeeds and
  changes nothing, provided no two open payments share a payment hash.
\<close>

theorem node_event_redelivery:
  assumes "schema_ok d" and "one_open_per_hash d" and "handle_node_event e ev d = (Inr (), d1)"
  shows "handle_node_event e' ev d1 = (Inr (), d1)"
proof (cases ev)
  case (PaymentReceived h amt)
  then obtain out where m: "mark_invoice_paid e (''recv:'' @ h) h amt d = Inr (out, d1)"
    using assms(3) by (auto simp: handle_node_event_def split: sum.splits)
  have "mark_invoice_paid e' (''recv:'' @ h) h amt d1 = Inr (None, d1)"
  proof (cases out)
    case (Some paid)
    then show ?thesis
      using mark_paid_again [OF assms(1) _ _ evolves_refl] mark_paid_op.op_schema [OF assms(1) m] m by blast
  next
    case None
    with m show ?thesis
    proof (cases rule: mark_invoice_paid_cases)
      case ignored
      from ignored(3) show ?thesis
      proof
        assume "''recv:'' @ h \<in> nev_dedupe_key ` set (t_node_events d)"
        then show ?thesis using ignored(2) by (simp add: mark_invoice_paid_def claim_node_event_def)
      next
        assume "\<exists>r \<in> set (t_invoices d). inv_payment_hash r = h \<and> inv_status r = ''paid''"
        then obtain r where r: "r \<in> set (t_invoices d)" "inv_payment_hash r = h" "inv_status r = ''paid''" by blast
        have "select_one (\<lambda>x. inv_payment_hash x = h) (t_invoices d) = Some r"
          using select_one_unique [OF _ r(1), of inv_payment_hash] r(2) assms(1)
          by (simp add: schema_ok_def invoices_table_def)
        then show ?thesis using r(3) ignored(2)
          by (simp add: mark_invoice_paid_def claim_node_event_def invoice_from_str_def)
      qed
    qed simp
  qed
  then show ?thesis using PaymentReceived by (simp add: handle_node_event_def)
next
  case (PaymentSuccessful h pre fee)
  then show ?thesis using assms(3) settle_again [OF assms(1,2)] by (simp add: handle_node_event_def)
next
  case (PaymentFailed hash reason)
  then show ?thesis using assms(3) settle_again [OF assms(1,2)]
    by (cases hash) (simp_all add: handle_node_event_def)
qed (use assms(3) in \<open>simp_all add: handle_node_event_def\<close>)

section \<open>A payment in the small database\<close>

definition sample_request :: send_request where
  "sample_request = \<lparr>sr_bolt11 = sample_bolt11, sr_amount_msat = None, sr_metadata = JNull\<rparr>"

definition sample_app :: "mock_state app" where
  "sample_app = \<lparr>app_db = sample_db, app_node = mock_new\<rparr>"

lemma sample_send:
  "\<exists>res s1. send_payment (mock_backend show_err) sha256 json_text sample_env ''prj_a'' ''k'' sample_request sample_app
      = (Inr res, s1) \<and> sd_created res \<and> pay_status (sd_payment res) = ''pending''
      \<and> t_payments (app_db s1) = [sd_payment res] \<and> pay_payment_hash (sd_payment res) = fake_hash 1
      \<and> app_db s1 = sample_db\<lparr>next_uuid := 1, t_payments := [sd_payment res]\<rparr>"
  by (simp add: send_payment_def send_begin_def sample_request_def sample_app_def mock_backend_def send_amount_def
      amount_in_supply_def to_sats_floor_def MAX_SATS_def MSAT_PER_SAT_def word_le_nat_alt fresh_id_def
      sample_db_def empty_db_def begin_payment_def to_i64_def select_one_def Let_def send_pend_def
      engine_transition_def insert_row_def transition_payment_def payment_from_str_def payment_transition_def
      fee_column_def no_resolution_def update_where_def send_dispatch_def mock_send_payment_def mock_new_def
      resolve_row_def)

theorem send_payment_replay_witness:
  "\<exists>res s1 r s3. send_payment (mock_backend (\<lambda>_. [])) (\<lambda>s. [of_nat (length s)]) (\<lambda>_. ''null'') sample_env
       ''prj_a'' ''k'' sample_request sample_app = (Inr res, s1)
     \<and> send_payment (mock_backend (\<lambda>_. [])) (\<lambda>s. [of_nat (length s)]) (\<lambda>_. ''null'') sample_env
       ''prj_a'' ''k'' sample_request s1 = (Inr \<lparr>sd_payment = r, sd_created = False\<rparr>, s3)
     \<and> pay_id r = pay_id (sd_payment res) \<and> app_node s3 = app_node s1"
proof -
  obtain res s1 where s: "send_payment (mock_backend (\<lambda>_. [])) (\<lambda>s. [of_nat (length s)]) (\<lambda>_. ''null'') sample_env
       ''prj_a'' ''k'' sample_request sample_app = (Inr res, s1)" using sample_send by blast
  have ok: "schema_ok (app_db sample_app)" using sample_schema by (simp add: sample_app_def)
  then have ok1: "schema_ok (app_db s1)" using send_payment_steps [OF s] by (simp add: app_steps_def)
  have "be_parse_invoice (mock_backend (\<lambda>_. [])) (app_node s1) (trim (sr_bolt11 sample_request))
      = be_parse_invoice (mock_backend (\<lambda>_. [])) (app_node sample_app) (trim (sr_bolt11 sample_request))"
    by (simp add: mock_backend_def sample_request_def)
  from send_payment_replay [OF ok s ok1 evolves_refl this, of sample_env] s show ?thesis by fastforce
qed

theorem reconcile_follows_node_witness:
  "\<exists>res s1 r' d'. send_payment (mock_backend (\<lambda>_. [])) (\<lambda>s. [of_nat (length s)]) (\<lambda>_. ''null'') sample_env
       ''prj_a'' ''k'' sample_request sample_app = (Inr res, s1)
     \<and> reconcile_payment (mock_backend (\<lambda>_. [])) sample_env (sd_payment res)
         \<lparr>app_db = app_db s1, app_node = mock_new\<rparr> = (Inr r', \<lparr>app_db = d', app_node = mock_new\<rparr>)
     \<and> pay_status r' = ''unknown''"
proof -
  obtain res s1 where s: "send_payment (mock_backend (\<lambda>_. [])) (\<lambda>s. [of_nat (length s)]) (\<lambda>_. ''null'') sample_env
       ''prj_a'' ''k'' sample_request sample_app = (Inr res, s1)" "pay_status (sd_payment res) = ''pending''"
      "t_payments (app_db s1) = [sd_payment res]"
      "app_db s1 = sample_db\<lparr>next_uuid := 1, t_payments := [sd_payment res]\<rparr>" using sample_send by blast
  have ok: "schema_ok (app_db s1)"
    using send_payment_steps [OF s(1)] sample_schema by (simp add: app_steps_def sample_app_def)
  have "events_fresh sample_env (app_db s1)"
    using sample_fresh s(4) by (auto simp: events_fresh_def sample_db_def empty_db_def drawn_def)
  from reconcile_follows_node [OF ok this, of "sd_payment res" PayPending None "mock_backend (\<lambda>_. [])" mock_new sample_env]
    s(1-3)
  show ?thesis
    by (fastforce simp: payment_from_str_def mock_backend_def mock_payment_def mock_new_def settled_status_def
        payment_is_final_def)
qed

theorem node_event_redelivery_witness:
  "\<exists>d1. handle_node_event sample_env (PaymentReceived ''h'' 5000) sample_invoices = (Inr (), d1)
     \<and> handle_node_event sample_env (PaymentReceived ''h'' 5000) d1 = (Inr (), d1)
     \<and> map inv_status (t_invoices d1) = [''paid'']"
proof -
  obtain d1 where m: "mark_invoice_paid sample_env ''recv:h'' (inv_payment_hash sample_invoice) 5000 sample_invoices
      = Inr (Some (pay_row sample_env 5000 sample_invoice), d1)"
    using mark_paid_total [OF sample_invoices_ok, of sample_invoice "''recv:h''" 5000 5000]
    by (auto simp: sample_invoices_def sample_invoice_def sample_db_def empty_db_def to_i64_def)
  then have h: "handle_node_event sample_env (PaymentReceived ''h'' 5000) sample_invoices = (Inr (), d1)"
    by (simp add: handle_node_event_def sample_invoice_def)
  have "one_open_per_hash sample_invoices"
    by (simp add: one_open_per_hash_def sample_invoices_def sample_db_def empty_db_def)
  from node_event_redelivery [OF sample_invoices_ok(1) this h]
  have "handle_node_event sample_env (PaymentReceived ''h'' 5000) d1 = (Inr (), d1)" .
  moreover have "pay_row sample_env 5000 sample_invoice \<in> set (t_invoices d1)"
    using mark_paid_again [OF sample_invoices_ok(1) m _ evolves_refl] mark_paid_op.op_schema [OF sample_invoices_ok(1) m]
    by blast
  moreover have "length (t_invoices d1) = 1"
    using m
  proof (cases rule: mark_invoice_paid_cases)
    case (paid c1 current amount ev pl)
    then show ?thesis using emit_Inr [OF paid(7)] by (simp add: emitted_def sample_invoices_def)
  qed simp
  ultimately show ?thesis using h by (auto simp: length_Suc_conv pay_row_def)
qed

end
