(* ===== verification/Engine_World.thy ===== *)
theory Engine_World
  imports Engine
begin

text \<open>
  The engine under concurrency and crashes. Requests to send run as tasks whose atomic parts
  interleave with each other, with reconciliation, node events, every other transaction and the node
  itself; a crash forgets all tasks and keeps the database and the node. \<open>w_sent\<close> records, for the
  proofs only, the payments for which the node was asked to send.
\<close>

datatype task =
    TBegun string string "u64 option"
  | TPending string string "u64 option"
  | TRefused string lightning_error

fun task_id :: "task \<Rightarrow> string" where
  "task_id (TBegun i _ _) = i"
| "task_id (TPending i _ _) = i"
| "task_id (TRefused i _) = i"

fun unsent :: "task \<Rightarrow> bool" where
  "unsent (TRefused _ _) = False"
| "unsent _ = True"

record 'n world =
  w_app :: "'n app"
  w_tasks :: "task list"
  w_sent :: "string list"

inductive world_step ::
  "'n backend \<Rightarrow> (string \<Rightarrow> u8 list) \<Rightarrow> (json \<Rightarrow> string) \<Rightarrow> 'n world \<Rightarrow> 'n world \<Rightarrow> bool"
  for be sha256 json_text where
  begun: "send_begin be sha256 json_text e p k req (w_app w) = (Inr (b, bolt, amt), s') \<Longrightarrow> bo_created b \<Longrightarrow>
    world_step be sha256 json_text w
      (w\<lparr>w_app := s', w_tasks := TBegun (pay_id (bo_payment b)) bolt amt # w_tasks w\<rparr>)"
| replayed: "send_begin be sha256 json_text e p k req (w_app w) = (Inr (b, bolt, amt), s') \<Longrightarrow> \<not> bo_created b \<Longrightarrow>
    world_step be sha256 json_text w (w\<lparr>w_app := s'\<rparr>)"
| pended: "w_tasks w = ts @ TBegun i bolt amt # us \<Longrightarrow> send_pend e i (w_app w) = (Inr tr, s') \<Longrightarrow>
    world_step be sha256 json_text w (w\<lparr>w_app := s', w_tasks := ts @ TPending i bolt amt # us\<rparr>)"
| not_pended: "w_tasks w = ts @ TBegun i bolt amt # us \<Longrightarrow> send_pend e i (w_app w) = (Inl err, s') \<Longrightarrow>
    world_step be sha256 json_text w (w\<lparr>w_app := s', w_tasks := ts @ us\<rparr>)"
| accepted: "w_tasks w = ts @ TPending i bolt amt # us \<Longrightarrow> send_dispatch be bolt amt (w_app w) = (Inr h, s') \<Longrightarrow>
    world_step be sha256 json_text w (w\<lparr>w_app := s', w_tasks := ts @ us, w_sent := i # w_sent w\<rparr>)"
| refused: "w_tasks w = ts @ TPending i bolt amt # us \<Longrightarrow> send_dispatch be bolt amt (w_app w) = (Inl err, s') \<Longrightarrow>
    world_step be sha256 json_text w
      (w\<lparr>w_app := s', w_tasks := ts @ TRefused i err # us, w_sent := i # w_sent w\<rparr>)"
| failed: "w_tasks w = ts @ TRefused i err # us \<Longrightarrow> send_refused e i err (w_app w) = (r, s') \<Longrightarrow>
    world_step be sha256 json_text w (w\<lparr>w_app := s', w_tasks := ts @ us\<rparr>)"
| crash: "world_step be sha256 json_text w (w\<lparr>w_tasks := []\<rparr>)"
| reconcile: "reconcile_payment be e row (w_app w) = (r', s') \<Longrightarrow>
    world_step be sha256 json_text w (w\<lparr>w_app := s'\<rparr>)"
| event: "handle_node_event e ev (app_db (w_app w)) = (r'', d') \<Longrightarrow>
    world_step be sha256 json_text w (w\<lparr>w_app := (w_app w)\<lparr>app_db := d'\<rparr>\<rparr>)"
| other: "schema_ok d' \<Longrightarrow> evolves (app_db (w_app w)) d' \<Longrightarrow>
    world_step be sha256 json_text w (w\<lparr>w_app := (w_app w)\<lparr>app_db := d'\<rparr>\<rparr>)"
| node: "world_step be sha256 json_text w (w\<lparr>w_app := (w_app w)\<lparr>app_node := n'\<rparr>\<rparr>)"

inductive_cases world_stepE: "world_step be sha256 json_text w w'"

section \<open>The invariant\<close>

definition is_past_created :: "db \<Rightarrow> string \<Rightarrow> bool" where
  "is_past_created d i \<longleftrightarrow> (\<exists>r \<in> set (t_payments d). pay_id r = i \<and> pay_status r \<noteq> ''created'')"

fun task_ok :: "db \<Rightarrow> task \<Rightarrow> bool" where
  "task_ok d (TBegun i _ _) \<longleftrightarrow> i \<in> pay_id ` set (t_payments d)"
| "task_ok d (TPending i _ _) \<longleftrightarrow> is_past_created d i"
| "task_ok d (TRefused i _) \<longleftrightarrow> is_past_created d i"

definition world_ok :: "'n world \<Rightarrow> bool" where
  "world_ok w \<longleftrightarrow> schema_ok (app_db (w_app w))
     \<and> distinct (map task_id (filter unsent (w_tasks w)) @ w_sent w)
     \<and> (\<forall>t \<in> set (w_tasks w). task_ok (app_db (w_app w)) t)
     \<and> (\<forall>i \<in> set (w_sent w). is_past_created (app_db (w_app w)) i)"

lemma past_created_evolves: "evolves d d' \<Longrightarrow> is_past_created d i \<Longrightarrow> is_past_created d' i"
proof -
  assume ev: "evolves d d'" and "is_past_created d i"
  then obtain r where r: "r \<in> set (t_payments d)" "pay_id r = i" "pay_status r \<noteq> ''created''"
    by (auto simp: is_past_created_def)
  obtain r' where r': "r' \<in> set (t_payments d')" "payment_le r r'"
    using grows_mem [OF _ r(1)] ev unfolding evolves_def by blast
  have "pay_status r' \<noteq> ''created''"
  proof
    assume c: "pay_status r' = ''created''"
    then have "r' \<noteq> r" using r(3) by auto
    then obtain s s' where s: "pay_status r' = payment_as_str s'" "payment_can_transition_to\<^sup>+\<^sup>+ s s'"
      using r'(2) by (auto simp: payment_le_def)
    then have "s' = PayCreated" using c by (cases s') auto
    then obtain u where "payment_can_transition_to u PayCreated" using s(2) by (metis tranclp.cases)
    then show False by (cases u) simp_all
  qed
  moreover have "pay_id r' = i" using payment_fixed_cols [OF payment_le_fixed [OF r'(2)]] r(2) by simp
  ultimately show ?thesis using r'(1) by (auto simp: is_past_created_def)
qed

lemma payment_ids_evolve: "evolves d d' \<Longrightarrow> pay_id ` set (t_payments d) \<subseteq> pay_id ` set (t_payments d')"
proof -
  assume "evolves d d'"
  then have "prefix (map pay_id (t_payments d)) (map pay_id (t_payments d'))"
    by (intro grows_map [of payment_le]) (auto simp: evolves_def payment_fixed_def dest: payment_le_fixed)
  then show ?thesis using set_mono_prefix by fastforce
qed

lemma task_ok_evolves: "evolves d d' \<Longrightarrow> task_ok d t \<Longrightarrow> task_ok d' t"
  by (cases t) (auto intro: past_created_evolves dest: subsetD [OF payment_ids_evolve])

text \<open>A step that moves only the database and the node keeps the invariant of the same tasks.\<close>

lemma world_ok_app:
  assumes "world_ok w" and "app_steps (w_app w) s'"
  shows "world_ok (w\<lparr>w_app := s'\<rparr>)"
  using assms by (auto simp: world_ok_def app_steps_def intro: task_ok_evolves past_created_evolves)

lemma past_created_known: "is_past_created d i \<Longrightarrow> i \<in> pay_id ` set (t_payments d)"
  by (auto simp: is_past_created_def)

lemma sent_ids_known: "world_ok w \<Longrightarrow> i \<in> set (w_sent w) \<Longrightarrow> i \<in> pay_id ` set (t_payments (app_db (w_app w)))"
  by (auto simp: world_ok_def intro: past_created_known)

lemma task_ids_known: "world_ok w \<Longrightarrow> t \<in> set (w_tasks w) \<Longrightarrow> task_id t \<in> pay_id ` set (t_payments (app_db (w_app w)))"
proof -
  assume "world_ok w" and "t \<in> set (w_tasks w)"
  then have "task_ok (app_db (w_app w)) t" by (simp add: world_ok_def)
  then show ?thesis by (cases t) (auto intro: past_created_known)
qed

lemma begun_keeps:
  assumes ok: "world_ok w" and b: "send_begin be sha256 json_text e p k req (w_app w) = (Inr (b, bolt, amt), s')"
    and c: "bo_created b"
  shows "world_ok (w\<lparr>w_app := s', w_tasks := TBegun (pay_id (bo_payment b)) bolt amt # w_tasks w\<rparr>)"
proof -
  have s: "world_ok (w\<lparr>w_app := s'\<rparr>)" using world_ok_app [OF ok send_begin_steps(1) [OF b]] .
  from b have i: "pay_id (bo_payment b) \<notin> pay_id ` set (t_payments (app_db (w_app w)))
      \<and> bo_payment b \<in> set (t_payments (app_db s'))"
  proof (rule send_begin_Inr)
    fix parsed amount new d0
    assume d0: "d0 = (app_db (w_app w))\<lparr>next_uuid := next_uuid (app_db (w_app w)) + 1\<rparr>"
      and bp: "begin_payment e new d0 = Inr (b, app_db s')"
    from bp show ?thesis
      by (cases rule: begin_payment_cases) (use d0 c in simp_all)
  qed
  then have "pay_id (bo_payment b) \<notin> task_id ` set (w_tasks w) \<union> set (w_sent w)"
    using task_ids_known [OF ok] sent_ids_known [OF ok] by (metis UnE imageE)
  then show ?thesis using s i by (auto simp: world_ok_def)
qed

lemma pend_past_created:
  assumes "schema_ok (app_db s)" and "send_pend e i s = (Inr tr, s')"
  shows "is_past_created (app_db s') i"
proof -
  have t: "transition_payment e None i PayPending no_resolution (app_db s) = Inr (tr, app_db s')"
    using engine_transition_Inr(1) assms(2) by (simp add: send_pend_def)
  then show ?thesis
  proof (cases rule: transition_payment_cases)
    case unchanged
    then have "pay_status (tr_payment tr) \<noteq> ''created''"
      using t assms(1)
      by (auto simp: transition_payment_def payment_from_str_def payment_transition_def Let_def fee_column_def
          no_resolution_def split: option.splits if_splits)
    then show ?thesis using unchanged by (auto simp: is_past_created_def)
  next
    case (moved d1 current fr fee)
    then have "tr_payment tr \<in> set (t_payments (app_db s'))"
      using resolution_payments [OF moved(8)]
      by (auto simp: set_update_where intro!: image_eqI [of _ _ current])
    moreover have "pay_id (tr_payment tr) = i" "pay_status (tr_payment tr) = ''pending''"
      using moved(3,7) by (simp_all add: resolve_row_def)
    ultimately show ?thesis by (auto simp: is_past_created_def)
  qed
qed

text \<open>The parts of a step: a transition, a dispatch, another transaction, the node.\<close>

lemma world_ok_steps:
  assumes "world_ok w"
  shows "engine_transition e i n rs (w_app w) = (r, s') \<Longrightarrow> world_ok (w\<lparr>w_app := s'\<rparr>)"
    and "send_dispatch be b a (w_app w) = (x, s') \<Longrightarrow> world_ok (w\<lparr>w_app := s'\<rparr>)"
    and "(schema_ok (app_db (w_app w)) \<Longrightarrow> schema_ok d' \<and> evolves (app_db (w_app w)) d')
      \<Longrightarrow> world_ok (w\<lparr>w_app := (w_app w)\<lparr>app_db := d'\<rparr>\<rparr>)"
    and "world_ok (w\<lparr>w_app := (w_app w)\<lparr>app_node := n'\<rparr>\<rparr>)"
proof -
  note app = world_ok_app [OF assms]
  show "engine_transition e i n rs (w_app w) = (r, s') \<Longrightarrow> world_ok (w\<lparr>w_app := s'\<rparr>)"
    by (rule app) (rule engine_transition_steps(1))
  show "send_dispatch be b a (w_app w) = (x, s') \<Longrightarrow> world_ok (w\<lparr>w_app := s'\<rparr>)"
    by (rule app) (rule send_dispatch_steps)
qed (rule world_ok_app [OF assms]; simp add: app_steps_def)+

lemma dispatched_past_created:
  assumes "world_ok w" and "w_tasks w = ts @ TPending i bolt amt # us"
    and "send_dispatch be b a (w_app w) = (x, s')"
  shows "is_past_created (app_db s') i"
  using assms(1,2) send_dispatch_db [OF assms(3)] by (auto simp: world_ok_def)

lemma world_step_keeps: "world_step be sha256 json_text w w' \<Longrightarrow> world_ok w \<Longrightarrow> world_ok w'"
proof (induction rule: world_step.induct)
  case (begun e p k req w b bolt amt s')
  then show ?case using begun_keeps by blast
next
  case (replayed e p k req w b bolt amt s')
  then show ?case using world_ok_app send_begin_steps(1) by blast
next
  case (pended w ts i bolt amt us e tr s')
  have "world_ok (w\<lparr>w_app := s'\<rparr>)"
    using world_ok_steps(1) [OF pended(3)] pended(2) unfolding send_pend_def by blast
  moreover have "is_past_created (app_db s') i"
    using pended pend_past_created by (auto simp: world_ok_def)
  ultimately show ?case using pended(1) by (auto simp: world_ok_def)
next
  case (not_pended w ts i bolt amt us e err s')
  have "world_ok (w\<lparr>w_app := s'\<rparr>)"
    using world_ok_steps(1) [OF not_pended(3)] not_pended(2) unfolding send_pend_def by blast
  then show ?case using not_pended(1) by (auto simp: world_ok_def)
next
  case (accepted w ts i bolt amt us h s')
  then show ?case using world_ok_steps(2) [OF accepted(3,2)] dispatched_past_created [OF accepted(3,1,2)]
    by (auto simp: world_ok_def)
next
  case (refused w ts i bolt amt us err s')
  then show ?case using world_ok_steps(2) [OF refused(3,2)] dispatched_past_created [OF refused(3,1,2)]
    by (auto simp: world_ok_def)
next
  case (failed w ts i err us e r s')
  have "world_ok (w\<lparr>w_app := s'\<rparr>)"
    using world_ok_steps(1) [OF failed(3)] failed(2) unfolding send_refused_def by blast
  then show ?case using failed(1) by (auto simp: world_ok_def)
next
  case (reconcile e row w r' s')
  then show ?case using world_ok_app reconcile_payment_steps by blast
next
  case (event e ev w r'' d')
  then show ?case using world_ok_steps(3) handle_node_event_keeps by blast
qed (simp_all add: world_ok_steps, simp add: world_ok_def)

section \<open>A request runs as its tasks\<close>

definition solo :: "'n app \<Rightarrow> task list \<Rightarrow> string list \<Rightarrow> 'n world" where
  "solo s ts sent = \<lparr>w_app = s, w_tasks = ts, w_sent = sent\<rparr>"

definition idle :: "'n app \<Rightarrow> 'n world" where
  "idle s = solo s [] []"

text \<open>The steps of the only task.\<close>

lemma solo_steps:
  "send_begin be sha256 json_text e p k req s = (Inr (b, bolt, amt), s') \<Longrightarrow> bo_created b \<Longrightarrow>
     world_step be sha256 json_text (idle s) (solo s' [TBegun (pay_id (bo_payment b)) bolt amt] [])"
  "send_begin be sha256 json_text e p k req s = (Inr (b, bolt, amt), s') \<Longrightarrow> \<not> bo_created b \<Longrightarrow>
     world_step be sha256 json_text (idle s) (idle s')"
  "send_pend e i s = (Inr tr, s') \<Longrightarrow>
     world_step be sha256 json_text (solo s [TBegun i bolt amt] []) (solo s' [TPending i bolt amt] [])"
  "send_pend e i s = (Inl err, s') \<Longrightarrow> world_step be sha256 json_text (solo s [TBegun i bolt amt] []) (idle s')"
  "send_dispatch be bolt amt s = (Inr h, s') \<Longrightarrow>
     world_step be sha256 json_text (solo s [TPending i bolt amt] []) (solo s' [] [i])"
  "send_dispatch be bolt amt s = (Inl lerr, s') \<Longrightarrow>
     world_step be sha256 json_text (solo s [TPending i bolt amt] []) (solo s' [TRefused i lerr] [i])"
  "send_refused e i lerr s = (r, s') \<Longrightarrow>
     world_step be sha256 json_text (solo s [TRefused i lerr] [i]) (solo s' [] [i])"
  using world_step.begun [of be sha256 json_text e p k req "idle s"]
    world_step.replayed [of be sha256 json_text e p k req "idle s"]
    world_step.pended [where ts = "[]" and us = "[]" and w = "solo s [TBegun i bolt amt] []" and e = e]
    world_step.not_pended [where ts = "[]" and us = "[]" and w = "solo s [TBegun i bolt amt] []" and e = e]
    world_step.accepted [where ts = "[]" and us = "[]" and w = "solo s [TPending i bolt amt] []"]
    world_step.refused [where ts = "[]" and us = "[]" and w = "solo s [TPending i bolt amt] []"]
    world_step.failed [where ts = "[]" and us = "[]" and w = "solo s [TRefused i lerr] [i]" and e = e]
  by (simp_all add: solo_def idle_def)

text \<open>
  The rest of a request whose payment was begun: the payment is made pending and asked for once, and the
  answer is that payment.
\<close>

lemma begun_runs:
  assumes "send_pend e i s = (Inr tr, s2)" and "send_dispatch be bolt amt s2 = (rd, s3)"
    and "case rd of Inr h \<Rightarrow> r = Inr \<lparr>sd_payment = tr_payment tr, sd_created = True\<rparr> \<and> s' = s3
       | Inl lerr \<Rightarrow> (\<exists>rf. send_refused e i lerr s3 = (rf, s')
           \<and> r = map_sum id (\<lambda>tf. \<lparr>sd_payment = tr_payment tf, sd_created = True\<rparr>) rf)"
  shows "(world_step be sha256 json_text)\<^sup>*\<^sup>* (solo s [TBegun i bolt amt] []) (solo s' [] [i])
    \<and> (\<forall>res. r = Inr res \<longrightarrow> pay_id (sd_payment res) = i)"
proof (cases rd)
  case (Inr h)
  have "pay_id (tr_payment tr) = i"
    using transition_result_id engine_transition_Inr(1) assms(1) by (metis send_pend_def)
  moreover have "(world_step be sha256 json_text)\<^sup>*\<^sup>* (solo s [TBegun i bolt amt] []) (solo s3 [] [i])"
    using solo_steps(3) [OF assms(1)] solo_steps(5) [of be bolt amt s2 h s3] assms(2) Inr
    by (meson converse_rtranclp_into_rtranclp rtranclp.rtrancl_refl)
  ultimately show ?thesis using assms(3) Inr by simp
next
  case (Inl lerr)
  then obtain rf where rf: "send_refused e i lerr s3 = (rf, s')"
      "r = map_sum id (\<lambda>tf. \<lparr>sd_payment = tr_payment tf, sd_created = True\<rparr>) rf" using assms(3) by auto
  have "rf = Inr tf \<Longrightarrow> pay_id (tr_payment tf) = i" for tf
    using transition_result_id engine_transition_Inr(1) rf(1) by (metis send_refused_def)
  moreover have "(world_step be sha256 json_text)\<^sup>*\<^sup>* (solo s [TBegun i bolt amt] []) (solo s' [] [i])"
    using solo_steps(3) [OF assms(1)] solo_steps(6) [of be bolt amt s2 lerr s3] solo_steps(7) [OF rf(1)] assms(2) Inl
    by (meson converse_rtranclp_into_rtranclp rtranclp.rtrancl_refl)
  ultimately show ?thesis using rf(2) by (cases rf) auto
qed

text \<open>\<open>send_payment\<close> is a run of one task alone, which asks the node at most once, for its own payment.\<close>

lemma send_payment_refines:
  assumes "send_payment be sha256 json_text e p k req s = (r, s')"
  shows "\<exists>sent. (world_step be sha256 json_text)\<^sup>*\<^sup>* (idle s) (solo s' [] sent) \<and> length sent \<le> 1
    \<and> (\<forall>res. r = Inr res \<longrightarrow> set sent \<subseteq> {pay_id (sd_payment res)})"
proof (cases "send_begin be sha256 json_text e p k req s")
  case b: (Pair rb s1)
  show ?thesis
  proof (cases rb)
    case (Inl err)
    then have "s' = s" "r = Inl err" using assms b send_begin_Inl by (auto simp: send_payment_def)
    then show ?thesis by (intro exI [of _ "[]"]) (simp add: idle_def)
  next
    case (Inr x)
    obtain begun bolt amt where x: "x = (begun, bolt, amt)" by (cases x)
    note b = b [unfolded Inr x]
    let ?i = "pay_id (bo_payment begun)"
    obtain rp s2 where p: "send_pend e ?i s1 = (rp, s2)" by fastforce
    obtain rd s3 where d: "send_dispatch be bolt amt s2 = (rd, s3)" by fastforce
    consider (old) "\<not> bo_created begun" | (stuck) err where "bo_created begun" "rp = Inl err"
      | (asked) tr where "bo_created begun" "rp = Inr tr" by (cases rp) auto
    then show ?thesis
    proof cases
      case old
      then show ?thesis using assms b solo_steps(2) [OF b] by (intro exI [of _ "[]"]) (auto simp: send_payment_def idle_def)
    next
      case stuck
      then have "(world_step be sha256 json_text)\<^sup>*\<^sup>* (idle s) (idle s2)"
        using solo_steps(1) [OF b] solo_steps(4) [of e ?i s1 err s2] p
        by (meson converse_rtranclp_into_rtranclp rtranclp.rtrancl_refl)
      moreover have "s' = s2" "r = Inl err" using assms b p stuck by (simp_all add: send_payment_def)
      ultimately show ?thesis by (intro exI [of _ "[]"]) (simp add: idle_def)
    next
      case asked
      have "case rd of Inr h \<Rightarrow> r = Inr \<lparr>sd_payment = tr_payment tr, sd_created = True\<rparr> \<and> s' = s3
         | Inl lerr \<Rightarrow> (\<exists>rf. send_refused e ?i lerr s3 = (rf, s')
             \<and> r = map_sum id (\<lambda>tf. \<lparr>sd_payment = tr_payment tf, sd_created = True\<rparr>) rf)"
        using assms b p d asked by (auto simp: send_payment_def split: sum.splits prod.splits)
      from begun_runs [OF p [unfolded asked(2)] d this] show ?thesis
        using solo_steps(1) [OF b asked(1)]
        by (intro exI [of _ "[?i]"]) (auto intro: converse_rtranclp_into_rtranclp)
    qed
  qed
qed

section \<open>Properties\<close>

lemma world_run_ok: "(world_step be sha256 json_text)\<^sup>*\<^sup>* w w' \<Longrightarrow> world_ok w \<Longrightarrow> world_ok w'"
  by (induction rule: rtranclp_induct) (auto intro: world_step_keeps)

lemma idle_ok: "schema_ok (app_db s) \<Longrightarrow> world_ok (idle s)"
  by (simp add: world_ok_def idle_def solo_def)

lemma distinct_filter_le1:
  "distinct xs \<Longrightarrow> (\<And>x y. x \<in> set xs \<Longrightarrow> y \<in> set xs \<Longrightarrow> P x \<Longrightarrow> P y \<Longrightarrow> x = y) \<Longrightarrow> length (filter P xs) \<le> 1"
proof (induction xs)
  case (Cons a xs)
  show ?case
  proof (cases "P a")
    case True
    have "\<not> P x" if "x \<in> set xs" for x using Cons.prems(2) [of a x] True that Cons.prems(1) by auto
    then show ?thesis using True by (simp add: filter_False)
  next
    case False
    then show ?thesis using Cons by simp
  qed
qed simp

text \<open>
  C1. At most one dispatch: in every execution of any number of concurrent sends, with crashes at any
  point, retries, reconciliation, node events, other transactions and whatever the node does, the
  node is asked to send at most once for each payment and for each idempotency key of a project, and
  only after the payment was durably moved past \<open>created\<close>.
\<close>

theorem payment_dispatched_once:
  assumes "schema_ok (app_db s)" and "(world_step be sha256 json_text)\<^sup>*\<^sup>* (idle s) w"
  shows "distinct (w_sent w)
    \<and> length (filter (\<lambda>i. \<exists>r \<in> set (t_payments (app_db (w_app w))). pay_id r = i
          \<and> pay_project_id r = p \<and> pay_idempotency_key r = k) (w_sent w)) \<le> 1
    \<and> (\<forall>i \<in> set (w_sent w). \<exists>r \<in> set (t_payments (app_db (w_app w))).
          pay_id r = i \<and> pay_status r \<noteq> ''created'')"
proof -
  have ok: "world_ok w" using world_run_ok [OF assms(2) idle_ok [OF assms(1)]] .
  then have d: "distinct (w_sent w)" by (simp add: world_ok_def)
  have "length (filter (\<lambda>i. \<exists>r \<in> set (t_payments (app_db (w_app w))). pay_id r = i
          \<and> pay_project_id r = p \<and> pay_idempotency_key r = k) (w_sent w)) \<le> 1"
  proof (rule distinct_filter_le1 [OF d])
    fix x y
    assume "\<exists>r \<in> set (t_payments (app_db (w_app w))). pay_id r = x \<and> pay_project_id r = p \<and> pay_idempotency_key r = k"
      "\<exists>r \<in> set (t_payments (app_db (w_app w))). pay_id r = y \<and> pay_project_id r = p \<and> pay_idempotency_key r = k"
    then obtain r r' where r: "r \<in> set (t_payments (app_db (w_app w)))" "pay_id r = x" "pay_project_id r = p" "pay_idempotency_key r = k"
      and r': "r' \<in> set (t_payments (app_db (w_app w)))" "pay_id r' = y" "pay_project_id r' = p" "pay_idempotency_key r' = k"
      by blast
    have "distinct (map (\<lambda>r. (pay_project_id r, pay_idempotency_key r)) (t_payments (app_db (w_app w))))"
      using ok by (simp add: world_ok_def schema_ok_def payments_table_def)
    from distinct_map_eq [OF this r(1) r'(1)] have "r = r'" using r r' by simp
    then show "x = y" using r r' by simp
  qed
  moreover have "\<forall>i \<in> set (w_sent w). \<exists>r \<in> set (t_payments (app_db (w_app w))). pay_id r = i \<and> pay_status r \<noteq> ''created''"
    using ok by (simp add: world_ok_def is_past_created_def)
  ultimately show ?thesis using d by blast
qed

theorem payment_dispatched_once_witness:
  "\<exists>w. (world_step (mock_backend (\<lambda>_. [])) (\<lambda>s. [of_nat (length s)]) (\<lambda>_. ''null''))\<^sup>*\<^sup>* (idle sample_app) w
     \<and> distinct (w_sent w) \<and> map pay_status (t_payments (app_db (w_app w))) = [''pending'']"
proof -
  obtain res s1 where s: "send_payment (mock_backend (\<lambda>_. [])) (\<lambda>s. [of_nat (length s)]) (\<lambda>_. ''null'') sample_env
       ''prj_a'' ''k'' sample_request sample_app = (Inr res, s1)" "pay_status (sd_payment res) = ''pending''"
      "t_payments (app_db s1) = [sd_payment res]" using sample_send by blast
  obtain sent where run: "(world_step (mock_backend (\<lambda>_. [])) (\<lambda>s. [of_nat (length s)]) (\<lambda>_. ''null''))\<^sup>*\<^sup>*
      (idle sample_app) (solo s1 [] sent)"
    using send_payment_refines [OF s(1)] by blast
  have "schema_ok (app_db sample_app)" using sample_schema by (simp add: sample_app_def)
  from payment_dispatched_once [OF this run] run s(2,3) show ?thesis
    by (intro exI [of _ "solo s1 [] sent"]) (simp add: solo_def)
qed

end
