(* ===== verification/Sandbox_Calc.thy ===== *)
theory Sandbox_Calc
  imports Core_Base
begin

text \<open>
  \<open>crates/safrod-sandbox/src/lib.rs\<close>: the simulated exchange. \<open>quote\<close> prices a transfer with integer
  arithmetic in \<open>u128\<close>, kept at its width here.
\<close>

type_synonym u128 = "128 word"

definition SIMULATED_BTC_USD :: u64 where
  "SIMULATED_BTC_USD = 60000"

definition SIMULATED_FEE_BPS :: u64 where
  "SIMULATED_FEE_BPS = 100"

definition MSAT_PER_BTC :: u128 where
  "MSAT_PER_BTC = 100000000000"

datatype sandbox_error =
    UnsupportedCurrency string
  | SameCurrency
  | BadAmount
  | UnknownScenario string

datatype currency = Usd | Eur | Ngn | Kes

fun currency_code :: "currency \<Rightarrow> string" where
  "currency_code Usd = ''USD''"
| "currency_code Eur = ''EUR''"
| "currency_code Ngn = ''NGN''"
| "currency_code Kes = ''KES''"

fun minor_per_usd :: "currency \<Rightarrow> u128" where
  "minor_per_usd Usd = 100"
| "minor_per_usd Eur = 92"
| "minor_per_usd Ngn = 150000"
| "minor_per_usd Kes = 12900"

definition currency_from_str :: "string \<Rightarrow> sandbox_error + currency" where
  "currency_from_str s =
     (let u = to_ascii_uppercase s
      in if u = ''USD'' then Inr Usd else if u = ''EUR'' then Inr Eur
         else if u = ''NGN'' then Inr Ngn else if u = ''KES'' then Inr Kes
         else Inl (UnsupportedCurrency u))"

record quote_calc =
  qc_target_minor :: u64
  qc_rate_ppm :: u64
  qc_btc_amount_msat :: u64

text \<open>\<open>u64::try_from\<close> on a \<open>u128\<close>.\<close>

definition to_u64 :: "u128 \<Rightarrow> sandbox_error + u64" where
  "to_u64 v = (if unat v < 2 ^ 64 then Inr (ucast v) else Inl BadAmount)"

definition quote :: "currency \<Rightarrow> currency \<Rightarrow> u64 \<Rightarrow> sandbox_error + quote_calc" where
  "quote source target source_minor =
     (if source = target then Inl SameCurrency
      else if source_minor = 0 then Inl BadAmount
      else
        (let src = ucast source_minor :: u128;
             gross_target = src * minor_per_usd target div minor_per_usd source;
             target_minor = gross_target * ucast (10000 - SIMULATED_FEE_BPS) div 10000;
             rate_ppm = minor_per_usd target * 1000000 div minor_per_usd source;
             btc_msat = src * MSAT_PER_BTC div (minor_per_usd source * ucast SIMULATED_BTC_USD)
         in (case to_u64 btc_msat of
               Inl err \<Rightarrow> Inl err
             | Inr btc_amount_msat \<Rightarrow>
                 (case to_u64 target_minor of
                    Inl err \<Rightarrow> Inl err
                  | Inr target_minor \<Rightarrow>
                      if target_minor = 0 \<or> btc_amount_msat = 0 \<or> btc_amount_msat > MAX_SATS * 1000
                      then Inl BadAmount
                      else (case to_u64 rate_ppm of
                              Inl err \<Rightarrow> Inl err
                            | Inr rate \<Rightarrow>
                                Inr \<lparr>qc_target_minor = target_minor, qc_rate_ppm = rate,
                                     qc_btc_amount_msat = btc_amount_msat\<rparr>)))))"

datatype scenario = ScnSuccess | ScnFailure | ScnTimeout

fun scenario_as_str :: "scenario \<Rightarrow> string" where
  "scenario_as_str ScnSuccess = ''success''"
| "scenario_as_str ScnFailure = ''failure''"
| "scenario_as_str ScnTimeout = ''timeout''"

definition scenario_from_str :: "string \<Rightarrow> sandbox_error + scenario" where
  "scenario_from_str s =
     (if s = ''success'' then Inr ScnSuccess else if s = ''failure'' then Inr ScnFailure
      else if s = ''timeout'' then Inr ScnTimeout else Inl (UnknownScenario s))"

section \<open>Interpretations\<close>

interpretation scn_text: strict_text_enum scenario_as_str scenario_from_str
proof
  show "scenario_from_str (scenario_as_str x) = Inr x" for x
    by (cases x) (simp_all add: scenario_from_str_def)
  show "scenario_from_str s = Inr x \<Longrightarrow> scenario_as_str x = s" for s x
    by (auto simp: scenario_from_str_def split: if_splits)
qed

interpretation cur_text: text_enum currency_code currency_from_str
proof
  show "currency_from_str (currency_code x) = Inr x" for x
    by (cases x) (simp_all add: currency_from_str_def to_ascii_uppercase_def to_upper_def code_def)
qed

section \<open>No overflow\<close>

lemma unat_mult_small:
  "unat a * unat b < 2 ^ LENGTH('n) \<Longrightarrow> unat (a * b) = unat a * unat b" for a b :: "'n::len word"
  by (simp add: unat_word_ariths)

lemma unat_minor:
  "unat (minor_per_usd c) \<le> 150000" "92 \<le> unat (minor_per_usd c)"
  by (cases c; simp)+

lemma unat_u64: "unat w < 18446744073709551616" for w :: u64
  using unsigned_less [of w] by simp

lemma unat_ucast_u64 [simp]: "unat (ucast w :: u128) = unat w" for w :: u64
  using unat_u64 [of w] by (simp add: unsigned_ucast_eq take_bit_nat_eq_self_iff)

text \<open>The exact values of the three products.\<close>

definition exact_target :: "currency \<Rightarrow> currency \<Rightarrow> nat \<Rightarrow> nat" where
  "exact_target s t m = m * unat (minor_per_usd t) div unat (minor_per_usd s) * 9900 div 10000"

definition exact_rate :: "currency \<Rightarrow> currency \<Rightarrow> nat" where
  "exact_rate s t = unat (minor_per_usd t) * 1000000 div unat (minor_per_usd s)"

definition exact_btc :: "currency \<Rightarrow> nat \<Rightarrow> nat" where
  "exact_btc s m = m * 100000000000 div (unat (minor_per_usd s) * 60000)"

lemma word_target:
  "unat ((ucast m :: u128) * minor_per_usd t div minor_per_usd s * ucast (10000 - SIMULATED_FEE_BPS) div 10000)
   = exact_target s t (unat m)" for m :: u64
proof -
  have m: "unat m < 2 ^ 64" using unat_u64 [of m] by simp
  have "unat m * unat (minor_per_usd t) \<le> 2 ^ 64 * 150000"
    using m unat_minor(1) by (intro mult_mono) auto
  then have 1: "unat ((ucast m :: u128) * minor_per_usd t) = unat m * unat (minor_per_usd t)"
    by (subst unat_mult_small) simp_all
  let ?g = "unat m * unat (minor_per_usd t) div unat (minor_per_usd s)"
  have "?g \<le> unat m * unat (minor_per_usd t)" by simp
  then have "?g \<le> 2 ^ 64 * 150000" using \<open>unat m * unat (minor_per_usd t) \<le> 2 ^ 64 * 150000\<close> by linarith
  moreover have "unat (ucast (10000 - SIMULATED_FEE_BPS) :: u128) = 9900"
    by (simp add: SIMULATED_FEE_BPS_def)
  ultimately have "unat ((ucast m :: u128) * minor_per_usd t div minor_per_usd s * ucast (10000 - SIMULATED_FEE_BPS))
      = ?g * 9900"
    by (subst unat_mult_small) (simp_all add: unat_div_distrib 1)
  then show ?thesis by (simp add: unat_div_distrib exact_target_def)
qed

lemma word_rate: "unat (minor_per_usd t * 1000000 div minor_per_usd s) = exact_rate s t"
proof -
  have "unat (minor_per_usd t * 1000000) = unat (minor_per_usd t) * 1000000"
    using unat_minor(1) [of t] by (subst unat_mult_small) simp_all
  then show ?thesis by (simp add: unat_div_distrib exact_rate_def)
qed

lemma word_btc:
  "unat ((ucast m :: u128) * MSAT_PER_BTC div (minor_per_usd s * ucast SIMULATED_BTC_USD)) = exact_btc s (unat m)"
  for m :: u64
proof -
  have "unat m < 2 ^ 64" using unat_u64 [of m] by simp
  then have "unat ((ucast m :: u128) * MSAT_PER_BTC) = unat m * 100000000000"
    by (subst unat_mult_small) (simp_all add: MSAT_PER_BTC_def)
  moreover have "unat (minor_per_usd s * (ucast SIMULATED_BTC_USD :: u128)) = unat (minor_per_usd s) * 60000"
    using unat_minor(1) [of s] by (subst unat_mult_small) (simp_all add: SIMULATED_BTC_USD_def)
  ultimately show ?thesis by (simp add: unat_div_distrib exact_btc_def)
qed

section \<open>Properties\<close>

lemma to_u64_cases: "to_u64 v = (if unat v < 2 ^ 64 then Inr (of_nat (unat v)) else Inl BadAmount)"
  by (simp add: to_u64_def)

lemma exact_rate_small: "exact_rate s t < 2 ^ 64"
proof -
  have "exact_rate s t \<le> unat (minor_per_usd t) * 1000000" by (simp add: exact_rate_def)
  then show ?thesis using unat_minor(1) [of t] by simp
qed

text \<open>
  C23. \<open>quote\<close> is exact: the \<open>u128\<close> arithmetic never wraps, so a quote is accepted exactly when the
  currencies differ and the exact target and BTC amounts are positive and within \<open>u64\<close> and the
  bitcoin supply, and it carries the exact quotients: one per cent off the target, the BTC leg
  sized from the source.
\<close>

theorem quote_exact:
  "quote s t m =
     (if s = t then Inl SameCurrency
      else if exact_target s t (unat m) = 0 \<or> 2 ^ 64 \<le> exact_target s t (unat m)
           \<or> exact_btc s (unat m) = 0 \<or> 2100000000000000000 < exact_btc s (unat m)
      then Inl BadAmount
      else Inr \<lparr>qc_target_minor = of_nat (exact_target s t (unat m)), qc_rate_ppm = of_nat (exact_rate s t),
                qc_btc_amount_msat = of_nat (exact_btc s (unat m))\<rparr>)"
proof (cases "s = t \<or> m = 0")
  case True
  then show ?thesis by (auto simp: quote_def exact_target_def)
next
  case False
  have z: "(of_nat n :: u64) = 0 \<longleftrightarrow> n = 0" if "n < 2 ^ 64" for n
    using that by (simp flip: unat_eq_0 add: unat_of_nat)
  have le: "(of_nat n :: u64) > MAX_SATS * 1000 \<longleftrightarrow> 2100000000000000000 < n" if "n < 2 ^ 64" for n
    using that by (simp add: word_less_nat_alt unat_of_nat MAX_SATS_def)
  show ?thesis using False z le exact_rate_small [of s t]
    by (simp add: quote_def Let_def to_u64_cases word_target word_rate word_btc)
qed

end
