(* ===== verification/Storage_Webhooks.thy ===== *)
theory Storage_Webhooks
  imports Storage_Schema
begin

text \<open>
  \<open>crates/safrod-storage/src/webhooks.rs\<close>: webhook endpoints and the queue of deliveries. A worker
  claims due deliveries by pushing \<open>next_attempt_at\<close> forward (the lease), and records the outcome of
  each attempt.
\<close>

section \<open>Types\<close>

datatype delivery_outcome =
    Delivered int
  | Retry "int option" string instant
  | Failed "int option" string

record due_delivery =
  due_id :: string
  due_attempts :: int
  due_url :: string
  due_secret :: string
  due_event_id :: string
  due_event_type :: string
  due_resource_id :: string
  due_data :: json
  due_simulated :: bool
  due_event_created_at :: instant

section \<open>Methods\<close>

definition create_webhook_endpoint ::
  "env \<Rightarrow> string \<Rightarrow> string \<Rightarrow> string \<Rightarrow> db \<Rightarrow> storage_error + endpoint_row \<times> db" where
  "create_webhook_endpoint e project_id url secret d =
     (let (i, d1) = fresh_id e WebhookEndpointId d;
          r = \<lparr>whe_id = i, whe_project_id = project_id, whe_url = url, whe_secret = secret,
               whe_enabled = True, whe_created_at = env_now e\<rparr>
      in if i \<in> set (map whe_id (t_endpoints d)) then Inl SConflict
         else if project_id \<notin> set (map prj_id (t_projects d)) then Inl (SDatabase ''foreign key'')
         else Inr (r, d1\<lparr>t_endpoints := insert_row r (t_endpoints d1)\<rparr>))"

definition list_webhook_endpoints :: "string \<Rightarrow> db \<Rightarrow> endpoint_row list" where
  "list_webhook_endpoints project_id d =
     desc_by whe_created_at (filter (\<lambda>r. whe_project_id r = project_id) (t_endpoints d))"

definition disable_webhook_endpoint :: "string \<Rightarrow> string \<Rightarrow> db \<Rightarrow> storage_error + unit \<times> db" where
  "disable_webhook_endpoint project_id i d =
     (let P = (\<lambda>r. whe_id r = i \<and> whe_project_id r = project_id)
      in if filter P (t_endpoints d) = [] then Inl SNotFound
         else Inr ((), d\<lparr>t_endpoints := update_where P (\<lambda>r. r\<lparr>whe_enabled := False\<rparr>) (t_endpoints d)\<rparr>))"

text \<open>The join of a delivery with its endpoint, and the rows the first statement selects.\<close>

definition endpoint_of :: "db \<Rightarrow> delivery_row \<Rightarrow> endpoint_row option" where
  "endpoint_of d r = select_one (\<lambda>w. whe_id w = dlv_endpoint_id r) (t_endpoints d)"

definition claimable :: "env \<Rightarrow> db \<Rightarrow> delivery_row \<Rightarrow> bool" where
  "claimable e d r \<longleftrightarrow> dlv_status r = ''pending'' \<and> dlv_next_attempt_at r \<le> env_now e
     \<and> (case endpoint_of d r of Some w \<Rightarrow> whe_enabled w | None \<Rightarrow> False)"

definition claimed_ids :: "env \<Rightarrow> int \<Rightarrow> db \<Rightarrow> string list" where
  "claimed_ids e limit d =
     map dlv_id (top_by dlv_next_attempt_at (nat limit) (filter (claimable e d) (t_deliveries d)))"

definition due_of :: "db \<Rightarrow> delivery_row \<Rightarrow> due_delivery list" where
  "due_of d r =
     (case (endpoint_of d r, select_one (\<lambda>v. ev_seq v = dlv_event_seq r) (t_events d)) of
        (Some w, Some v) \<Rightarrow>
          [\<lparr>due_id = dlv_id r, due_attempts = dlv_attempts r, due_url = whe_url w,
            due_secret = whe_secret w, due_event_id = ev_id v, due_event_type = ev_kind v,
            due_resource_id = ev_resource_id v, due_data = ev_data v, due_simulated = ev_simulated v,
            due_event_created_at = ev_created_at v\<rparr>]
      | _ \<Rightarrow> [])"

definition claim_due_deliveries ::
  "env \<Rightarrow> int \<Rightarrow> int \<Rightarrow> db \<Rightarrow> storage_error + due_delivery list \<times> db" where
  "claim_due_deliveries e limit lease_secs d =
     (if limit < 0 then Inl (SDatabase ''limit must not be negative'')
      else
        (let ids = claimed_ids e limit d
         in if ids = [] then Inr ([], d)
            else
              (let d1 = d\<lparr>t_deliveries := update_where (\<lambda>r. dlv_id r \<in> set ids)
                          (\<lambda>r. r\<lparr>dlv_next_attempt_at := env_now e + seconds lease_secs\<rparr>) (t_deliveries d)\<rparr>
               in Inr (concat (map (due_of d1) (sort_key dlv_event_seq
                         (filter (\<lambda>r. dlv_id r \<in> set ids) (t_deliveries d1)))), d1))))"

text \<open>
  \<open>attempts + 1\<close> is integer arithmetic of the database, which refuses an overflow.
\<close>

definition record_row :: "env \<Rightarrow> delivery_outcome \<Rightarrow> delivery_row \<Rightarrow> delivery_row" where
  "record_row e outcome r =
     (case outcome of
        Delivered status \<Rightarrow>
          r\<lparr>dlv_status := ''delivered'', dlv_attempts := dlv_attempts r + 1,
            dlv_last_status := Some status, dlv_last_error := None,
            dlv_delivered_at := Some (env_now e)\<rparr>
      | Retry status error next_attempt_at \<Rightarrow>
          r\<lparr>dlv_attempts := dlv_attempts r + 1, dlv_last_status := status,
            dlv_last_error := Some error, dlv_next_attempt_at := next_attempt_at\<rparr>
      | Failed status error \<Rightarrow>
          r\<lparr>dlv_status := ''failed'', dlv_attempts := dlv_attempts r + 1,
            dlv_last_status := status, dlv_last_error := Some error\<rparr>)"

definition record_delivery ::
  "env \<Rightarrow> string \<Rightarrow> delivery_outcome \<Rightarrow> db \<Rightarrow> storage_error + unit \<times> db" where
  "record_delivery e i outcome d =
     (if \<exists>r \<in> set (t_deliveries d). dlv_id r = i \<and> \<not> in_i32 (dlv_attempts r + 1)
      then Inl (SDatabase ''integer out of range'')
      else Inr ((), d\<lparr>t_deliveries := update_where (\<lambda>r. dlv_id r = i) (record_row e outcome)
                       (t_deliveries d)\<rparr>))"

definition of_project :: "db \<Rightarrow> string \<Rightarrow> delivery_row \<Rightarrow> bool" where
  "of_project d project_id r \<longleftrightarrow>
     (case endpoint_of d r of Some w \<Rightarrow> whe_project_id w = project_id | None \<Rightarrow> False)"

definition list_deliveries :: "string \<Rightarrow> int \<Rightarrow> db \<Rightarrow> storage_error + delivery_row list" where
  "list_deliveries project_id limit d =
     (if limit < 0 then Inl (SDatabase ''limit must not be negative'')
      else Inr (take (nat limit) (desc_by (\<lambda>r. (dlv_created_at r, dlv_id r))
             (filter (of_project d project_id) (t_deliveries d)))))"

definition replay_delivery :: "env \<Rightarrow> string \<Rightarrow> string \<Rightarrow> db \<Rightarrow> storage_error + unit \<times> db" where
  "replay_delivery e project_id i d =
     (let P = (\<lambda>r. dlv_id r = i \<and> of_project d project_id r)
      in if filter P (t_deliveries d) = [] then Inl SNotFound
         else Inr ((), d\<lparr>t_deliveries := update_where P
                (\<lambda>r. r\<lparr>dlv_status := ''pending'', dlv_next_attempt_at := env_now e\<rparr>)
                (t_deliveries d)\<rparr>))"

section \<open>The contract\<close>

interpretation create_endpoint_op: db_op "create_webhook_endpoint e p u s" for e p u s
proof
  fix d r d' assume ok: "schema_ok d" and c: "create_webhook_endpoint e p u s d = Inr (r, d')"
  have r: "d' = d\<lparr>t_endpoints := insert_row r (t_endpoints d), next_uuid := next_uuid d + 1\<rparr>"
      "whe_id r \<notin> whe_id ` set (t_endpoints d)" "whe_project_id r \<in> project_ids d"
    using c by (auto simp: create_webhook_endpoint_def fresh_id_def Let_def split: if_splits)
  then show "schema_ok d'" using ok by (auto simp: schema_ok_def endpoints_table_def deliveries_table_def)
  show "evolves d d'" using r(1) by (simp add: evolves_def grows_refl grows_insert)
qed

interpretation disable_endpoint_op: db_op "disable_webhook_endpoint p i" for p i
proof
  fix d r d' assume ok: "schema_ok d" and c: "disable_webhook_endpoint p i d = Inr (r, d')"
  define P where "P = (\<lambda>r :: endpoint_row. whe_id r = i \<and> whe_project_id r = p)"
  let ?t = "update_where P (\<lambda>r. r\<lparr>whe_enabled := False\<rparr>) (t_endpoints d)"
  have d': "d' = d\<lparr>t_endpoints := ?t\<rparr>"
    using c by (auto simp: disable_webhook_endpoint_def Let_def P_def split: if_splits)
  have "map whe_id ?t = map whe_id (t_endpoints d)"
    by (simp add: map_update_where_same)
  then have "endpoints_table (project_ids d) ?t"
    using ok by (auto simp: schema_ok_def endpoints_table_def set_update_where)
  moreover have "whe_id ` set ?t = whe_id ` set (t_endpoints d)" by (simp add: image_update_where)
  ultimately show "schema_ok d'" using ok d' by (simp add: schema_ok_def)
  show "evolves d d'" using d'
    by (simp add: evolves_def grows_refl grows_update endpoint_le_def)
qed

text \<open>An update of deliveries that keeps their identity and gives them a valid status.\<close>

lemma deliveries_update:
  assumes ok: "schema_ok d"
    and f: "\<And>r. r \<in> set (t_deliveries d) \<Longrightarrow> P r \<Longrightarrow> delivery_le r (f r)
             \<and> (dlv_status (f r) = dlv_status r \<or> dlv_status (f r) \<in> {''pending'', ''delivered'', ''failed''})"
  shows "schema_ok (d\<lparr>t_deliveries := update_where P f (t_deliveries d)\<rparr>)
       \<and> evolves d (d\<lparr>t_deliveries := update_where P f (t_deliveries d)\<rparr>)"
proof
  let ?t = "update_where P f (t_deliveries d)"
  have dt: "deliveries_table (whe_id ` set (t_endpoints d)) (ev_seq ` set (t_events d)) (t_deliveries d)"
    using ok by (simp add: schema_ok_def)
  have "map dlv_id ?t = map dlv_id (t_deliveries d)"
    and "map (\<lambda>r. (dlv_event_seq r, dlv_endpoint_id r)) ?t
         = map (\<lambda>r. (dlv_event_seq r, dlv_endpoint_id r)) (t_deliveries d)"
    using f by (auto intro!: map_update_where_same simp: delivery_le_def)
  then have "deliveries_table (whe_id ` set (t_endpoints d)) (ev_seq ` set (t_events d)) ?t"
    using dt f by (fastforce simp: deliveries_table_def set_update_where delivery_le_def)
  then show "schema_ok (d\<lparr>t_deliveries := ?t\<rparr>)" using ok schema_table(8) by blast
  show "evolves d (d\<lparr>t_deliveries := ?t\<rparr>)"
    using f by (intro evolves_table grows_update) simp_all
qed

interpretation claim_op: db_op "claim_due_deliveries e limit lease" for e limit lease
proof -
  have "schema_ok d' \<and> evolves d d'"
    if ok: "schema_ok d" and c: "claim_due_deliveries e limit lease d = Inr (out, d')"
    for e limit lease d out d'
  proof (cases "claimed_ids e limit d = []")
    case True
    then show ?thesis using ok c by (auto simp: claim_due_deliveries_def Let_def split: if_splits)
  next
    case False
    then have "d' = d\<lparr>t_deliveries := update_where (\<lambda>r. dlv_id r \<in> set (claimed_ids e limit d))
        (\<lambda>r. r\<lparr>dlv_next_attempt_at := env_now e + seconds lease\<rparr>) (t_deliveries d)\<rparr>"
      using c by (auto simp: claim_due_deliveries_def Let_def split: if_splits)
    then show ?thesis using deliveries_update [OF ok] by (simp add: delivery_le_def)
  qed
  then show "\<And>e limit lease. db_op (claim_due_deliveries e limit lease)" by unfold_locales blast+
qed

interpretation record_op: db_op "record_delivery e i outcome" for e i outcome
proof -
  have "schema_ok d' \<and> evolves d d'"
    if ok: "schema_ok d" and c: "record_delivery e i outcome d = Inr (out, d')" for e i outcome d out d'
  proof -
    have "d' = d\<lparr>t_deliveries := update_where (\<lambda>r. dlv_id r = i) (record_row e outcome) (t_deliveries d)\<rparr>"
      using c by (auto simp: record_delivery_def split: if_splits)
    then show ?thesis using deliveries_update [OF ok]
      by (simp add: delivery_le_def record_row_def split: delivery_outcome.split)
  qed
  then show "\<And>e i outcome. db_op (record_delivery e i outcome)" by unfold_locales blast+
qed

interpretation replay_op: db_op "replay_delivery e p i" for e p i
proof -
  have "schema_ok d' \<and> evolves d d'"
    if ok: "schema_ok d" and c: "replay_delivery e p i d = Inr (out, d')" for e p i d out d'
  proof -
    have "d' = d\<lparr>t_deliveries := update_where (\<lambda>r. dlv_id r = i \<and> of_project d p r)
        (\<lambda>r. r\<lparr>dlv_status := ''pending'', dlv_next_attempt_at := env_now e\<rparr>) (t_deliveries d)\<rparr>"
      using c by (auto simp: replay_delivery_def Let_def split: if_splits)
    then show ?thesis using deliveries_update [OF ok] by (simp add: delivery_le_def)
  qed
  then show "\<And>e p i. db_op (replay_delivery e p i)" by unfold_locales blast+
qed

section \<open>Properties\<close>

lemma claimed_ids_claimable:
  "i \<in> set (claimed_ids e limit d) \<Longrightarrow> \<exists>r \<in> set (t_deliveries d). dlv_id r = i \<and> claimable e d r"
  using set_top_by unfolding claimed_ids_def by (fastforce dest: subsetD)

lemma due_of_ids: "map due_id (due_of d r) = [dlv_id r] \<or> due_of d r = []"
  by (auto simp: due_of_def split: option.splits)

lemma claim_due_Inr:
  assumes "claim_due_deliveries e limit lease d = Inr (due, d1)" and "x \<in> set due"
  shows "d1 = d\<lparr>t_deliveries := update_where (\<lambda>r. dlv_id r \<in> set (claimed_ids e limit d))
          (\<lambda>r. r\<lparr>dlv_next_attempt_at := env_now e + seconds lease\<rparr>) (t_deliveries d)\<rparr>"
    and "\<exists>r \<in> set (t_deliveries d1). dlv_id r \<in> set (claimed_ids e limit d) \<and> due_id x = dlv_id r"
proof -
  let ?ids = "claimed_ids e limit d"
  have ids: "?ids \<noteq> []"
    using assms by (auto simp: claim_due_deliveries_def Let_def split: if_splits)
  then show "d1 = d\<lparr>t_deliveries := update_where (\<lambda>r. dlv_id r \<in> set ?ids)
          (\<lambda>r. r\<lparr>dlv_next_attempt_at := env_now e + seconds lease\<rparr>) (t_deliveries d)\<rparr>"
    using assms(1) by (auto simp: claim_due_deliveries_def Let_def split: if_splits)
  have "due = concat (map (due_of d1) (sort_key dlv_event_seq
                         (filter (\<lambda>r. dlv_id r \<in> set ?ids) (t_deliveries d1))))"
    using assms(1) ids by (auto simp: claim_due_deliveries_def Let_def split: if_splits)
  then obtain r where "r \<in> set (t_deliveries d1)" "dlv_id r \<in> set ?ids" "x \<in> set (due_of d1 r)"
    using assms(2) by auto
  moreover have "due_id x = dlv_id r" using calculation(3)
    by (auto simp: due_of_def split: option.splits)
  ultimately show "\<exists>r \<in> set (t_deliveries d1). dlv_id r \<in> set ?ids \<and> due_id x = dlv_id r" by blast
qed

lemma claim_total: "0 \<le> limit \<Longrightarrow> \<exists>due d'. claim_due_deliveries e limit lease d = Inr (due, d')"
  by (simp add: claim_due_deliveries_def Let_def)

text \<open>
  C15. Leases are exclusive: a delivery one worker claimed is not handed out by any later claim made
  before the lease ends, whatever happens to other deliveries meanwhile, unless its own row was
  changed (an outcome recorded, or a replay).
\<close>

theorem claim_lease_exclusive:
  assumes "schema_ok d" and "claim_due_deliveries e limit lease d = Inr (due, d1)"
    and "x \<in> set due" and "schema_ok d2"
    and "\<forall>r \<in> set (t_deliveries d1). dlv_id r = due_id x \<longrightarrow> r \<in> set (t_deliveries d2)"
    and "claim_due_deliveries e' limit' lease' d2 = Inr (due', d3)"
    and "env_now e' < env_now e + seconds lease"
  shows "due_id x \<notin> due_id ` set due'"
proof
  note d1 = claim_due_Inr [OF assms(2,3)]
  obtain r where r: "r \<in> set (t_deliveries d1)" "dlv_id r \<in> set (claimed_ids e limit d)"
      "due_id x = dlv_id r" using d1(2) by blast
  then have at: "dlv_next_attempt_at r = env_now e + seconds lease"
    using d1(1) by (auto simp: set_update_where split: if_splits)
  have r2: "r \<in> set (t_deliveries d2)" using assms(5) r by simp
  assume "due_id x \<in> due_id ` set due'"
  then obtain y where y: "y \<in> set due'" "due_id y = dlv_id r" using r(3) by auto
  then have "dlv_id r \<in> set (claimed_ids e' limit' d2)" using claim_due_Inr(2) [OF assms(6) y(1)] by auto
  then obtain s where s: "s \<in> set (t_deliveries d2)" "dlv_id s = dlv_id r" "claimable e' d2 s"
    using claimed_ids_claimable by blast
  have "s = r" using s(1,2) r2 assms(4)
    by (auto simp: schema_ok_def deliveries_table_def intro: distinct_map_eq)
  then show False using s(3) at assms(7) by (simp add: claimable_def)
qed

text \<open>A queue with one due delivery.\<close>

definition sample_queue :: db where
  "sample_queue = sample_db\<lparr>
     t_events := [\<lparr>ev_seq = 1, ev_id = ''evt_1'', ev_project_id = ''prj_a'', ev_kind = ''invoice.paid'',
       ev_resource_id = ''inv_1'', ev_data = JNull, ev_simulated = False, ev_created_at = 0\<rparr>],
     t_deliveries := [\<lparr>dlv_id = ''dlv_1'', dlv_event_seq = 1, dlv_endpoint_id = ''whe_a'',
       dlv_status = ''pending'', dlv_attempts = 0, dlv_next_attempt_at = 0, dlv_last_status = None,
       dlv_last_error = None, dlv_delivered_at = None, dlv_created_at = 0\<rparr>],
     next_seq := 2\<rparr>"

lemma sample_queue_ok: "schema_ok sample_queue"
  by (simp add: schema_ok_def table_defs sample_queue_def sample_db_def empty_db_def keyed_invoices_def)

theorem claim_lease_exclusive_witness:
  "\<exists>x d1. claim_due_deliveries sample_env 20 60 sample_queue = Inr ([x], d1) \<and> due_id x = ''dlv_1''
     \<and> (\<exists>due' d3. claim_due_deliveries sample_env 20 60 d1 = Inr (due', d3)
          \<and> ''dlv_1'' \<notin> due_id ` set due')"
proof -
  have "\<exists>x d1. claim_due_deliveries sample_env 20 60 sample_queue = Inr ([x], d1) \<and> due_id x = ''dlv_1''"
    by (simp add: claim_due_deliveries_def claimed_ids_def claimable_def endpoint_of_def due_of_def
        sample_queue_def sample_db_def empty_db_def sample_env_def select_one_def update_where_def
        top_by_def Let_def)
  then obtain x d1 where c: "claim_due_deliveries sample_env 20 60 sample_queue = Inr ([x], d1)"
    "due_id x = ''dlv_1''" by blast
  have ok: "schema_ok d1" using claim_op.op_schema [OF sample_queue_ok c(1)] .
  obtain due' d3 where c': "claim_due_deliveries sample_env 20 60 d1 = Inr (due', d3)"
    using claim_total [of 20 sample_env 60 d1] by auto
  have "due_id x \<notin> due_id ` set due'"
    by (rule claim_lease_exclusive [OF sample_queue_ok c(1) _ ok _ c']) (simp_all add: sample_env_def)
  then show ?thesis using c c' by auto
qed

end
