(* ===== verification/Storage_Onchain.thy ===== *)
theory Storage_Onchain
  imports Storage_Schema
begin

text \<open>
  \<open>crates/safrod-storage/src/onchain.rs\<close>: watched addresses and the deposits the chain watcher sees.
  \<open>record_observation\<close> stores one output, keyed by \<open>(txid, vout)\<close>, and writes an event when the output
  is new or its number of confirmations changed.
\<close>

section \<open>Types\<close>

definition transaction_event_data :: "transaction_row \<Rightarrow> string \<Rightarrow> json" where
  "transaction_event_data tx address =
     JObj [(''transaction_id'', JStr (txn_id tx)), (''address'', JStr address),
       (''txid'', JStr (txn_txid tx)), (''vout'', JInt (txn_vout tx)),
       (''amount_sat'', JInt (txn_amount_sat tx)), (''confirmations'', JInt (txn_confirmations tx)),
       (''block_height'', jopt JInt (txn_block_height tx)), (''status'', JStr (txn_status tx))]"

record observation =
  obs_address :: address_row
  obs_txid :: string
  obs_vout :: int
  obs_amount_sat :: u64
  obs_block_height :: "int option"
  obs_confirmations :: int

section \<open>Methods\<close>

definition create_address ::
  "env \<Rightarrow> string \<Rightarrow> string \<Rightarrow> string \<Rightarrow> int \<Rightarrow> db \<Rightarrow> storage_error + address_row \<times> db" where
  "create_address e project_id address label required_confirmations d =
     (let (i, d1) = fresh_id e AddressId d;
          r = \<lparr>adr_id = i, adr_project_id = project_id, adr_address = address, adr_label = label,
               adr_required_confirmations = required_confirmations, adr_created_at = env_now e\<rparr>
      in if required_confirmations \<le> 0 then Inl (SDatabase ''check required_confirmations'')
         else if i \<in> set (map adr_id (t_addresses d)) \<or> address \<in> set (map adr_address (t_addresses d))
         then Inl SConflict
         else if project_id \<notin> set (map prj_id (t_projects d)) then Inl (SDatabase ''foreign key'')
         else Inr (r, d1\<lparr>t_addresses := insert_row r (t_addresses d1)\<rparr>))"

definition get_address :: "string \<Rightarrow> string \<Rightarrow> db \<Rightarrow> storage_error + address_row" where
  "get_address project_id i d =
     (case select_one (\<lambda>r. adr_project_id r = project_id \<and> adr_id r = i) (t_addresses d) of
        None \<Rightarrow> Inl SNotFound
      | Some r \<Rightarrow> Inr r)"

definition watched_addresses :: "db \<Rightarrow> address_row list" where
  "watched_addresses d = sort_key adr_created_at (t_addresses d)"

text \<open>The status computed from an observation; the casts to \<open>u32\<close> are of non-negative \<open>i32\<close> values.\<close>

definition observed_status :: "observation \<Rightarrow> onchain_status" where
  "observed_status obs =
     from_confirmations (word_of_int (max (obs_confirmations obs) 0))
       (word_of_int (max (adr_required_confirmations (obs_address obs)) 1))"

definition observe_row :: "env \<Rightarrow> observation \<Rightarrow> transaction_row \<Rightarrow> transaction_row" where
  "observe_row e obs r =
     r\<lparr>txn_confirmations := obs_confirmations obs, txn_block_height := obs_block_height obs,
       txn_status := onchain_as_str (observed_status obs), txn_updated_at := env_now e\<rparr>"

definition insert_transaction ::
  "env \<Rightarrow> observation \<Rightarrow> db \<Rightarrow> storage_error + transaction_row \<times> db" where
  "insert_transaction e obs d =
     (let (i, d1) = fresh_id e TransactionId d
      in (case to_i64 (obs_amount_sat obs) of
            Inl err \<Rightarrow> Inl err
          | Inr amount \<Rightarrow>
              (let r = \<lparr>txn_id = i, txn_project_id = adr_project_id (obs_address obs),
                     txn_address_id = adr_id (obs_address obs), txn_txid = obs_txid obs,
                     txn_vout = obs_vout obs, txn_amount_sat = amount,
                     txn_block_height = obs_block_height obs,
                     txn_confirmations = obs_confirmations obs,
                     txn_status = onchain_as_str (observed_status obs),
                     txn_first_seen_at = env_now e, txn_updated_at = env_now e\<rparr>
               in if amount \<le> 0 then Inl (SDatabase ''check amount_sat'')
                  else if i \<in> set (map txn_id (t_transactions d)) then Inl SConflict
                  else if txn_project_id r \<notin> set (map prj_id (t_projects d))
                       \<or> txn_address_id r \<notin> set (map adr_id (t_addresses d))
                  then Inl (SDatabase ''foreign key'')
                  else Inr (r, d1\<lparr>t_transactions := insert_row r (t_transactions d1)\<rparr>))))"

definition record_observation ::
  "env \<Rightarrow> observation \<Rightarrow> db \<Rightarrow> storage_error + transaction_row option \<times> db" where
  "record_observation e obs d =
     (case (case select_one (\<lambda>r. txn_txid r = obs_txid obs \<and> txn_vout r = obs_vout obs)
                   (t_transactions d) of
              None \<Rightarrow>
                (case insert_transaction e obs d of
                   Inl err \<Rightarrow> Inl err
                 | Inr (row, d1) \<Rightarrow> Inr (Some (row, ''bitcoin.transaction.detected'', d1)))
            | Some old \<Rightarrow>
                if txn_confirmations old = obs_confirmations obs then Inr None
                else
                  (let row = observe_row e obs old;
                       d1 = d\<lparr>t_transactions := update_where (\<lambda>r. txn_id r = txn_id old)
                                (observe_row e obs) (t_transactions d)\<rparr>;
                       kind = (if observed_status obs = Confirmed \<and> txn_status old \<noteq> ''confirmed''
                               then ''bitcoin.transaction.confirmed''
                               else ''bitcoin.transaction.updated'')
                   in Inr (Some (row, kind, d1)))) of
        Inl err \<Rightarrow> Inl err
      | Inr None \<Rightarrow> Inr (None, d)
      | Inr (Some (row, kind, d1)) \<Rightarrow>
          (case emit e (txn_project_id row) kind (txn_id row)
                  (transaction_event_data row (adr_address (obs_address obs))) False d1 of
             Inl err \<Rightarrow> Inl err
           | Inr (_, d2) \<Rightarrow> Inr (Some row, d2)))"

definition get_onchain_transaction :: "string \<Rightarrow> string \<Rightarrow> db \<Rightarrow> storage_error + transaction_row" where
  "get_onchain_transaction project_id i d =
     (case select_one (\<lambda>r. txn_project_id r = project_id \<and> txn_id r = i) (t_transactions d) of
        None \<Rightarrow> Inl SNotFound
      | Some r \<Rightarrow> Inr r)"

definition list_onchain_transactions :: "string \<Rightarrow> int \<Rightarrow> db \<Rightarrow> storage_error + transaction_row list" where
  "list_onchain_transactions project_id limit d =
     (if limit < 0 then Inl (SDatabase ''limit must not be negative'')
      else Inr (take (nat limit) (desc_by (\<lambda>r. (txn_first_seen_at r, txn_id r))
             (filter (\<lambda>r. txn_project_id r = project_id) (t_transactions d)))))"

definition address_for_transaction :: "string \<Rightarrow> db \<Rightarrow> storage_error + string" where
  "address_for_transaction address_id d =
     (case select_one (\<lambda>r. adr_id r = address_id) (t_addresses d) of
        None \<Rightarrow> Inl SNotFound
      | Some r \<Rightarrow> Inr (adr_address r))"

section \<open>The contract\<close>

interpretation create_address_op: db_op "create_address e p a l n" for e p a l n
proof
  fix d r d' assume ok: "schema_ok d" and c: "create_address e p a l n d = Inr (r, d')"
  have r: "d' = d\<lparr>t_addresses := insert_row r (t_addresses d), next_uuid := next_uuid d + 1\<rparr>"
      "adr_id r \<notin> adr_id ` set (t_addresses d)" "adr_address r \<notin> adr_address ` set (t_addresses d)"
      "adr_project_id r \<in> project_ids d" "0 < adr_required_confirmations r"
    using c by (auto simp: create_address_def fresh_id_def Let_def split: if_splits)
  then show "schema_ok d'" using ok by (auto simp: schema_ok_def addresses_table_def transactions_table_def)
  show "evolves d d'" using r(1) by (simp add: evolves_def grows_refl grows_insert)
qed

lemma observed_status_text:
  "onchain_as_str (observed_status obs) \<in> {''unconfirmed'', ''confirming'', ''confirmed''}"
  by (simp add: observed_status_def from_confirmations_def)

lemma transactions_table_update:
  assumes "transactions_table ps as t"
  shows "transactions_table ps as (update_where P (observe_row e obs) t)"
proof -
  have "map txn_id (update_where P (observe_row e obs) t) = map txn_id t"
    and "map (\<lambda>r. (txn_txid r, txn_vout r)) (update_where P (observe_row e obs) t)
         = map (\<lambda>r. (txn_txid r, txn_vout r)) t"
    by (auto intro!: map_update_where_same simp: observe_row_def)
  then show ?thesis using assms observed_status_text [of obs]
    by (auto simp: transactions_table_def set_update_where observe_row_def)
qed

text \<open>The three ways \<open>record_observation\<close> succeeds.\<close>

lemma record_observation_cases:
  assumes "record_observation e obs d = Inr (out, d')"
  obtains (seen) old where "out = None" "d' = d" "old \<in> set (t_transactions d)"
      "txn_txid old = obs_txid obs" "txn_vout old = obs_vout obs"
      "txn_confirmations old = obs_confirmations obs"
    | (detected) row d1 ev where "out = Some row" "insert_transaction e obs d = Inr (row, d1)"
      "\<forall>r \<in> set (t_transactions d). \<not> (txn_txid r = obs_txid obs \<and> txn_vout r = obs_vout obs)"
      "emit e (txn_project_id row) ''bitcoin.transaction.detected'' (txn_id row)
         (transaction_event_data row (adr_address (obs_address obs))) False d1 = Inr (ev, d')"
    | (changed) old ev where "out = Some (observe_row e obs old)" "old \<in> set (t_transactions d)"
      "txn_txid old = obs_txid obs" "txn_vout old = obs_vout obs"
      "txn_confirmations old \<noteq> obs_confirmations obs"
      "emit e (txn_project_id old)
         (if observed_status obs = Confirmed \<and> txn_status old \<noteq> ''confirmed''
          then ''bitcoin.transaction.confirmed'' else ''bitcoin.transaction.updated'') (txn_id old)
         (transaction_event_data (observe_row e obs old) (adr_address (obs_address obs))) False
         (d\<lparr>t_transactions := update_where (\<lambda>r. txn_id r = txn_id old) (observe_row e obs)
              (t_transactions d)\<rparr>) = Inr (ev, d')"
proof (cases "select_one (\<lambda>r. txn_txid r = obs_txid obs \<and> txn_vout r = obs_vout obs) (t_transactions d)")
  case None
  then have n: "\<forall>r \<in> set (t_transactions d). \<not> (txn_txid r = obs_txid obs \<and> txn_vout r = obs_vout obs)"
    by (simp add: select_one_None)
  obtain row d1 where i: "insert_transaction e obs d = Inr (row, d1)"
    using assms None by (cases "insert_transaction e obs d") (auto simp: record_observation_def)
  obtain ev d2 where em: "emit e (txn_project_id row) ''bitcoin.transaction.detected'' (txn_id row)
         (transaction_event_data row (adr_address (obs_address obs))) False d1 = Inr (ev, d2)"
      "out = Some row" "d2 = d'"
    using assms None i by (auto simp: record_observation_def split: sum.splits)
  show ?thesis by (rule detected [OF em(2) i n]) (use em in simp)
next
  case (Some old)
  note o = select_one_Some [OF Some]
  show ?thesis
  proof (cases "txn_confirmations old = obs_confirmations obs")
    case True
    then show ?thesis using assms Some o by (intro seen [of old]) (auto simp: record_observation_def)
  next
    case False
    have f: "txn_project_id (observe_row e obs old) = txn_project_id old"
      "txn_id (observe_row e obs old) = txn_id old" by (simp_all add: observe_row_def)
    obtain ev d2 where em: "emit e (txn_project_id old)
         (if observed_status obs = Confirmed \<and> txn_status old \<noteq> ''confirmed''
          then ''bitcoin.transaction.confirmed'' else ''bitcoin.transaction.updated'') (txn_id old)
         (transaction_event_data (observe_row e obs old) (adr_address (obs_address obs))) False
         (d\<lparr>t_transactions := update_where (\<lambda>r. txn_id r = txn_id old) (observe_row e obs)
              (t_transactions d)\<rparr>) = Inr (ev, d2)" "out = Some (observe_row e obs old)" "d2 = d'"
      using assms Some False by (simp only: record_observation_def option.case if_False Let_def
          sum.case prod.case f) (auto split: sum.splits)
    show ?thesis by (rule changed [OF em(2)]) (use o False em in simp_all)
  qed
qed

lemma insert_transaction_Inr:
  assumes "insert_transaction e obs d = Inr (row, d1)"
  shows "d1 = d\<lparr>t_transactions := insert_row row (t_transactions d), next_uuid := next_uuid d + 1\<rparr>"
    and "txn_id row \<notin> txn_id ` set (t_transactions d)" and "txn_project_id row \<in> project_ids d"
    and "txn_address_id row \<in> adr_id ` set (t_addresses d)" and "0 < txn_amount_sat row"
    and "txn_status row = onchain_as_str (observed_status obs)"
    and "txn_txid row = obs_txid obs" and "txn_vout row = obs_vout obs"
    and "txn_confirmations row = obs_confirmations obs" and "txn_block_height row = obs_block_height obs"
  using assms by (auto simp: insert_transaction_def fresh_id_def Let_def split: sum.splits if_splits)

interpretation observe_op: db_op "record_observation e obs" for e obs
proof -
  have "schema_ok d' \<and> evolves d d'"
    if ok: "schema_ok d" and r: "record_observation e obs d = Inr (out, d')" for e obs d out d'
    using r
  proof (cases rule: record_observation_cases)
    case (seen old)
    then show ?thesis using ok by simp
  next
    case (detected row d1 ev)
    note i = insert_transaction_Inr [OF detected(2)]
    have "schema_ok d1" using ok i detected(3) observed_status_text [of obs]
      by (auto simp: schema_ok_def transactions_table_def)
    moreover have "evolves d d1" using i(1) by (simp add: evolves_def grows_refl grows_insert)
    ultimately show ?thesis using detected(4) by (rule emit_keeps)
  next
    case (changed old ev)
    let ?d1 = "d\<lparr>t_transactions := update_where (\<lambda>r. txn_id r = txn_id old) (observe_row e obs)
              (t_transactions d)\<rparr>"
    have "schema_ok ?d1"
      using ok by (intro schema_table transactions_table_update) (simp_all add: schema_ok_def)
    moreover have "evolves d ?d1"
      by (intro evolves_table grows_update)
        (simp_all add: transaction_le_def observe_row_def transaction_fixed_def)
    ultimately show ?thesis using changed(6) by (rule emit_keeps)
  qed
  then show "\<And>e obs. db_op (record_observation e obs)" by unfold_locales blast+
qed

section \<open>Properties\<close>

text \<open>
  \<open>record_observation\<close> is idempotent and stores what was seen: after it succeeds the output has
  one row, with the observed number of confirmations and, if the call changed it, the status of
  that number against the threshold of the address; recording the same observation again reports
  nothing and changes nothing. The event of a change is \<open>detected\<close> for a new output, \<open>confirmed\<close> when
  the status reaches \<open>confirmed\<close>, and \<open>updated\<close> otherwise.
\<close>

theorem record_observation_idempotent:
  assumes "schema_ok d" and "record_observation e obs d = Inr (out, d')"
  shows "(\<exists>r \<in> set (t_transactions d'). txn_txid r = obs_txid obs \<and> txn_vout r = obs_vout obs
            \<and> txn_confirmations r = obs_confirmations obs
            \<and> (out = None \<and> d' = d
               \<or> out = Some r \<and> txn_status r = onchain_as_str (observed_status obs)
                 \<and> map ev_kind (drop (length (t_events d)) (t_events d'))
                   = [case select_one (\<lambda>r. txn_txid r = obs_txid obs \<and> txn_vout r = obs_vout obs)
                             (t_transactions d) of
                        None \<Rightarrow> ''bitcoin.transaction.detected''
                      | Some old \<Rightarrow>
                          if observed_status obs = Confirmed \<and> txn_status old \<noteq> ''confirmed''
                          then ''bitcoin.transaction.confirmed'' else ''bitcoin.transaction.updated'']))
    \<and> record_observation e' obs d' = Inr (None, d')"
proof -
  have ok': "schema_ok d'" using observe_op.op_schema [OF assms] .
  have uniq: "select_one (\<lambda>r. txn_txid r = obs_txid obs \<and> txn_vout r = obs_vout obs) (t_transactions x) = Some r"
    if "schema_ok x" "r \<in> set (t_transactions x)" "txn_txid r = obs_txid obs" "txn_vout r = obs_vout obs" for x r
    using that by (intro select_one_only)
      (auto simp: schema_ok_def transactions_table_def
        dest: distinct_map_eq [of "\<lambda>r. (txn_txid r, txn_vout r)"])
  have again: "record_observation e' obs d' = Inr (None, d')"
    if "r \<in> set (t_transactions d')" "txn_txid r = obs_txid obs" "txn_vout r = obs_vout obs"
      "txn_confirmations r = obs_confirmations obs" for r
    using uniq [OF ok' that(1-3)] that(4) by (simp add: record_observation_def)
  show ?thesis using assms(2)
  proof (cases rule: record_observation_cases)
    case (seen old)
    then show ?thesis using again [of old] by auto
  next
    case (detected row d1 ev)
    note i = insert_transaction_Inr [OF detected(2)]
    have em: "t_transactions d' = t_transactions d1" "t_events d' = t_events d1 @ [ev]"
        "ev_kind ev = ''bitcoin.transaction.detected''"
      using emit_Inr [OF detected(4)] by (simp_all add: emitted_def new_event_def)
    have "row \<in> set (t_transactions d')" using em i(1) by simp
    moreover have "select_one (\<lambda>r. txn_txid r = obs_txid obs \<and> txn_vout r = obs_vout obs)
        (t_transactions d) = None" using detected(3) by (simp add: select_one_None)
    ultimately show ?thesis using again [of row] detected(1) i em by auto
  next
    case (changed old ev)
    have em: "t_transactions d' = update_where (\<lambda>r. txn_id r = txn_id old) (observe_row e obs) (t_transactions d)"
        "t_events d' = t_events d @ [ev]"
        "ev_kind ev = (if observed_status obs = Confirmed \<and> txn_status old \<noteq> ''confirmed''
          then ''bitcoin.transaction.confirmed'' else ''bitcoin.transaction.updated'')"
      using emit_Inr [OF changed(6)] by (simp_all add: emitted_def new_event_def)
    have "observe_row e obs old \<in> set (t_transactions d')"
      using em(1) changed(2) by (auto simp: set_update_where intro!: image_eqI [of _ _ old])
    moreover have "txn_txid (observe_row e obs old) = obs_txid obs"
        "txn_vout (observe_row e obs old) = obs_vout obs"
        "txn_confirmations (observe_row e obs old) = obs_confirmations obs"
        "txn_status (observe_row e obs old) = onchain_as_str (observed_status obs)"
      using changed(3,4) by (simp_all add: observe_row_def)
    ultimately show ?thesis
      using again [of "observe_row e obs old"] changed(1) em(2,3) uniq [OF assms(1) changed(2-4)]
      by (intro conjI bexI [of _ "observe_row e obs old"]) simp_all
  qed
qed

definition sample_address :: address_row where
  "sample_address = \<lparr>adr_id = ''adr_1'', adr_project_id = ''prj_a'', adr_address = ''bcrt1q'',
     adr_label = [], adr_required_confirmations = 2, adr_created_at = 0\<rparr>"

definition sample_observation :: observation where
  "sample_observation = \<lparr>obs_address = sample_address, obs_txid = ''t'', obs_vout = 0,
     obs_amount_sat = 700, obs_block_height = Some 5, obs_confirmations = 2\<rparr>"

definition sample_chain :: db where
  "sample_chain = sample_db\<lparr>t_addresses := [sample_address]\<rparr>"

lemma sample_chain_ok: "schema_ok sample_chain"
  using sample_schema
  by (simp add: schema_ok_def addresses_table_def sample_chain_def sample_address_def sample_db_def
      empty_db_def transactions_table_def)

theorem record_observation_idempotent_witness:
  "\<exists>row d'. record_observation sample_env sample_observation sample_chain = Inr (Some row, d')
     \<and> record_observation sample_env sample_observation d' = Inr (None, d')"
proof -
  have "\<exists>row d'. record_observation sample_env sample_observation sample_chain = Inr (Some row, d')"
    by (simp add: record_observation_def insert_transaction_def sample_observation_def sample_chain_def
        sample_address_def sample_db_def empty_db_def select_one_def fresh_id_def to_i64_def emit_def
        new_event_def outbox_rows_def Let_def enumerate_eq_zip)
  then show ?thesis using record_observation_idempotent [OF sample_chain_ok] by blast
qed

end
