(* ===== verification/Storage_Sandbox.thy ===== *)
theory Storage_Sandbox
  imports Storage_Schema
begin

text \<open>
  \<open>crates/safrod-storage/src/sandbox.rs\<close>: simulated quotes, payouts and balances. Reserving a payout
  marks its quote used, debits the balance and records the payout in one transaction; a payout that
  fails credits the amount back.
\<close>

section \<open>Types\<close>

record new_quote =
  nq_project_id :: string
  nq_source_currency :: string
  nq_target_currency :: string
  nq_source_minor :: u64
  nq_target_minor :: u64
  nq_rate_ppm :: u64
  nq_btc_amount_msat :: u64
  nq_expires_at :: instant

definition payout_event_data :: "payout_row \<Rightarrow> json" where
  "payout_event_data payout =
     JObj [(''payout_id'', JStr (pot_id payout)), (''quote_id'', JStr (pot_quote_id payout)),
       (''status'', JStr (pot_status payout)), (''scenario'', JStr (pot_scenario payout)),
       (''payment_id'', jopt JStr (pot_payment_id payout)), (''simulated_fiat'', JBool True)]"

section \<open>Methods\<close>

definition insert_quote :: "env \<Rightarrow> new_quote \<Rightarrow> db \<Rightarrow> storage_error + quote_row \<times> db" where
  "insert_quote e new d =
     (let (i, d1) = fresh_id e QuoteId d
      in (case (to_i64 (nq_source_minor new), to_i64 (nq_target_minor new), to_i64 (nq_rate_ppm new),
                to_i64 (nq_btc_amount_msat new)) of
            (Inr source, Inr target, Inr rate, Inr btc) \<Rightarrow>
              (let r = \<lparr>qte_id = i, qte_project_id = nq_project_id new,
                     qte_source_currency = nq_source_currency new,
                     qte_target_currency = nq_target_currency new, qte_source_minor = source,
                     qte_target_minor = target, qte_rate_ppm = rate, qte_btc_amount_msat = btc,
                     qte_status = ''open'', qte_expires_at = nq_expires_at new,
                     qte_created_at = env_now e\<rparr>
               in if source \<le> 0 \<or> target \<le> 0 \<or> btc \<le> 0 then Inl (SDatabase ''check amount'')
                  else if i \<in> set (map qte_id (t_quotes d)) then Inl SConflict
                  else if nq_project_id new \<notin> set (map prj_id (t_projects d))
                  then Inl (SDatabase ''foreign key'')
                  else Inr (r, d1\<lparr>t_quotes := insert_row r (t_quotes d1)\<rparr>))
          | _ \<Rightarrow> Inl SAmountOutOfRange))"

definition get_quote :: "string \<Rightarrow> string \<Rightarrow> db \<Rightarrow> storage_error + quote_row" where
  "get_quote project_id i d =
     (case select_one (\<lambda>r. qte_project_id r = project_id \<and> qte_id r = i) (t_quotes d) of
        None \<Rightarrow> Inl SNotFound
      | Some r \<Rightarrow> Inr r)"

text \<open>
  The upsert on \<open>sandbox_balances\<close>, and the balance read before it. An addition that leaves the range of
  \<open>bigint\<close> fails.
\<close>

definition balance_of :: "string \<Rightarrow> string \<Rightarrow> db \<Rightarrow> int" where
  "balance_of project_id currency d =
     (case select_one (\<lambda>b. bal_project_id b = project_id \<and> bal_currency b = currency) (t_balances d) of
        Some b \<Rightarrow> bal_minor b
      | None \<Rightarrow> 0)"

definition upsert_balance :: "string \<Rightarrow> string \<Rightarrow> int \<Rightarrow> db \<Rightarrow> storage_error + db" where
  "upsert_balance project_id currency delta d =
     (let P = (\<lambda>b. bal_project_id b = project_id \<and> bal_currency b = currency)
      in (case select_one P (t_balances d) of
            None \<Rightarrow>
              if project_id \<notin> set (map prj_id (t_projects d)) then Inl (SDatabase ''foreign key'')
              else Inr (d\<lparr>t_balances := insert_row
                     \<lparr>bal_project_id = project_id, bal_currency = currency, bal_minor = delta\<rparr>
                     (t_balances d)\<rparr>)
          | Some b \<Rightarrow>
              if \<not> in_i64 (bal_minor b + delta) then Inl (SDatabase ''bigint out of range'')
              else Inr (d\<lparr>t_balances := update_where P (\<lambda>b. b\<lparr>bal_minor := bal_minor b + delta\<rparr>)
                     (t_balances d)\<rparr>)))"

definition insert_payout ::
  "env \<Rightarrow> string \<Rightarrow> string \<Rightarrow> string \<Rightarrow> string \<Rightarrow> string option \<Rightarrow> db \<Rightarrow> storage_error + payout_row \<times> db" where
  "insert_payout e project_id quote_id idempotency_key scenario settlement_bolt11 d =
     (let (i, d1) = fresh_id e PayoutId d;
          r = \<lparr>pot_id = i, pot_project_id = project_id, pot_quote_id = quote_id,
               pot_idempotency_key = idempotency_key, pot_scenario = scenario,
               pot_settlement_bolt11 = settlement_bolt11, pot_status = ''reserved'',
               pot_payment_id = None, pot_created_at = env_now e, pot_updated_at = env_now e\<rparr>
      in if scenario \<notin> {''success'', ''failure'', ''timeout''} then Inl (SDatabase ''check scenario'')
         else if i \<in> set (map pot_id (t_payouts d)) \<or> quote_id \<in> set (map pot_quote_id (t_payouts d))
              \<or> (project_id, idempotency_key)
                 \<in> set (map (\<lambda>r. (pot_project_id r, pot_idempotency_key r)) (t_payouts d))
         then Inl SConflict
         else if project_id \<notin> set (map prj_id (t_projects d)) \<or> quote_id \<notin> set (map qte_id (t_quotes d))
         then Inl (SDatabase ''foreign key'')
         else Inr (r, d1\<lparr>t_payouts := insert_row r (t_payouts d1)\<rparr>))"

definition reserve_payout ::
  "env \<Rightarrow> string \<Rightarrow> string \<Rightarrow> string \<Rightarrow> string \<Rightarrow> string option \<Rightarrow> db
   \<Rightarrow> storage_error + (payout_row \<times> bool) \<times> db" where
  "reserve_payout e project_id quote_id idempotency_key scenario settlement_bolt11 d =
     (case select_one (\<lambda>r. pot_project_id r = project_id \<and> pot_idempotency_key r = idempotency_key)
             (t_payouts d) of
        Some prior \<Rightarrow>
          if pot_quote_id prior \<noteq> quote_id \<or> pot_scenario prior \<noteq> scenario
          then Inl SIdempotencyMismatch
          else Inr ((prior, False), d)
      | None \<Rightarrow>
          (case select_one (\<lambda>r. qte_project_id r = project_id \<and> qte_id r = quote_id) (t_quotes d) of
             None \<Rightarrow> Inl SNotFound
           | Some quote \<Rightarrow>
               if qte_status quote \<noteq> ''open'' \<or> qte_expires_at quote < env_now e
               then Inl (SIllegalTransition ''stale_quote'' ''reserved'')
               else if balance_of project_id (qte_source_currency quote) d < qte_source_minor quote
               then Inl SInsufficientBalance
               else
                 (let d1 = d\<lparr>t_quotes := update_where (\<lambda>r. qte_id r = qte_id quote)
                            (\<lambda>r. r\<lparr>qte_status := ''used''\<rparr>) (t_quotes d)\<rparr>
                  in (case upsert_balance project_id (qte_source_currency quote)
                             (- qte_source_minor quote) d1 of
                        Inl err \<Rightarrow> Inl err
                      | Inr d2 \<Rightarrow>
                          (case insert_payout e project_id quote_id idempotency_key scenario
                                  settlement_bolt11 d2 of
                             Inl err \<Rightarrow> Inl err
                           | Inr (payout, d3) \<Rightarrow>
                               (case emit e project_id ''sandbox.payout.reserved'' (pot_id payout)
                                       (payout_event_data payout) True d3 of
                                  Inl err \<Rightarrow> Inl err
                                | Inr (_, d4) \<Rightarrow> Inr ((payout, True), d4)))))))"

definition get_payout :: "string \<Rightarrow> string \<Rightarrow> db \<Rightarrow> storage_error + payout_row" where
  "get_payout project_id i d =
     (case select_one (\<lambda>r. pot_project_id r = project_id \<and> pot_id r = i) (t_payouts d) of
        None \<Rightarrow> Inl SNotFound
      | Some r \<Rightarrow> Inr r)"

definition attach_payment_to_payout ::
  "env \<Rightarrow> string \<Rightarrow> string \<Rightarrow> db \<Rightarrow> storage_error + unit \<times> db" where
  "attach_payment_to_payout e payout_id payment_id d =
     (if payout_id \<in> set (map pot_id (t_payouts d)) \<and> payment_id \<notin> set (map pay_id (t_payments d))
      then Inl (SDatabase ''foreign key'')
      else Inr ((), d\<lparr>t_payouts := update_where (\<lambda>r. pot_id r = payout_id)
                  (\<lambda>r. r\<lparr>pot_payment_id := Some payment_id, pot_updated_at := env_now e\<rparr>)
                  (t_payouts d)\<rparr>))"

text \<open>The refund: \<open>update sandbox_balances ... from sandbox_quotes\<close>.\<close>

definition refund_quote :: "string \<Rightarrow> db \<Rightarrow> storage_error + db" where
  "refund_quote quote_id d =
     (case select_one (\<lambda>q. qte_id q = quote_id) (t_quotes d) of
        None \<Rightarrow> Inr d
      | Some q \<Rightarrow>
          (let P = (\<lambda>b. bal_project_id b = qte_project_id q \<and> bal_currency b = qte_source_currency q)
           in if \<exists>b \<in> set (t_balances d). P b \<and> \<not> in_i64 (bal_minor b + qte_source_minor q)
              then Inl (SDatabase ''bigint out of range'')
              else Inr (d\<lparr>t_balances := update_where P
                     (\<lambda>b. b\<lparr>bal_minor := bal_minor b + qte_source_minor q\<rparr>) (t_balances d)\<rparr>)))"

definition refund_if_failed :: "payout_status \<Rightarrow> string \<Rightarrow> db \<Rightarrow> storage_error + db" where
  "refund_if_failed next quote_id d = (if next = PotFailed then refund_quote quote_id d else Inr d)"

definition advance_row :: "env \<Rightarrow> payout_status \<Rightarrow> payout_row \<Rightarrow> payout_row" where
  "advance_row e next r = r\<lparr>pot_status := payout_as_str next, pot_updated_at := env_now e\<rparr>"

definition advance_payout ::
  "env \<Rightarrow> string \<Rightarrow> payout_status \<Rightarrow> db \<Rightarrow> storage_error + (payout_row \<times> bool) \<times> db" where
  "advance_payout e payout_id next d =
     (case select_one (\<lambda>r. pot_id r = payout_id) (t_payouts d) of
        None \<Rightarrow> Inl SNotFound
      | Some current \<Rightarrow>
          (case payout_from_str (pot_status current) of
             Inl _ \<Rightarrow> Inl SNotFound
           | Inr from \<Rightarrow>
               if from = next then Inr ((current, False), d)
               else if \<not> payout_can_transition_to from next
               then Inl (SIllegalTransition (payout_as_str from) (payout_as_str next))
               else
                 (let updated = advance_row e next current;
                      d1 = d\<lparr>t_payouts := update_where (\<lambda>r. pot_id r = payout_id) (advance_row e next)
                               (t_payouts d)\<rparr>
                  in (case refund_if_failed next (pot_quote_id updated) d1 of
                        Inl err \<Rightarrow> Inl err
                      | Inr d2 \<Rightarrow>
                          (case emit e (pot_project_id updated) (''sandbox.payout.'' @ payout_as_str next)
                                  (pot_id updated) (payout_event_data updated) True d2 of
                             Inl err \<Rightarrow> Inl err
                           | Inr (_, d3) \<Rightarrow> Inr ((updated, True), d3))))))"

definition sandbox_balances :: "string \<Rightarrow> db \<Rightarrow> (string \<times> int) list" where
  "sandbox_balances project_id d =
     map (\<lambda>b. (bal_currency b, bal_minor b))
       (sort_key bal_currency (filter (\<lambda>b. bal_project_id b = project_id) (t_balances d)))"

definition credit_sandbox_balance :: "string \<Rightarrow> string \<Rightarrow> u64 \<Rightarrow> db \<Rightarrow> storage_error + unit \<times> db" where
  "credit_sandbox_balance project_id currency minor d =
     (case to_i64 minor of
        Inl err \<Rightarrow> Inl err
      | Inr m \<Rightarrow>
          (case upsert_balance project_id currency m d of
             Inl err \<Rightarrow> Inl err
           | Inr d1 \<Rightarrow> Inr ((), d1)))"

section \<open>The contract\<close>

lemma to_i64_range: "to_i64 m = Inr x \<Longrightarrow> in_i64 x \<and> 0 \<le> x"
proof -
  assume "to_i64 m = Inr x"
  then have "unat m < 9223372036854775808" "x = int (unat m)"
    by (auto simp: to_i64_def split: if_splits)
  then have "x < 9223372036854775808" "0 \<le> x" by linarith+
  then show ?thesis by (simp add: in_i64_def)
qed

interpretation insert_quote_op: db_op "insert_quote e new" for e new
proof
  fix d r d' assume ok: "schema_ok d" and c: "insert_quote e new d = Inr (r, d')"
  have r: "d' = d\<lparr>t_quotes := insert_row r (t_quotes d), next_uuid := next_uuid d + 1\<rparr>"
      "qte_id r \<notin> qte_id ` set (t_quotes d)" "qte_project_id r \<in> project_ids d"
      "0 < qte_source_minor r" "0 < qte_target_minor r" "0 < qte_btc_amount_msat r" "qte_status r = ''open''"
    using c by (auto simp: insert_quote_def fresh_id_def Let_def split: sum.splits if_splits)
  then show "schema_ok d'" using ok by (auto simp: schema_ok_def quotes_table_def payouts_table_def)
  show "evolves d d'" using r(1) by (simp add: evolves_def grows_refl grows_insert)
qed

lemma balances_table_update:
  assumes "balances_table ps t" and "\<And>b. b \<in> set t \<Longrightarrow> P b \<Longrightarrow> in_i64 (bal_minor b + x)"
  shows "balances_table ps (update_where P (\<lambda>b. b\<lparr>bal_minor := bal_minor b + x\<rparr>) t)"
proof -
  have "map (\<lambda>r. (bal_project_id r, bal_currency r)) (update_where P (\<lambda>b. b\<lparr>bal_minor := bal_minor b + x\<rparr>) t)
      = map (\<lambda>r. (bal_project_id r, bal_currency r)) t"
    by (auto intro!: map_update_where_same)
  then show ?thesis using assms by (auto simp: balances_table_def set_update_where)
qed

lemma balance_row_unique:
  "balances_table ps t \<Longrightarrow> b \<in> set t \<Longrightarrow> b' \<in> set t \<Longrightarrow> bal_project_id b = bal_project_id b' \<Longrightarrow>
     bal_currency b = bal_currency b' \<Longrightarrow> b = b'"
  by (auto simp: balances_table_def intro: distinct_map_eq [of "\<lambda>r. (bal_project_id r, bal_currency r)"])

lemma upsert_schema:
  assumes ok: "schema_ok d" and u: "upsert_balance p c x d = Inr d'" and x: "in_i64 x"
  shows "schema_ok d' \<and> (\<exists>t. d' = d\<lparr>t_balances := t\<rparr>)"
proof -
  have bt: "balances_table (project_ids d) (t_balances d)" using ok by (simp add: schema_ok_def)
  show ?thesis
  proof (cases "select_one (\<lambda>b. bal_project_id b = p \<and> bal_currency b = c) (t_balances d)")
    case None
    then have d': "d' = d\<lparr>t_balances := insert_row \<lparr>bal_project_id = p, bal_currency = c, bal_minor = x\<rparr> (t_balances d)\<rparr>"
      "p \<in> project_ids d" using u by (auto simp: upsert_balance_def Let_def split: if_splits)
    moreover have "balances_table (project_ids d)
        (insert_row \<lparr>bal_project_id = p, bal_currency = c, bal_minor = x\<rparr> (t_balances d))"
      using bt x d'(2) None by (auto simp: balances_table_def select_one_None)
    ultimately show ?thesis using ok schema_table(6) by blast
  next
    case (Some b)
    let ?t = "update_where (\<lambda>b. bal_project_id b = p \<and> bal_currency b = c)
        (\<lambda>b. b\<lparr>bal_minor := bal_minor b + x\<rparr>) (t_balances d)"
    have d': "d' = d\<lparr>t_balances := ?t\<rparr>" "in_i64 (bal_minor b + x)"
      using u Some by (auto simp: upsert_balance_def Let_def split: if_splits)
    have "balances_table (project_ids d) ?t"
      using bt
    proof (rule balances_table_update)
      fix b' assume "b' \<in> set (t_balances d)" "bal_project_id b' = p \<and> bal_currency b' = c"
      then have "b' = b" using balance_row_unique [OF bt] select_one_Some [OF Some] by auto
      then show "in_i64 (bal_minor b' + x)" using d'(2) by simp
    qed
    then show ?thesis using d'(1) ok schema_table(6) by blast
  qed
qed

lemma insert_payout_Inr:
  assumes "insert_payout e p q k s b d = Inr (r, d')"
  shows "d' = d\<lparr>t_payouts := insert_row r (t_payouts d), next_uuid := next_uuid d + 1\<rparr>"
    and "pot_id r \<notin> pot_id ` set (t_payouts d)" and "pot_quote_id r \<notin> pot_quote_id ` set (t_payouts d)"
    and "(pot_project_id r, pot_idempotency_key r)
         \<notin> (\<lambda>r. (pot_project_id r, pot_idempotency_key r)) ` set (t_payouts d)"
    and "pot_project_id r \<in> project_ids d" and "pot_quote_id r \<in> qte_id ` set (t_quotes d)"
    and "pot_scenario r \<in> {''success'', ''failure'', ''timeout''}"
    and "pot_status r = ''reserved''" and "pot_quote_id r = q" and "pot_project_id r = p"
    and "pot_idempotency_key r = k" and "pot_scenario r = s" and "pot_settlement_bolt11 r = b"
  using assms by (auto simp: insert_payout_def fresh_id_def Let_def split: if_splits)

definition use_quote :: "string \<Rightarrow> quote_row list \<Rightarrow> quote_row list" where
  "use_quote i t = update_where (\<lambda>r. qte_id r = i) (\<lambda>r. r\<lparr>qte_status := ''used''\<rparr>) t"

text \<open>The two ways \<open>reserve_payout\<close> succeeds.\<close>

lemma reserve_payout_cases:
  assumes "reserve_payout e p q k s b d = Inr ((r, created), d')"
  obtains (replayed) "\<not> created" "d' = d" "r \<in> set (t_payouts d)" "pot_project_id r = p"
      "pot_idempotency_key r = k" "pot_quote_id r = q" "pot_scenario r = s"
    | (reserved) quote d2 d3 ev where "created" "quote \<in> set (t_quotes d)" "qte_project_id quote = p"
      "qte_id quote = q" "qte_status quote = ''open''" "env_now e \<le> qte_expires_at quote"
      "qte_source_minor quote \<le> balance_of p (qte_source_currency quote) d"
      "upsert_balance p (qte_source_currency quote) (- qte_source_minor quote)
         (d\<lparr>t_quotes := use_quote q (t_quotes d)\<rparr>) = Inr d2"
      "insert_payout e p q k s b d2 = Inr (r, d3)"
      "emit e p ''sandbox.payout.reserved'' (pot_id r) (payout_event_data r) True d3 = Inr (ev, d')"
proof (cases "select_one (\<lambda>r. pot_project_id r = p \<and> pot_idempotency_key r = k) (t_payouts d)")
  case (Some prior)
  then show ?thesis using assms select_one_Some [OF Some]
    by (intro replayed) (auto simp: reserve_payout_def split: if_splits)
next
  case None
  then obtain quote where q: "select_one (\<lambda>r. qte_project_id r = p \<and> qte_id r = q) (t_quotes d) = Some quote"
    using assms by (auto simp: reserve_payout_def split: option.splits)
  have c: "qte_status quote = ''open''" "env_now e \<le> qte_expires_at quote"
      "qte_source_minor quote \<le> balance_of p (qte_source_currency quote) d"
    using assms None q by (auto simp: reserve_payout_def split: if_splits)
  note sel = select_one_Some [OF q]
  obtain d2 d3 ev r' where x: "upsert_balance p (qte_source_currency quote) (- qte_source_minor quote)
         (d\<lparr>t_quotes := use_quote q (t_quotes d)\<rparr>) = Inr d2" "insert_payout e p q k s b d2 = Inr (r', d3)"
      "emit e p ''sandbox.payout.reserved'' (pot_id r') (payout_event_data r') True d3 = Inr (ev, d')"
      "r' = r" "created"
    using assms None q c sel
    by (auto simp: reserve_payout_def Let_def use_quote_def split: sum.splits)
  show ?thesis
    by (rule reserved [OF x(5) _ _ _ c x(1)]) (use x sel in auto)
qed

lemma use_quote_schema:
  assumes "schema_ok d" and "quote \<in> set (t_quotes d)" and "qte_id quote = q" and "qte_status quote = ''open''"
  shows "schema_ok (d\<lparr>t_quotes := use_quote q (t_quotes d)\<rparr>)
       \<and> evolves d (d\<lparr>t_quotes := use_quote q (t_quotes d)\<rparr>)"
proof
  have "map qte_id (use_quote q (t_quotes d)) = map qte_id (t_quotes d)"
    by (simp add: use_quote_def map_update_where_same)
  moreover have "qte_id ` set (use_quote q (t_quotes d)) = qte_id ` set (t_quotes d)"
    by (simp add: use_quote_def image_update_where)
  moreover have "quotes_table (project_ids d) (use_quote q (t_quotes d))"
    using assms(1) calculation(1)
    by (auto simp: schema_ok_def quotes_table_def use_quote_def set_update_where)
  ultimately show "schema_ok (d\<lparr>t_quotes := use_quote q (t_quotes d)\<rparr>)"
    using assms(1) by (simp add: schema_ok_def)
  have "r = quote" if "r \<in> set (t_quotes d)" "qte_id r = q" for r
    using that assms by (auto simp: schema_ok_def quotes_table_def intro: distinct_map_eq)
  then show "evolves d (d\<lparr>t_quotes := use_quote q (t_quotes d)\<rparr>)"
    using assms(4) unfolding use_quote_def
    by (intro evolves_table grows_update) (auto simp: quote_le_def)
qed

lemma in_i64_neg_source: "schema_ok d \<Longrightarrow> quote \<in> set (t_quotes d) \<Longrightarrow>
    qte_source_minor quote \<le> balance_of p c d \<Longrightarrow> in_i64 (- qte_source_minor quote)"
proof -
  assume ok: "schema_ok d" and q: "quote \<in> set (t_quotes d)" "qte_source_minor quote \<le> balance_of p c d"
  have "0 < qte_source_minor quote" using ok q(1) by (simp add: schema_ok_def quotes_table_def)
  moreover have "balance_of p c d < 2 ^ 63"
  proof (cases "select_one (\<lambda>b. bal_project_id b = p \<and> bal_currency b = c) (t_balances d)")
    case None
    then show ?thesis by (simp add: balance_of_def)
  next
    case (Some b)
    then have "in_i64 (bal_minor b)" using ok select_one_Some [OF Some]
      by (simp add: schema_ok_def balances_table_def)
    then show ?thesis using Some by (simp add: balance_of_def in_i64_def)
  qed
  ultimately show ?thesis using q(2) by (simp add: in_i64_def)
qed

interpretation reserve_op: db_op "reserve_payout e p q k s b" for e p q k s b
proof -
  have "schema_ok d' \<and> evolves d d'"
    if ok: "schema_ok d" and c: "reserve_payout e p q k s b d = Inr (out, d')" for e p q k s b d out d'
  proof -
    obtain r created where "out = (r, created)" by (cases out)
    with c have "reserve_payout e p q k s b d = Inr ((r, created), d')" by simp
    then show ?thesis
    proof (cases rule: reserve_payout_cases)
      case replayed
      then show ?thesis using ok by simp
    next
      case (reserved quote d2 d3 ev)
      note d1 = use_quote_schema [OF ok reserved(2,4,5)]
      have "schema_ok d2" and d2: "\<exists>t. d2 = d\<lparr>t_quotes := use_quote q (t_quotes d)\<rparr>\<lparr>t_balances := t\<rparr>"
        using upsert_schema [OF _ reserved(8) in_i64_neg_source [OF ok reserved(2,7)]] d1 by auto
      moreover have "evolves d d2" using d2 d1 evolves_table(6) evolves_trans by metis
      moreover note i = insert_payout_Inr [OF reserved(9)]
      ultimately have "schema_ok d3" "evolves d d3"
        by (auto simp: schema_ok_def payouts_table_def evolves_def grows_insert
            intro!: grows_insert elim!: grows_row_trans)
      then show ?thesis using reserved(10) by (rule emit_keeps)
    qed
  qed
  then show "\<And>e p q k s b. db_op (reserve_payout e p q k s b)" by unfold_locales blast+
qed

lemma payouts_table_update:
  assumes "payouts_table ps qs t"
    and "\<And>r. r \<in> set t \<Longrightarrow> P r \<Longrightarrow> payout_fixed (f r) = payout_fixed r \<and> parses payout_from_str (pot_status (f r))"
  shows "payouts_table ps qs (update_where P f t)"
proof -
  have "map pot_id (update_where P f t) = map pot_id t"
    and "map pot_quote_id (update_where P f t) = map pot_quote_id t"
    and "map (\<lambda>r. (pot_project_id r, pot_idempotency_key r)) (update_where P f t)
         = map (\<lambda>r. (pot_project_id r, pot_idempotency_key r)) t"
    using assms(2) by (auto intro!: map_update_where_same simp: payout_fixed_def)
  then show ?thesis using assms
    by (auto simp: payouts_table_def set_update_where payout_fixed_def)
qed

interpretation attach_op: db_op "attach_payment_to_payout e i pid" for e i pid
proof
  fix d r d' assume ok: "schema_ok d" and c: "attach_payment_to_payout e i pid d = Inr (r, d')"
  let ?f = "\<lambda>r. r\<lparr>pot_payment_id := Some pid, pot_updated_at := env_now e\<rparr>"
  have d': "d' = d\<lparr>t_payouts := update_where (\<lambda>r. pot_id r = i) ?f (t_payouts d)\<rparr>"
    using c by (auto simp: attach_payment_to_payout_def split: if_splits)
  have pt: "payouts_table (project_ids d) (qte_id ` set (t_quotes d)) (t_payouts d)"
    using ok by (simp add: schema_ok_def)
  have "payouts_table (project_ids d) (qte_id ` set (t_quotes d))
      (update_where (\<lambda>r. pot_id r = i) ?f (t_payouts d))"
    by (rule payouts_table_update [OF pt]) (use pt in \<open>simp add: payout_fixed_def payouts_table_def\<close>)
  then show "schema_ok d'" using d' ok schema_table(5) by blast
  show "evolves d d'" using d'
    by (auto intro!: evolves_table grows_update simp: payout_le_def payout_fixed_def)
qed

interpretation credit_op: db_op "credit_sandbox_balance p c m" for p c m
proof -
  have "schema_ok d' \<and> evolves d d'"
    if ok: "schema_ok d" and c: "credit_sandbox_balance p c m d = Inr (out, d')" for p c m d out d'
  proof -
    obtain x where "to_i64 m = Inr x" "upsert_balance p c x d = Inr d'"
      using c by (auto simp: credit_sandbox_balance_def split: sum.splits)
    moreover have "in_i64 x" using calculation(1) by (simp add: to_i64_range)
    ultimately show ?thesis using upsert_schema [OF ok] evolves_table(6) by blast
  qed
  then show "\<And>p c m. db_op (credit_sandbox_balance p c m)" by unfold_locales blast+
qed

lemma advance_row_fixed [simp]: "payout_fixed (advance_row e n r) = payout_fixed r"
  by (simp add: advance_row_def payout_fixed_def)

lemma refund_quote_Inr:
  assumes "refund_quote i d = Inr d'"
  shows "\<exists>t. d' = d\<lparr>t_balances := t\<rparr>" and "schema_ok d \<Longrightarrow> schema_ok d'"
proof -
  show e: "\<exists>t. d' = d\<lparr>t_balances := t\<rparr>"
  proof (cases "select_one (\<lambda>q. qte_id q = i) (t_quotes d)")
    case None
    then have "d' = d\<lparr>t_balances := t_balances d\<rparr>" using assms by (simp add: refund_quote_def)
    then show ?thesis by blast
  next
    case (Some q)
    then show ?thesis using assms by (auto simp: refund_quote_def Let_def split: if_splits)
  qed
  assume ok: "schema_ok d"
  then have bt: "balances_table (project_ids d) (t_balances d)" by (simp add: schema_ok_def)
  show "schema_ok d'"
  proof (cases "select_one (\<lambda>q. qte_id q = i) (t_quotes d)")
    case None
    then show ?thesis using ok assms by (simp add: refund_quote_def)
  next
    case (Some q)
    let ?t = "update_where (\<lambda>b. bal_project_id b = qte_project_id q \<and> bal_currency b = qte_source_currency q)
        (\<lambda>b. b\<lparr>bal_minor := bal_minor b + qte_source_minor q\<rparr>) (t_balances d)"
    have "d' = d\<lparr>t_balances := ?t\<rparr>" and r: "\<forall>b \<in> set (t_balances d). bal_project_id b = qte_project_id q
        \<and> bal_currency b = qte_source_currency q \<longrightarrow> in_i64 (bal_minor b + qte_source_minor q)"
      using assms Some by (auto simp: refund_quote_def Let_def split: if_splits)
    moreover have "balances_table (project_ids d) ?t"
      using bt by (rule balances_table_update) (use r in blast)
    ultimately show ?thesis using ok schema_table(6) by blast
  qed
qed

text \<open>The two ways \<open>advance_payout\<close> succeeds.\<close>

lemma advance_payout_cases:
  assumes "advance_payout e i next d = Inr ((r, changed), d')"
  obtains (same) "\<not> changed" "d' = d" "r \<in> set (t_payouts d)" "pot_id r = i"
    | (moved) current fr d2 ev where "changed" "current \<in> set (t_payouts d)" "pot_id current = i"
      "payout_from_str (pot_status current) = Inr fr" "payout_can_transition_to fr next"
      "r = advance_row e next current"
      "refund_if_failed next (pot_quote_id current)
          (d\<lparr>t_payouts := update_where (\<lambda>r. pot_id r = i) (advance_row e next) (t_payouts d)\<rparr>) = Inr d2"
      "emit e (pot_project_id current) (''sandbox.payout.'' @ payout_as_str next) i
         (payout_event_data r) True d2 = Inr (ev, d')"
proof -
  obtain current where s: "select_one (\<lambda>r. pot_id r = i) (t_payouts d) = Some current"
    using assms by (auto simp: advance_payout_def split: option.splits)
  note c = select_one_Some [OF s]
  obtain fr where f: "payout_from_str (pot_status current) = Inr fr"
    using assms s by (auto simp: advance_payout_def split: sum.splits)
  show thesis
  proof (cases "fr = next")
    case True
    then show ?thesis using assms s f c by (intro same) (auto simp: advance_payout_def)
  next
    case False
    have cols: "pot_quote_id (advance_row e next current) = pot_quote_id current"
      "pot_project_id (advance_row e next current) = pot_project_id current"
      "pot_id (advance_row e next current) = pot_id current" by (simp_all add: advance_row_def)
    let ?d1 = "d\<lparr>t_payouts := update_where (\<lambda>r. pot_id r = i) (advance_row e next) (t_payouts d)\<rparr>"
    have t: "payout_can_transition_to fr next"
      using assms s f False by (auto simp: advance_payout_def split: if_splits)
    obtain d2 where d2: "refund_if_failed next (pot_quote_id current) ?d1 = Inr d2"
      using assms s f False t
      by (cases "refund_if_failed next (pot_quote_id current) ?d1")
        (simp_all add: advance_payout_def Let_def cols)
    obtain ev d3 where em: "emit e (pot_project_id current) (''sandbox.payout.'' @ payout_as_str next) i
         (payout_event_data (advance_row e next current)) True d2 = Inr (ev, d3)"
         "r = advance_row e next current" "changed" "d3 = d'"
      using assms s f False t d2 c
      by (auto simp: advance_payout_def Let_def cols split: sum.splits)
    show ?thesis by (rule moved [OF em(3) _ _ f t em(2) d2]) (use c em in simp_all)
  qed
qed

interpretation advance_op: db_op "advance_payout e i next" for e i "next"
proof -
  have "schema_ok d' \<and> evolves d d'"
    if ok: "schema_ok d" and c: "advance_payout e i n d = Inr (out, d')" for e i n d out d'
  proof -
    obtain r changed where "out = (r, changed)" by (cases out)
    with c have "advance_payout e i n d = Inr ((r, changed), d')" by simp
    then show ?thesis
    proof (cases rule: advance_payout_cases)
      case same
      then show ?thesis using ok by simp
    next
      case (moved current fr d2 ev)
      let ?d1 = "d\<lparr>t_payouts := update_where (\<lambda>r. pot_id r = i) (advance_row e n) (t_payouts d)\<rparr>"
      have pt: "payouts_table (project_ids d) (qte_id ` set (t_quotes d)) (t_payouts d)"
        using ok by (simp add: schema_ok_def)
      have "payouts_table (project_ids d) (qte_id ` set (t_quotes d))
          (update_where (\<lambda>r. pot_id r = i) (advance_row e n) (t_payouts d))"
        by (rule payouts_table_update [OF pt]) (simp, simp add: advance_row_def)
      then have s1: "schema_ok ?d1" using ok schema_table(5) by blast
      have "r' = current" if "r' \<in> set (t_payouts d)" "pot_id r' = i" for r'
        using that pt moved(2,3) by (auto simp: payouts_table_def intro: distinct_map_eq)
      then have e1: "evolves d ?d1"
        using payout_le_step [OF moved(4,5)]
        by (intro evolves_table grows_update) (auto simp: advance_row_def payout_fixed_def)
      have "schema_ok d2 \<and> evolves d d2"
      proof (cases "n = PotFailed")
        case True
        then have "refund_quote (pot_quote_id current) ?d1 = Inr d2"
          using moved(7) by (simp add: refund_if_failed_def)
        note r = refund_quote_Inr [OF this]
        obtain t where "d2 = ?d1\<lparr>t_balances := t\<rparr>" using r(1) by blast
        then have "evolves ?d1 d2" using evolves_table(6) by blast
        then show ?thesis using r(2) [OF s1] evolves_trans [OF e1] by blast
      next
        case False
        then show ?thesis using moved(7) s1 e1 by (auto simp: refund_if_failed_def)
      qed
      then show ?thesis using emit_keeps moved(8) by blast
    qed
  qed
  then show "\<And>e i n. db_op (advance_payout e i n)" by unfold_locales blast+
qed

section \<open>Conservation of simulated money\<close>

text \<open>
  The amount a payout holds: the source amount of its quote, until the payout fails. Balances are
  never negative and every payout was funded from a balance that exists.
\<close>

definition quote_amount :: "string \<Rightarrow> string \<Rightarrow> quote_row list \<Rightarrow> string \<Rightarrow> int" where
  "quote_amount p c qs i =
     (case select_one (\<lambda>q. qte_id q = i) qs of
        Some q \<Rightarrow> if qte_project_id q = p \<and> qte_source_currency q = c then qte_source_minor q else 0
      | None \<Rightarrow> 0)"

definition hold :: "string \<Rightarrow> string \<Rightarrow> quote_row list \<Rightarrow> payout_row \<Rightarrow> int" where
  "hold p c qs r = (if pot_status r = ''failed'' then 0 else quote_amount p c qs (pot_quote_id r))"

definition held :: "string \<Rightarrow> string \<Rightarrow> db \<Rightarrow> int" where
  "held p c d = (\<Sum>r\<leftarrow>t_payouts d. hold p c (t_quotes d) r)"

definition has_balance :: "string \<Rightarrow> string \<Rightarrow> db \<Rightarrow> bool" where
  "has_balance p c d \<longleftrightarrow> (p, c) \<in> (\<lambda>b. (bal_project_id b, bal_currency b)) ` set (t_balances d)"

definition sandbox_ok :: "db \<Rightarrow> bool" where
  "sandbox_ok d \<longleftrightarrow> (\<forall>b \<in> set (t_balances d). 0 \<le> bal_minor b)
     \<and> (\<forall>r \<in> set (t_payouts d). \<forall>q \<in> set (t_quotes d). qte_id q = pot_quote_id r \<longrightarrow>
          has_balance (qte_project_id q) (qte_source_currency q) d)"

abbreviation sandbox_total :: "string \<Rightarrow> string \<Rightarrow> db \<Rightarrow> int" where
  "sandbox_total p c d \<equiv> balance_of p c d + held p c d"

lemma balance_of_row:
  assumes "schema_ok d" and "b \<in> set (t_balances d)"
  shows "balance_of (bal_project_id b) (bal_currency b) d = bal_minor b"
proof -
  have bt: "balances_table (project_ids d) (t_balances d)" using assms(1) by (simp add: schema_ok_def)
  have "select_one (\<lambda>x. bal_project_id x = bal_project_id b \<and> bal_currency x = bal_currency b) (t_balances d) = Some b"
    using assms(2) by (intro select_one_only) (auto intro: balance_row_unique [OF bt])
  then show ?thesis by (simp add: balance_of_def)
qed

lemma balance_of_none: "\<not> has_balance p c d \<Longrightarrow> balance_of p c d = 0"
proof -
  assume "\<not> has_balance p c d"
  then have "select_one (\<lambda>b. bal_project_id b = p \<and> bal_currency b = c) (t_balances d) = None"
    by (auto simp: has_balance_def select_one_None)
  then show ?thesis by (simp add: balance_of_def)
qed

text \<open>Adding an amount to one existing balance.\<close>

lemma balance_of_add:
  assumes "schema_ok d" and "has_balance p c d"
    and d': "t_balances d' = update_where (\<lambda>b. bal_project_id b = p \<and> bal_currency b = c)
              (\<lambda>b. b\<lparr>bal_minor := bal_minor b + x\<rparr>) (t_balances d)"
  shows "balance_of p' c' d' = balance_of p' c' d + (if p' = p \<and> c' = c then x else 0)"
proof -
  have "select_one (\<lambda>b. bal_project_id b = p' \<and> bal_currency b = c') (t_balances d')
      = map_option (\<lambda>b. if bal_project_id b = p \<and> bal_currency b = c then b\<lparr>bal_minor := bal_minor b + x\<rparr> else b)
         (select_one (\<lambda>b. bal_project_id b = p' \<and> bal_currency b = c') (t_balances d))"
    using select_one_update_where [of "t_balances d" "\<lambda>b. (bal_project_id b, bal_currency b)"
        "\<lambda>b. b\<lparr>bal_minor := bal_minor b + x\<rparr>" "(p', c')" "\<lambda>b. bal_project_id b = p \<and> bal_currency b = c"]
    by (simp add: d')
  moreover have "(\<exists>b. select_one (\<lambda>b. bal_project_id b = p' \<and> bal_currency b = c') (t_balances d) = Some b
      \<and> bal_project_id b = p' \<and> bal_currency b = c')
    \<or> (select_one (\<lambda>b. bal_project_id b = p' \<and> bal_currency b = c') (t_balances d) = None \<and> \<not> (p' = p \<and> c' = c))"
  proof (cases "select_one (\<lambda>b. bal_project_id b = p' \<and> bal_currency b = c') (t_balances d)")
    case None
    then have "\<not> has_balance p' c' d" by (auto simp: select_one_None has_balance_def)
    then show ?thesis using None assms(2) by auto
  next
    case (Some b)
    then show ?thesis using select_one_Some [OF Some] by simp
  qed
  ultimately show ?thesis by (elim disjE exE conjE) (auto simp: balance_of_def)
qed

lemma has_balance_update:
  "t_balances d' = update_where P (\<lambda>b. b\<lparr>bal_minor := bal_minor b + x\<rparr>) (t_balances d) \<Longrightarrow>
     has_balance p c d' \<longleftrightarrow> has_balance p c d"
  by (simp add: has_balance_def image_update_where)

lemma upsert_existing:
  assumes "has_balance p c d" and "upsert_balance p c x d = Inr d'"
  shows "d' = d\<lparr>t_balances := update_where (\<lambda>b. bal_project_id b = p \<and> bal_currency b = c)
              (\<lambda>b. b\<lparr>bal_minor := bal_minor b + x\<rparr>) (t_balances d)\<rparr>"
proof -
  obtain b where "select_one (\<lambda>b. bal_project_id b = p \<and> bal_currency b = c) (t_balances d) = Some b"
    using assms(1) by (cases "select_one (\<lambda>b. bal_project_id b = p \<and> bal_currency b = c) (t_balances d)")
      (auto simp: has_balance_def select_one_None)
  then show ?thesis using assms(2) by (auto simp: upsert_balance_def Let_def split: if_splits)
qed

lemma quote_amount_use: "quote_amount p c (use_quote q qs) i = quote_amount p c qs i"
proof -
  have "select_one (\<lambda>x. qte_id x = i) (use_quote q qs)
      = map_option (\<lambda>x. if qte_id x = q then x\<lparr>qte_status := ''used''\<rparr> else x) (select_one (\<lambda>x. qte_id x = i) qs)"
    unfolding use_quote_def by (rule select_one_update_where) simp
  then show ?thesis by (cases "select_one (\<lambda>x. qte_id x = i) qs") (auto simp: quote_amount_def)
qed

lemma hold_use [simp]: "hold p c (use_quote q qs) r = hold p c qs r"
  by (simp add: hold_def quote_amount_use)

lemma quote_amount_row:
  assumes "schema_ok d" and "q \<in> set (t_quotes d)"
  shows "quote_amount p c (t_quotes d) (qte_id q)
       = (if qte_project_id q = p \<and> qte_source_currency q = c then qte_source_minor q else 0)"
proof -
  have "select_one (\<lambda>x. qte_id x = qte_id q) (t_quotes d) = Some q"
    using assms by (intro select_one_unique) (auto simp: schema_ok_def quotes_table_def)
  then show ?thesis by (simp add: quote_amount_def)
qed

text \<open>Events do not touch the sandbox tables.\<close>

lemma emitted_sandbox:
  "emit e p kind res data sim d = Inr (ev, d') \<Longrightarrow> t_balances d' = t_balances d \<and> t_payouts d' = t_payouts d
     \<and> t_quotes d' = t_quotes d"
  by (auto simp: emitted_def dest!: emit_Inr)

lemma sandbox_cong:
  assumes "t_balances d' = t_balances d" "t_payouts d' = t_payouts d" "t_quotes d' = t_quotes d"
  shows "sandbox_ok d' \<longleftrightarrow> sandbox_ok d" and "balance_of p c d' = balance_of p c d" and "held p c d' = held p c d"
  using assms by (simp_all add: sandbox_ok_def balance_of_def held_def has_balance_def)

text \<open>A reservation takes the amount of its quote from the balance and adds one payout that holds it.\<close>

lemma reserve_effect:
  assumes ok: "schema_ok d" and r: "reserve_payout e p q k s b d = Inr ((r, True), d')"
  obtains quote where "quote \<in> set (t_quotes d)" "qte_project_id quote = p" "qte_id quote = q"
    "qte_source_minor quote \<le> balance_of p (qte_source_currency quote) d"
    "has_balance p (qte_source_currency quote) d" "pot_quote_id r = q" "pot_status r = ''reserved''"
    "t_balances d' = update_where (\<lambda>b. bal_project_id b = p \<and> bal_currency b = qte_source_currency quote)
      (\<lambda>b. b\<lparr>bal_minor := bal_minor b + - qte_source_minor quote\<rparr>) (t_balances d)"
    "t_payouts d' = t_payouts d @ [r]" "t_quotes d' = use_quote q (t_quotes d)"
  using r
proof (cases rule: reserve_payout_cases)
  case (reserved quote d2 d3 ev)
  have "0 < qte_source_minor quote" using ok reserved(2) by (simp add: schema_ok_def quotes_table_def)
  then have hb: "has_balance p (qte_source_currency quote) d"
    using reserved(7) balance_of_none [of p "qte_source_currency quote" d] by force
  then have d2: "d2 = d\<lparr>t_quotes := use_quote q (t_quotes d), t_balances := update_where
      (\<lambda>b. bal_project_id b = p \<and> bal_currency b = qte_source_currency quote)
      (\<lambda>b. b\<lparr>bal_minor := bal_minor b + - qte_source_minor quote\<rparr>) (t_balances d)\<rparr>"
    using upsert_existing [OF _ reserved(8)] by (simp add: has_balance_def)
  note i = insert_payout_Inr [OF reserved(9)]
  show ?thesis
    by (rule that [OF reserved(2-4,7) hb i(9,8)])
      (use emitted_sandbox [OF reserved(10)] i(1) d2 in \<open>simp_all add: insert_row_def\<close>)
qed simp

lemma covered_balance:
  assumes "schema_ok d" and "sandbox_ok d" and "x \<le> balance_of p c d"
    and "b \<in> set (update_where (\<lambda>b. bal_project_id b = p \<and> bal_currency b = c)
      (\<lambda>b. b\<lparr>bal_minor := bal_minor b + - x\<rparr>) (t_balances d))"
  shows "0 \<le> bal_minor b"
proof -
  obtain b0 where b0: "b0 \<in> set (t_balances d)" "b = (if bal_project_id b0 = p \<and> bal_currency b0 = c
      then b0\<lparr>bal_minor := bal_minor b0 + - x\<rparr> else b0)"
    using assms(4) by (auto simp: set_update_where)
  show ?thesis
  proof (cases "bal_project_id b0 = p \<and> bal_currency b0 = c")
    case True
    then show ?thesis using b0 balance_of_row [OF assms(1) b0(1)] assms(3) by simp
  next
    case False
    then show ?thesis using b0 assms(2) by (auto simp: sandbox_ok_def)
  qed
qed

lemma reserve_funded:
  assumes ok: "schema_ok d" and sok: "sandbox_ok d" and quote: "quote \<in> set (t_quotes d)" "qte_id quote = pot_quote_id r"
    and hb: "has_balance (qte_project_id quote) (qte_source_currency quote) d"
    and x: "x \<in> set (use_quote q (t_quotes d))" "qte_id x = pot_quote_id y" and y: "y = r \<or> y \<in> set (t_payouts d)"
  shows "has_balance (qte_project_id x) (qte_source_currency x) d"
proof -
  obtain x0 where x0: "x0 \<in> set (t_quotes d)" "qte_id x0 = qte_id x" "qte_project_id x = qte_project_id x0"
      "qte_source_currency x = qte_source_currency x0"
    using x(1) by (auto simp: use_quote_def set_update_where split: if_splits)
  show ?thesis
  proof (cases "y = r")
    case True
    then have "x0 = quote" using x0(1,2) x(2) quote ok
      by (auto simp: schema_ok_def quotes_table_def intro: distinct_map_eq)
    then show ?thesis using hb x0 by simp
  next
    case False
    then show ?thesis using sok x0 x(2) y by (auto simp: sandbox_ok_def)
  qed
qed

lemma reserve_conserves:
  assumes ok: "schema_ok d" and sok: "sandbox_ok d"
    and r: "reserve_payout e p q k s b d = Inr ((r, created), d')"
  shows "sandbox_ok d' \<and> sandbox_total p' c' d' = sandbox_total p' c' d"
proof (cases created)
  case False
  have "d' = d" using r by (cases rule: reserve_payout_cases) (use False in simp_all)
  then show ?thesis using sok by simp
next
  case True
  with r have "reserve_payout e p q k s b d = Inr ((r, True), d')" by simp
  then obtain quote where q: "quote \<in> set (t_quotes d)" "qte_project_id quote = p" "qte_id quote = q"
    "qte_source_minor quote \<le> balance_of p (qte_source_currency quote) d"
    "has_balance p (qte_source_currency quote) d" "pot_quote_id r = q" "pot_status r = ''reserved''"
    and tb: "t_balances d' = update_where (\<lambda>b. bal_project_id b = p \<and> bal_currency b = qte_source_currency quote)
      (\<lambda>b. b\<lparr>bal_minor := bal_minor b + - qte_source_minor quote\<rparr>) (t_balances d)"
    and tp: "t_payouts d' = t_payouts d @ [r]" and tq: "t_quotes d' = use_quote q (t_quotes d)"
    by (rule reserve_effect [OF ok])
  have "held p' c' d' = held p' c' d + quote_amount p' c' (t_quotes d) q"
    using q(6,7) by (simp add: held_def tp tq) (simp add: hold_def)
  also have "quote_amount p' c' (t_quotes d) q
      = (if p' = p \<and> c' = qte_source_currency quote then qte_source_minor quote else 0)"
    using quote_amount_row [OF ok q(1)] q(2,3) by auto
  finally have "sandbox_total p' c' d' = sandbox_total p' c' d" using balance_of_add [OF ok q(5) tb] by simp
  moreover have "has_balance (qte_project_id x) (qte_source_currency x) d'"
    if "y \<in> set (t_payouts d')" "x \<in> set (t_quotes d')" "qte_id x = pot_quote_id y" for x y
    using reserve_funded [OF ok sok q(1), of r x q y] that q(2,3,5,6) has_balance_update [OF tb] by (auto simp: tp tq)
  ultimately show ?thesis using covered_balance [OF ok sok q(4)] by (simp add: sandbox_ok_def tb)
qed

lemma refund_effect:
  assumes "schema_ok d" and "refund_quote (qte_id q) d = Inr d'" and "q \<in> set (t_quotes d)"
  shows "t_balances d' = update_where (\<lambda>b. bal_project_id b = qte_project_id q \<and> bal_currency b = qte_source_currency q)
           (\<lambda>b. b\<lparr>bal_minor := bal_minor b + qte_source_minor q\<rparr>) (t_balances d)"
proof -
  have "select_one (\<lambda>x. qte_id x = qte_id q) (t_quotes d) = Some q"
    using assms by (intro select_one_unique) (auto simp: schema_ok_def quotes_table_def)
  then show ?thesis using assms(2) by (auto simp: refund_quote_def Let_def split: if_splits)
qed

lemma sandbox_ok_add:
  assumes "sandbox_ok d" and "0 \<le> x"
    and tb: "t_balances d' = update_where P (\<lambda>b. b\<lparr>bal_minor := bal_minor b + x\<rparr>) (t_balances d)"
    and "pot_quote_id ` set (t_payouts d') = pot_quote_id ` set (t_payouts d)" and "t_quotes d' = t_quotes d"
  shows "sandbox_ok d'"
proof -
  have "0 \<le> bal_minor b" if "b \<in> set (t_balances d')" for b
    using that assms(1,2) by (auto simp: tb set_update_where sandbox_ok_def)
  moreover have "has_balance (qte_project_id q) (qte_source_currency q) d'"
    if "r \<in> set (t_payouts d')" "q \<in> set (t_quotes d')" "qte_id q = pot_quote_id r" for r q
  proof -
    have "pot_quote_id r \<in> pot_quote_id ` set (t_payouts d)" using that(1) assms(4) by blast
    then show ?thesis using that(2,3) assms(1,5) has_balance_update [OF tb] by (auto simp: sandbox_ok_def)
  qed
  ultimately show ?thesis by (simp add: sandbox_ok_def)
qed

text \<open>A payout that moves: the row alone, and the refund of a failed one.\<close>

lemma held_update:
  assumes "schema_ok d" and "current \<in> set (t_payouts d)"
  shows "(\<Sum>x\<leftarrow>update_where (\<lambda>r. pot_id r = pot_id current) (advance_row e n) (t_payouts d). hold p c (t_quotes d) x)
    = held p c d - hold p c (t_quotes d) current + hold p c (t_quotes d) (advance_row e n current)"
proof -
  have "distinct (map pot_id (t_payouts d))" using assms(1) by (simp add: schema_ok_def payouts_table_def)
  from sum_update_one [OF this assms(2)] show ?thesis by (simp add: held_def)
qed

lemma moved_quotes: "pot_quote_id ` set (update_where P (advance_row e n) t) = pot_quote_id ` set t"
  by (simp add: image_update_where advance_row_def)

lemma advance_open_conserves:
  assumes ok: "schema_ok d" and sok: "sandbox_ok d" and c: "current \<in> set (t_payouts d)"
    and "pot_status current \<noteq> ''failed''" and "n \<noteq> PotFailed"
    and d2: "d2 = d\<lparr>t_payouts := update_where (\<lambda>r. pot_id r = pot_id current) (advance_row e n) (t_payouts d)\<rparr>"
  shows "sandbox_ok d2 \<and> sandbox_total p c' d2 = sandbox_total p c' d"
proof -
  have "payout_as_str n \<noteq> ''failed''" using assms(5) by (cases n) simp_all
  then have "hold p c' (t_quotes d) (advance_row e n current) = hold p c' (t_quotes d) current"
    using assms(4) by (simp add: hold_def advance_row_def)
  then have "held p c' d2 = held p c' d" using held_update [OF ok c] d2 by (simp add: held_def)
  moreover have "t_balances d2 = update_where (\<lambda>_. False) (\<lambda>b. b\<lparr>bal_minor := bal_minor b + 0\<rparr>) (t_balances d)"
    using d2 by (simp add: update_where_none)
  from sandbox_ok_add [OF sok _ this] have "sandbox_ok d2" using d2 moved_quotes by simp
  ultimately show ?thesis using d2 by (simp add: balance_of_def)
qed

lemma refunded_balances:
  assumes ok: "schema_ok d" and q: "q \<in> set (t_quotes d)"
    and refund: "refund_quote (qte_id q) (d\<lparr>t_payouts := update_where P (advance_row e n) (t_payouts d)\<rparr>) = Inr d2"
  shows "t_balances d2 = update_where (\<lambda>b. bal_project_id b = qte_project_id q \<and> bal_currency b = qte_source_currency q)
           (\<lambda>b. b\<lparr>bal_minor := bal_minor b + qte_source_minor q\<rparr>) (t_balances d)"
    and "t_payouts d2 = update_where P (advance_row e n) (t_payouts d)" and "t_quotes d2 = t_quotes d"
proof -
  let ?d1 = "d\<lparr>t_payouts := update_where P (advance_row e n) (t_payouts d)\<rparr>"
  have "schema_ok ?d1"
  proof (rule schema_table(5) [OF ok])
    show "payouts_table (project_ids d) (qte_id ` set (t_quotes d)) (update_where P (advance_row e n) (t_payouts d))"
      using ok by (intro payouts_table_update) (auto simp: schema_ok_def advance_row_def payout_fixed_def)
  qed
  then show "t_balances d2 = update_where (\<lambda>b. bal_project_id b = qte_project_id q \<and> bal_currency b = qte_source_currency q)
           (\<lambda>b. b\<lparr>bal_minor := bal_minor b + qte_source_minor q\<rparr>) (t_balances d)"
    and "t_payouts d2 = update_where P (advance_row e n) (t_payouts d)" and "t_quotes d2 = t_quotes d"
    using refund_effect [of ?d1 q d2] refund_quote_Inr(1) [of "qte_id q" ?d1 d2] refund q by auto
qed

lemma advance_failed_conserves:
  assumes ok: "schema_ok d" and sok: "sandbox_ok d" and c: "current \<in> set (t_payouts d)"
    and nf: "pot_status current \<noteq> ''failed''"
    and refund: "refund_quote (pot_quote_id current)
      (d\<lparr>t_payouts := update_where (\<lambda>r. pot_id r = pot_id current) (advance_row e PotFailed) (t_payouts d)\<rparr>) = Inr d2"
  shows "sandbox_ok d2 \<and> sandbox_total p c' d2 = sandbox_total p c' d"
proof -
  have "pot_quote_id current \<in> qte_id ` set (t_quotes d)"
    using ok c by (simp add: schema_ok_def payouts_table_def)
  then obtain q where q: "q \<in> set (t_quotes d)" "qte_id q = pot_quote_id current" by auto
  note d2 = refunded_balances [OF ok q(1) refund [folded q(2)]]
  have "hold p c' (t_quotes d) (advance_row e PotFailed current) = 0" by (simp add: hold_def advance_row_def)
  moreover have "hold p c' (t_quotes d) current
      = (if qte_project_id q = p \<and> qte_source_currency q = c' then qte_source_minor q else 0)"
    using nf q quote_amount_row [OF ok q(1)] by (simp add: hold_def)
  ultimately have held: "held p c' d2 = held p c' d
      - (if qte_project_id q = p \<and> qte_source_currency q = c' then qte_source_minor q else 0)"
    using held_update [OF ok c] d2 by (simp add: held_def)
  have hb: "has_balance (qte_project_id q) (qte_source_currency q) d" using sok c q by (auto simp: sandbox_ok_def)
  have "0 \<le> qte_source_minor q" using ok q(1) by (force simp: schema_ok_def quotes_table_def)
  then have "sandbox_ok d2" by (rule sandbox_ok_add [OF sok _ d2(1)]) (use d2 moved_quotes in simp_all)
  then show ?thesis using balance_of_add [OF ok hb d2(1), of p c'] held by auto
qed

lemma advance_conserves:
  assumes ok: "schema_ok d" and sok: "sandbox_ok d" and a: "advance_payout e i n d = Inr ((r, changed), d')"
  shows "sandbox_ok d' \<and> sandbox_total p c d' = sandbox_total p c d"
  using a
proof (cases rule: advance_payout_cases)
  case same
  then show ?thesis using sok by simp
next
  case (moved current fr d2 ev)
  have nf: "pot_status current \<noteq> ''failed''" using moved(4,5) by (cases fr) (auto simp: pot_text.parse_iff)
  have "sandbox_ok d2 \<and> sandbox_total p c d2 = sandbox_total p c d"
  proof (cases "n = PotFailed")
    case True
    then show ?thesis using advance_failed_conserves [OF ok sok moved(2) nf] moved(3,7)
      by (simp add: refund_if_failed_def)
  next
    case False
    then have "d2 = d\<lparr>t_payouts := update_where (\<lambda>r. pot_id r = pot_id current) (advance_row e n) (t_payouts d)\<rparr>"
      using moved(3,7) by (simp add: refund_if_failed_def)
    then show ?thesis by (rule advance_open_conserves [OF ok sok moved(2) nf False])
  qed
  then show ?thesis using emitted_sandbox [OF moved(8)] sandbox_cong [of d' d2] by simp
qed

section \<open>Properties\<close>

text \<open>The transactions that move simulated money between a balance and the payouts.\<close>

inductive sandbox_step :: "db \<Rightarrow> db \<Rightarrow> bool" where
  step_quote: "insert_quote e new d = Inr (r, d') \<Longrightarrow> sandbox_step d d'"
| step_reserve: "reserve_payout e p q k s b d = Inr (x, d') \<Longrightarrow> sandbox_step d d'"
| step_attach: "attach_payment_to_payout e i pid d = Inr (u, d') \<Longrightarrow> sandbox_step d d'"
| step_advance: "advance_payout e i n d = Inr (x, d') \<Longrightarrow> sandbox_step d d'"

lemma quote_conserves:
  assumes ok: "schema_ok d" and sok: "sandbox_ok d" and q: "insert_quote e new d = Inr (r, d')"
  shows "sandbox_ok d' \<and> sandbox_total p c d' = sandbox_total p c d"
proof -
  have r: "t_quotes d' = t_quotes d @ [r]" "t_payouts d' = t_payouts d" "t_balances d' = t_balances d"
      "qte_id r \<notin> qte_id ` set (t_quotes d)"
    using q by (auto simp: insert_quote_def fresh_id_def Let_def insert_row_def split: sum.splits if_splits)
  have fk: "pot_quote_id x \<in> qte_id ` set (t_quotes d)" if "x \<in> set (t_payouts d)" for x
    using ok that by (simp add: schema_ok_def payouts_table_def)
  have "quote_amount p c (t_quotes d') (pot_quote_id x) = quote_amount p c (t_quotes d) (pot_quote_id x)"
    if "x \<in> set (t_payouts d)" for x
    using fk [OF that] select_one_insert_row [of "\<lambda>q. qte_id q = pot_quote_id x" r "t_quotes d"]
    by (cases "select_one (\<lambda>q. qte_id q = pot_quote_id x) (t_quotes d)")
      (auto simp: quote_amount_def r(1) select_one_None insert_row_def)
  then have "held p c d' = held p c d" unfolding held_def r(2)
    by (intro arg_cong [where f = sum_list] map_cong) (simp_all add: hold_def)
  moreover have "sandbox_ok d'" using sok fk r by (auto simp: sandbox_ok_def has_balance_def)
  ultimately show ?thesis using r(3) by (simp add: balance_of_def)
qed

lemma attach_conserves:
  assumes sok: "sandbox_ok d" and a: "attach_payment_to_payout e i pid d = Inr (u, d')"
  shows "sandbox_ok d' \<and> sandbox_total p c d' = sandbox_total p c d"
proof -
  let ?f = "\<lambda>r :: payout_row. r\<lparr>pot_payment_id := Some pid, pot_updated_at := env_now e\<rparr>"
  have d': "d' = d\<lparr>t_payouts := update_where (\<lambda>r. pot_id r = i) ?f (t_payouts d)\<rparr>"
    using a by (auto simp: attach_payment_to_payout_def split: if_splits)
  have "map (hold p c (t_quotes d)) (update_where (\<lambda>r. pot_id r = i) ?f (t_payouts d))
      = map (hold p c (t_quotes d)) (t_payouts d)"
    by (rule map_update_where_same) (simp add: hold_def)
  then have "held p c d' = held p c d" by (simp add: d' held_def)
  moreover have "sandbox_ok d'" using sok by (auto simp: sandbox_ok_def d' has_balance_def set_update_where)
  ultimately show ?thesis by (simp add: d' balance_of_def)
qed

lemma sandbox_step_keeps:
  assumes "sandbox_step d d'" and "schema_ok d" and "sandbox_ok d"
  shows "schema_ok d' \<and> sandbox_ok d' \<and> sandbox_total p c d' = sandbox_total p c d"
  using assms
proof cases
  case (step_quote e new r)
  then show ?thesis using quote_conserves [OF assms(2,3)] insert_quote_op.op_schema [OF assms(2)] by blast
next
  case (step_reserve e pr q k s b x)
  then show ?thesis using reserve_conserves [OF assms(2,3)] reserve_op.op_schema [OF assms(2)]
    by (cases x) blast
next
  case (step_attach e i pid u)
  then show ?thesis using attach_conserves [OF assms(3)] attach_op.op_schema [OF assms(2)] by blast
next
  case (step_advance e i n x)
  then show ?thesis using advance_conserves [OF assms(2,3)] advance_op.op_schema [OF assms(2)]
    by (cases x) blast
qed

text \<open>
  C13. Simulated money is conserved: over any sequence of quotes, reservations, attached payments and
  payout transitions, the balance of a project in a currency plus what its unfailed payouts hold
  stays the same, and no balance is ever negative. So a failed payout is refunded exactly once.
\<close>

theorem sandbox_conservation:
  assumes "schema_ok d" and "sandbox_ok d" and "sandbox_step\<^sup>*\<^sup>* d d'"
  shows "sandbox_ok d' \<and> balance_of p c d' + held p c d' = balance_of p c d + held p c d
    \<and> 0 \<le> balance_of p c d'"
proof -
  from assms(3) have k: "schema_ok d' \<and> sandbox_ok d' \<and> sandbox_total p c d' = sandbox_total p c d"
  proof (induction rule: rtranclp_induct)
    case base
    then show ?case using assms(1,2) by simp
  next
    case (step y z)
    then show ?case using sandbox_step_keeps [OF step(2), of p c] by auto
  qed
  have "0 \<le> balance_of p c d'"
  proof (cases "select_one (\<lambda>b. bal_project_id b = p \<and> bal_currency b = c) (t_balances d')")
    case None
    then show ?thesis by (simp add: balance_of_def)
  next
    case (Some b)
    then show ?thesis using k select_one_Some [OF Some] by (auto simp: balance_of_def sandbox_ok_def)
  qed
  then show ?thesis using k by simp
qed

text \<open>
  C14. A quote is spent once and a key makes one payout: after a reservation, however the database
  evolves, the key with the same quote and scenario returns the stored payout, marked as not created,
  and changes nothing; the key with another quote or another scenario is refused as a mismatch; and the
  quote can not be reserved again under a key not used yet. The settlement invoice is not among the parameters
  compared: the key with another invoice, or with none, returns the stored payout too, which keeps the
  invoice of the first request, where the API documentation promises a conflict for a key reused with
  different parameters.
\<close>

theorem reserve_payout_once:
  assumes "schema_ok d" and "reserve_payout e p q k s b d = Inr ((r, True), d1)"
    and "schema_ok d2" and "evolves d1 d2" and "q' \<noteq> q \<or> s' \<noteq> s"
    and "\<forall>x \<in> set (t_payouts d2). \<not> (pot_project_id x = p \<and> pot_idempotency_key x = k')"
  shows "(\<exists>r2 \<in> set (t_payouts d2). payout_le r r2 \<and> pot_settlement_bolt11 r2 = b
            \<and> (\<forall>b'. reserve_payout e' p q k s b' d2 = Inr ((r2, False), d2)))
    \<and> (\<forall>b'. reserve_payout e' p q' k s' b' d2 = Inl SIdempotencyMismatch)
    \<and> (\<forall>s'' b'. reserve_payout e' p q k' s'' b' d2 = Inl (SIllegalTransition ''stale_quote'' ''reserved''))"
  using assms(2)
proof (cases rule: reserve_payout_cases)
  case (reserved quote c2 d3 ev)
  note i = insert_payout_Inr [OF reserved(9)]
  note em = emitted_sandbox [OF reserved(10)]
  have "r \<in> set (t_payouts d1)" using em i(1) by simp
  moreover have "grows payout_le (t_payouts d1) (t_payouts d2)" using assms(4) by (simp add: evolves_def)
  ultimately obtain r2 where r2: "r2 \<in> set (t_payouts d2)" "payout_le r r2"
    using grows_mem [of payout_le "t_payouts d1" "t_payouts d2"] by blast
  have cols: "pot_project_id r2 = p" "pot_idempotency_key r2 = k" "pot_quote_id r2 = q" "pot_scenario r2 = s"
      "pot_settlement_bolt11 r2 = b"
    using r2(2) i(9-13) by (simp_all add: payout_le_def payout_fixed_def)
  have sel: "select_one (\<lambda>x. pot_project_id x = p \<and> pot_idempotency_key x = k) (t_payouts d2) = Some r2"
    using assms(3) r2(1) cols by (intro select_one_only)
      (auto simp: schema_ok_def payouts_table_def
        dest: distinct_map_eq [of "\<lambda>r. (pot_project_id r, pot_idempotency_key r)"])
  have ok: "schema_ok (d\<lparr>t_quotes := use_quote q (t_quotes d)\<rparr>)"
    using use_quote_schema [OF assms(1) reserved(2,4,5)] by simp
  obtain t where c2: "c2 = d\<lparr>t_quotes := use_quote q (t_quotes d)\<rparr>\<lparr>t_balances := t\<rparr>"
    using upsert_schema [OF ok reserved(8) in_i64_neg_source [OF assms(1) reserved(2,7)]] by blast
  let ?used = "quote\<lparr>qte_status := ''used''\<rparr>"
  have "t_quotes d1 = use_quote q (t_quotes d)" using em i(1) c2 by simp
  then have "?used \<in> set (t_quotes d1)"
    using reserved(2,4) by (auto simp: use_quote_def set_update_where intro!: image_eqI [of _ _ quote])
  moreover have "grows quote_le (t_quotes d1) (t_quotes d2)" using assms(4) by (simp add: evolves_def)
  ultimately obtain q2 where "q2 \<in> set (t_quotes d2)" "quote_le ?used q2"
    using grows_mem [of quote_le "t_quotes d1" "t_quotes d2"] by blast
  then have used: "?used \<in> set (t_quotes d2)" by (auto simp: quote_le_def)
  have selq: "select_one (\<lambda>x. qte_project_id x = p \<and> qte_id x = q) (t_quotes d2) = Some ?used"
    using assms(3) used reserved(3,4) by (intro select_one_only)
      (auto simp: schema_ok_def quotes_table_def intro: distinct_map_eq)
  have none: "select_one (\<lambda>x. pot_project_id x = p \<and> pot_idempotency_key x = k') (t_payouts d2) = None"
    using assms(6) by (simp add: select_one_None)
  show ?thesis
    using r2 sel cols assms(5) none selq by (auto simp: reserve_payout_def intro!: bexI [of _ r2])
qed simp

text \<open>A funded project with a quote of 500.\<close>

definition sample_quote :: quote_row where
  "sample_quote = \<lparr>qte_id = ''qte_1'', qte_project_id = ''prj_a'', qte_source_currency = ''NGN'',
     qte_target_currency = ''KES'', qte_source_minor = 500, qte_target_minor = 40, qte_rate_ppm = 80000,
     qte_btc_amount_msat = 900, qte_status = ''open'', qte_expires_at = 5000, qte_created_at = 0\<rparr>"

definition sample_sandbox :: db where
  "sample_sandbox = sample_db\<lparr>t_quotes := [sample_quote],
     t_balances := [\<lparr>bal_project_id = ''prj_a'', bal_currency = ''NGN'', bal_minor = 1200\<rparr>]\<rparr>"

lemma sample_sandbox_ok: "schema_ok sample_sandbox" "sandbox_ok sample_sandbox"
  by (simp_all add: schema_ok_def table_defs sample_sandbox_def sample_quote_def sample_db_def empty_db_def
      keyed_invoices_def in_i64_def sandbox_ok_def)

lemma sample_reserve:
  "\<exists>r d1. reserve_payout sample_env ''prj_a'' ''qte_1'' ''k'' ''failure'' None sample_sandbox = Inr ((r, True), d1)
     \<and> balance_of ''prj_a'' ''NGN'' d1 = 700"
  by (simp add: reserve_payout_def sample_sandbox_def sample_quote_def sample_db_def empty_db_def
      select_one_def sample_env_def balance_of_def upsert_balance_def in_i64_def insert_payout_def
      fresh_id_def emit_def new_event_def outbox_rows_def update_where_def Let_def enumerate_eq_zip)

theorem sandbox_conservation_witness:
  "\<exists>r d1. reserve_payout sample_env ''prj_a'' ''qte_1'' ''k'' ''failure'' None sample_sandbox = Inr ((r, True), d1)
     \<and> held ''prj_a'' ''NGN'' d1 = 500"
proof -
  obtain r d1 where c: "reserve_payout sample_env ''prj_a'' ''qte_1'' ''k'' ''failure'' None sample_sandbox
      = Inr ((r, True), d1)" "balance_of ''prj_a'' ''NGN'' d1 = 700" using sample_reserve by blast
  have "sandbox_step\<^sup>*\<^sup>* sample_sandbox d1" using step_reserve [OF c(1)] by blast
  from sandbox_conservation [OF sample_sandbox_ok this, of "''prj_a''" "''NGN''"] c(2)
  have "held ''prj_a'' ''NGN'' d1 = balance_of ''prj_a'' ''NGN'' sample_sandbox
      + held ''prj_a'' ''NGN'' sample_sandbox - 700" by simp
  also have "\<dots> = 500"
    by (simp add: balance_of_def held_def sample_sandbox_def sample_db_def empty_db_def select_one_def)
  finally show ?thesis using c(1) by blast
qed

theorem reserve_payout_once_witness:
  "\<exists>r d1. reserve_payout sample_env ''prj_a'' ''qte_1'' ''k'' ''failure'' None sample_sandbox = Inr ((r, True), d1)
     \<and> reserve_payout sample_env ''prj_a'' ''qte_1'' ''k'' ''failure'' (Some ''lnbcrt1x'') d1 = Inr ((r, False), d1)
     \<and> pot_settlement_bolt11 r = None
     \<and> reserve_payout sample_env ''prj_a'' ''qte_1'' ''k'' ''success'' None d1 = Inl SIdempotencyMismatch
     \<and> reserve_payout sample_env ''prj_a'' ''qte_1'' ''k2'' ''failure'' None d1
       = Inl (SIllegalTransition ''stale_quote'' ''reserved'')"
proof -
  obtain r d1 where c: "reserve_payout sample_env ''prj_a'' ''qte_1'' ''k'' ''failure'' None sample_sandbox
      = Inr ((r, True), d1)" using sample_reserve by blast
  have ok: "schema_ok d1" using reserve_op.op_schema [OF sample_sandbox_ok(1) c] .
  from c have t: "t_payouts d1 = t_payouts sample_sandbox @ [r] \<and> pot_idempotency_key r = ''k''"
  proof (cases rule: reserve_payout_cases)
    case (reserved quote c2 d3 ev)
    have hb: "has_balance ''prj_a'' (qte_source_currency quote) (sample_sandbox\<lparr>t_quotes := use_quote ''qte_1'' (t_quotes sample_sandbox)\<rparr>)"
      using reserved(2) by (simp add: has_balance_def sample_sandbox_def sample_quote_def)
    show ?thesis using emitted_sandbox [OF reserved(10)] insert_payout_Inr(1,11) [OF reserved(9)]
        upsert_existing [OF hb reserved(8)] by (simp add: insert_row_def)
  qed simp
  then have "\<forall>x \<in> set (t_payouts d1). \<not> (pot_project_id x = ''prj_a'' \<and> pot_idempotency_key x = ''k2'')"
    by (auto simp: sample_sandbox_def sample_db_def empty_db_def)
  note once = reserve_payout_once [OF sample_sandbox_ok(1) c ok evolves_refl _ this, of "''qte_1''" "''success''" sample_env]
  then obtain r2 where r2: "r2 \<in> set (t_payouts d1)" "payout_le r r2" "pot_settlement_bolt11 r2 = None"
      "reserve_payout sample_env ''prj_a'' ''qte_1'' ''k'' ''failure'' (Some ''lnbcrt1x'') d1 = Inr ((r2, False), d1)"
    by auto
  moreover have "r2 = r" using r2(1) t by (auto simp: sample_sandbox_def sample_db_def empty_db_def)
  ultimately show ?thesis using once c by auto
qed

end
