(* ===== verification/Core_Webhook.thy ===== *)
theory Core_Webhook
  imports Core_Apikey
begin

text \<open>
  \<open>crates/safrod-core/src/webhook.rs\<close>: the signature header \<open>t=<seconds>,v1=<hex>\<close> and its
  verification. HMAC-SHA256 and the hex codec are arguments; \<open>i64\<close> arithmetic is that of a release
  build (it wraps).
\<close>

datatype verify_error = Malformed | Mismatch | Stale

definition mac :: "(string \<Rightarrow> string \<Rightarrow> u8 list) \<Rightarrow> string \<Rightarrow> int \<Rightarrow> string \<Rightarrow> u8 list" where
  "mac hmac secret timestamp body = hmac secret (int_text timestamp @ ''.'' @ body)"

definition sign ::
  "(string \<Rightarrow> string \<Rightarrow> u8 list) \<Rightarrow> (u8 list \<Rightarrow> string) \<Rightarrow> string \<Rightarrow> int \<Rightarrow> string \<Rightarrow> string" where
  "sign hmac enc secret timestamp body =
     ''t='' @ int_text timestamp @ '',v1='' @ enc (mac hmac secret timestamp body)"

text \<open>One iteration of the loop over the comma-separated parts: the two locals it updates.\<close>

definition header_part ::
  "(string \<Rightarrow> u8 list option) \<Rightarrow> string \<Rightarrow> int option \<times> u8 list list \<Rightarrow> int option \<times> u8 list list" where
  "header_part dec part st =
     (case split_once (CHR ''='') (trim part) of
        Some (k, v) \<Rightarrow>
          if k = ''t'' then (parse_signed 64 v, snd st)
          else if k = ''v1'' then
            (case dec v of Some bytes \<Rightarrow> (fst st, snd st @ [bytes]) | None \<Rightarrow> st)
          else st
      | None \<Rightarrow> st)"

definition header_parts :: "(string \<Rightarrow> u8 list option) \<Rightarrow> string \<Rightarrow> int option \<times> u8 list list" where
  "header_parts dec header = fold (header_part dec) (split_on (CHR '','') header) (None, [])"

definition verify ::
  "(string \<Rightarrow> string \<Rightarrow> u8 list) \<Rightarrow> (string \<Rightarrow> u8 list option) \<Rightarrow> string \<Rightarrow> string \<Rightarrow> string \<Rightarrow> int \<Rightarrow> int
   \<Rightarrow> verify_error + unit" where
  "verify hmac dec secret header body now tolerance_secs =
     (case header_parts dec header of
        (None, candidates) \<Rightarrow> Inl Malformed
      | (Some timestamp, candidates) \<Rightarrow>
          if candidates = [] then Inl Malformed
          else
            let expected = mac hmac secret timestamp body;
                ok = fold (\<lambda>c acc. acc \<or> c = expected) candidates False
            in if \<not> ok then Inl Mismatch
               else if wrap_i64 \<bar>wrap_i64 (now - timestamp)\<bar> > tolerance_secs then Inl Stale
               else Inr ())"

section \<open>Lemmas\<close>

lemma fold_ct_eq: "fold (\<lambda>c acc. acc \<or> c = e) cs b \<longleftrightarrow> b \<or> e \<in> set cs"
  by (induction cs arbitrary: b) auto

lemma verify_Inr:
  "verify hmac dec secret header body now tol = Inr () \<longleftrightarrow>
     (\<exists>t cs. header_parts dec header = (Some t, cs) \<and> mac hmac secret t body \<in> set cs
             \<and> wrap_i64 \<bar>wrap_i64 (now - t)\<bar> \<le> tol)"
  by (auto simp: verify_def Let_def fold_ct_eq split: prod.splits option.splits if_splits)

lemma parse_signed_range: "parse_signed 64 v = Some t \<Longrightarrow> in_i64 t"
proof (cases v)
  case Nil
  then show "parse_signed 64 v = Some t \<Longrightarrow> in_i64 t" by (simp add: parse_signed_def)
next
  case (Cons c cs)
  assume p: "parse_signed 64 v = Some t"
  show ?thesis
  proof (cases "c = CHR ''-''")
    case True
    with p Cons have "t = - int (digits_val 0 cs)" "digits_val 0 cs \<le> 2 ^ 63"
      by (auto simp: parse_signed_def split: if_splits)
    then show ?thesis by (simp add: in_i64_def)
  next
    case False
    with p Cons obtain n where "parse_unsigned (2 ^ 63) v = Some n" "t = int n"
      by (auto simp: parse_signed_def)
    then have "n < 2 ^ 63" by (auto simp: parse_unsigned_def Let_def split: if_splits)
    with \<open>t = int n\<close> show ?thesis by (simp add: in_i64_def)
  qed
qed

lemma header_parts_range: "header_parts dec header = (Some t, cs) \<Longrightarrow> in_i64 t"
proof -
  have "fold (header_part dec) ps st = (Some t, cs) \<Longrightarrow> (\<And>u. fst st = Some u \<Longrightarrow> in_i64 u) \<Longrightarrow> in_i64 t"
    for ps st
  proof (induction ps arbitrary: st)
    case Nil
    then show ?case by simp
  next
    case (Cons p ps)
    have "in_i64 u" if "fst (header_part dec p st) = Some u" for u
      using that Cons.prems(2)
      by (auto simp: header_part_def parse_signed_range split: option.splits if_splits)
    with Cons.IH [of "header_part dec p st"] Cons.prems(1) show ?case by simp
  qed
  then show "header_parts dec header = (Some t, cs) \<Longrightarrow> in_i64 t"
    unfolding header_parts_def by fastforce
qed

text \<open>The distance of two timestamps as \<open>(now - t).abs()\<close> computes it in 64 bits.\<close>

lemma wrapped_distance:
  assumes "in_i64 t" and "in_i64 now"
  shows "wrap_i64 \<bar>wrap_i64 (now - t)\<bar>
    = (if \<bar>now - t\<bar> < 2 ^ 63 then \<bar>now - t\<bar> else if \<bar>now - t\<bar> = 2 ^ 63 then - (2 ^ 63) else 2 ^ 64 - \<bar>now - t\<bar>)"
proof -
  let ?x = "now - t"
  have r: "- (2 ^ 64) < ?x" "?x < 2 ^ 64" using assms by (simp_all add: in_i64_def)
  have w: "wrap_i64 ?x = (if ?x < - (2 ^ 63) then ?x + 2 ^ 64 else if 2 ^ 63 \<le> ?x then ?x - 2 ^ 64 else ?x)"
  proof (cases "in_i64 ?x")
    case True
    then show ?thesis by (simp add: wrap_i64_id in_i64_def)
  next
    case False
    have "wrap_i64 ?x = wrap_i64 (?x - 2 ^ 64)" "wrap_i64 ?x = wrap_i64 (?x + 2 ^ 64)"
      using minus_mod_self2 [of "?x + 2 ^ 63" "2 ^ 64"] mod_add_self2 [of "?x + 2 ^ 63" "2 ^ 64"]
      by (simp_all add: wrap_i64_def algebra_simps)
    moreover have "in_i64 (?x - 2 ^ 64)" if "2 ^ 63 \<le> ?x" using that r by (simp add: in_i64_def)
    moreover have "in_i64 (?x + 2 ^ 64)" if "?x < - (2 ^ 63)" using that r by (simp add: in_i64_def)
    ultimately show ?thesis using False by (auto simp: wrap_i64_id in_i64_def)
  qed
  show ?thesis
  proof (cases "\<bar>?x\<bar> = 2 ^ 63")
    case True
    then have "\<bar>wrap_i64 ?x\<bar> = 2 ^ 63" unfolding w by auto
    then show ?thesis using True by (simp add: wrap_i64_def)
  next
    case False
    then have "\<bar>wrap_i64 ?x\<bar> = (if \<bar>?x\<bar> < 2 ^ 63 then \<bar>?x\<bar> else 2 ^ 64 - \<bar>?x\<bar>)"
      unfolding w using r by auto
    moreover have "in_i64 (if \<bar>?x\<bar> < 2 ^ 63 then \<bar>?x\<bar> else 2 ^ 64 - \<bar>?x\<bar>)"
      using False r by (auto simp: in_i64_def)
    ultimately show ?thesis using False by (simp add: wrap_i64_id)
  qed
qed

lemma sign_parts:
  assumes "hex_codec enc dec" and "in_i64 t"
  shows "header_parts dec (sign hmac enc secret t body) = (Some t, [mac hmac secret t body])"
proof -
  let ?m = "mac hmac secret t body"
  have c1: "CHR '','' \<notin> set (''t='' @ int_text t)" and c2: "CHR '','' \<notin> set (''v1='' @ enc ?m)"
    using int_text_chars [of "CHR '',''" t] hex_codec.enc_plain [OF assms(1), of "CHR '',''"]
    by (auto simp: is_ascii_digit_def code_def)
  have "split_on (CHR '','') (sign hmac enc secret t body) = [''t='' @ int_text t, ''v1='' @ enc ?m]"
    using split_on_append [OF c1, of "''v1='' @ enc ?m"] split_on_single [OF c2]
    by (simp add: sign_def)
  moreover have "trim (''t='' @ int_text t) = ''t='' @ int_text t"
    using int_text_graphic [of t] by (intro trim_graphic) (simp add: graphic_def code_def)
  moreover have "trim (''v1='' @ enc ?m) = ''v1='' @ enc ?m"
    using hex_codec.enc_plain [OF assms(1)]
    by (intro trim_graphic) (auto simp: list_all_iff, simp_all add: graphic_def code_def)
  moreover have "parse_signed 64 (int_text t) = Some t"
    using assms(2) by (intro parse_signed_int_text) (simp_all add: in_i64_def)
  ultimately show ?thesis
    by (simp add: header_parts_def header_part_def hex_codec.dec_enc [OF assms(1)])
qed

section \<open>Properties\<close>

text \<open>
  C19. What \<open>sign\<close> writes, \<open>verify\<close> accepts with the same secret and body whenever the receiver's
  clock is within the tolerance, whatever the MAC function and hex codec are.
\<close>

theorem signature_verifies:
  assumes "hex_codec enc dec" and "in_i64 t" and "in_i64 (now - t)" and "\<bar>now - t\<bar> \<le> tol"
    and "now - t \<noteq> - (2 ^ 63)"
  shows "verify hmac dec secret (sign hmac enc secret t body) body now tol = Inr ()"
proof -
  have "in_i64 \<bar>now - t\<bar>" using assms(3,5) by (auto simp: in_i64_def)
  then have "wrap_i64 \<bar>wrap_i64 (now - t)\<bar> \<le> tol" using assms(3,4) by (simp add: wrap_i64_id)
  with sign_parts [OF assms(1,2)] show ?thesis by (simp add: verify_Inr)
qed

theorem signature_verifies_witness:
  "verify (\<lambda>k m. map (of_nat \<circ> code) (k @ m)) hex_bytes ''whsec_test''
     (sign (\<lambda>k m. map (of_nat \<circ> code) (k @ m)) bytes_hex ''whsec_test'' 1000 ''x'') ''x'' 1010 300
   = Inr ()"
  by (rule signature_verifies [OF plain_hex.hex_codec_axioms]) (simp_all add: in_i64_def)

text \<open>
  C20. \<open>verify\<close> decides exactly this, for a header with a timestamp and a MAC, and any clock and
  tolerance that are \<open>i64\<close> values: a header none of whose MACs is the one of its timestamp and body
  under the secret is a mismatch, however old it is; otherwise it is accepted when the distance of the
  timestamp from the clock is within the tolerance, as long as that distance fits into 63 bits. Where it
  does not, the subtraction and the absolute value wrap around: a distance of exactly 2^63 passes every
  tolerance and a longer one is measured as 2^64 less the distance. For a clock between 0 and 2^62 and a
  tolerance below 2^62 the timestamp at distance 2^63 is the only one accepted outside the tolerance.
\<close>

theorem verify_sound:
  assumes "in_i64 now" and "in_i64 tol" and "header_parts dec header = (Some t, cs)" and "cs \<noteq> []"
  shows "(verify hmac dec secret header body now tol = Inr ()
            \<longleftrightarrow> mac hmac secret t body \<in> set cs
              \<and> (if \<bar>now - t\<bar> < 2 ^ 63 then \<bar>now - t\<bar> \<le> tol
                 else \<bar>now - t\<bar> = 2 ^ 63 \<or> 2 ^ 64 - \<bar>now - t\<bar> \<le> tol))
         \<and> (verify hmac dec secret header body now tol = Inl Mismatch
            \<longleftrightarrow> mac hmac secret t body \<notin> set cs)
         \<and> (0 \<le> now \<and> now < 2 ^ 62 \<and> tol < 2 ^ 62
            \<and> verify hmac dec secret header body now tol = Inr () \<longrightarrow> \<bar>now - t\<bar> \<le> tol \<or> now - t = 2 ^ 63)"
proof -
  have t: "in_i64 t" using assms(3) by (rule header_parts_range)
  have near: "wrap_i64 \<bar>wrap_i64 (now - t)\<bar> \<le> tol \<longleftrightarrow>
      (if \<bar>now - t\<bar> < 2 ^ 63 then \<bar>now - t\<bar> \<le> tol else \<bar>now - t\<bar> = 2 ^ 63 \<or> 2 ^ 64 - \<bar>now - t\<bar> \<le> tol)"
    using assms(2) unfolding wrapped_distance [OF t assms(1)] by (simp add: in_i64_def)
  have "verify hmac dec secret header body now tol = Inr () \<longleftrightarrow> mac hmac secret t body \<in> set cs
      \<and> wrap_i64 \<bar>wrap_i64 (now - t)\<bar> \<le> tol"
    using assms(3,4) by (auto simp: verify_Inr)
  moreover have "verify hmac dec secret header body now tol = Inl Mismatch \<longleftrightarrow> mac hmac secret t body \<notin> set cs"
    using assms(3,4) by (auto simp: verify_def Let_def fold_ct_eq split: if_splits)
  moreover have "\<bar>now - t\<bar> \<le> tol \<or> now - t = 2 ^ 63"
    if "if \<bar>now - t\<bar> < 2 ^ 63 then \<bar>now - t\<bar> \<le> tol else \<bar>now - t\<bar> = 2 ^ 63 \<or> 2 ^ 64 - \<bar>now - t\<bar> \<le> tol"
      "0 \<le> now" "now < 2 ^ 62" "tol < 2 ^ 62"
    using that t by (auto simp: in_i64_def split: if_splits)
  ultimately show ?thesis using near by blast
qed

text \<open>
  A wrong MAC; and with the largest tolerance a timestamp 2^63 + 999 seconds away, which is accepted.
\<close>

theorem verify_sound_witness:
  "verify (\<lambda>k m. [7]) hex_bytes ''k'' ''t=1000,v1=08'' ''x'' 1000 300 = Inl Mismatch
   \<and> verify (\<lambda>k m. [8]) hex_bytes ''k'' ''t=-9223372036854775807,v1=08'' ''x'' 1000 (2 ^ 63 - 1) = Inr ()"
proof -
  have t: "trim ''t=1000'' = ''t=1000''" "trim ''v1=08'' = ''v1=08''"
      "trim ''t=-9223372036854775807'' = ''t=-9223372036854775807''"
    by (rule trim_graphic, simp add: graphic_def code_def)+
  have h: "header_parts hex_bytes ''t=1000,v1=08'' = (Some 1000, [[8]])"
    "header_parts hex_bytes ''t=-9223372036854775807,v1=08'' = (Some (- 9223372036854775807), [[8]])"
    by (simp_all add: header_parts_def header_part_def t parse_signed_def parse_unsigned_def
        is_ascii_digit_def digit_val_def code_def hex_val_def)
  show ?thesis using verify_sound [OF _ _ h(1), of 1000 300 "\<lambda>k m. [7]" "''k''" "''x''"]
      verify_sound [OF _ _ h(2), of 1000 "2 ^ 63 - 1" "\<lambda>k m. [8]" "''k''" "''x''"]
    by (simp add: mac_def in_i64_def)
qed

end
