(* ===== verification/Url_Guard.thy ===== *)
theory Url_Guard
  imports Safrod_Prelude "HOL-Library.Monad_Syntax"
begin

text \<open>
  The guard on webhook destinations (safrod-webhooks/src/url_guard.rs). The parts of \<open>std::net\<close> it
  uses are modelled: the address types with their classification methods and the parser behind
  \<open>str::parse::<IpAddr>\<close>. The \<open>url\<close> crate's parser and name resolution are parameters:
  \<open>url_parse\<close> gives the components the code reads from a parsed \<open>Url\<close>, and \<open>lookup\<close> the addresses
  \<open>lookup_host\<close> returns, \<open>None\<close> being an error.
\<close>

unbundle bit_operations_syntax

section \<open>std::net addresses\<close>

datatype ipv4 = Ipv4 u8 u8 u8 u8

datatype ipv6 = Ipv6 u16 u16 u16 u16 u16 u16 u16 u16

datatype ip_addr = V4 ipv4 | V6 ipv6

record sock_addr =
  sa_ip :: ip_addr
  sa_port :: u16

fun v4_is_unspecified :: "ipv4 \<Rightarrow> bool" where
  "v4_is_unspecified (Ipv4 a b c d) \<longleftrightarrow> a = 0 \<and> b = 0 \<and> c = 0 \<and> d = 0"

fun v4_is_loopback :: "ipv4 \<Rightarrow> bool" where
  "v4_is_loopback (Ipv4 a b c d) \<longleftrightarrow> a = 127"

fun v4_is_private :: "ipv4 \<Rightarrow> bool" where
  "v4_is_private (Ipv4 a b c d) \<longleftrightarrow>
     a = 10 \<or> (a = 172 \<and> 16 \<le> b \<and> b \<le> 31) \<or> (a = 192 \<and> b = 168)"

fun v4_is_link_local :: "ipv4 \<Rightarrow> bool" where
  "v4_is_link_local (Ipv4 a b c d) \<longleftrightarrow> a = 169 \<and> b = 254"

fun v4_is_broadcast :: "ipv4 \<Rightarrow> bool" where
  "v4_is_broadcast (Ipv4 a b c d) \<longleftrightarrow> a = 255 \<and> b = 255 \<and> c = 255 \<and> d = 255"

fun v4_is_multicast :: "ipv4 \<Rightarrow> bool" where
  "v4_is_multicast (Ipv4 a b c d) \<longleftrightarrow> 224 \<le> a \<and> a \<le> 239"

fun v4_is_documentation :: "ipv4 \<Rightarrow> bool" where
  "v4_is_documentation (Ipv4 a b c d) \<longleftrightarrow>
     (a = 192 \<and> b = 0 \<and> c = 2) \<or> (a = 198 \<and> b = 51 \<and> c = 100) \<or> (a = 203 \<and> b = 0 \<and> c = 113)"

fun to_ipv4_mapped :: "ipv6 \<Rightarrow> ipv4 option" where
  "to_ipv4_mapped (Ipv6 s0 s1 s2 s3 s4 s5 s6 s7) =
     (if s0 = 0 \<and> s1 = 0 \<and> s2 = 0 \<and> s3 = 0 \<and> s4 = 0 \<and> s5 = 0xffff
      then Some (Ipv4 (ucast (drop_bit 8 s6)) (ucast s6) (ucast (drop_bit 8 s7)) (ucast s7))
      else None)"

fun v6_segments :: "ipv6 \<Rightarrow> u16 list" where
  "v6_segments (Ipv6 s0 s1 s2 s3 s4 s5 s6 s7) = [s0, s1, s2, s3, s4, s5, s6, s7]"

fun v6_is_unspecified :: "ipv6 \<Rightarrow> bool" where
  "v6_is_unspecified (Ipv6 s0 s1 s2 s3 s4 s5 s6 s7) \<longleftrightarrow>
     s0 = 0 \<and> s1 = 0 \<and> s2 = 0 \<and> s3 = 0 \<and> s4 = 0 \<and> s5 = 0 \<and> s6 = 0 \<and> s7 = 0"

fun v6_is_loopback :: "ipv6 \<Rightarrow> bool" where
  "v6_is_loopback (Ipv6 s0 s1 s2 s3 s4 s5 s6 s7) \<longleftrightarrow>
     s0 = 0 \<and> s1 = 0 \<and> s2 = 0 \<and> s3 = 0 \<and> s4 = 0 \<and> s5 = 0 \<and> s6 = 0 \<and> s7 = 1"

fun v6_is_multicast :: "ipv6 \<Rightarrow> bool" where
  "v6_is_multicast (Ipv6 s0 s1 s2 s3 s4 s5 s6 s7) \<longleftrightarrow> s0 AND 0xff00 = 0xff00"

section \<open>The parser of std::net\<close>

text \<open>
  A reader takes the text that is left and gives a value with the rest, or \<open>None\<close>; the caller keeps
  its own copy of the text, which is the rollback of \<open>read_atomically\<close>.
\<close>

definition to_digit :: "nat \<Rightarrow> char \<Rightarrow> nat option" where
  "to_digit radix c = (case hex_val c of Some k \<Rightarrow> if k < radix then Some k else None | None \<Rightarrow> None)"

fun read_digits :: "nat \<Rightarrow> nat \<Rightarrow> nat \<Rightarrow> nat \<Rightarrow> nat \<Rightarrow> string \<Rightarrow> (nat \<times> nat \<times> string) option" where
  "read_digits radix max_digits bound n acc [] = Some (n, acc, [])"
| "read_digits radix max_digits bound n acc (c # cs) =
     (case to_digit radix c of
        None \<Rightarrow> Some (n, acc, c # cs)
      | Some k \<Rightarrow>
          if bound \<le> acc * radix + k \<or> max_digits < n + 1 then None
          else read_digits radix max_digits bound (n + 1) (acc * radix + k) cs)"

definition read_number :: "nat \<Rightarrow> nat \<Rightarrow> bool \<Rightarrow> nat \<Rightarrow> string \<Rightarrow> (nat \<times> string) option" where
  "read_number radix max_digits allow_zero_prefix bound s =
     (case read_digits radix max_digits bound 0 0 s of
        None \<Rightarrow> None
      | Some (n, v, rest) \<Rightarrow>
          if n = 0 then None
          else if \<not> allow_zero_prefix \<and> starts_with s ''0'' \<and> 1 < n then None
          else Some (v, rest))"

definition read_separator :: "char \<Rightarrow> nat \<Rightarrow> (string \<Rightarrow> ('a \<times> string) option) \<Rightarrow> string \<Rightarrow> ('a \<times> string) option" where
  "read_separator sep i inner s =
     (if i > 0 then (case s of c # cs \<Rightarrow> if c = sep then inner cs else None | [] \<Rightarrow> None) else inner s)"

definition read_octet :: "nat \<Rightarrow> string \<Rightarrow> (nat \<times> string) option" where
  "read_octet i s = read_separator CHR ''.'' i (read_number 10 3 False 256) s"

definition read_ipv4_addr :: "string \<Rightarrow> (ipv4 \<times> string) option" where
  "read_ipv4_addr s = do {
     (a, s1) \<leftarrow> read_octet 0 s;
     (b, s2) \<leftarrow> read_octet 1 s1;
     (c, s3) \<leftarrow> read_octet 2 s2;
     (d, s4) \<leftarrow> read_octet 3 s3;
     Some (Ipv4 (of_nat a) (of_nat b) (of_nat c) (of_nat d), s4)
   }"

text \<open>
  \<open>read_groups i n s\<close> reads the groups \<open>i\<close>, \<open>i + 1\<close>, \<dots> while \<open>n\<close> places are left; the flag says that
  the last two came from an embedded IPv4 address, which needs two places.
\<close>

fun read_groups :: "nat \<Rightarrow> nat \<Rightarrow> string \<Rightarrow> u16 list \<times> bool \<times> string" where
  "read_groups i 0 s = ([], False, s)"
| "read_groups i (Suc n) s =
     (case (if 0 < n then read_separator CHR '':'' i read_ipv4_addr s else None) of
        Some (Ipv4 a b c d, rest) \<Rightarrow>
          ([push_bit 8 (ucast a) OR ucast b, push_bit 8 (ucast c) OR ucast d], True, rest)
      | None \<Rightarrow>
          (case read_separator CHR '':'' i (read_number 16 4 True 65536) s of
             None \<Rightarrow> ([], False, s)
           | Some (g, rest) \<Rightarrow>
               (let (gs, v4, rest') = read_groups (i + 1) n rest in (of_nat g # gs, v4, rest'))))"

fun ipv6_of :: "u16 list \<Rightarrow> ipv6 option" where
  "ipv6_of [s0, s1, s2, s3, s4, s5, s6, s7] = Some (Ipv6 s0 s1 s2 s3 s4 s5 s6 s7)"
| "ipv6_of _ = None"

definition read_ipv6_addr :: "string \<Rightarrow> (ipv6 \<times> string) option" where
  "read_ipv6_addr s =
     (let (head, head_ipv4, s1) = read_groups 0 8 s
      in if length head = 8 then map_option (\<lambda>a. (a, s1)) (ipv6_of head)
         else if head_ipv4 then None
         else if starts_with s1 ''::'' then
           (let (tail, _, s2) = read_groups 0 (8 - (length head + 1)) (drop 2 s1)
            in map_option (\<lambda>a. (a, s2))
                 (ipv6_of (head @ replicate (8 - length head - length tail) 0 @ tail)))
         else None)"

definition parse_ip :: "string \<Rightarrow> ip_addr option" where
  "parse_ip s =
     (case (case read_ipv4_addr s of
              Some (a, rest) \<Rightarrow> Some (V4 a, rest)
            | None \<Rightarrow> map_option (\<lambda>(a, rest). (V6 a, rest)) (read_ipv6_addr s)) of
        Some (a, rest) \<Rightarrow> if rest = [] then Some a else None
      | None \<Rightarrow> None)"

section \<open>url_guard.rs\<close>

datatype guard_error = GInvalid | GInsecureScheme | GCredentials | GNotPublic | GUnresolvable

fun is_public_v4 :: "ipv4 \<Rightarrow> bool" where
  "is_public_v4 (Ipv4 a b c d) \<longleftrightarrow>
     (let ip = Ipv4 a b c d
      in \<not> (v4_is_unspecified ip \<or> v4_is_loopback ip \<or> v4_is_private ip \<or> v4_is_link_local ip
            \<or> v4_is_broadcast ip \<or> v4_is_multicast ip \<or> v4_is_documentation ip
            \<or> a = 0
            \<or> (a = 100 \<and> (64 \<le> b \<and> b < 128))
            \<or> (a = 192 \<and> b = 0 \<and> c = 0)
            \<or> (a = 198 \<and> (b = 18 \<or> b = 19))
            \<or> 240 \<le> a))"

definition is_public_v6 :: "ipv6 \<Rightarrow> bool" where
  "is_public_v6 ip =
     (case to_ipv4_mapped ip of
        Some v4 \<Rightarrow> is_public_v4 v4
      | None \<Rightarrow>
          (let first = v6_segments ip ! 0
           in \<not> (v6_is_unspecified ip \<or> v6_is_loopback ip \<or> v6_is_multicast ip
                 \<or> first AND 0xfe00 = 0xfc00
                 \<or> first AND 0xffc0 = 0xfe80
                 \<or> (first = 0x2001 \<and> v6_segments ip ! 1 = 0x0db8))))"

fun is_public_ip :: "ip_addr \<Rightarrow> bool" where
  "is_public_ip (V4 v4) = is_public_v4 v4"
| "is_public_ip (V6 v6) = is_public_v6 v6"

text \<open>What the code reads from a parsed \<open>Url\<close>.\<close>

record url =
  url_scheme :: string
  url_username :: string
  url_password :: "string option"
  url_host_str :: "string option"
  url_port_or_known_default :: "u16 option"

definition is_bracket :: "char \<Rightarrow> bool" where
  "is_bracket c \<longleftrightarrow> c = CHR ''['' \<or> c = CHR '']''"

definition trim_brackets :: "string \<Rightarrow> string" where
  "trim_brackets s = rev (dropWhile is_bracket (rev (dropWhile is_bracket s)))"

definition check_host :: "bool \<Rightarrow> url \<Rightarrow> guard_error + url" where
  "check_host allow_private url =
     (case url_host_str url of
        None \<Rightarrow> Inl GInvalid
      | Some host \<Rightarrow>
          if \<not> allow_private \<and> to_ascii_lowercase host = to_ascii_lowercase ''localhost'' then Inl GNotPublic
          else if \<not> allow_private
                  \<and> (case parse_ip (trim_brackets host) of Some ip \<Rightarrow> \<not> is_public_ip ip | None \<Rightarrow> False)
          then Inl GNotPublic
          else Inr url)"

definition validate_url :: "(string \<Rightarrow> url option) \<Rightarrow> string \<Rightarrow> bool \<Rightarrow> guard_error + url" where
  "validate_url url_parse raw allow_private =
     (case url_parse raw of
        None \<Rightarrow> Inl GInvalid
      | Some url \<Rightarrow>
          if url_username url \<noteq> [] \<or> url_password url \<noteq> None then Inl GCredentials
          else if url_scheme url = ''https'' then check_host allow_private url
          else if url_scheme url = ''http''
          then (if allow_private then check_host allow_private url else Inl GInsecureScheme)
          else Inl GInvalid)"

definition resolve_checked ::
  "(string \<Rightarrow> u16 \<Rightarrow> sock_addr list option) \<Rightarrow> url \<Rightarrow> bool \<Rightarrow> guard_error + sock_addr" where
  "resolve_checked lookup url allow_private =
     (case url_host_str url of
        None \<Rightarrow> Inl GInvalid
      | Some host \<Rightarrow>
          (case url_port_or_known_default url of
             None \<Rightarrow> Inl GInvalid
           | Some port \<Rightarrow>
               (case lookup (trim_brackets host) port of
                  None \<Rightarrow> Inl GUnresolvable
                | Some addrs \<Rightarrow>
                    (case addrs of
                       [] \<Rightarrow> Inl GUnresolvable
                     | addr # _ \<Rightarrow>
                         if \<not> allow_private \<and> (\<exists>a \<in> set addrs. \<not> is_public_ip (sa_ip a))
                         then Inl GNotPublic
                         else Inr addr))))"

section \<open>The reserved address blocks\<close>

text \<open>
  The reference: an address as one number, most significant part first, and the blocks of special
  purpose addresses in CIDR form (first address, prefix length).
\<close>

fun v4_value :: "ipv4 \<Rightarrow> nat" where
  "v4_value (Ipv4 a b c d) = ((unat a * 256 + unat b) * 256 + unat c) * 256 + unat d"

fun v6_value :: "ipv6 \<Rightarrow> nat" where
  "v6_value (Ipv6 s0 s1 s2 s3 s4 s5 s6 s7) =
     ((((((unat s0 * 65536 + unat s1) * 65536 + unat s2) * 65536 + unat s3) * 65536 + unat s4) * 65536
        + unat s5) * 65536 + unat s6) * 65536 + unat s7"

definition in_block :: "nat \<Rightarrow> nat \<Rightarrow> nat \<times> nat \<Rightarrow> bool" where
  "in_block width v block \<longleftrightarrow>
     v div 2 ^ (width - snd block) = fst block div 2 ^ (width - snd block)"

definition v4_blocks :: "(nat \<times> nat) list" where
  "v4_blocks = map (\<lambda>(a, b, c, d, len). (v4_value (Ipv4 a b c d), len))
     [(0, 0, 0, 0, 8), (10, 0, 0, 0, 8), (100, 64, 0, 0, 10), (127, 0, 0, 0, 8), (169, 254, 0, 0, 16),
      (172, 16, 0, 0, 12), (192, 0, 0, 0, 24), (192, 0, 2, 0, 24), (192, 168, 0, 0, 16),
      (198, 18, 0, 0, 15), (198, 51, 100, 0, 24), (203, 0, 113, 0, 24), (224, 0, 0, 0, 4),
      (240, 0, 0, 0, 4)]"

definition v6_blocks :: "(nat \<times> nat) list" where
  "v6_blocks =
     [(0, 128), (1, 128), (v6_value (Ipv6 0xfc00 0 0 0 0 0 0 0), 7), (v6_value (Ipv6 0xfe80 0 0 0 0 0 0 0), 10),
      (v6_value (Ipv6 0xff00 0 0 0 0 0 0 0), 8), (v6_value (Ipv6 0x2001 0x0db8 0 0 0 0 0 0), 32)]"

fun special_use :: "ip_addr \<Rightarrow> bool" where
  "special_use (V4 ip) \<longleftrightarrow> list_ex (in_block 32 (v4_value ip)) v4_blocks"
| "special_use (V6 ip) \<longleftrightarrow>
     (if in_block 128 (v6_value ip) (v6_value (Ipv6 0 0 0 0 0 0xffff 0 0), 96)
      then list_ex (in_block 32 (v6_value ip mod 2 ^ 32)) v4_blocks
      else list_ex (in_block 128 (v6_value ip)) v6_blocks)"

lemma unat_u8_bound: "unat (a :: u8) < 256"
  using unsigned_less [of a, where 'a = nat] by simp

lemma unat_u16_bound: "unat (a :: u16) < 65536"
  using unsigned_less [of a, where 'a = nat] by simp

lemma octets_div:
  fixes a b c d :: nat
  assumes "b < 256" and "c < 256" and "d < 256"
  defines "v \<equiv> ((a * 256 + b) * 256 + c) * 256 + d"
  shows "v div 256 = (a * 256 + b) * 256 + c" "v div 65536 = a * 256 + b" "v div 16777216 = a"
    "v div 4194304 = (a * 256 + b) div 64" "v div 1048576 = (a * 256 + b) div 16"
    "v div 131072 = (a * 256 + b) div 2" "v div 268435456 = a div 16"
proof -
  show 1: "v div 256 = (a * 256 + b) * 256 + c" using assms by simp
  have "v div 65536 = v div 256 div 256" by (simp flip: div_mult2_eq)
  then show 2: "v div 65536 = a * 256 + b" using 1 assms by simp
  have "v div 16777216 = v div 65536 div 256" by (simp flip: div_mult2_eq)
  then show 3: "v div 16777216 = a" using 2 assms by simp
  show "v div 4194304 = (a * 256 + b) div 64" "v div 1048576 = (a * 256 + b) div 16"
    "v div 131072 = (a * 256 + b) div 2" using 2 by (simp_all flip: 2 div_mult2_eq)
  show "v div 268435456 = a div 16" using 3 by (simp flip: 3 div_mult2_eq)
qed

text \<open>The leading octets of an address against those of a block.\<close>

lemma pair_eq: "b < m \<Longrightarrow> B < m \<Longrightarrow> a * m + b = A * m + B \<longleftrightarrow> a = A \<and> b = B" for a b :: nat
  by (metis add_diff_cancel_left' add_left_imp_eq div_mult_self3 div_less add_0_right less_nat_zero_code not_gr_zero)

lemma pair_div: "(a * (m * k) + b) div k = a * m + b div k" if "0 < k" for a b :: nat
  using that by (simp flip: mult.assoc)

lemma octets_block:
  assumes b: "b < 256" and c: "c < (256 :: nat)"
  shows "a * 256 + b = 43518 \<longleftrightarrow> a = 169 \<and> b = 254" "a * 256 + b = 49320 \<longleftrightarrow> a = 192 \<and> b = 168"
    "(a * 256 + b) div 64 = 401 \<longleftrightarrow> a = 100 \<and> 64 \<le> b \<and> b < 128"
    "(a * 256 + b) div 16 = 2753 \<longleftrightarrow> a = 172 \<and> 16 \<le> b \<and> b \<le> 31"
    "(a * 256 + b) div 2 = 25353 \<longleftrightarrow> a = 198 \<and> (b = 18 \<or> b = 19)"
    "(a * 256 + b) * 256 + c = 12582912 \<longleftrightarrow> a = 192 \<and> b = 0 \<and> c = 0"
    "(a * 256 + b) * 256 + c = 12582914 \<longleftrightarrow> a = 192 \<and> b = 0 \<and> c = 2"
    "(a * 256 + b) * 256 + c = 12989284 \<longleftrightarrow> a = 198 \<and> b = 51 \<and> c = 100"
    "(a * 256 + b) * 256 + c = 13303921 \<longleftrightarrow> a = 203 \<and> b = 0 \<and> c = 113"
    "a div 16 = 14 \<longleftrightarrow> 224 \<le> a \<and> a \<le> 239"
proof -
  note e = pair_eq [OF b, of _ a] pair_eq [OF c, of _ "a * 256 + b"]
  show "a * 256 + b = 43518 \<longleftrightarrow> a = 169 \<and> b = 254" using e(1) [of 254 169] by simp
  show "a * 256 + b = 49320 \<longleftrightarrow> a = 192 \<and> b = 168" using e(1) [of 168 192] by simp
  have l: "b div 64 < 4" "b div 16 < 16" "b div 2 < 128" using b by simp_all
  have r: "b div 64 = 1 \<longleftrightarrow> 64 \<le> b \<and> b < 128" "b div 16 = 1 \<longleftrightarrow> 16 \<le> b \<and> b \<le> 31"
    "b div 2 = 9 \<longleftrightarrow> b = 18 \<or> b = 19" by auto
  show "(a * 256 + b) div 64 = 401 \<longleftrightarrow> a = 100 \<and> 64 \<le> b \<and> b < 128"
    using pair_div [of 64 a 4 b] pair_eq [OF l(1), of 1 a 100] r(1) by simp
  show "(a * 256 + b) div 16 = 2753 \<longleftrightarrow> a = 172 \<and> 16 \<le> b \<and> b \<le> 31"
    using pair_div [of 16 a 16 b] pair_eq [OF l(2), of 1 a 172] r(2) by simp
  show "(a * 256 + b) div 2 = 25353 \<longleftrightarrow> a = 198 \<and> (b = 18 \<or> b = 19)"
    using pair_div [of 2 a 128 b] pair_eq [OF l(3), of 9 a 198] r(3) by simp
  have z: "a * 256 + b = 49152 \<longleftrightarrow> a = 192 \<and> b = 0" "a * 256 + b = 50739 \<longleftrightarrow> a = 198 \<and> b = 51"
    "a * 256 + b = 51968 \<longleftrightarrow> a = 203 \<and> b = 0" using e(1) [of 0 192] e(1) [of 51 198] e(1) [of 0 203] by simp_all
  show "(a * 256 + b) * 256 + c = 12582912 \<longleftrightarrow> a = 192 \<and> b = 0 \<and> c = 0"
    "(a * 256 + b) * 256 + c = 12582914 \<longleftrightarrow> a = 192 \<and> b = 0 \<and> c = 2"
    "(a * 256 + b) * 256 + c = 12989284 \<longleftrightarrow> a = 198 \<and> b = 51 \<and> c = 100"
    "(a * 256 + b) * 256 + c = 13303921 \<longleftrightarrow> a = 203 \<and> b = 0 \<and> c = 113"
    using e(2) [of 0 49152] e(2) [of 2 49152] e(2) [of 100 50739] e(2) [of 113 51968] z by auto
  show "a div 16 = 14 \<longleftrightarrow> 224 \<le> a \<and> a \<le> 239" by auto
qed

lemmas u8_cmp = word_unat_eq_iff [where 'a = 8] word_le_nat_alt [where 'a = 8] word_less_nat_alt [where 'a = 8]

lemma v4_blocks_octets: "list_ex (in_block 32 (v4_value ip)) v4_blocks \<longleftrightarrow> \<not> is_public_v4 ip"
proof (cases ip)
  case (Ipv4 a b c d)
  define v where "v = v4_value ip"
  have v: "v = ((unat a * 256 + unat b) * 256 + unat c) * 256 + unat d" by (simp add: v_def Ipv4)
  note u = unat_u8_bound [of b] unat_u8_bound [of c] unat_u8_bound [of d]
  note rules = octets_div [OF u, of "unat a", folded v] and blocks = octets_block [OF u(1,2), of "unat a"]
  have top: "unat a div 16 = 15 \<longleftrightarrow> 240 \<le> unat a" using unat_u8_bound [of a] by auto
  have "list_ex (in_block 32 v) v4_blocks \<longleftrightarrow>
      unat a = 0 \<or> unat a = 10 \<or> (unat a = 100 \<and> 64 \<le> unat b \<and> unat b < 128) \<or> unat a = 127
      \<or> (unat a = 169 \<and> unat b = 254) \<or> (unat a = 172 \<and> 16 \<le> unat b \<and> unat b \<le> 31)
      \<or> (unat a = 192 \<and> unat b = 0 \<and> unat c = 0) \<or> (unat a = 192 \<and> unat b = 0 \<and> unat c = 2)
      \<or> (unat a = 192 \<and> unat b = 168) \<or> (unat a = 198 \<and> (unat b = 18 \<or> unat b = 19))
      \<or> (unat a = 198 \<and> unat b = 51 \<and> unat c = 100) \<or> (unat a = 203 \<and> unat b = 0 \<and> unat c = 113)
      \<or> (224 \<le> unat a \<and> unat a \<le> 239) \<or> 240 \<le> unat a"
    unfolding v4_blocks_def in_block_def by simp (simp only: rules blocks top)
  also have "\<dots> \<longleftrightarrow> \<not> is_public_v4 (Ipv4 a b c d)"
    by (simp add: u8_cmp) (rule iffI; elim disjE conjE; simp)
  finally have "list_ex (in_block 32 v) v4_blocks \<longleftrightarrow> \<not> is_public_v4 (Ipv4 a b c d)" .
  then show ?thesis by (simp only: v_def Ipv4)
qed

lemma unat_drop_word: "unat (drop_bit k u) = unat u div 2 ^ k" for u :: "'n::len word"
  by (simp add: unat_drop_bit_eq flip: drop_bit_eq_div)

lemma high_bits_eq:
  fixes w x :: "'n::len word"
  assumes "take_bit k x = 0"
  shows "w AND NOT (mask k) = x \<longleftrightarrow> unat w div 2 ^ k = unat x div 2 ^ k"
proof -
  have c: "u AND NOT (mask k) = push_bit k (drop_bit k u)" for u :: "'n word"
    by (rule bit_word_eqI) (auto simp: bit_simps)
  have d: "drop_bit k (push_bit k (drop_bit k u)) = drop_bit k u" for u :: "'n word"
    by (rule bit_word_eqI) (auto simp: bit_simps dest: bit_imp_le_length)
  have x: "x = push_bit k (drop_bit k x)" using bits_ident [of k x] assms by simp
  have "w AND NOT (mask k) = x \<longleftrightarrow> drop_bit k w = drop_bit k x" using c d x by metis
  then show ?thesis by (metis word_unat_eq_iff unat_drop_word)
qed

lemma segments_div:
  fixes s0 s1 s2 s3 s4 s5 s6 s7 :: nat
  assumes "s1 < 65536" "s2 < 65536" "s3 < 65536" "s4 < 65536" "s5 < 65536" "s6 < 65536" "s7 < 65536"
  defines "v \<equiv> ((((((s0 * 65536 + s1) * 65536 + s2) * 65536 + s3) * 65536 + s4) * 65536 + s5) * 65536 + s6) * 65536 + s7"
  shows "v div 2 ^ 32 = (((((s0 * 65536 + s1) * 65536 + s2) * 65536 + s3) * 65536 + s4) * 65536 + s5)"
    and "v mod 2 ^ 32 = s6 * 65536 + s7" and "v div 2 ^ 96 = s0 * 65536 + s1" and "v div 2 ^ 112 = s0"
proof -
  have step: "(x * 65536 + y) div 2 ^ (16 + k) = x div 2 ^ k" if "y < 65536" for x y k :: nat
    using that by (simp add: power_add div_mult2_eq)
  show "v div 2 ^ 96 = s0 * 65536 + s1" "v div 2 ^ 112 = s0"
    unfolding v_def using assms step [of s7 _ 80] step [of s6 _ 64] step [of s5 _ 48] step [of s4 _ 32] step [of s3 _ 16]
      step [of s2 _ 0] step [of s7 _ 96] step [of s6 _ 80] step [of s5 _ 64] step [of s4 _ 48] step [of s3 _ 32]
      step [of s2 _ 16] step [of s1 _ 0] by simp_all
  let ?h = "((((s0 * 65536 + s1) * 65536 + s2) * 65536 + s3) * 65536 + s4) * 65536 + s5"
  have v: "v = ?h * 2 ^ 32 + (s6 * 65536 + s7)" and l: "s6 * 65536 + s7 < 2 ^ 32"
    using assms by (simp_all add: v_def)
  show "v div 2 ^ 32 = ?h" "v mod 2 ^ 32 = s6 * 65536 + s7" using l unfolding v by (simp_all del: power_numeral)
qed

lemma mapped_v4_value:
  assumes "to_ipv4_mapped (Ipv6 s0 s1 s2 s3 s4 s5 s6 s7) = Some ip"
  shows "v4_value ip = unat s6 * 65536 + unat s7"
proof -
  have o: "unat (ucast (drop_bit 8 s) :: u8) = unat s div 256" "unat (ucast s :: u8) = unat s mod 256" for s :: u16
  proof -
    have "unat s div 256 < 256" using unat_u16_bound [of s] by (simp add: div_less_iff_less_mult)
    then show "unat (ucast (drop_bit 8 s) :: u8) = unat s div 256"
      by (simp add: unsigned_ucast_eq take_bit_eq_mod unat_drop_word)
    show "unat (ucast s :: u8) = unat s mod 256" by (simp add: unsigned_ucast_eq take_bit_eq_mod)
  qed
  have "((x div 256 * 256 + x mod 256) * 256 + y div 256) * 256 + y mod 256 = x * 65536 + y" for x y :: nat
  proof -
    have "((x div 256 * 256 + x mod 256) * 256 + y div 256) * 256 + y mod 256
        = x * 65536 + (y div 256 * 256 + y mod 256)" unfolding div_mult_mod_eq [of x 256] by (simp add: algebra_simps)
    then show ?thesis unfolding div_mult_mod_eq .
  qed
  moreover have "ip = Ipv4 (ucast (drop_bit 8 s6)) (ucast s6) (ucast (drop_bit 8 s7)) (ucast s7)"
    using assms by (auto split: if_splits)
  ultimately show ?thesis by (simp only: v4_value.simps o(1) o(2) [of s6] o(2) [of s7])
qed

lemma v6_masks:
  "(s :: u16) AND 0xfe00 = 0xfc00 \<longleftrightarrow> unat s div 512 = 126"
  "s AND 0xffc0 = 0xfe80 \<longleftrightarrow> unat s div 64 = 1018"
  "s AND 0xff00 = 0xff00 \<longleftrightarrow> unat s div 256 = 255"
proof -
  have m: "NOT (mask 9) = (0xfe00 :: u16)" "NOT (mask 6) = (0xffc0 :: u16)" "NOT (mask 8) = (0xff00 :: u16)"
    by code_simp+
  show "s AND 0xfe00 = 0xfc00 \<longleftrightarrow> unat s div 512 = 126"
    using high_bits_eq [of 9 "0xfc00 :: u16" s] unfolding m by (simp add: take_bit_eq_mod)
  show "s AND 0xffc0 = 0xfe80 \<longleftrightarrow> unat s div 64 = 1018"
    using high_bits_eq [of 6 "0xfe80 :: u16" s] unfolding m by (simp add: take_bit_eq_mod)
  show "s AND 0xff00 = 0xff00 \<longleftrightarrow> unat s div 256 = 255"
    using high_bits_eq [of 8 "0xff00 :: u16" s] unfolding m by (simp add: take_bit_eq_mod)
qed

lemma v6_blocks_segments:
  assumes "to_ipv4_mapped ip = None"
  shows "list_ex (in_block 128 (v6_value ip)) v6_blocks \<longleftrightarrow> \<not> is_public_v6 ip"
proof (cases ip)
  case (Ipv6 s0 s1 s2 s3 s4 s5 s6 s7)
  define v where "v = v6_value ip"
  note d = segments_div [OF unat_u16_bound [of s1] unat_u16_bound [of s2] unat_u16_bound [of s3]
      unat_u16_bound [of s4] unat_u16_bound [of s5] unat_u16_bound [of s6] unat_u16_bound [of s7], of "unat s0"]
  have v: "v = ((((((unat s0 * 65536 + unat s1) * 65536 + unat s2) * 65536 + unat s3) * 65536 + unat s4) * 65536
      + unat s5) * 65536 + unat s6) * 65536 + unat s7" by (simp add: v_def Ipv6)
  have zero: "v = 0 \<longleftrightarrow> v6_is_unspecified ip" by (auto simp: v Ipv6 unsigned_eq_0_iff)
  have "v = 1 \<longleftrightarrow> v6_is_loopback ip"
  proof -
    define h where "h = (((((unat s0 * 65536 + unat s1) * 65536 + unat s2) * 65536 + unat s3) * 65536 + unat s4) * 65536
      + unat s5) * 65536 + unat s6"
    have "v = 1 \<longleftrightarrow> h = 0 \<and> unat s7 = 1"
      using pair_eq [OF unat_u16_bound [of s7], of 1 h 0] unfolding v h_def [symmetric] by simp
    moreover have "h = 0 \<longleftrightarrow> s0 = 0 \<and> s1 = 0 \<and> s2 = 0 \<and> s3 = 0 \<and> s4 = 0 \<and> s5 = 0 \<and> s6 = 0"
      by (auto simp: h_def unsigned_eq_0_iff)
    moreover have "unat s7 = 1 \<longleftrightarrow> s7 = 1" by (simp add: word_unat_eq_iff)
    ultimately show ?thesis by (simp only: Ipv6 v6_is_loopback.simps conj_assoc)
  qed
  moreover have "v div 2 ^ 121 = unat s0 div 512" "v div 2 ^ 118 = unat s0 div 64" "v div 2 ^ 120 = unat s0 div 256"
    unfolding d(4) [folded v, symmetric] by (simp_all flip: div_mult2_eq)
  moreover have "v div 2 ^ 96 = 536939960 \<longleftrightarrow> s0 = 0x2001 \<and> s1 = 0x0db8"
    unfolding d(3) [folded v] using pair_eq [OF unat_u16_bound [of s1], of 3512 "unat s0" 8193]
    by (simp add: word_unat_eq_iff)
  ultimately show ?thesis
    using zero assms unfolding v6_blocks_def in_block_def v_def [symmetric] is_public_v6_def
    by (simp add: Ipv6 v6_masks) (rule iffI; elim disjE conjE; simp)
qed

lemma mapped_block:
  "in_block 128 (v6_value ip) (v6_value (Ipv6 0 0 0 0 0 0xffff 0 0), 96) \<longleftrightarrow> to_ipv4_mapped ip \<noteq> None"
proof (cases ip)
  case (Ipv6 s0 s1 s2 s3 s4 s5 s6 s7)
  note d = segments_div [OF unat_u16_bound [of s1] unat_u16_bound [of s2] unat_u16_bound [of s3]
      unat_u16_bound [of s4] unat_u16_bound [of s5] unat_u16_bound [of s6] unat_u16_bound [of s7], of "unat s0"]
  define h where "h = (((unat s0 * 65536 + unat s1) * 65536 + unat s2) * 65536 + unat s3) * 65536 + unat s4"
  have "h * 65536 + unat s5 = 65535 \<longleftrightarrow> h = 0 \<and> unat s5 = 65535"
    using pair_eq [OF unat_u16_bound [of s5], of 65535 h 0] by simp
  moreover have "h = 0 \<longleftrightarrow> s0 = 0 \<and> s1 = 0 \<and> s2 = 0 \<and> s3 = 0 \<and> s4 = 0"
    by (auto simp: h_def unsigned_eq_0_iff)
  moreover have "unat s5 = 65535 \<longleftrightarrow> s5 = 0xffff" by (simp add: word_unat_eq_iff)
  moreover have "v6_value ip div 2 ^ 32 = h * 65536 + unat s5" unfolding Ipv6 v6_value.simps h_def by (rule d(1))
  moreover have "v6_value (Ipv6 0 0 0 0 0 0xffff 0 0) div 2 ^ 32 = 65535" by simp
  ultimately show ?thesis by (simp add: in_block_def Ipv6 del: v6_value.simps)
qed

lemma mapped_mod: "to_ipv4_mapped ip = Some v4 \<Longrightarrow> v6_value ip mod 2 ^ 32 = v4_value v4"
proof (cases ip)
  case (Ipv6 s0 s1 s2 s3 s4 s5 s6 s7)
  assume "to_ipv4_mapped ip = Some v4"
  then have "v4_value v4 = unat s6 * 65536 + unat s7" using mapped_v4_value Ipv6 by blast
  moreover have "v6_value ip mod 2 ^ 32 = unat s6 * 65536 + unat s7"
    unfolding Ipv6 v6_value.simps by (rule segments_div) (rule unat_u16_bound)+
  ultimately show ?thesis by simp
qed

lemma public_blocks: "is_public_ip ip \<longleftrightarrow> \<not> special_use ip"
proof (cases ip)
  case (V4 v4)
  then show ?thesis using v4_blocks_octets [of v4] by simp
next
  case (V6 v6)
  show ?thesis
  proof (cases "to_ipv4_mapped v6")
    case None
    then show ?thesis using V6 v6_blocks_segments [OF None] mapped_block [of v6] by simp
  next
    case (Some v4)
    then show ?thesis using V6 mapped_block [of v6] mapped_mod [OF Some] v4_blocks_octets [of v4]
      by (simp add: is_public_v6_def)
  qed
qed

section \<open>Properties\<close>

text \<open>
  C24. The octet and segment tests of \<open>is_public_ip\<close> decide exactly the table of special purpose
  blocks: an address is public iff it lies in none of them, an IPv4-mapped IPv6 address being judged
  as the IPv4 address it carries.
\<close>

theorem is_public_ip_blocks: "is_public_ip ip \<longleftrightarrow> \<not> special_use ip"
  by (rule public_blocks)

end
