(* ===== verification/Bitcoin_Rpc.thy ===== *)
theory Bitcoin_Rpc
  imports Storage_Db
begin

text \<open>
  The Bitcoin Core client (safrod-bitcoin/src/rpc.rs). The HTTP exchange and serde's parsers are
  parameters, collected in the record \<open>bitcoind\<close>: \<open>bd_post\<close> sends a request body and gives the text of
  the answer or a transport error, and the others are \<open>serde_json::from_str\<close> at the types of the
  source, \<open>None\<close> being a parse error. A \<open>RawValue\<close> is the text it borrows.
\<close>

section \<open>Types\<close>

datatype rpc_error = RTransport string | RRemote int string | RMalformed string

record bitcoin_rpc =
  rpc_url :: string
  rpc_user :: string
  rpc_password :: string

record unspent =
  un_txid :: string
  un_vout :: u32
  un_address :: string
  un_amount_sat :: u64
  un_height :: u32

record mempool_output =
  mo_txid :: string
  mo_vout :: u32
  mo_address :: string
  mo_amount_sat :: u64

record scan_result =
  sc_tip_height :: u32
  sc_unspents :: "unspent list"

record envelope =
  en_result :: "string option"
  en_error :: "(int \<times> string) option"

record raw_vout =
  rv_value :: string
  rv_n :: u32
  rv_address :: "string option"

record raw_tx =
  rt_confirmations :: "u32 option"
  rt_vout :: "raw_vout list"

record raw_unspent =
  ru_txid :: string
  ru_vout :: u32
  ru_desc :: string
  ru_amount :: string
  ru_height :: u32

record raw_scan =
  rs_height :: u32
  rs_unspents :: "raw_unspent list"

record bitcoind =
  bd_post :: "bitcoin_rpc \<Rightarrow> json \<Rightarrow> string + string"
  bd_envelope :: "string \<Rightarrow> envelope option"
  bd_value :: "string \<Rightarrow> json option"
  bd_strings :: "string \<Rightarrow> string list option"
  bd_raw_tx :: "string \<Rightarrow> raw_tx option"
  bd_raw_scan :: "string \<Rightarrow> raw_scan option"

section \<open>Amounts and descriptors\<close>

definition truncate_text :: "string \<Rightarrow> string" where
  "truncate_text text = take_chars 120 text"

definition btc_to_sats :: "string \<Rightarrow> rpc_error + u64" where
  "btc_to_sats text =
     (let bad = Inl (RMalformed (''bad amount '' @ text));
          (whole, frac) = (case split_once CHR ''.'' text of Some p \<Rightarrow> p | None \<Rightarrow> (text, []))
      in if whole = [] \<or> 8 < length frac \<or> \<not> list_all is_ascii_digit (whole @ frac) then bad
         else
           (case parse_u64 whole of
              None \<Rightarrow> bad
            | Some w \<Rightarrow>
                (case parse_u64 (frac @ replicate (8 - length frac) CHR ''0'') of
                   None \<Rightarrow> bad
                 | Some f \<Rightarrow>
                     (case Option.bind (checked_mul w 100000000) (\<lambda>x. checked_add x f) of
                        None \<Rightarrow> bad
                      | Some sats \<Rightarrow> Inr sats))))"

definition address_for_script :: "string list \<Rightarrow> string \<Rightarrow> string option" where
  "address_for_script addresses desc = find (\<lambda>a. starts_with desc (''addr('' @ a @ '')'')) addresses"

section \<open>The client\<close>

definition rpc_new :: "string \<Rightarrow> string \<Rightarrow> string \<Rightarrow> bitcoin_rpc" where
  "rpc_new url user password =
     \<lparr>rpc_url = rev (dropWhile (\<lambda>c. c = CHR ''/'') (rev url)), rpc_user = user, rpc_password = password\<rparr>"

definition call_raw :: "bitcoind \<Rightarrow> bitcoin_rpc \<Rightarrow> string \<Rightarrow> json list \<Rightarrow> rpc_error + string" where
  "call_raw bd rpc rpc_method params =
     (case bd_post bd rpc (JObj [(''jsonrpc'', JStr ''1.0''), (''id'', JStr ''safrod''),
             (''method'', JStr rpc_method), (''params'', JArr params)]) of
        Inl err \<Rightarrow> Inl (RTransport err)
      | Inr text \<Rightarrow>
          (case bd_envelope bd text of
             None \<Rightarrow> Inl (RMalformed (truncate_text text))
           | Some envelope \<Rightarrow>
               (case en_error envelope of
                  Some (c, message) \<Rightarrow> Inl (RRemote c message)
                | None \<Rightarrow> Inr (case en_result envelope of Some r \<Rightarrow> r | None \<Rightarrow> ''null''))))"

text \<open>\<open>value["chain"].as_str()\<close>\<close>

fun json_str_at :: "json \<Rightarrow> string \<Rightarrow> string option" where
  "json_str_at (JObj kvs) key = (case map_of kvs key of Some (JStr s) \<Rightarrow> Some s | _ \<Rightarrow> None)"
| "json_str_at _ key = None"

definition chain :: "bitcoind \<Rightarrow> bitcoin_rpc \<Rightarrow> rpc_error + string" where
  "chain bd rpc =
     (case call_raw bd rpc ''getblockchaininfo'' [] of
        Inl err \<Rightarrow> Inl err
      | Inr raw \<Rightarrow>
          (case bd_value bd raw of
             None \<Rightarrow> Inl (RMalformed (truncate_text raw))
           | Some v \<Rightarrow>
               (case json_str_at v ''chain'' of None \<Rightarrow> Inl (RMalformed (truncate_text raw)) | Some s \<Rightarrow> Inr s)))"

definition block_count :: "bitcoind \<Rightarrow> bitcoin_rpc \<Rightarrow> rpc_error + u32" where
  "block_count bd rpc =
     (case call_raw bd rpc ''getblockcount'' [] of
        Inl err \<Rightarrow> Inl err
      | Inr raw \<Rightarrow>
          (case parse_unsigned (2 ^ 32) (trim raw) of
             None \<Rightarrow> Inl (RMalformed (truncate_text raw))
           | Some n \<Rightarrow> Inr (of_nat n)))"

definition mempool_txids :: "bitcoind \<Rightarrow> bitcoin_rpc \<Rightarrow> rpc_error + string list" where
  "mempool_txids bd rpc =
     (case call_raw bd rpc ''getrawmempool'' [JBool False] of
        Inl err \<Rightarrow> Inl err
      | Inr raw \<Rightarrow>
          (case bd_strings bd raw of None \<Rightarrow> Inl (RMalformed (truncate_text raw)) | Some txids \<Rightarrow> Inr txids))"

fun vout_outputs :: "string \<Rightarrow> raw_vout list \<Rightarrow> rpc_error + mempool_output list" where
  "vout_outputs txid [] = Inr []"
| "vout_outputs txid (vout # rest) =
     (case rv_address vout of
        None \<Rightarrow> vout_outputs txid rest
      | Some address \<Rightarrow>
          (case btc_to_sats (rv_value vout) of
             Inl err \<Rightarrow> Inl err
           | Inr sats \<Rightarrow>
               (case vout_outputs txid rest of
                  Inl err \<Rightarrow> Inl err
                | Inr outs \<Rightarrow>
                    Inr (\<lparr>mo_txid = txid, mo_vout = rv_n vout, mo_address = address, mo_amount_sat = sats\<rparr> # outs))))"

definition mempool_outputs ::
  "bitcoind \<Rightarrow> bitcoin_rpc \<Rightarrow> string \<Rightarrow> rpc_error + mempool_output list option" where
  "mempool_outputs bd rpc txid =
     (case call_raw bd rpc ''getrawtransaction'' [JStr txid, JBool True] of
        Inl (RRemote c message) \<Rightarrow> if c = -5 then Inr None else Inl (RRemote c message)
      | Inl err \<Rightarrow> Inl err
      | Inr raw \<Rightarrow>
          (case bd_raw_tx bd raw of
             None \<Rightarrow> Inl (RMalformed (truncate_text raw))
           | Some tx \<Rightarrow>
               if 0 < (case rt_confirmations tx of Some n \<Rightarrow> n | None \<Rightarrow> 0) then Inr None
               else (case vout_outputs txid (rt_vout tx) of Inl err \<Rightarrow> Inl err | Inr outs \<Rightarrow> Inr (Some outs))))"

fun scan_unspents_of :: "string list \<Rightarrow> raw_unspent list \<Rightarrow> rpc_error + unspent list" where
  "scan_unspents_of addresses [] = Inr []"
| "scan_unspents_of addresses (u # rest) =
     (case address_for_script addresses (ru_desc u) of
        None \<Rightarrow> Inl (RMalformed (''unmatched descriptor '' @ ru_desc u))
      | Some address \<Rightarrow>
          (case btc_to_sats (ru_amount u) of
             Inl err \<Rightarrow> Inl err
           | Inr sats \<Rightarrow>
               (case scan_unspents_of addresses rest of
                  Inl err \<Rightarrow> Inl err
                | Inr us \<Rightarrow>
                    Inr (\<lparr>un_txid = ru_txid u, un_vout = ru_vout u, un_address = address,
                          un_amount_sat = sats, un_height = ru_height u\<rparr> # us))))"

definition scan_addresses :: "bitcoind \<Rightarrow> bitcoin_rpc \<Rightarrow> string list \<Rightarrow> rpc_error + scan_result" where
  "scan_addresses bd rpc addresses =
     (case call_raw bd rpc ''scantxoutset''
             [JStr ''start'', JArr (map (\<lambda>a. JStr (''addr('' @ a @ '')'')) addresses)] of
        Inl err \<Rightarrow> Inl err
      | Inr raw \<Rightarrow>
          (case bd_raw_scan bd raw of
             None \<Rightarrow> Inl (RMalformed (truncate_text raw))
           | Some scan \<Rightarrow>
               (case scan_unspents_of addresses (rs_unspents scan) of
                  Inl err \<Rightarrow> Inl err
                | Inr unspents \<Rightarrow> Inr \<lparr>sc_tip_height = rs_height scan, sc_unspents = unspents\<rparr>)))"

definition generate_to_address ::
  "bitcoind \<Rightarrow> bitcoin_rpc \<Rightarrow> u32 \<Rightarrow> string \<Rightarrow> rpc_error + string list" where
  "generate_to_address bd rpc count address =
     (case call_raw bd rpc ''generatetoaddress'' [JInt (uint count), JStr address] of
        Inl err \<Rightarrow> Inl err
      | Inr raw \<Rightarrow>
          (case bd_strings bd raw of None \<Rightarrow> Inl (RMalformed (truncate_text raw)) | Some hs \<Rightarrow> Inr hs))"

section \<open>Exact amounts\<close>

lemma digits_val_app: "digits_val acc (s @ t) = digits_val (digits_val acc s) t"
  by (induction s arbitrary: acc) auto

lemma digits_val_acc: "digits_val acc t = acc * 10 ^ length t + digits_val 0 t"
proof (induction t arbitrary: acc)
  case (Cons c t)
  show ?case using Cons.IH [of "10 * acc + digit_val c"] Cons.IH [of "digit_val c"] by (simp add: algebra_simps)
qed simp

lemma digits_val_zeros: "digits_val acc (replicate n CHR ''0'') = acc * 10 ^ n"
  by (induction n arbitrary: acc) (simp_all add: digit_val_def code_def)

lemma digits_val_bound: "list_all is_ascii_digit s \<Longrightarrow> digits_val 0 s < 10 ^ length s"
proof (induction s rule: rev_induct)
  case (snoc c s)
  then have "digit_val c \<le> 9" by (auto simp: is_ascii_digit_def digit_val_def)
  with snoc show ?case by (simp add: digits_val_append)
qed simp

lemma parse_u64_digits:
  assumes "s \<noteq> []" and "list_all is_ascii_digit s"
  shows "parse_u64 s = (if digits_val 0 s < 2 ^ 64 then Some (of_nat (digits_val 0 s)) else None)"
proof -
  obtain c cs where s: "s = c # cs" using assms(1) by (cases s) auto
  then have "c \<noteq> CHR ''+''" using assms(2) digit_not_sign by auto
  then show ?thesis using assms s by (simp add: parse_u64_def parse_unsigned_def Let_def)
qed

text \<open>The two parts of an amount as its digits: the fraction is scaled to eight places.\<close>

definition btc_parts :: "string \<Rightarrow> string \<times> string" where
  "btc_parts text = (case split_once CHR ''.'' text of Some p \<Rightarrow> p | None \<Rightarrow> (text, []))"

definition btc_value :: "string \<Rightarrow> nat" where
  "btc_value text = (let (w, f) = btc_parts text in digits_val 0 (w @ f) * 10 ^ (8 - length f))"

definition btc_well_formed :: "string \<Rightarrow> bool" where
  "btc_well_formed text \<longleftrightarrow>
     (let (w, f) = btc_parts text in w \<noteq> [] \<and> length f \<le> 8 \<and> list_all is_ascii_digit (w @ f))"

lemma btc_to_sats_value:
  "btc_to_sats text =
     (if btc_well_formed text \<and> btc_value text < 2 ^ 64 then Inr (of_nat (btc_value text))
      else Inl (RMalformed (''bad amount '' @ text)))"
proof (cases "btc_well_formed text")
  case False
  then show ?thesis
    by (auto simp: btc_to_sats_def btc_well_formed_def Let_def simp flip: btc_parts_def split: prod.splits)
next
  case True
  obtain w f where p: "btc_parts text = (w, f)" by fastforce
  then have wf: "w \<noteq> []" "length f \<le> 8" "list_all is_ascii_digit w" "list_all is_ascii_digit f"
    using True by (auto simp: btc_well_formed_def)
  let ?z = "f @ replicate (8 - length f) CHR ''0''"
  have z: "digits_val 0 ?z = digits_val 0 f * 10 ^ (8 - length f)"
    by (simp add: digits_val_app digits_val_zeros)
  have "list_all is_ascii_digit ?z" using wf(4) by (auto simp: list_all_iff is_ascii_digit_def code_def)
  moreover have "length ?z = 8" using wf(2) by simp
  ultimately have zb: "digits_val 0 ?z < 10 ^ 8" "?z \<noteq> []"
    using digits_val_bound [of ?z] by (metis, auto)
  then have zp: "parse_u64 ?z = Some (of_nat (digits_val 0 ?z))"
    using parse_u64_digits [OF zb(2)] \<open>list_all is_ascii_digit ?z\<close> by simp
  have v: "btc_value text = digits_val 0 w * 100000000 + digits_val 0 ?z"
  proof -
    have "(10 :: nat) ^ length f * 10 ^ (8 - length f) = 10 ^ 8" using wf(2) by (simp flip: power_add)
    then have "digits_val 0 w * 10 ^ length f * 10 ^ (8 - length f) = digits_val 0 w * 100000000"
      by (simp add: mult.assoc)
    then show ?thesis
      using digits_val_acc [of "digits_val 0 w" f] z by (simp add: btc_value_def p digits_val_app distrib_right)
  qed
  show ?thesis
  proof (cases "digits_val 0 w < 2 ^ 64")
    case False
    then show ?thesis using True v wf p parse_u64_digits [OF wf(1,3)]
      by (simp add: btc_to_sats_def Let_def flip: btc_parts_def)
  next
    case wl: True
    then have wp: "parse_u64 w = Some (of_nat (digits_val 0 w))" using parse_u64_digits [OF wf(1,3)] by simp
    define x y where "x = digits_val 0 w" and "y = digits_val 0 ?z"
    have "unat (of_nat x :: u64) = x" "unat (of_nat y :: u64) = y"
      using wl zb(1) by (simp_all add: x_def y_def unat_of_nat)
    then have "Option.bind (checked_mul (of_nat x :: u64) 100000000) (\<lambda>a. checked_add a (of_nat y))
        = (if x * 100000000 + y < 2 ^ 64 then Some (of_nat (x * 100000000 + y)) else None)"
      by (auto simp: checked_mul_def checked_add_def unat_word_ariths)
    then show ?thesis using True v wf p wp zp
      by (simp add: btc_to_sats_def Let_def x_def y_def flip: btc_parts_def)
  qed
qed

text \<open>The fixed-point form in which Bitcoin Core prints an amount (\<open>%d.%08d\<close>).\<close>

fun fixed_digits :: "nat \<Rightarrow> nat \<Rightarrow> string" where
  "fixed_digits 0 n = []"
| "fixed_digits (Suc k) n = fixed_digits k (n div 10) @ [char_of (48 + n mod 10)]"

definition core_amount :: "u64 \<Rightarrow> string" where
  "core_amount sats = nat_digits (unat sats div 100000000) @ ''.'' @ fixed_digits 8 (unat sats mod 100000000)"

lemma fixed_digits_props:
  "length (fixed_digits k n) = k \<and> list_all is_ascii_digit (fixed_digits k n)
     \<and> (n < 10 ^ k \<longrightarrow> digits_val 0 (fixed_digits k n) = n)"
proof (induction k arbitrary: n)
  case (Suc k)
  have "n mod 10 < 10" by simp
  then have "is_ascii_digit (char_of (48 + n mod 10))" "digit_val (char_of (48 + n mod 10)) = n mod 10"
    by (simp_all add: is_ascii_digit_def digit_val_def)
  moreover have "n < 10 ^ Suc k \<Longrightarrow> n div 10 < 10 ^ k" by (simp add: div_less_iff_less_mult)
  ultimately show ?case using Suc.IH [of "n div 10"] by (simp add: digits_val_append)
qed simp

section \<open>Properties\<close>

text \<open>
  C27. \<open>btc_to_sats\<close> is exact: it accepts exactly the decimal texts with a whole part and at most eight
  decimals whose value in satoshis fits in \<open>u64\<close>, gives that value, and inverts the fixed-point form
  in which Bitcoin Core prints every amount.
\<close>

theorem btc_to_sats_exact:
  "btc_to_sats text =
     (if btc_well_formed text \<and> btc_value text < 2 ^ 64 then Inr (of_nat (btc_value text))
      else Inl (RMalformed (''bad amount '' @ text)))
   \<and> btc_to_sats (core_amount sats) = Inr sats"
proof
  show "btc_to_sats text =
     (if btc_well_formed text \<and> btc_value text < 2 ^ 64 then Inr (of_nat (btc_value text))
      else Inl (RMalformed (''bad amount '' @ text)))" by (rule btc_to_sats_value)
  let ?w = "nat_digits (unat sats div 100000000)" and ?f = "fixed_digits 8 (unat sats mod 100000000)"
  have "CHR ''.'' \<notin> set ?w"
    using nat_digits_digits [of "unat sats div 100000000"] by (auto simp: list_all_iff is_ascii_digit_def code_def)
  then have p: "btc_parts (core_amount sats) = (?w, ?f)"
    using split_once_append [of "CHR ''.''" ?w ?f] by (simp add: btc_parts_def core_amount_def)
  note f = fixed_digits_props [of 8 "unat sats mod 100000000"]
  have "btc_well_formed (core_amount sats)"
    using p f nat_digits_digits [of "unat sats div 100000000"] by (simp add: btc_well_formed_def)
  moreover have "btc_value (core_amount sats) = unat sats"
    using p f digits_val_acc [of "unat sats div 100000000" ?f] by (simp add: btc_value_def digits_val_app)
  moreover have "unat sats < 2 ^ 64" using unsigned_less [of sats, where 'a = nat] by simp
  ultimately show "btc_to_sats (core_amount sats) = Inr sats" by (simp add: btc_to_sats_value)
qed

end
