(* ===== verification/Api_Handler.thy ===== *)
theory Api_Handler
  imports Engine Url_Guard Bitcoin_Rpc
begin

text \<open>
  The frame of the HTTP handlers (safrod-api/src/routes). A handler is a function of the application
  state that gives an error or a response with the new state; the combinators below are the ways a
  handler is put together in the source: the \<open>?\<close> operator on a value (\<open>check\<close>), on a call that may change
  the state (\<open>andthen\<close>), an early return (\<open>unless\<close>), a call of the database, and a call of the node.

  The record \<open>server\<close> holds what a handler finds around it: the configuration, the node's operations, the
  chain client, and the third-party functions (SHA-256, the text form of a JSON value, the hex codec,
  the URL parser, chrono's range check of a timestamp). What axum and serde extract from a request is
  given: a body is whether it is empty and what serde makes of it (\<open>Inl\<close> being the text of its error),
  a query is \<open>None\<close> when it is rejected.
\<close>

type_synonym ('n, 'a) handler = "'n app \<Rightarrow> (api_error + 'a) \<times> 'n app"

type_synonym response = "nat \<times> json"

type_synonym 'a body = "bool \<times> (string + 'a)"

record 'n server =
  sv_backend :: "'n backend"
  sv_config :: api_config
  sv_rpc :: "bitcoin_rpc option"
  sv_bitcoind :: bitcoind
  sv_sha256 :: "string \<Rightarrow> u8 list"
  sv_json_text :: "json \<Rightarrow> string"
  sv_hex :: "u8 list \<Rightarrow> string"
  sv_url_parse :: "string \<Rightarrow> url option"
  sv_timestamp :: "int \<Rightarrow> instant option"

section \<open>Combinators\<close>

definition respond :: "'a \<Rightarrow> ('n, 'a) handler" where
  "respond a s = (Inr a, s)"

definition refuse :: "api_error \<Rightarrow> ('n, 'a) handler" where
  "refuse err s = (Inl err, s)"

definition check :: "api_error + 'a \<Rightarrow> ('a \<Rightarrow> ('n, 'b) handler) \<Rightarrow> ('n, 'b) handler" where
  "check x k = (case x of Inl err \<Rightarrow> refuse err | Inr a \<Rightarrow> k a)"

definition unless :: "bool \<Rightarrow> api_error \<Rightarrow> ('n, 'a) handler \<Rightarrow> ('n, 'a) handler" where
  "unless bad err k = (if bad then refuse err else k)"

definition andthen :: "('n, 'a) handler \<Rightarrow> ('a \<Rightarrow> ('n, 'b) handler) \<Rightarrow> ('n, 'b) handler" where
  "andthen h k s = (case h s of (Inl err, s') \<Rightarrow> (Inl err, s') | (Inr a, s') \<Rightarrow> k a s')"

definition with_db :: "(db \<Rightarrow> ('n, 'a) handler) \<Rightarrow> ('n, 'a) handler" where
  "with_db k s = k (app_db s) s"

definition with_node :: "('n \<Rightarrow> ('n, 'a) handler) \<Rightarrow> ('n, 'a) handler" where
  "with_node k s = k (app_node s) s"

text \<open>A storage call whose \<open>NotFound\<close> is reported under the name of the resource.\<close>

fun named_error :: "string \<Rightarrow> storage_error \<Rightarrow> api_error" where
  "named_error what SNotFound = api_not_found what"
| "named_error what err = api_of_storage err"

definition map_error :: "('e \<Rightarrow> 'f) \<Rightarrow> 'e + 'a \<Rightarrow> 'f + 'a" where
  "map_error f x = (case x of Inl err \<Rightarrow> Inl (f err) | Inr a \<Rightarrow> Inr a)"

definition db_call :: "(storage_error \<Rightarrow> api_error) \<Rightarrow> (db \<Rightarrow> storage_error + 'a \<times> db) \<Rightarrow> ('n, 'a) handler" where
  "db_call f op s =
     (case op (app_db s) of Inl err \<Rightarrow> (Inl (f err), s) | Inr (a, d') \<Rightarrow> (Inr a, s\<lparr>app_db := d'\<rparr>))"

text \<open>A storage call whose result is matched on.\<close>

definition db_match ::
  "(db \<Rightarrow> storage_error + 'a \<times> db) \<Rightarrow> ('a \<Rightarrow> ('n, 'b) handler) \<Rightarrow> (storage_error \<Rightarrow> ('n, 'b) handler) \<Rightarrow> ('n, 'b) handler" where
  "db_match op ok bad s = (case op (app_db s) of Inl err \<Rightarrow> bad err s | Inr (a, d') \<Rightarrow> ok a (s\<lparr>app_db := d'\<rparr>))"

definition node_call :: "('n \<Rightarrow> (lightning_error + 'a) \<times> 'n) \<Rightarrow> ('n, 'a) handler" where
  "node_call op s =
     (case op (app_node s) of
        (Inl err, n') \<Rightarrow> (Inl (api_of_lightning err), s\<lparr>app_node := n'\<rparr>)
      | (Inr a, n') \<Rightarrow> (Inr a, s\<lparr>app_node := n'\<rparr>))"

section \<open>json.rs and routes/mod.rs\<close>

definition json_parse :: "'a body \<Rightarrow> api_error + 'a" where
  "json_parse body = map_error (\<lambda>err. api_validation (''invalid request body: '' @ err)) (snd body)"

definition json_parse_or_default :: "'a \<Rightarrow> 'a body \<Rightarrow> api_error + 'a" where
  "json_parse_or_default dflt body = (if fst body then Inr dflt else json_parse body)"

text \<open>\<open>body["key"] = ...\<close> for keys an object does not have yet.\<close>

fun json_and :: "json \<Rightarrow> (string \<times> json) list \<Rightarrow> json" where
  "json_and (JObj kvs) extra = JObj (kvs @ extra)"
| "json_and body extra = body"

record list_query =
  lq_limit :: "int option"
  lq_starting_after :: "string option"

definition query :: "'q option \<Rightarrow> api_error + 'q" where
  "query q = (case q of None \<Rightarrow> Inl (api_validation ''invalid query parameters'') | Some x \<Rightarrow> Inr x)"

definition route_id :: "id_kind \<Rightarrow> string \<Rightarrow> string \<Rightarrow> api_error + string" where
  "route_id kind raw what = map_error (\<lambda>_. api_not_found what) (id_from_str kind raw)"

definition auth_scope :: "'n server \<Rightarrow> headers \<Rightarrow> scope \<Rightarrow> (auth_context \<Rightarrow> ('n, 'a) handler) \<Rightarrow> ('n, 'a) handler" where
  "auth_scope sv headers scope k = with_db (\<lambda>d. check (authorize (sv_sha256 sv) d headers scope) k)"

section \<open>Following a run\<close>

text \<open>How a run through a combinator continues; the early returns leave the state as it was.\<close>

lemma run_check:
  assumes "check x k s = (res, s')"
  obtains (stop) err where "x = Inl err" "res = Inl err" "s' = s" | (go) a where "x = Inr a" "k a s = (res, s')"
  using assms by (cases x) (auto simp: check_def refuse_def)

lemma run_unless:
  assumes "unless bad err k s = (res, s')"
  obtains (stop) "bad" "res = Inl err" "s' = s" | (go) "\<not> bad" "k s = (res, s')"
  using assms by (cases bad) (auto simp: unless_def refuse_def)

lemma run_andthen:
  assumes "andthen h k s = (res, s')"
  obtains (stop) err where "h s = (Inl err, s')" "res = Inl err" | (go) a s1 where "h s = (Inr a, s1)" "k a s1 = (res, s')"
  using assms by (auto simp: andthen_def split: prod.splits sum.splits)

lemma run_db_call:
  assumes "db_call f op s = (res, s')"
  obtains (stop) err where "op (app_db s) = Inl err" "res = Inl (f err)" "s' = s"
  | (go) a d' where "op (app_db s) = Inr (a, d')" "res = Inr a" "s' = s\<lparr>app_db := d'\<rparr>"
  using assms by (auto simp: db_call_def split: sum.splits)

lemma run_auth_scope:
  assumes "auth_scope sv headers scope k s = (res, s')"
  obtains (stop) err where "authorize (sv_sha256 sv) (app_db s) headers scope = Inl err" "res = Inl err" "s' = s"
  | (go) ctx where "authorize (sv_sha256 sv) (app_db s) headers scope = Inr ctx" "k ctx s = (res, s')"
  using assms unfolding auth_scope_def with_db_def by (rule run_check)

lemma run_with_db: "with_db k s = (res, s') \<Longrightarrow> (k (app_db s) s = (res, s') \<Longrightarrow> thesis) \<Longrightarrow> thesis"
  by (simp add: with_db_def)

lemma run_with_node: "with_node k s = (res, s') \<Longrightarrow> (k (app_node s) s = (res, s') \<Longrightarrow> thesis) \<Longrightarrow> thesis"
  by (simp add: with_node_def)

lemmas run_elims = run_auth_scope run_check run_unless run_with_db run_with_node

lemma run_with [simp]: "with_db k s = k (app_db s) s" "with_node k' s = k' (app_node s) s"
  by (simp_all add: with_db_def with_node_def)

lemma run_respond [simp]: "respond a s = (Inr a, s)" "refuse err s = (Inl err, s)"
  by (simp_all add: respond_def refuse_def)

lemma map_error_Inr [simp]: "map_error f x = Inr a \<longleftrightarrow> x = Inr a"
  by (cases x) (simp_all add: map_error_def)

section \<open>What handlers keep\<close>

text \<open>
  A handler keeps a relation between states when every run stays in it. For a reflexive and transitive
  relation the combinators carry this from the parts of a handler to the whole.
\<close>

named_theorems moves_rules \<open>rules for what handlers keep\<close>

definition keeps :: "('n app \<Rightarrow> 'n app \<Rightarrow> bool) \<Rightarrow> ('n, 'a) handler \<Rightarrow> bool" where
  "keeps R h \<longleftrightarrow> (\<forall>s. R s (snd (h s)))"

lemma keepsD: "keeps R h \<Longrightarrow> h s = (r, s') \<Longrightarrow> R s s'"
  unfolding keeps_def by (metis snd_conv)

locale step_preorder =
  fixes R :: "'n app \<Rightarrow> 'n app \<Rightarrow> bool"
  assumes step_refl: "R s s"
    and step_trans: "R s t \<Longrightarrow> R t u \<Longrightarrow> R s u"
begin

lemma keeps_respond [moves_rules]: "keeps R (respond a)"
  by (simp add: keeps_def respond_def step_refl)

lemma keeps_refuse [moves_rules]: "keeps R (refuse err)"
  by (simp add: keeps_def refuse_def step_refl)

lemma keeps_check [moves_rules]: "(\<And>a. keeps R (k a)) \<Longrightarrow> keeps R (check x k)"
  by (cases x) (simp_all add: check_def keeps_refuse)

lemma keeps_unless [moves_rules]: "keeps R k \<Longrightarrow> keeps R (unless bad err k)"
  by (simp add: unless_def keeps_refuse)

lemma keeps_andthen [moves_rules]: "keeps R h \<Longrightarrow> (\<And>a. keeps R (k a)) \<Longrightarrow> keeps R (andthen h k)"
  unfolding keeps_def andthen_def by (auto split: prod.splits sum.splits) (metis snd_conv step_trans)+

lemma keeps_with_db [moves_rules]: "(\<And>d. keeps R (k d)) \<Longrightarrow> keeps R (with_db k)"
  by (simp add: keeps_def with_db_def)

lemma keeps_with_node [moves_rules]: "(\<And>n. keeps R (k n)) \<Longrightarrow> keeps R (with_node k)"
  by (simp add: keeps_def with_node_def)

lemma keeps_if [moves_rules]: "keeps R h \<Longrightarrow> keeps R h' \<Longrightarrow> keeps R (if b then h else h')"
  by simp

lemma keeps_option [moves_rules]:
  "keeps R h \<Longrightarrow> (\<And>a. keeps R (k a)) \<Longrightarrow> keeps R (case x of None \<Rightarrow> h | Some a \<Rightarrow> k a)"
  by (cases x) simp_all

lemma keeps_auth_scope [moves_rules]: "(\<And>ctx. keeps R (k ctx)) \<Longrightarrow> keeps R (auth_scope sv headers scope k)"
  unfolding auth_scope_def by (intro keeps_with_db keeps_check)

lemma keeps_db_match:
  assumes "\<And>s a d'. op (app_db s) = Inr (a, d') \<Longrightarrow> R s (s\<lparr>app_db := d'\<rparr>)"
    and "\<And>a. keeps R (ok a)" and "\<And>err. keeps R (bad err)"
  shows "keeps R (db_match op ok bad)"
  unfolding keeps_def
proof
  fix s
  show "R s (snd (db_match op ok bad s))"
  proof (cases "op (app_db s)")
    case (Inl err)
    then show ?thesis using assms(3) by (simp add: db_match_def keeps_def)
  next
    case (Inr x)
    obtain a d' where x: "x = (a, d')" by fastforce
    then have "R s (s\<lparr>app_db := d'\<rparr>)" using assms(1) Inr by simp
    then show ?thesis using assms(2) Inr x
      by (auto simp: db_match_def keeps_def intro: step_trans)
  qed
qed

lemma keeps_db_call:
  assumes "\<And>s a d'. op (app_db s) = Inr (a, d') \<Longrightarrow> R s (s\<lparr>app_db := d'\<rparr>)"
  shows "keeps R (db_call f op)"
  unfolding keeps_def db_call_def using assms step_refl by (auto split: sum.splits)

end

subsection \<open>The schema\<close>

text \<open>
  A handler moves forward: from a state whose database satisfies the schema it reaches one that does,
  and every row only evolved.
\<close>

abbreviation moves :: "('n, 'a) handler \<Rightarrow> bool" where
  "moves \<equiv> keeps app_steps"

interpretation schema_steps: step_preorder app_steps
  by unfold_locales (auto intro: app_steps_trans)

lemma db_op_app_steps: "db_op op \<Longrightarrow> op (app_db s) = Inr (a, d') \<Longrightarrow> app_steps s (s\<lparr>app_db := d'\<rparr>)"
  by (auto simp: app_steps_def dest: db_op.op_schema db_op.op_evolves)

lemma moves_db_call [moves_rules]: "db_op op \<Longrightarrow> moves (db_call f op)"
  by (rule schema_steps.keeps_db_call) (rule db_op_app_steps)

lemma moves_db_match [moves_rules]:
  "db_op op \<Longrightarrow> (\<And>a. moves (ok a)) \<Longrightarrow> (\<And>err. moves (bad err)) \<Longrightarrow> moves (db_match op ok bad)"
  by (rule schema_steps.keeps_db_match) (rule db_op_app_steps)

lemma moves_node_call [moves_rules]: "moves (node_call op)"
  by (simp add: keeps_def node_call_def app_steps_def split: prod.split sum.split)

lemma moves_send_payment [moves_rules]: "moves (send_payment be sha256 json_text e p k req)"
  unfolding keeps_def by (metis prod.collapse send_payment_steps)

lemma moves_reconcile [moves_rules]: "moves (reconcile_payment be e row)"
  unfolding keeps_def by (metis prod.collapse reconcile_payment_steps)

subsection \<open>The payments\<close>

text \<open>
  No payment is made between two states when the node's record of outgoing payments and the stored
  payments are the same in both.
\<close>

definition unpaid :: "'n backend \<Rightarrow> 'n app \<Rightarrow> 'n app \<Rightarrow> bool" where
  "unpaid be s s' \<longleftrightarrow> (\<forall>h. be_payment be (app_node s') h = be_payment be (app_node s) h)
     \<and> t_payments (app_db s') = t_payments (app_db s)"

abbreviation quiet :: "'n server \<Rightarrow> ('n, 'a) handler \<Rightarrow> bool" where
  "quiet sv \<equiv> keeps (unpaid (sv_backend sv))"

interpretation quiet_steps: step_preorder "unpaid be" for be
  by unfold_locales (simp_all add: unpaid_def)

definition payments_kept :: "(db \<Rightarrow> storage_error + 'a \<times> db) \<Rightarrow> bool" where
  "payments_kept op \<longleftrightarrow> (\<forall>d a d'. op d = Inr (a, d') \<longrightarrow> t_payments d' = t_payments d)"

lemma quiet_db_call [moves_rules]: "payments_kept op \<Longrightarrow> quiet sv (db_call f op)"
  by (rule quiet_steps.keeps_db_call) (simp add: unpaid_def payments_kept_def)

lemma quiet_db_match [moves_rules]:
  "payments_kept op \<Longrightarrow> (\<And>a. quiet sv (ok a)) \<Longrightarrow> (\<And>err. quiet sv (bad err)) \<Longrightarrow> quiet sv (db_match op ok bad)"
  by (rule quiet_steps.keeps_db_match) (simp_all add: unpaid_def payments_kept_def)

lemma quiet_node_call:
  "(\<And>n r n'. op n = (r, n') \<Longrightarrow> \<forall>h. be_payment (sv_backend sv) n' h = be_payment (sv_backend sv) n h)
     \<Longrightarrow> quiet sv (node_call op)"
  unfolding keeps_def node_call_def unpaid_def by (simp split: prod.split sum.split)

subsection \<open>Identifiers\<close>

text \<open>Drawing an identifier and using it in one transaction.\<close>

definition with_fresh :: "env \<Rightarrow> id_kind \<Rightarrow> (string \<Rightarrow> db \<Rightarrow> storage_error + 'a \<times> db) \<Rightarrow> db \<Rightarrow> storage_error + 'a \<times> db" where
  "with_fresh e kind op d = (let (i, d0) = fresh_id e kind d in op i d0)"

lemma uuid_schema: "schema_ok (d\<lparr>next_uuid := n\<rparr>) \<longleftrightarrow> schema_ok d"
  by (simp add: schema_ok_def)

lemma uuid_evolves: "evolves (d\<lparr>next_uuid := n\<rparr>) d' \<longleftrightarrow> evolves d d'"
  by (simp add: evolves_def)

lemma with_fresh_op: "(\<And>i. db_op (op i)) \<Longrightarrow> db_op (with_fresh e kind op)"
  unfolding db_op_def with_fresh_def fresh_id_def Let_def prod.case
  by (metis uuid_schema uuid_evolves)

lemma emit_standalone_op: "db_op (emit_standalone e p kind res data sim)"
  unfolding db_op_def emit_standalone_def using emit_keeps evolves_refl by blast

section \<open>A small server\<close>

text \<open>
  The mock node, no chain client, and simple functions for the third-party ones: the digest of a text
  is one byte, its length plus two.
\<close>

definition idle_bitcoind :: bitcoind where
  "idle_bitcoind = \<lparr>bd_post = (\<lambda>_ _. Inl ''down''), bd_envelope = (\<lambda>_. None), bd_value = (\<lambda>_. None),
     bd_strings = (\<lambda>_. None), bd_raw_tx = (\<lambda>_. None), bd_raw_scan = (\<lambda>_. None)\<rparr>"

definition sample_server :: "mock_state server" where
  "sample_server = \<lparr>sv_backend = mock_backend (\<lambda>_. []),
     sv_config = \<lparr>cfg_network = Regtest, cfg_admin_token = Some ''admin'', cfg_webhook_allow_private = False,
        cfg_default_confirmations = 3, cfg_enable_dev_endpoints = True\<rparr>,
     sv_rpc = None, sv_bitcoind = idle_bitcoind, sv_sha256 = (\<lambda>s. [of_nat (length s) + 2]),
     sv_json_text = (\<lambda>_. ''{}''), sv_hex = bytes_hex, sv_url_parse = (\<lambda>_. None),
     sv_timestamp = (\<lambda>t. Some t)\<rparr>"

definition keyed_db :: "string list \<Rightarrow> db \<Rightarrow> db" where
  "keyed_db scopes d = d\<lparr>t_api_keys := [\<lparr>key_id = ''key_1'', key_project_id = ''prj_a'', key_label = ''ci'',
     key_prefix = ''sfd_ci'', key_hash = [7], key_scopes = scopes, key_revoked_at = None, key_created_at = 0\<rparr>]\<rparr>"

lemma sample_authorize:
  "authorize (\<lambda>s. [of_nat (length s) + 2]) (keyed_db scopes d) sample_headers scope
     = (if scope_as_str scope \<in> set scopes
        then Inr \<lparr>ac_project_id = ''prj_a'', ac_key_id = ''key_1'', ac_scopes = scopes\<rparr>
        else Inl (api_forbidden (''this API key lacks the '' @ scope_as_str scope @ '' scope'')))"
proof -
  have t: "trim ''sfd_x'' = ''sfd_x''" by (rule trim_graphic) (simp add: graphic_def code_def)
  have s: "strip_prefix ''Bearer '' ''Bearer sfd_x'' = Some ''sfd_x''"
    by (simp add: strip_prefix_def starts_with_def)
  have k: "looks_like_key ''sfd_x'' = Inr ()"
    by (simp add: looks_like_key_def starts_with_def is_ascii_byte_def code_def)
  show ?thesis
    by (simp add: authorize_def authenticate_def sample_headers_def s t k hash_secret_def db_authenticate_def
        keyed_db_def select_one_def Let_def)
qed

end
