(* ===== verification/Webhook_Deliver.thy ===== *)
theory Webhook_Deliver
  imports Url_Guard Core_Webhook Storage_Webhooks
begin

text \<open>
  The delivery worker (safrod-webhooks/src/deliver.rs): an attempt builds one signed request pinned to
  a checked address, and its outcome, with exponential backoff, is recorded in the queue.

  A \<open>std::time::Duration\<close> is its number of nanoseconds. The record \<open>net\<close> holds the third-party code an
  attempt calls: the URL parser, name resolution, building and sending with the HTTP client, JSON
  serialisation, HMAC, the hex codec, and chrono's conversion of a \<open>Duration\<close> (to microseconds).
  Logging is left out.
\<close>

definition duration_max :: nat where
  "duration_max = 2 ^ 64 * 1000000000 - 1"

definition dur_saturating_mul :: "nat \<Rightarrow> nat \<Rightarrow> nat" where
  "dur_saturating_mul d k = min (d * k) duration_max"

record delivery_config =
  dc_allow_private :: bool
  dc_max_attempts :: int
  dc_base_backoff :: nat
  dc_max_backoff :: nat
  dc_request_timeout :: nat
  dc_poll_interval :: nat
  dc_lease :: nat

abbreviation from_secs :: "nat \<Rightarrow> nat" where
  "from_secs n \<equiv> n * 1000000000"

definition default_config :: delivery_config where
  "default_config = \<lparr>dc_allow_private = False, dc_max_attempts = 8, dc_base_backoff = from_secs 5,
     dc_max_backoff = from_secs 3600, dc_request_timeout = from_secs 10, dc_poll_interval = from_secs 1,
     dc_lease = from_secs 60\<rparr>"

record http_request =
  rq_url :: url
  rq_host :: string
  rq_addr :: sock_addr
  rq_redirects :: nat
  rq_timeout :: nat
  rq_headers :: "(string \<times> string) list"
  rq_body :: string

record net =
  net_url_parse :: "string \<Rightarrow> url option"
  net_lookup :: "string \<Rightarrow> u16 \<Rightarrow> sock_addr list option"
  net_build_error :: "string option"
  net_to_vec :: "json \<Rightarrow> string + string"
  net_hmac :: "string \<Rightarrow> string \<Rightarrow> u8 list"
  net_hex :: "u8 list \<Rightarrow> string"
  net_send :: "http_request \<Rightarrow> string + u16"
  net_from_std :: "nat \<Rightarrow> int option"

fun guard_text :: "guard_error \<Rightarrow> string" where
  "guard_text GInvalid = ''invalid url''"
| "guard_text GInsecureScheme = ''only https urls are allowed''"
| "guard_text GCredentials = ''urls with credentials are not allowed''"
| "guard_text GNotPublic = ''destination is not a public address''"
| "guard_text GUnresolvable = ''hostname did not resolve''"

definition SIGNATURE_HEADER :: string where
  "SIGNATURE_HEADER = ''Safrod-Signature''"

definition timestamp_of :: "env \<Rightarrow> int" where
  "timestamp_of e = env_now e div 1000000"

definition build_request ::
  "net \<Rightarrow> delivery_config \<Rightarrow> env \<Rightarrow> due_delivery \<Rightarrow> string + http_request" where
  "build_request net config e delivery =
     (case validate_url (net_url_parse net) (due_url delivery) (dc_allow_private config) of
        Inl g \<Rightarrow> Inl (guard_text g)
      | Inr url \<Rightarrow>
     (case resolve_checked (net_lookup net) url (dc_allow_private config) of
        Inl g \<Rightarrow> Inl (guard_text g)
      | Inr addr \<Rightarrow>
     (case url_host_str url of
        None \<Rightarrow> Inl ''missing host''
      | Some host_str \<Rightarrow>
     (case net_build_error net of
        Some err \<Rightarrow> Inl err
      | None \<Rightarrow>
     (case net_to_vec net (event_envelope (due_event_id delivery) (due_event_type delivery)
             (due_event_created_at delivery) (due_simulated delivery) (due_data delivery)) of
        Inl err \<Rightarrow> Inl err
      | Inr body \<Rightarrow>
          let signature = sign (net_hmac net) (net_hex net) (due_secret delivery) (timestamp_of e) body
          in Inr \<lparr>rq_url = url, rq_host = trim_brackets host_str, rq_addr = addr, rq_redirects = 0,
               rq_timeout = dc_request_timeout config,
               rq_headers = [(''content-type'', ''application/json''), (''user-agent'', ''safrod-webhooks/0.1''),
                 (SIGNATURE_HEADER, signature), (''Safrod-Event-Id'', due_event_id delivery),
                 (''Safrod-Delivery-Id'', due_id delivery)],
               rq_body = body\<rparr>)))))"

definition send :: "net \<Rightarrow> delivery_config \<Rightarrow> env \<Rightarrow> due_delivery \<Rightarrow> string + u16" where
  "send net config e delivery =
     (case build_request net config e delivery of Inl err \<Rightarrow> Inl err | Inr rq \<Rightarrow> net_send net rq)"

definition backoff :: "int \<Rightarrow> nat \<Rightarrow> nat \<Rightarrow> nat" where
  "backoff attempt_number base max_delay =
     (let exponent = nat (min (max attempt_number 1 - 1) 20)
      in min (dur_saturating_mul base (min (2 ^ exponent) (2 ^ 32 - 1))) max_delay)"

definition failure ::
  "net \<Rightarrow> delivery_config \<Rightarrow> env \<Rightarrow> int \<Rightarrow> int option \<Rightarrow> string \<Rightarrow> delivery_outcome" where
  "failure net config e attempt_number status error =
     (if dc_max_attempts config \<le> attempt_number then Failed status error
      else
        (let delay = backoff attempt_number (dc_base_backoff config) (dc_max_backoff config)
         in Retry status error
              (env_now e + (case net_from_std net delay of Some x \<Rightarrow> x | None \<Rightarrow> 0))))"

definition attempt :: "net \<Rightarrow> delivery_config \<Rightarrow> env \<Rightarrow> due_delivery \<Rightarrow> delivery_outcome" where
  "attempt net config e delivery =
     (let attempt_number = wrap_i32 (due_attempts delivery + 1)
      in (case send net config e delivery of
            Inr status \<Rightarrow>
              if 200 \<le> status \<and> status < 300 then Delivered (uint status)
              else failure net config e attempt_number (Some (uint status))
                     (''http '' @ nat_digits (unat status))
          | Inl message \<Rightarrow> failure net config e attempt_number None message))"

text \<open>
  Time passes during a pass: the claim runs at \<open>es 0\<close> and the \<open>k\<close>-th delivery at \<open>es k\<close>.
\<close>

fun deliver_each ::
  "net \<Rightarrow> delivery_config \<Rightarrow> (nat \<Rightarrow> env) \<Rightarrow> nat \<Rightarrow> due_delivery list \<Rightarrow> db \<Rightarrow> (storage_error + unit) \<times> db" where
  "deliver_each net config es k [] d = (Inr (), d)"
| "deliver_each net config es k (delivery # rest) d =
     (case record_delivery (es k) (due_id delivery) (attempt net config (es k) delivery) d of
        Inl err \<Rightarrow> (Inl err, d)
      | Inr (_, d') \<Rightarrow> deliver_each net config es (k + 1) rest d')"

definition deliver_due ::
  "net \<Rightarrow> delivery_config \<Rightarrow> (nat \<Rightarrow> env) \<Rightarrow> db \<Rightarrow> (storage_error + nat) \<times> db" where
  "deliver_due net config es d =
     (case claim_due_deliveries (es 0) 20 (wrap_i64 (int (dc_lease config div 1000000000))) d of
        Inl err \<Rightarrow> (Inl err, d)
      | Inr (due, d1) \<Rightarrow>
          (case deliver_each net config es 1 due d1 of
             (Inl err, d2) \<Rightarrow> (Inl err, d2)
           | (Inr _, d2) \<Rightarrow> (Inr (length due), d2)))"

text \<open>\<open>run\<close> until it is told to shut down: one pass per element, whose errors are only logged.\<close>

definition worker_run :: "net \<Rightarrow> delivery_config \<Rightarrow> (nat \<Rightarrow> env) list \<Rightarrow> db \<Rightarrow> db" where
  "worker_run net config passes d = fold (\<lambda>es d. snd (deliver_due net config es d)) passes d"

section \<open>The guarded request\<close>

lemma validate_url_Inr:
  assumes "validate_url url_parse raw False = Inr url"
  shows "url_parse raw = Some url \<and> url_scheme url = ''https'' \<and> url_username url = [] \<and> url_password url = None
    \<and> (\<exists>host. url_host_str url = Some host \<and> to_ascii_lowercase host \<noteq> ''localhost''
        \<and> (\<forall>ip. parse_ip (trim_brackets host) = Some ip \<longrightarrow> is_public_ip ip))"
proof -
  have "to_ascii_lowercase ''localhost'' = ''localhost''" by (simp add: to_ascii_lowercase_def to_lower_def code_def)
  then show ?thesis using assms
    by (auto simp: validate_url_def check_host_def split: option.splits if_splits)
qed

lemma resolve_checked_Inr:
  "resolve_checked lookup url False = Inr addr \<Longrightarrow>
     \<exists>host port addrs. url_host_str url = Some host \<and> url_port_or_known_default url = Some port
       \<and> lookup (trim_brackets host) port = Some addrs \<and> addr \<in> set addrs \<and> is_public_ip (sa_ip addr)"
  by (auto simp: resolve_checked_def split: option.splits list.splits if_splits)

lemma build_request_Inr:
  "build_request net config e x = Inr rq \<Longrightarrow>
     validate_url (net_url_parse net) (due_url x) (dc_allow_private config) = Inr (rq_url rq)
     \<and> resolve_checked (net_lookup net) (rq_url rq) (dc_allow_private config) = Inr (rq_addr rq)
     \<and> rq_redirects rq = 0
     \<and> rq_headers rq = [(''content-type'', ''application/json''), (''user-agent'', ''safrod-webhooks/0.1''),
          (SIGNATURE_HEADER, sign (net_hmac net) (net_hex net) (due_secret x) (timestamp_of e) (rq_body rq)),
          (''Safrod-Event-Id'', due_event_id x), (''Safrod-Delivery-Id'', due_id x)]"
  by (auto simp: build_request_def Let_def split: sum.splits option.splits)

lemma verify_signed:
  assumes "hex_codec enc dec" and "in_i64 t" and "in_i64 tol" and "\<bar>now - t\<bar> \<le> tol"
  shows "verify hmac dec secret (sign hmac enc secret t body) body now tol = Inr ()"
proof -
  have "in_i64 (now - t)" "in_i64 \<bar>now - t\<bar>" using assms(3,4) by (auto simp: in_i64_def)
  then have "wrap_i64 \<bar>wrap_i64 (now - t)\<bar> \<le> tol" using assms(4) by (simp add: wrap_i64_id)
  with sign_parts [OF assms(1,2)] show ?thesis by (simp add: verify_Inr)
qed

section \<open>A pass over the queue\<close>

text \<open>What a list of outcomes does to one row.\<close>

fun outcomes_row ::
  "net \<Rightarrow> delivery_config \<Rightarrow> (nat \<Rightarrow> env) \<Rightarrow> nat \<Rightarrow> due_delivery list \<Rightarrow> delivery_row \<Rightarrow> delivery_row" where
  "outcomes_row net config es k [] r = r"
| "outcomes_row net config es k (x # xs) r =
     outcomes_row net config es (k + 1) xs
       (if dlv_id r = due_id x then record_row (es k) (attempt net config (es k) x) r else r)"

lemma record_row_id [simp]: "dlv_id (record_row e out r) = dlv_id r"
  by (simp add: record_row_def split: delivery_outcome.split)

lemma record_row_attempts [simp]: "dlv_attempts (record_row e out r) = dlv_attempts r + 1"
  by (simp add: record_row_def split: delivery_outcome.split)

lemma outcomes_row_other: "dlv_id r \<notin> due_id ` set xs \<Longrightarrow> outcomes_row net config es k xs r = r"
  by (induction xs arbitrary: k) auto

lemma outcomes_row_once:
  assumes "distinct (map due_id xs)" and "x \<in> set xs" and "dlv_id r = due_id x"
  shows "\<exists>j \<ge> k. outcomes_row net config es k xs r = record_row (es j) (attempt net config (es j) x) r"
  using assms
proof (induction xs arbitrary: k)
  case (Cons y xs)
  show ?case
  proof (cases "x = y")
    case True
    then have "dlv_id (record_row (es k) (attempt net config (es k) y) r) \<notin> due_id ` set xs"
      using Cons.prems by auto
    then show ?thesis using True Cons.prems(3) by (auto simp: outcomes_row_other)
  next
    case False
    then have "due_id x \<in> due_id ` set xs" using Cons.prems by simp
    then have "dlv_id r \<noteq> due_id y" using Cons.prems by auto
    moreover obtain j where "j \<ge> k + 1"
        "outcomes_row net config es (k + 1) xs r = record_row (es j) (attempt net config (es j) x) r"
      using Cons.IH [of "k + 1"] Cons.prems False by auto
    ultimately show ?thesis by (intro exI [of _ j]) simp
  qed
qed simp

lemma deliver_each_total:
  assumes "distinct (map due_id xs)"
    and "\<And>r. r \<in> set (t_deliveries d) \<Longrightarrow> dlv_id r \<in> due_id ` set xs \<Longrightarrow> in_i32 (dlv_attempts r + 1)"
  shows "deliver_each net config es k xs d
         = (Inr (), d\<lparr>t_deliveries := map (outcomes_row net config es k xs) (t_deliveries d)\<rparr>)"
  using assms
proof (induction xs arbitrary: k d)
  case (Cons x xs)
  define f where "f = (\<lambda>r. if dlv_id r = due_id x then record_row (es k) (attempt net config (es k) x) r else r)"
  let ?d = "d\<lparr>t_deliveries := map f (t_deliveries d)\<rparr>"
  have "record_delivery (es k) (due_id x) (attempt net config (es k) x) d = Inr ((), ?d)"
    using Cons.prems(2) by (auto simp: record_delivery_def update_where_def f_def)
  moreover have "in_i32 (dlv_attempts r + 1)" if r: "r \<in> set (t_deliveries ?d)" "dlv_id r \<in> due_id ` set xs" for r
  proof -
    obtain s where s: "s \<in> set (t_deliveries d)" "r = f s" using r(1) by auto
    then have "r = s" using r(2) Cons.prems(1) by (auto simp: f_def split: if_splits)
    then show ?thesis using Cons.prems(2) s r(2) by simp
  qed
  ultimately show ?case using Cons.IH [of ?d "k + 1"] Cons.prems(1) by (simp add: f_def comp_def)
next
  case Nil
  have "outcomes_row net config es k [] = id" by (rule ext) simp
  then show ?case by simp
qed

text \<open>Under the schema every claimed row is handed out exactly once.\<close>

lemma due_of_one:
  assumes "schema_ok d" and "r \<in> set (t_deliveries d)"
  obtains x where "due_of d r = [x]" "due_id x = dlv_id r" "due_attempts x = dlv_attempts r"
proof -
  have "dlv_endpoint_id r \<in> whe_id ` set (t_endpoints d)" "dlv_event_seq r \<in> ev_seq ` set (t_events d)"
    using assms by (auto simp: schema_ok_def deliveries_table_def)
  then have "endpoint_of d r \<noteq> None" "select_one (\<lambda>v. ev_seq v = dlv_event_seq r) (t_events d) \<noteq> None"
    unfolding endpoint_of_def select_one_None by auto
  then have "\<exists>x. due_of d r = [x] \<and> due_id x = dlv_id r \<and> due_attempts x = dlv_attempts r"
    by (auto simp: due_of_def)
  then show ?thesis using that by blast
qed

lemma due_of_all:
  assumes "schema_ok d" and "set rs \<subseteq> set (t_deliveries d)"
  shows "map due_id (concat (map (due_of d) rs)) = map dlv_id rs"
    and "x \<in> set (concat (map (due_of d) rs)) \<Longrightarrow> \<exists>r \<in> set rs. dlv_id r = due_id x \<and> due_of d r = [x]"
proof -
  have "map due_id (concat (map (due_of d) rs)) = map dlv_id rs
    \<and> (x \<in> set (concat (map (due_of d) rs)) \<longrightarrow> (\<exists>r \<in> set rs. dlv_id r = due_id x \<and> due_of d r = [x]))"
    using assms(2)
  proof (induction rs)
    case (Cons r rs)
    obtain y where "due_of d r = [y]" "due_id y = dlv_id r" "due_attempts y = dlv_attempts r"
      using due_of_one [OF assms(1)] Cons.prems by auto
    then show ?case using Cons by auto
  qed simp
  then show "map due_id (concat (map (due_of d) rs)) = map dlv_id rs"
    and "x \<in> set (concat (map (due_of d) rs)) \<Longrightarrow> \<exists>r \<in> set rs. dlv_id r = due_id x \<and> due_of d r = [x]"
    by simp_all
qed

lemma distinct_claimed: "schema_ok d \<Longrightarrow> distinct (claimed_ids e limit d)"
  by (auto simp: claimed_ids_def top_by_def schema_ok_def deliveries_table_def distinct_map
      intro!: distinct_take dest!: in_set_takeD intro: inj_on_subset)

lemma claim_due_rows:
  assumes "schema_ok d" and "claim_due_deliveries e limit lease d = Inr (due, d1)"
  shows "distinct (map due_id due) \<and> due_id ` set due = set (claimed_ids e limit d)
    \<and> length due = length (claimed_ids e limit d)
    \<and> (\<forall>x \<in> set due. \<exists>r \<in> set (t_deliveries d). dlv_id r = due_id x \<and> due_of d r = [x])
    \<and> t_deliveries d1 = update_where (\<lambda>r. dlv_id r \<in> set (claimed_ids e limit d))
          (\<lambda>r. r\<lparr>dlv_next_attempt_at := env_now e + seconds lease\<rparr>) (t_deliveries d)"
proof (cases "claimed_ids e limit d = []")
  case True
  then show ?thesis using assms(2)
    by (auto simp: claim_due_deliveries_def Let_def update_where_def split: if_splits)
next
  case False
  let ?ids = "claimed_ids e limit d"
  let ?rows = "sort_key dlv_event_seq (filter (\<lambda>r. dlv_id r \<in> set ?ids) (t_deliveries d1))"
  have d1: "d1 = d\<lparr>t_deliveries := update_where (\<lambda>r. dlv_id r \<in> set ?ids)
        (\<lambda>r. r\<lparr>dlv_next_attempt_at := env_now e + seconds lease\<rparr>) (t_deliveries d)\<rparr>"
    and due: "due = concat (map (due_of d1) ?rows)"
    using assms(2) False by (auto simp: claim_due_deliveries_def Let_def split: if_splits)
  have rows: "set ?rows \<subseteq> set (t_deliveries d1)" by auto
  note all = due_of_all [OF claim_op.op_schema [OF assms] rows, folded due]
  have "map dlv_id (t_deliveries d1) = map dlv_id (t_deliveries d)" by (simp add: d1 map_update_where_same)
  then have dl: "distinct (map dlv_id (t_deliveries d1))" "dlv_id ` set (t_deliveries d1) = dlv_id ` set (t_deliveries d)"
    using assms(1) by (auto simp: schema_ok_def deliveries_table_def simp flip: set_map)
  have dd: "distinct (map due_id due)"
    unfolding all(1) using dl(1) by (auto simp: distinct_map intro: inj_on_subset)
  have "set ?ids \<subseteq> dlv_id ` set (t_deliveries d)" using claimed_ids_claimable by fastforce
  then have si: "due_id ` set due = set ?ids"
    using arg_cong [OF all(1), of set] dl(2) by (auto simp: image_iff)
  have "length due = length ?ids"
    using dd si distinct_claimed [OF assms(1)] by (metis distinct_card length_map set_map)
  moreover have "due_of d1 (r\<lparr>dlv_next_attempt_at := t\<rparr>) = due_of d r" "due_of d1 r = due_of d r" for r t
    by (simp_all add: d1 due_of_def endpoint_of_def cong: option.case_cong) (simp split: option.splits)?
  then have "\<exists>r \<in> set (t_deliveries d). dlv_id r = due_id x \<and> due_of d r = [x]" if "x \<in> set due" for x
    using all(2) [OF that] by (fastforce simp: d1 set_update_where)
  ultimately show ?thesis using dd si by (simp add: d1)
qed

lemma backoff_exact:
  assumes "m \<le> duration_max" and "1 \<le> n"
  shows "backoff n base m = min (base * 2 ^ min (nat n - 1) 20) m"
proof -
  have "nat (min (max n 1 - 1) 20) = min (nat n - 1) 20" using assms(2) by (auto simp: min_def max_def)
  moreover have "(2 :: nat) ^ min (nat n - 1) 20 \<le> 2 ^ 20" by (rule power_increasing) simp_all
  then have "min (2 ^ min (nat n - 1) 20) (2 ^ 32 - 1 :: nat) = 2 ^ min (nat n - 1) 20" by simp
  ultimately show ?thesis using assms(1) by (simp add: backoff_def dur_saturating_mul_def Let_def min.assoc min.absorb2)
qed

text \<open>What an attempt makes of a claimed row, given what came back from the destination.\<close>

definition unsettled :: "delivery_config \<Rightarrow> env \<Rightarrow> int option \<Rightarrow> string \<Rightarrow> delivery_row \<Rightarrow> delivery_row \<Rightarrow> bool" where
  "unsettled config e status error r r' \<longleftrightarrow>
     dlv_last_status r' = status \<and> dlv_last_error r' = Some error \<and> dlv_delivered_at r' = dlv_delivered_at r
     \<and> (if dc_max_attempts config \<le> dlv_attempts r' then dlv_status r' = ''failed''
        else dlv_status r' = ''pending''
          \<and> dlv_next_attempt_at r' = env_now e
              + int (min (dc_base_backoff config * 2 ^ min (nat (dlv_attempts r)) 20) (dc_max_backoff config)) div 1000)"

definition settled ::
  "delivery_config \<Rightarrow> env \<Rightarrow> string + u16 \<Rightarrow> delivery_row \<Rightarrow> delivery_row \<Rightarrow> bool" where
  "settled config e answer r r' \<longleftrightarrow>
     dlv_id r' = dlv_id r \<and> dlv_event_seq r' = dlv_event_seq r \<and> dlv_endpoint_id r' = dlv_endpoint_id r
     \<and> dlv_created_at r' = dlv_created_at r \<and> dlv_attempts r' = dlv_attempts r + 1
     \<and> (case answer of
          Inl message \<Rightarrow> unsettled config e None message r r'
        | Inr st \<Rightarrow>
            if unat st div 100 = 2
            then dlv_status r' = ''delivered'' \<and> dlv_last_status r' = Some (uint st)
              \<and> dlv_last_error r' = None \<and> dlv_delivered_at r' = Some (env_now e)
            else unsettled config e (Some (uint st)) (''http '' @ nat_digits (unat st)) r r')"

lemma two_hundreds: "200 \<le> st \<and> st < 300 \<longleftrightarrow> unat st div 100 = 2" for st :: u16
  by (auto simp: word_le_nat_alt word_less_nat_alt)

lemma record_unsettled:
  assumes "dlv_status r = ''pending''" and "0 \<le> dlv_attempts r" and "a = dlv_attempts r + 1"
    and "\<forall>t \<le> dc_max_backoff config. net_from_std net t = Some (int t div 1000)"
    and "dc_max_backoff config \<le> duration_max"
  shows "unsettled config e status err r (record_row e (failure net config e a status err) r)"
proof -
  have "backoff a (dc_base_backoff config) (dc_max_backoff config)
      = min (dc_base_backoff config * 2 ^ min (nat (dlv_attempts r)) 20) (dc_max_backoff config)"
    using backoff_exact [OF assms(5), of a] assms(2,3) by (simp add: nat_add_distrib)
  then show ?thesis using assms by (auto simp: unsettled_def failure_def record_row_def Let_def)
qed

lemma record_settled:
  assumes "dlv_status r = ''pending''" and "due_attempts x = dlv_attempts r"
    and "0 \<le> dlv_attempts r" and "dlv_attempts r < 2 ^ 31 - 1"
    and "\<forall>t \<le> dc_max_backoff config. net_from_std net t = Some (int t div 1000)"
    and "dc_max_backoff config \<le> duration_max"
  shows "settled config e (send net config e x) r (record_row e (attempt net config e x) r)"
proof -
  have w: "wrap_i32 (due_attempts x + 1) = dlv_attempts r + 1"
    using assms(2-4) by (simp add: wrap_i32_def)
  note u = record_unsettled [OF assms(1,3) refl assms(5,6)]
  have same: "dlv_event_seq (record_row e out r) = dlv_event_seq r"
    "dlv_endpoint_id (record_row e out r) = dlv_endpoint_id r"
    "dlv_created_at (record_row e out r) = dlv_created_at r" for out
    by (simp_all add: record_row_def split: delivery_outcome.split)
  show ?thesis
  proof (cases "send net config e x")
    case (Inl msg)
    then show ?thesis using u same by (simp add: settled_def attempt_def w)
  next
    case (Inr st)
    then show ?thesis using u same unfolding settled_def attempt_def two_hundreds
      by (simp add: w) (simp add: record_row_def)
  qed
qed

section \<open>Properties\<close>

text \<open>
  C25. In production mode a delivery contacts only a checked destination, and what it sends verifies:
  every request goes over https, without credentials or redirects, to an address outside the special
  purpose blocks, and a receiver that knows the endpoint's secret accepts its signature header for
  exactly the body sent, within the tolerance of its clock.
\<close>

theorem request_guarded_and_signed:
  assumes "build_request net config e x = Inr rq" and "\<not> dc_allow_private config"
    and "hex_codec (net_hex net) dec" and "in_i64 (timestamp_of e)" and "in_i64 tol"
    and "\<bar>now - timestamp_of e\<bar> \<le> tol"
  shows "url_scheme (rq_url rq) = ''https'' \<and> url_username (rq_url rq) = [] \<and> url_password (rq_url rq) = None
    \<and> rq_redirects rq = 0 \<and> \<not> special_use (sa_ip (rq_addr rq))
    \<and> (\<exists>sig. map_of (rq_headers rq) ''Safrod-Signature'' = Some sig
         \<and> verify (net_hmac net) dec (due_secret x) sig (rq_body rq) now tol = Inr ())"
proof -
  note b = build_request_Inr [OF assms(1)]
  have v: "validate_url (net_url_parse net) (due_url x) False = Inr (rq_url rq)"
    and r: "resolve_checked (net_lookup net) (rq_url rq) False = Inr (rq_addr rq)" using b assms(2) by auto
  have "is_public_ip (sa_ip (rq_addr rq))" using resolve_checked_Inr [OF r] by auto
  then have "\<not> special_use (sa_ip (rq_addr rq))" by (simp add: public_blocks)
  moreover have "map_of (rq_headers rq) ''Safrod-Signature''
      = Some (sign (net_hmac net) (net_hex net) (due_secret x) (timestamp_of e) (rq_body rq))"
    using b by (simp add: SIGNATURE_HEADER_def)
  ultimately show ?thesis using validate_url_Inr [OF v] b verify_signed [OF assms(3-6)] by simp
qed

text \<open>A destination that answers 200.\<close>

definition sample_net :: net where
  "sample_net = \<lparr>net_url_parse = (\<lambda>_. Some \<lparr>url_scheme = ''https'', url_username = [], url_password = None,
       url_host_str = Some ''93.184.216.34'', url_port_or_known_default = Some 443\<rparr>),
     net_lookup = (\<lambda>_ p. Some [\<lparr>sa_ip = V4 (Ipv4 93 184 216 34), sa_port = p\<rparr>]),
     net_build_error = None, net_to_vec = (\<lambda>_. Inr ''{}''),
     net_hmac = (\<lambda>k m. map (of_nat \<circ> code) (k @ m)), net_hex = bytes_hex,
     net_send = (\<lambda>_. Inr 200), net_from_std = (\<lambda>t. Some (int t div 1000))\<rparr>"

definition sample_due :: due_delivery where
  "sample_due = \<lparr>due_id = ''dlv_1'', due_attempts = 0, due_url = ''https://93.184.216.34/hook'',
     due_secret = ''whsec_test'', due_event_id = ''evt_1'', due_event_type = ''invoice.paid'',
     due_resource_id = ''inv_1'', due_data = JNull, due_simulated = False, due_event_created_at = 0\<rparr>"

lemma sample_request_built: "\<exists>rq. build_request sample_net default_config sample_env x = Inr rq"
proof -
  have "parse_ip (trim_brackets ''93.184.216.34'') = Some (V4 (Ipv4 93 184 216 34))" by code_simp
  moreover have "is_public_v4 (Ipv4 93 184 216 34)" by code_simp
  moreover have "to_ascii_lowercase ''93.184.216.34'' \<noteq> to_ascii_lowercase ''localhost''" by code_simp
  ultimately show ?thesis
    by (simp add: build_request_def validate_url_def check_host_def resolve_checked_def sample_net_def
        sample_due_def default_config_def Let_def)
qed

theorem request_guarded_and_signed_witness:
  "\<exists>rq sig. build_request sample_net default_config sample_env sample_due = Inr rq
     \<and> \<not> special_use (sa_ip (rq_addr rq)) \<and> map_of (rq_headers rq) ''Safrod-Signature'' = Some sig
     \<and> verify (net_hmac sample_net) hex_bytes ''whsec_test'' sig (rq_body rq) (timestamp_of sample_env + 10) 300 = Inr ()"
proof -
  obtain rq where rq: "build_request sample_net default_config sample_env sample_due = Inr rq"
    using sample_request_built by blast
  have "hex_codec (net_hex sample_net) hex_bytes" using plain_hex.hex_codec_axioms by (simp add: sample_net_def)
  from request_guarded_and_signed [OF rq _ this, of 300 "timestamp_of sample_env + 10"] show ?thesis
    using rq by (auto simp: default_config_def in_i64_def timestamp_of_def sample_env_def sample_due_def)
qed

text \<open>
  C26. A pass of the worker settles exactly what it claimed. It returns the number of claimed
  deliveries and leaves every other row alone. A claimed row stands for exactly one delivery, and records
  the answer to sending that at some moment of the pass: on any 2xx status it is delivered then, with that
  status and no error; on any other status, or when no request could be built
  or sent, it keeps the status if there is one and the error, and is failed if its attempts are used up
  and otherwise pending, due again after the capped exponential backoff. Either way it has one more
  attempt. The hypotheses are the schema, attempt counters that are \<open>i32\<close> values with room for one
  more, a maximal backoff a \<open>Duration\<close> can hold and chrono's conversion of it.
\<close>

theorem deliver_due_settles:
  assumes "schema_ok d" and "\<forall>r \<in> set (t_deliveries d). 0 \<le> dlv_attempts r \<and> dlv_attempts r < 2 ^ 31 - 1"
    and "\<forall>t \<le> dc_max_backoff config. net_from_std net t = Some (int t div 1000)"
    and "dc_max_backoff config \<le> duration_max" and "ids = claimed_ids (es 0) 20 d"
  shows "\<exists>d' f. deliver_due net config es d = (Inr (length ids), d') \<and> t_deliveries d' = map f (t_deliveries d)
    \<and> (\<forall>r \<in> set (t_deliveries d).
         if dlv_id r \<in> set ids
         then \<exists>k x. 0 < k \<and> due_of d r = [x] \<and> settled config (es k) (send net config (es k) x) r (f r)
         else f r = r)"
proof -
  let ?lease = "wrap_i64 (int (dc_lease config div 1000000000))"
  obtain due d1 where c: "claim_due_deliveries (es 0) 20 ?lease d = Inr (due, d1)"
    using claim_total [of 20 "es 0" ?lease d] by auto
  note rows = claim_due_rows [OF assms(1) c, folded assms(5)]
  define g where "g = (\<lambda>r :: delivery_row. if dlv_id r \<in> set ids
     then r\<lparr>dlv_next_attempt_at := env_now (es 0) + seconds ?lease\<rparr> else r)"
  have t1: "t_deliveries d1 = map g (t_deliveries d)" using rows by (simp add: update_where_def g_def)
  have g: "dlv_attempts (g r) = dlv_attempts r" "dlv_id (g r) = dlv_id r" "dlv_status (g r) = dlv_status r"
    "dlv_event_seq (g r) = dlv_event_seq r" "dlv_endpoint_id (g r) = dlv_endpoint_id r"
    "dlv_created_at (g r) = dlv_created_at r" "dlv_delivered_at (g r) = dlv_delivered_at r" for r
    by (simp_all add: g_def)
  let ?f = "outcomes_row net config es 1 due \<circ> g"
  have b32: "in_i32 (dlv_attempts r + 1)" if "r \<in> set (t_deliveries d1)" for r
    using assms(2) that unfolding t1 by (auto simp: in_i32_def g)
  have dd: "distinct (map due_id due)" "length due = length ids" using rows by blast+
  then have "deliver_each net config es 1 due d1
      = (Inr (), d1\<lparr>t_deliveries := map (outcomes_row net config es 1 due) (t_deliveries d1)\<rparr>)"
    using b32 by (intro deliver_each_total)
  then have "deliver_each net config es 1 due d1 = (Inr (), d1\<lparr>t_deliveries := map ?f (t_deliveries d)\<rparr>)"
    by (simp add: t1)
  then have run: "deliver_due net config es d = (Inr (length ids), d1\<lparr>t_deliveries := map ?f (t_deliveries d)\<rparr>)"
    using c dd by (simp add: deliver_due_def)
  have "\<exists>k x. 0 < k \<and> due_of d r = [x] \<and> settled config (es k) (send net config (es k) x) r (?f r)" if r: "r \<in> set (t_deliveries d)" and i: "dlv_id r \<in> set ids" for r
  proof -
    have only: "s = r" if "s \<in> set (t_deliveries d)" "dlv_id s = dlv_id r" for s
      using that r assms(1) by (auto simp: schema_ok_def deliveries_table_def intro: distinct_map_eq)
    obtain x where x: "x \<in> set due" "due_id x = dlv_id r" using rows i by (metis imageE)
    then have o: "due_of d r = [x]" using rows only by metis
    then have a: "due_attempts x = dlv_attempts r" by (auto simp: due_of_def split: option.splits)
    have p: "dlv_status r = ''pending''"
      using claimed_ids_claimable [of "dlv_id r" "es 0" 20 d] i only assms(5) by (auto simp: claimable_def)
    obtain j where j: "0 < j" "?f r = record_row (es j) (attempt net config (es j) x) (g r)"
      using outcomes_row_once [OF dd(1) x(1), where r = "g r" and k = 1 and net = net and config = config and es = es] x(2) g(2)
      by (auto simp: Suc_le_eq)
    moreover have "settled config (es j) (send net config (es j) x) (g r)
        (record_row (es j) (attempt net config (es j) x) (g r))"
      using p a g assms(2-4) r by (intro record_settled) simp_all
    then have "settled config (es j) (send net config (es j) x) r (record_row (es j) (attempt net config (es j) x) (g r))"
      by (cases "send net config (es j) x") (simp_all add: settled_def unsettled_def g split: if_splits)
    ultimately show ?thesis using o by metis
  qed
  moreover have "?f r = r" if "dlv_id r \<notin> set ids" for r
    using that rows by (simp add: g_def outcomes_row_other)
  ultimately show ?thesis using run
    by (intro exI [of _ "d1\<lparr>t_deliveries := map ?f (t_deliveries d)\<rparr>"] exI [of _ ?f]) simp
qed

theorem deliver_due_settles_witness:
  "\<exists>d' row. deliver_due sample_net default_config (\<lambda>_. sample_env) sample_queue = (Inr 1, d')
     \<and> t_deliveries d' = [row] \<and> dlv_status row = ''delivered'' \<and> dlv_last_status row = Some 200 \<and> dlv_attempts row = 1"
proof -
  have i: "claimed_ids sample_env 20 sample_queue = [''dlv_1'']"
    by (simp add: claimed_ids_def claimable_def endpoint_of_def sample_queue_def sample_db_def empty_db_def
        sample_env_def select_one_def top_by_def)
  have sent: "send sample_net default_config sample_env x = Inr 200" for x
    using sample_request_built [of x] by (auto simp: send_def) (simp add: sample_net_def)
  obtain r0 where r0: "t_deliveries sample_queue = [r0]" "dlv_id r0 = ''dlv_1''" "dlv_attempts r0 = 0"
    by (simp add: sample_queue_def)
  have "\<exists>d' f. deliver_due sample_net default_config (\<lambda>_. sample_env) sample_queue = (Inr 1, d')
     \<and> t_deliveries d' = [f r0] \<and> (\<exists>x. settled default_config sample_env (send sample_net default_config sample_env x) r0 (f r0))"
    using deliver_due_settles [of sample_queue default_config sample_net "[''dlv_1'']" "\<lambda>_. sample_env"]
      sample_queue_ok i r0
    by (fastforce simp: sample_net_def default_config_def duration_max_def)
  then show ?thesis using r0 by (fastforce simp: settled_def sent)
qed

end
