(* ===== verification/Routes_Account.thy ===== *)
theory Routes_Account
  imports Api_Handler Storage_Projects Storage_Onchain Storage_Sandbox Webhook_Deliver
begin

text \<open>
  The project-facing endpoints outside payments: the account (safrod-api/src/routes/account.rs), webhook
  endpoints and deliveries (webhooks.rs), deposit addresses and transactions (bitcoin.rs) and the health
  checks (health.rs). Random bytes are arguments; a response without a body carries \<open>JNull\<close>.
\<close>

section \<open>account.rs\<close>

definition auth_any :: "'n server \<Rightarrow> headers \<Rightarrow> (auth_context \<Rightarrow> ('n, 'a) handler) \<Rightarrow> ('n, 'a) handler" where
  "auth_any sv headers k = with_db (\<lambda>d. check (authenticate (sv_sha256 sv) d headers) k)"

definition json_strings :: "string list \<Rightarrow> json" where
  "json_strings xs = JArr (map JStr xs)"

definition project_route :: "'n server \<Rightarrow> headers \<Rightarrow> ('n, response) handler" where
  "project_route sv headers =
     auth_any sv headers (\<lambda>auth.
     with_db (\<lambda>d. check (map_error api_of_storage (get_project (ac_project_id auth) d)) (\<lambda>project.
     respond (ok_response (JObj [(''object'', JStr ''project''), (''id'', JStr (prj_id project)),
       (''name'', JStr (prj_name project)), (''network'', JStr (prj_network project)),
       (''created_at'', JTime (prj_created_at project)), (''scopes'', json_strings (ac_scopes auth))])))))"

definition balances_route :: "'n server \<Rightarrow> headers \<Rightarrow> ('n, response) handler" where
  "balances_route sv headers =
     auth_scope sv headers PaymentsRead (\<lambda>auth.
     with_db (\<lambda>d. check (map_error api_of_storage (project_totals (ac_project_id auth) d)) (\<lambda>totals.
     respond (ok_response (JObj [(''object'', JStr ''balances''),
       (''network'', JStr (network_as_str (cfg_network (sv_config sv)))),
       (''ledger'', JObj [
          (''description'', JStr ''Totals from settled records in this project's ledger, not node balances.''),
          (''lightning_received_msat'', JInt (lightning_received_msat totals)),
          (''lightning_sent_msat'', JInt (lightning_sent_msat totals)),
          (''lightning_fees_msat'', JInt (lightning_fees_msat totals)),
          (''lightning_in_flight_msat'', JInt (lightning_in_flight_msat totals)),
          (''onchain_confirmed_sat'', JInt (onchain_confirmed_sat totals)),
          (''onchain_unconfirmed_sat'', JInt (onchain_unconfirmed_sat totals)),
          (''simulated'', JBool False)]),
       (''simulated_fiat'', JObj [
          (''description'', JStr ''Synthetic sandbox balances. Not real money.''),
          (''balances'', JArr (map (\<lambda>(c, m). JObj [(''currency'', JStr c), (''minor_units'', JInt m)])
             (sandbox_balances (ac_project_id auth) d))),
          (''simulated'', JBool True)])])))))"

definition json_u64 :: "u64 \<Rightarrow> json" where
  "json_u64 w = JInt (uint w)"

definition json_node_info :: "node_info \<Rightarrow> json" where
  "json_node_info i = JObj [(''node_id'', JStr (nif_node_id i)), (''network'', JStr (nif_network i)),
     (''listening_addresses'', json_strings (nif_listening_addresses i)),
     (''best_block_height'', JInt (uint (nif_best_block_height i))), (''running'', JBool (nif_running i))]"

definition json_channel :: "channel_info \<Rightarrow> json" where
  "json_channel c = JObj [(''channel_id'', JStr (chn_channel_id c)), (''peer_node_id'', JStr (chn_peer_node_id c)),
     (''capacity_sat'', json_u64 (chn_capacity_sat c)),
     (''outbound_capacity_msat'', json_u64 (chn_outbound_capacity_msat c)),
     (''inbound_capacity_msat'', json_u64 (chn_inbound_capacity_msat c)),
     (''is_ready'', JBool (chn_is_ready c)), (''is_usable'', JBool (chn_is_usable c))]"

definition json_node_balances :: "node_balances \<Rightarrow> json" where
  "json_node_balances b = JObj [(''onchain_total_sat'', json_u64 (nob_onchain_total_sat b)),
     (''onchain_spendable_sat'', json_u64 (nob_onchain_spendable_sat b)),
     (''lightning_total_sat'', json_u64 (nob_lightning_total_sat b)),
     (''outbound_capacity_msat'', json_u64 (nob_outbound_capacity_msat b)),
     (''inbound_capacity_msat'', json_u64 (nob_inbound_capacity_msat b))]"

definition core_height :: "'n server \<Rightarrow> u32 option" where
  "core_height sv =
     (case sv_rpc sv of
        None \<Rightarrow> None
      | Some rpc \<Rightarrow> (case block_count (sv_bitcoind sv) rpc of Inl _ \<Rightarrow> None | Inr h \<Rightarrow> Some h))"

definition node_route :: "'n server \<Rightarrow> headers \<Rightarrow> ('n, response) handler" where
  "node_route sv headers =
     auth_scope sv headers PaymentsRead (\<lambda>_.
     with_node (\<lambda>n. respond (ok_response (JObj [(''object'', JStr ''node''),
       (''info'', json_node_info (be_info (sv_backend sv) n)),
       (''channels'', JArr (map json_channel (be_channels (sv_backend sv) n))),
       (''balances'', json_node_balances (be_balances (sv_backend sv) n)),
       (''bitcoin_core_height'', jopt (\<lambda>h. JInt (uint h)) (core_height sv))]))))"

record event_query =
  eq_after :: "int option"
  eq_kind :: "string option"
  eq_limit :: "int option"

definition event_page :: "int \<Rightarrow> event_row list \<Rightarrow> json" where
  "event_page limit rows =
     (let has_more = int (length rows) > limit;
          rows = take (nat limit) rows;
          next_after = (if has_more then map_option ev_seq (if rows = [] then None else Some (last rows)) else None)
      in JObj [(''object'', JStr ''list''), (''data'', JArr (map json_event rows)),
               (''has_more'', JBool has_more), (''next_after'', jopt JInt next_after)])"

definition list_events_route :: "'n server \<Rightarrow> headers \<Rightarrow> event_query option \<Rightarrow> ('n, response) handler" where
  "list_events_route sv headers q =
     auth_scope sv headers EventsRead (\<lambda>auth.
     check (query q) (\<lambda>q.
     check (page_from_query (eq_limit q)) (\<lambda>page.
     with_db (\<lambda>d. check (map_error api_of_storage
         (list_events (ac_project_id auth) (eq_after q) (eq_kind q) (page_fetch page) d)) (\<lambda>rows.
     respond (ok_response (event_page page rows)))))))"

definition get_event_route :: "'n server \<Rightarrow> headers \<Rightarrow> string \<Rightarrow> ('n, response) handler" where
  "get_event_route sv headers i =
     auth_scope sv headers EventsRead (\<lambda>auth.
     with_db (\<lambda>d. check (map_error (named_error ''event'') (get_event (ac_project_id auth) i d)) (\<lambda>event.
     respond (ok_response (json_event event)))))"

section \<open>webhooks.rs\<close>

definition json_list :: "json list \<Rightarrow> json" where
  "json_list rows = JObj [(''object'', JStr ''list''), (''data'', JArr rows), (''has_more'', JBool False),
     (''next_cursor'', JNull)]"

definition create_endpoint :: "'n server \<Rightarrow> env \<Rightarrow> u8 list \<Rightarrow> headers \<Rightarrow> string body \<Rightarrow> ('n, response) handler" where
  "create_endpoint sv e raw headers body =
     auth_scope sv headers WebhooksWrite (\<lambda>auth.
     check (json_parse body) (\<lambda>url.
     unless (2048 < length url) (api_validation ''url is too long'')
     (check (map_error (\<lambda>err. api_validation (''webhook url rejected: '' @ guard_text err))
         (validate_url (sv_url_parse sv) url (cfg_webhook_allow_private (sv_config sv)))) (\<lambda>_.
      let secret = ''whsec_'' @ sv_hex sv raw
      in andthen (db_call api_of_storage (create_webhook_endpoint e (ac_project_id auth) url secret)) (\<lambda>endpoint.
         respond (created_response True (json_and (json_endpoint endpoint)
           [(''secret'', JStr secret), (''note'', JStr ''The signing secret is shown once.'')])))))))"

definition list_endpoints :: "'n server \<Rightarrow> headers \<Rightarrow> ('n, response) handler" where
  "list_endpoints sv headers =
     auth_scope sv headers WebhooksWrite (\<lambda>auth.
     with_db (\<lambda>d. respond (ok_response (json_list (map json_endpoint (list_webhook_endpoints (ac_project_id auth) d))))))"

definition no_content :: response where
  "no_content = (204, JNull)"

definition disable_endpoint :: "'n server \<Rightarrow> headers \<Rightarrow> string \<Rightarrow> ('n, response) handler" where
  "disable_endpoint sv headers i =
     auth_scope sv headers WebhooksWrite (\<lambda>auth.
     andthen (db_call (named_error ''webhook endpoint'') (disable_webhook_endpoint (ac_project_id auth) i)) (\<lambda>_.
     respond no_content))"

definition test_endpoint :: "'n server \<Rightarrow> env \<Rightarrow> headers \<Rightarrow> string \<Rightarrow> ('n, response) handler" where
  "test_endpoint sv e headers i =
     auth_scope sv headers WebhooksWrite (\<lambda>auth.
     with_db (\<lambda>d.
     unless (\<not> list_ex (\<lambda>w. whe_id w = i \<and> whe_enabled w) (list_webhook_endpoints (ac_project_id auth) d))
       (api_not_found ''webhook endpoint'')
     (andthen (db_call api_of_storage (emit_standalone e (ac_project_id auth) ''webhook.test'' i
         (JObj [(''endpoint_id'', JStr i)]) False)) (\<lambda>event.
      respond (created_response True (json_event event))))))"

definition list_deliveries_route :: "'n server \<Rightarrow> headers \<Rightarrow> list_query option \<Rightarrow> ('n, response) handler" where
  "list_deliveries_route sv headers q =
     auth_scope sv headers WebhooksWrite (\<lambda>auth.
     check (query q) (\<lambda>q.
     check (page_from_query (lq_limit q)) (\<lambda>page.
     with_db (\<lambda>d. check (map_error api_of_storage (list_deliveries (ac_project_id auth) (page_fetch page) d)) (\<lambda>rows.
     respond (ok_response (page_wrap page rows json_delivery dlv_id)))))))"

definition replay_delivery_route :: "'n server \<Rightarrow> env \<Rightarrow> headers \<Rightarrow> string \<Rightarrow> ('n, response) handler" where
  "replay_delivery_route sv e headers i =
     auth_scope sv headers WebhooksWrite (\<lambda>auth.
     andthen (db_call (named_error ''delivery'') (replay_delivery e (ac_project_id auth) i)) (\<lambda>_.
     respond (ok_response (JObj [(''id'', JStr i), (''status'', JStr ''pending''),
       (''note'', JStr ''Receivers must deduplicate on the event id.'')]))))"

section \<open>bitcoin.rs\<close>

record address_request =
  ar_label :: string
  ar_required_confirmations :: "int option"

definition create_address_route :: "'n server \<Rightarrow> env \<Rightarrow> headers \<Rightarrow> address_request body \<Rightarrow> ('n, response) handler" where
  "create_address_route sv e headers body =
     auth_scope sv headers BitcoinWrite (\<lambda>auth.
     check (json_parse_or_default \<lparr>ar_label = [], ar_required_confirmations = None\<rparr> body) (\<lambda>req.
     unless (100 < length (ar_label req)) (api_validation ''label is too long'')
     (let confirmations = (case ar_required_confirmations req of Some c \<Rightarrow> c
                             | None \<Rightarrow> cfg_default_confirmations (sv_config sv))
      in unless (\<not> (1 \<le> confirmations \<and> confirmations \<le> 100))
           (api_validation ''required_confirmations must be between 1 and 100'')
         (andthen (node_call (be_new_onchain_address (sv_backend sv))) (\<lambda>address.
          andthen (db_call api_of_storage
            (create_address e (ac_project_id auth) address (ar_label req) confirmations)) (\<lambda>record.
          respond (created_response True (json_address record))))))))"

definition get_transaction :: "'n server \<Rightarrow> headers \<Rightarrow> string \<Rightarrow> ('n, response) handler" where
  "get_transaction sv headers raw =
     auth_scope sv headers BitcoinRead (\<lambda>auth.
     check (route_id TransactionId raw ''transaction'') (\<lambda>i.
     with_db (\<lambda>d.
     check (map_error (named_error ''transaction'') (get_onchain_transaction (ac_project_id auth) i d)) (\<lambda>tx.
     check (map_error api_of_storage (address_for_transaction (txn_address_id tx) d)) (\<lambda>address.
     respond (ok_response (json_onchain_tx tx address)))))))"

fun with_addresses :: "db \<Rightarrow> transaction_row list \<Rightarrow> storage_error + (transaction_row \<times> string) list" where
  "with_addresses d [] = Inr []"
| "with_addresses d (tx # txs) =
     (case address_for_transaction (txn_address_id tx) d of
        Inl err \<Rightarrow> Inl err
      | Inr address \<Rightarrow>
          (case with_addresses d txs of Inl err \<Rightarrow> Inl err | Inr rest \<Rightarrow> Inr ((tx, address) # rest)))"

definition list_transactions :: "'n server \<Rightarrow> headers \<Rightarrow> list_query option \<Rightarrow> ('n, response) handler" where
  "list_transactions sv headers q =
     auth_scope sv headers BitcoinRead (\<lambda>auth.
     check (query q) (\<lambda>q.
     check (page_from_query (lq_limit q)) (\<lambda>page.
     with_db (\<lambda>d.
     check (map_error api_of_storage (list_onchain_transactions (ac_project_id auth) (page_fetch page) d)) (\<lambda>rows.
     check (map_error api_of_storage (with_addresses d rows)) (\<lambda>data.
     respond (ok_response (page_wrap page data (\<lambda>(tx, address). json_onchain_tx tx address)
       (\<lambda>(tx, _). txn_id tx)))))))))"

section \<open>health.rs\<close>

definition healthz :: response where
  "healthz = (200, JObj [(''status'', JStr ''ok'')])"

fun core_chain_name :: "network \<Rightarrow> string" where
  "core_chain_name Regtest = ''regtest''"
| "core_chain_name Signet = ''signet''"
| "core_chain_name Testnet = ''test''"
| "core_chain_name Bitcoin = ''main''"

text \<open>Whether the database answers is given; so is whether the thread asking the node returned.\<close>

definition readyz :: "'n server \<Rightarrow> bool \<Rightarrow> bool \<Rightarrow> 'n \<Rightarrow> response" where
  "readyz sv database joined n =
     (let node = (joined \<and> nif_running (be_info (sv_backend sv) n));
          bitcoin = (case sv_rpc sv of
                       None \<Rightarrow> True
                     | Some rpc \<Rightarrow> chain (sv_bitcoind sv) rpc = Inr (core_chain_name (cfg_network (sv_config sv))));
          ready = (database \<and> node \<and> bitcoin)
      in (if ready then 200 else 503,
          JObj [(''status'', JStr (if ready then ''ready'' else ''not_ready'')),
            (''network'', JStr (network_as_str (cfg_network (sv_config sv)))),
            (''checks'', JObj [(''database'', JBool database), (''lightning_node'', JBool node),
               (''bitcoin_core'', JBool bitcoin)])]))"

end
