(* ===== verification/Routes_Admin.thy ===== *)
theory Routes_Admin
  imports Routes_Account
begin

text \<open>
  The operator endpoints (safrod-api/src/routes/admin.rs): projects and their API keys, channels and the
  regtest conveniences, all behind the admin token.
\<close>

definition admin_only :: "'n server \<Rightarrow> headers \<Rightarrow> ('n, 'a) handler \<Rightarrow> ('n, 'a) handler" where
  "admin_only sv headers k = check (require_admin (sv_sha256 sv) (sv_config sv) headers) (\<lambda>_. k)"

record new_key =
  nk_label :: "string option"
  nk_scopes :: "string list option"

fun key_label_for :: "network \<Rightarrow> string" where
  "key_label_for Bitcoin = ''live''"
| "key_label_for _ = ''test''"

fun scope_names :: "string list \<Rightarrow> api_error + string list" where
  "scope_names [] = Inr []"
| "scope_names (s # ss) =
     (case scope_from_str s of
        Inl _ \<Rightarrow> Inl (api_validation (''unknown scope '' @ s))
      | Inr sc \<Rightarrow> (case scope_names ss of Inl err \<Rightarrow> Inl err | Inr rest \<Rightarrow> Inr (scope_as_str sc # rest)))"

definition parse_scopes :: "string list option \<Rightarrow> api_error + string list" where
  "parse_scopes requested =
     (case requested of
        None \<Rightarrow> Inr (map scope_as_str scope_ALL)
      | Some list \<Rightarrow> if list = [] then Inl (api_validation ''scopes must not be empty'') else scope_names list)"

definition fresh_key :: "'n server \<Rightarrow> u8 list \<Rightarrow> generated_key" where
  "fresh_key sv bytes = generate (sv_sha256 sv) (sv_hex sv) bytes (key_label_for (cfg_network (sv_config sv)))"

definition create_project_route :: "'n server \<Rightarrow> env \<Rightarrow> u8 list \<Rightarrow> headers \<Rightarrow> string body \<Rightarrow> ('n, response) handler" where
  "create_project_route sv e bytes headers body =
     admin_only sv headers (
     check (json_parse body) (\<lambda>raw.
     let name = trim raw
     in unless (name = [] \<or> 100 < length name) (api_validation ''name must be 1 to 100 characters'')
     (andthen (db_call api_of_storage (create_project e name (network_as_str (cfg_network (sv_config sv))))) (\<lambda>project.
      let key = fresh_key sv bytes
      in check (parse_scopes None) (\<lambda>scopes.
      andthen (db_call api_of_storage (create_api_key e (prj_id project) ''default'' scopes key)) (\<lambda>record.
      respond (201, JObj [
        (''project'', JObj [(''object'', JStr ''project''), (''id'', JStr (prj_id project)),
           (''name'', JStr (prj_name project)), (''network'', JStr (prj_network project)),
           (''created_at'', JTime (prj_created_at project))]),
        (''api_key'', JObj [(''id'', JStr (key_id record)), (''secret'', JStr (gk_secret key)),
           (''scopes'', json_strings (key_scopes record)),
           (''note'', JStr ''The secret is shown once and cannot be retrieved again.'')])])))))))"

definition create_key_route :: "'n server \<Rightarrow> env \<Rightarrow> u8 list \<Rightarrow> headers \<Rightarrow> string \<Rightarrow> new_key body \<Rightarrow> ('n, response) handler" where
  "create_key_route sv e bytes headers project_id body =
     admin_only sv headers (
     check (json_parse_or_default \<lparr>nk_label = None, nk_scopes = None\<rparr> body) (\<lambda>req.
     with_db (\<lambda>d. check (map_error api_of_storage (get_project project_id d)) (\<lambda>_.
     check (parse_scopes (nk_scopes req)) (\<lambda>scopes.
     let label = (case nk_label req of Some l \<Rightarrow> l | None \<Rightarrow> ''api key'');
         key = fresh_key sv bytes
     in andthen (db_call api_of_storage (create_api_key e project_id label scopes key)) (\<lambda>record.
        respond (201, JObj [(''object'', JStr ''api_key''), (''id'', JStr (key_id record)),
          (''label'', JStr (key_label record)), (''prefix'', JStr (key_prefix record)),
          (''scopes'', json_strings (key_scopes record)), (''secret'', JStr (gk_secret key)),
          (''created_at'', JTime (key_created_at record))])))))))"

definition json_key :: "api_key_row \<Rightarrow> json" where
  "json_key k = JObj [(''object'', JStr ''api_key''), (''id'', JStr (key_id k)), (''label'', JStr (key_label k)),
     (''prefix'', JStr (key_prefix k)), (''scopes'', json_strings (key_scopes k)),
     (''revoked_at'', jopt JTime (key_revoked_at k)), (''created_at'', JTime (key_created_at k))]"

definition list_keys :: "'n server \<Rightarrow> headers \<Rightarrow> string \<Rightarrow> ('n, response) handler" where
  "list_keys sv headers project_id =
     admin_only sv headers (
     with_db (\<lambda>d. respond (ok_response (json_list (map json_key (list_api_keys project_id d))))))"

definition revoke_key :: "'n server \<Rightarrow> env \<Rightarrow> headers \<Rightarrow> string \<Rightarrow> string \<Rightarrow> ('n, response) handler" where
  "revoke_key sv e headers project_id i =
     admin_only sv headers (
     andthen (db_call api_of_storage (revoke_api_key e project_id i)) (\<lambda>_. respond no_content))"

definition require_dev :: "'n server \<Rightarrow> api_error + unit" where
  "require_dev sv =
     (if cfg_enable_dev_endpoints (sv_config sv) \<and> cfg_network (sv_config sv) = Regtest then Inr ()
      else Inl (api_not_found ''endpoint''))"

definition mine :: "'n server \<Rightarrow> headers \<Rightarrow> u32 body \<Rightarrow> ('n, response) handler" where
  "mine sv headers body =
     admin_only sv headers (
     check (require_dev sv) (\<lambda>_.
     check (json_parse body) (\<lambda>blocks.
     unless (blocks = 0 \<or> 200 < blocks) (api_validation ''blocks must be between 1 and 200'')
     (check (case sv_rpc sv of Some rpc \<Rightarrow> Inr rpc
               | None \<Rightarrow> Inl (api_unavailable ''bitcoin core is not configured'')) (\<lambda>rpc.
      andthen (node_call (be_new_onchain_address (sv_backend sv))) (\<lambda>address.
      check (map_error (\<lambda>_. api_unavailable ''bitcoin core rejected the request'')
          (generate_to_address (sv_bitcoind sv) rpc blocks address)) (\<lambda>hashes.
      respond (ok_response (JObj [(''mined'', JInt (int (length hashes))), (''address'', JStr address)])))))))))"

definition dev_status :: "'n server \<Rightarrow> headers \<Rightarrow> ('n, response) handler" where
  "dev_status sv headers =
     admin_only sv headers (
     check (require_dev sv) (\<lambda>_.
     respond (ok_response (JObj [(''network'', JStr (network_as_str (cfg_network (sv_config sv)))),
       (''block_height'', jopt (\<lambda>h. JInt (uint h)) (core_height sv))]))))"

record channel_request =
  cr_peer_node_id :: string
  cr_peer_address :: string
  cr_capacity_sat :: u64
  cr_push_msat :: "u64 option"

definition open_channel :: "'n server \<Rightarrow> headers \<Rightarrow> channel_request body \<Rightarrow> ('n, response) handler" where
  "open_channel sv headers body =
     admin_only sv headers (
     check (json_parse body) (\<lambda>req.
     unless (cr_capacity_sat req < 20000 \<or> 16777215 < cr_capacity_sat req)
       (api_validation ''capacity_sat must be between 20000 and 16777215'')
     (unless (case cr_push_msat req of None \<Rightarrow> False | Some p \<Rightarrow> saturating_mul (cr_capacity_sat req) 1000 \<le> p)
       (api_validation ''push_msat must be below the channel capacity'')
     (andthen (node_call (\<lambda>n. be_open_channel (sv_backend sv) n (cr_peer_node_id req) (cr_peer_address req)
         (cr_capacity_sat req) (cr_push_msat req))) (\<lambda>channel_id.
      respond (202, JObj [(''user_channel_id'', JStr channel_id), (''status'', JStr ''funding_broadcast'')]))))))"

end
