(* ===== verification/Routes_Lightning.thy ===== *)
theory Routes_Lightning
  imports Api_Handler Storage_Invoices
begin

text \<open>
  The Lightning endpoints (safrod-api/src/routes/lightning.rs): invoices and payments.
\<close>

definition MAX_INVOICE_EXPIRY_SECS :: u32 where
  "MAX_INVOICE_EXPIRY_SECS = 7 * 24 * 3600"

definition MAX_DESCRIPTION_BYTES :: nat where
  "MAX_DESCRIPTION_BYTES = 639"

record invoice_request =
  ir_amount_msat :: "u64 option"
  ir_amount_sat :: "u64 option"
  ir_description :: string
  ir_expiry_secs :: "u32 option"
  ir_metadata :: "json option"

text \<open>The display form of the one error \<open>Satoshis::from_request\<close> gives.\<close>

fun core_text :: "core_error \<Rightarrow> string" where
  "core_text (InvalidAmount s) = ''invalid amount: '' @ s"
| "core_text (UnknownNetwork s) = ''unknown network: '' @ s"
| "core_text (NetworkMismatch what expected found) = what @ '' is for '' @ found @ '', but this node runs on '' @ expected"
| "core_text (IllegalTransition s t) = ''illegal state transition '' @ s @ '' -> '' @ t"
| "core_text InvalidId = ''invalid identifier''"
| "core_text InvalidApiKey = ''invalid api key''"
| "core_text (UnknownScope s) = ''unknown scope: '' @ s"

definition invoice_amount :: "invoice_request \<Rightarrow> api_error + u64" where
  "invoice_amount req =
     (case (ir_amount_msat req, ir_amount_sat req) of
        (Some _, Some _) \<Rightarrow> Inl (api_validation ''provide either amount_msat or amount_sat, not both'')
      | (None, None) \<Rightarrow> Inl (api_validation ''amount_msat or amount_sat is required'')
      | (None, Some sats) \<Rightarrow>
          (case sat_from_request sats of
             Inl err \<Rightarrow> Inl (api_validation (core_text err))
           | Inr s \<Rightarrow>
               (case to_msat s of
                  Some m \<Rightarrow> Inr (msat m)
                | None \<Rightarrow> Inl (api_validation ''amount is out of range'')))
      | (Some m, None) \<Rightarrow>
          if m = 0 \<or> MAX_SATS < sat (to_sats_floor (Millisatoshis m))
          then Inl (api_validation ''amount_msat is out of range'')
          else Inr m)"

definition metadata :: "(json \<Rightarrow> string) \<Rightarrow> json option \<Rightarrow> api_error + json" where
  "metadata json_text raw =
     (case raw of
        None \<Rightarrow> Inr (JObj [])
      | Some v \<Rightarrow>
          (case v of
             JObj _ \<Rightarrow>
               if length (json_text v) \<le> 4096 then Inr v
               else Inl (api_validation ''metadata must be an object under 4 KiB'')
           | _ \<Rightarrow> Inl (api_validation ''metadata must be an object under 4 KiB'')))"

text \<open>\<open>create_invoice\<close> from the node on, when no earlier invoice answers the request.\<close>

definition issue_invoice ::
  "'n server \<Rightarrow> env \<Rightarrow> string \<Rightarrow> string option \<Rightarrow> u64 \<Rightarrow> string \<Rightarrow> u32 \<Rightarrow> json \<Rightarrow> ('n, response) handler" where
  "issue_invoice sv e project_id idem amount_msat description expiry_secs meta =
     andthen (node_call (\<lambda>n. be_create_invoice (sv_backend sv) n
        \<lparr>lni_amount_msat = amount_msat, lni_description = description, lni_expiry_secs = expiry_secs\<rparr>)) (\<lambda>created.
     check (case sv_timestamp sv (sint (ci_expires_at_unix created)) of Some t \<Rightarrow> Inr t | None \<Rightarrow> Inl api_internal)
       (\<lambda>expires_at.
     db_match (with_fresh e InvoiceId (\<lambda>i. insert_invoice e \<lparr>ni_id = i, ni_project_id = project_id,
         ni_idempotency_key = idem, ni_amount_msat = amount_msat, ni_description = description,
         ni_bolt11 = ci_bolt11 created, ni_payment_hash = ci_payment_hash created,
         ni_expires_at = expires_at, ni_metadata = meta\<rparr>))
       (\<lambda>invoice. respond (created_response True (json_invoice invoice)))
       (\<lambda>err.
          if err = SConflict \<and> idem \<noteq> None
          then with_db (\<lambda>d.
            case find_invoice_by_idempotency_key project_id (case idem of Some k \<Rightarrow> k | None \<Rightarrow> []) d of
              None \<Rightarrow> refuse api_internal
            | Some existing \<Rightarrow> respond (created_response False (json_invoice existing)))
          else refuse (api_of_storage err))))"

definition create_invoice ::
  "'n server \<Rightarrow> env \<Rightarrow> headers \<Rightarrow> invoice_request body \<Rightarrow> ('n, response) handler" where
  "create_invoice sv e headers body =
     auth_scope sv headers InvoicesWrite (\<lambda>auth.
     check (json_parse body) (\<lambda>req.
     check (invoice_amount req) (\<lambda>amount_msat.
     unless (MAX_DESCRIPTION_BYTES < length (ir_description req)) (api_validation ''description is too long'')
     (let expiry_secs = (case ir_expiry_secs req of Some x \<Rightarrow> x | None \<Rightarrow> 3600)
      in unless (expiry_secs = 0 \<or> MAX_INVOICE_EXPIRY_SECS < expiry_secs)
           (api_validation ''expiry_secs must be between 1 and 604800'')
     (check (metadata (sv_json_text sv) (ir_metadata req)) (\<lambda>meta.
      check (idempotency_key headers False) (\<lambda>idem.
      with_db (\<lambda>d.
        case (case idem of
                Some key \<Rightarrow> find_invoice_by_idempotency_key (ac_project_id auth) key d
              | None \<Rightarrow> None) of
          Some existing \<Rightarrow>
            unless ((word_of_int (inv_amount_msat existing) :: u64) \<noteq> amount_msat
                    \<or> inv_description existing \<noteq> ir_description req) (api_of_storage SIdempotencyMismatch)
              (respond (created_response False (json_invoice existing)))
        | None \<Rightarrow>
            issue_invoice sv e (ac_project_id auth) idem amount_msat (ir_description req) expiry_secs meta))))))))"

definition get_invoice_route :: "'n server \<Rightarrow> headers \<Rightarrow> string \<Rightarrow> ('n, response) handler" where
  "get_invoice_route sv headers raw =
     auth_scope sv headers InvoicesRead (\<lambda>auth.
     check (route_id InvoiceId raw ''invoice'') (\<lambda>i.
     with_db (\<lambda>d. check (map_error (named_error ''invoice'') (get_invoice (ac_project_id auth) i d)) (\<lambda>invoice.
     respond (ok_response (json_invoice invoice))))))"

definition list_invoices_route :: "'n server \<Rightarrow> headers \<Rightarrow> list_query option \<Rightarrow> ('n, response) handler" where
  "list_invoices_route sv headers q =
     auth_scope sv headers InvoicesRead (\<lambda>auth.
     check (query q) (\<lambda>q.
     check (page_from_query (lq_limit q)) (\<lambda>page.
     with_db (\<lambda>d. check (map_error api_of_storage
         (list_invoices (ac_project_id auth) (lq_starting_after q) (page_fetch page) d)) (\<lambda>rows.
     respond (ok_response (page_wrap page rows json_invoice inv_id)))))))"

record payment_request =
  pr_bolt11 :: string
  pr_amount_msat :: "u64 option"
  pr_metadata :: "json option"

definition reveal_preimage :: "'n server \<Rightarrow> bool" where
  "reveal_preimage sv \<longleftrightarrow> cfg_network (sv_config sv) = Regtest"

definition create_payment ::
  "'n server \<Rightarrow> env \<Rightarrow> headers \<Rightarrow> payment_request body \<Rightarrow> ('n, response) handler" where
  "create_payment sv e headers body =
     auth_scope sv headers PaymentsWrite (\<lambda>auth.
     check (json_parse body) (\<lambda>req.
     check (idempotency_key headers True) (\<lambda>idem.
     unless (2048 < length (pr_bolt11 req)) (api_validation ''bolt11 is too long'')
     (check (metadata (sv_json_text sv) (pr_metadata req)) (\<lambda>meta.
      andthen (send_payment (sv_backend sv) (sv_sha256 sv) (sv_json_text sv) e (ac_project_id auth)
        (case idem of Some k \<Rightarrow> k | None \<Rightarrow> [])
        \<lparr>sr_bolt11 = pr_bolt11 req, sr_amount_msat = pr_amount_msat req, sr_metadata = meta\<rparr>) (\<lambda>result.
      respond (created_response (sd_created result) (json_payment (sd_payment result) (reveal_preimage sv)))))))))"

definition fetch_payment :: "string \<Rightarrow> string \<Rightarrow> (payment_row \<Rightarrow> ('n, 'a) handler) \<Rightarrow> ('n, 'a) handler" where
  "fetch_payment project_id i k =
     with_db (\<lambda>d. check (map_error (named_error ''payment'') (get_payment project_id i d)) k)"

definition get_payment_route :: "'n server \<Rightarrow> headers \<Rightarrow> string \<Rightarrow> ('n, response) handler" where
  "get_payment_route sv headers raw =
     auth_scope sv headers PaymentsRead (\<lambda>auth.
     check (route_id PaymentId raw ''payment'') (\<lambda>i.
     fetch_payment (ac_project_id auth) i (\<lambda>payment.
     respond (ok_response (json_payment payment (reveal_preimage sv))))))"

definition list_payments_route :: "'n server \<Rightarrow> headers \<Rightarrow> list_query option \<Rightarrow> ('n, response) handler" where
  "list_payments_route sv headers q =
     auth_scope sv headers PaymentsRead (\<lambda>auth.
     check (query q) (\<lambda>q.
     check (page_from_query (lq_limit q)) (\<lambda>page.
     with_db (\<lambda>d. check (map_error api_of_storage
         (list_payments (ac_project_id auth) (lq_starting_after q) (page_fetch page) d)) (\<lambda>rows.
     respond (ok_response (page_wrap page rows (\<lambda>r. json_payment r (reveal_preimage sv)) pay_id)))))))"

definition reconcile_payment_route :: "'n server \<Rightarrow> env \<Rightarrow> headers \<Rightarrow> string \<Rightarrow> ('n, response) handler" where
  "reconcile_payment_route sv e headers raw =
     auth_scope sv headers PaymentsWrite (\<lambda>auth.
     check (route_id PaymentId raw ''payment'') (\<lambda>i.
     fetch_payment (ac_project_id auth) i (\<lambda>payment.
     andthen (reconcile_payment (sv_backend sv) e payment) (\<lambda>after.
     respond (ok_response (json_payment after (reveal_preimage sv)))))))"

section \<open>The handlers keep the schema\<close>

lemma moves_fetch_payment [moves_rules]: "(\<And>p. moves (k p)) \<Longrightarrow> moves (fetch_payment project_id i k)"
  unfolding fetch_payment_def by (intro moves_rules)

lemma moves_issue_invoice [moves_rules]: "moves (issue_invoice sv e p idem amt desc expiry meta)"
  unfolding issue_invoice_def by (intro moves_rules with_fresh_op insert_invoice_op.db_op_axioms)

lemma moves_lightning [moves_rules]:
  "moves (create_invoice sv e headers body)" "moves (get_invoice_route sv headers raw)"
  "moves (list_invoices_route sv headers q)" "moves (create_payment sv e headers pbody)"
  "moves (get_payment_route sv headers raw)" "moves (list_payments_route sv headers q)"
  "moves (reconcile_payment_route sv e headers raw)"
  unfolding create_invoice_def get_invoice_route_def list_invoices_route_def create_payment_def
    get_payment_route_def list_payments_route_def reconcile_payment_route_def Let_def
  by (intro moves_rules)+

end
