(* ===== verification/Routes_Sandbox.thy ===== *)
theory Routes_Sandbox
  imports Routes_Lightning Storage_Sandbox Sandbox_Calc
begin

text \<open>
  The simulated-fiat endpoints (safrod-api/src/routes/sandbox.rs): balances, quotes and payouts. A
  payout with a settlement invoice has one real part, a Lightning payment sent by the engine once the
  simulated destination has confirmed.
\<close>

definition MAX_TOPUP_MINOR :: u64 where
  "MAX_TOPUP_MINOR = 1000000000000"

definition QUOTE_TTL_SECS :: int where
  "QUOTE_TTL_SECS = 300"

fun sandbox_text :: "sandbox_error \<Rightarrow> string" where
  "sandbox_text (UnsupportedCurrency c) = ''unsupported currency: '' @ c"
| "sandbox_text SameCurrency = ''source and target currency must differ''"
| "sandbox_text BadAmount = ''amount must be greater than zero and within range''"
| "sandbox_text (UnknownScenario c) = ''unknown scenario: '' @ c"

definition sandbox_checked :: "sandbox_error + 'a \<Rightarrow> api_error + 'a" where
  "sandbox_checked = map_error (\<lambda>err. api_validation (sandbox_text err))"

definition parse_currency :: "string \<Rightarrow> api_error + currency" where
  "parse_currency raw = sandbox_checked (currency_from_str raw)"

section \<open>Balances and quotes\<close>

record money_request =
  mr_currency :: string
  mr_minor_units :: u64

definition balances_response :: "string \<Rightarrow> ('n, response) handler" where
  "balances_response project_id = with_db (\<lambda>d.
     respond (ok_response (JObj [(''object'', JStr ''sandbox_balances''),
       (''balances'', JArr (map (\<lambda>(c, m). JObj [(''currency'', JStr c), (''minor_units'', JInt m)])
          (sandbox_balances project_id d))),
       (''simulated_fiat'', JBool True)])))"

definition topup :: "'n server \<Rightarrow> headers \<Rightarrow> money_request body \<Rightarrow> ('n, response) handler" where
  "topup sv headers body =
     auth_scope sv headers SandboxWrite (\<lambda>auth.
     check (json_parse body) (\<lambda>req.
     check (parse_currency (mr_currency req)) (\<lambda>cur.
     unless (mr_minor_units req = 0 \<or> MAX_TOPUP_MINOR < mr_minor_units req)
       (api_validation ''minor_units is out of range'')
     (andthen (db_call api_of_storage
         (credit_sandbox_balance (ac_project_id auth) (currency_code cur) (mr_minor_units req))) (\<lambda>_.
      balances_response (ac_project_id auth))))))"

definition balances :: "'n server \<Rightarrow> headers \<Rightarrow> ('n, response) handler" where
  "balances sv headers =
     auth_scope sv headers SandboxWrite (\<lambda>auth. balances_response (ac_project_id auth))"

record quote_request =
  qr_source :: money_request
  qr_target_currency :: string

definition create_quote :: "'n server \<Rightarrow> env \<Rightarrow> headers \<Rightarrow> quote_request body \<Rightarrow> ('n, response) handler" where
  "create_quote sv e headers body =
     auth_scope sv headers SandboxWrite (\<lambda>auth.
     check (json_parse body) (\<lambda>req.
     check (parse_currency (mr_currency (qr_source req))) (\<lambda>source.
     check (parse_currency (qr_target_currency req)) (\<lambda>target.
     check (sandbox_checked (quote source target (mr_minor_units (qr_source req)))) (\<lambda>calc.
     andthen (db_call api_of_storage (insert_quote e
         \<lparr>nq_project_id = ac_project_id auth, nq_source_currency = currency_code source,
          nq_target_currency = currency_code target, nq_source_minor = mr_minor_units (qr_source req),
          nq_target_minor = qc_target_minor calc, nq_rate_ppm = qc_rate_ppm calc,
          nq_btc_amount_msat = qc_btc_amount_msat calc,
          nq_expires_at = env_now e + seconds QUOTE_TTL_SECS\<rparr>)) (\<lambda>record.
     respond (created_response True (json_quote record))))))))"

definition fetch_quote :: "string \<Rightarrow> string \<Rightarrow> (quote_row \<Rightarrow> ('n, 'a) handler) \<Rightarrow> ('n, 'a) handler" where
  "fetch_quote project_id i k =
     with_db (\<lambda>d. check (map_error (named_error ''quote'') (get_quote project_id i d)) k)"

definition get_quote_route :: "'n server \<Rightarrow> headers \<Rightarrow> string \<Rightarrow> ('n, response) handler" where
  "get_quote_route sv headers i =
     auth_scope sv headers SandboxWrite (\<lambda>auth.
     fetch_quote (ac_project_id auth) i (\<lambda>record. respond (ok_response (json_quote record))))"

section \<open>Payouts\<close>

record payout_request =
  pr_quote_id :: string
  pr_scenario :: string
  pr_settlement_invoice :: "string option"

definition settlement_key :: "string \<Rightarrow> string" where
  "settlement_key payout_id = ''sandbox-payout:'' @ payout_id"

text \<open>The Bitcoin leg of a payout whose destination has confirmed.\<close>

definition settle_payout :: "'n server \<Rightarrow> env \<Rightarrow> string \<Rightarrow> string \<Rightarrow> payout_row \<Rightarrow> ('n, payout_row) handler" where
  "settle_payout sv e project_id invoice finished =
     with_db (\<lambda>d. check (map_error api_of_storage (get_quote project_id (pot_quote_id finished) d)) (\<lambda>quote.
     andthen (send_payment (sv_backend sv) (sv_sha256 sv) (sv_json_text sv) e project_id
         (settlement_key (pot_id finished))
         \<lparr>sr_bolt11 = invoice, sr_amount_msat = Some (word_of_int (qte_btc_amount_msat quote)),
          sr_metadata = JObj [(''sandbox_payout_id'', JStr (pot_id finished))]\<rparr>) (\<lambda>sent.
     andthen (db_call api_of_storage
         (attach_payment_to_payout e (pot_id finished) (pay_id (sd_payment sent)))) (\<lambda>_.
     with_db (\<lambda>d. check (map_error api_of_storage (get_payout project_id (pot_id finished) d)) respond)))))"

definition complete_success :: "'n server \<Rightarrow> env \<Rightarrow> string \<Rightarrow> payout_row \<Rightarrow> ('n, payout_row) handler" where
  "complete_success sv e project_id payout =
     andthen (db_call api_of_storage (advance_payout e (pot_id payout) PotSucceeded)) (\<lambda>(finished, _).
     case pot_settlement_bolt11 payout of
       None \<Rightarrow> respond finished
     | Some invoice \<Rightarrow> settle_payout sv e project_id invoice finished)"

definition run_payout :: "'n server \<Rightarrow> env \<Rightarrow> string \<Rightarrow> payout_row \<Rightarrow> scenario \<Rightarrow> ('n, payout_row) handler" where
  "run_payout sv e project_id payout scn =
     andthen (db_call api_of_storage (advance_payout e (pot_id payout) PotPending)) (\<lambda>(pending, _).
     case scn of
       ScnFailure \<Rightarrow>
         andthen (db_call api_of_storage (advance_payout e (pot_id pending) PotFailed)) (\<lambda>x. respond (fst x))
     | ScnTimeout \<Rightarrow>
         andthen (db_call api_of_storage (advance_payout e (pot_id pending) PotUnknown)) (\<lambda>x. respond (fst x))
     | ScnSuccess \<Rightarrow> complete_success sv e project_id pending)"

text \<open>The check of the settlement invoice against the quote.\<close>

definition check_settlement :: "'n server \<Rightarrow> string option \<Rightarrow> quote_row \<Rightarrow> 'n \<Rightarrow> api_error + unit" where
  "check_settlement sv settlement quote_record n =
     (case settlement of
        None \<Rightarrow> Inr ()
      | Some invoice \<Rightarrow>
          (case be_parse_invoice (sv_backend sv) n invoice of
             Inl err \<Rightarrow> Inl (api_of_lightning err)
           | Inr parsed \<Rightarrow>
               (case pi_amount_msat parsed of
                  None \<Rightarrow> Inr ()
                | Some amount \<Rightarrow>
                    if sint amount \<noteq> qte_btc_amount_msat quote_record
                    then Inl (api_validation ''settlement invoice amount does not match the quote's BTC amount'')
                    else Inr ())))"

text \<open>\<open>create_payout\<close> from the reservation on.\<close>

definition place_payout ::
  "'n server \<Rightarrow> env \<Rightarrow> string \<Rightarrow> string option \<Rightarrow> scenario \<Rightarrow> payout_request \<Rightarrow> ('n, response) handler" where
  "place_payout sv e project_id key scn req =
     andthen (db_call api_of_storage (reserve_payout e project_id (pr_quote_id req)
         (case key of Some k \<Rightarrow> k | None \<Rightarrow> []) (scenario_as_str scn) (pr_settlement_invoice req)))
       (\<lambda>(payout, created).
          if \<not> created then respond (created_response False (json_payout payout))
          else andthen (run_payout sv e project_id payout scn) (\<lambda>finished.
            respond (created_response True (json_payout finished))))"

definition create_payout :: "'n server \<Rightarrow> env \<Rightarrow> headers \<Rightarrow> payout_request body \<Rightarrow> ('n, response) handler" where
  "create_payout sv e headers body =
     auth_scope sv headers SandboxWrite (\<lambda>auth.
     check (json_parse body) (\<lambda>req.
     check (idempotency_key headers True) (\<lambda>key.
     check (sandbox_checked (scenario_from_str (pr_scenario req))) (\<lambda>scn.
     fetch_quote (ac_project_id auth) (pr_quote_id req) (\<lambda>quote_record.
     with_node (\<lambda>n. check (check_settlement sv (pr_settlement_invoice req) quote_record n) (\<lambda>_.
     place_payout sv e (ac_project_id auth) key scn req)))))))"

definition fetch_payout :: "string \<Rightarrow> string \<Rightarrow> (payout_row \<Rightarrow> ('n, 'a) handler) \<Rightarrow> ('n, 'a) handler" where
  "fetch_payout project_id i k =
     with_db (\<lambda>d. check (map_error (named_error ''payout'') (get_payout project_id i d)) k)"

definition payout_with_payment :: "'n server \<Rightarrow> string \<Rightarrow> payout_row \<Rightarrow> ('n, json) handler" where
  "payout_with_payment sv project_id payout =
     (case pot_payment_id payout of
        None \<Rightarrow> respond (json_payout payout)
      | Some payment_id \<Rightarrow>
          with_db (\<lambda>d. check (map_error api_of_storage (get_payment project_id payment_id d)) (\<lambda>payment.
          respond (json_and (json_payout payout)
            [(''payment'', json_payment payment (cfg_network (sv_config sv) = Regtest))]))))"

definition get_payout_route :: "'n server \<Rightarrow> headers \<Rightarrow> string \<Rightarrow> ('n, response) handler" where
  "get_payout_route sv headers i =
     auth_scope sv headers SandboxWrite (\<lambda>auth.
     fetch_payout (ac_project_id auth) i (\<lambda>payout.
     andthen (payout_with_payment sv (ac_project_id auth) payout) (\<lambda>body. respond (ok_response body))))"

definition resolve_payout :: "'n server \<Rightarrow> env \<Rightarrow> string \<Rightarrow> payout_row \<Rightarrow> string \<Rightarrow> ('n, payout_row) handler" where
  "resolve_payout sv e project_id payout outcome =
     (if outcome = ''success'' then complete_success sv e project_id payout
      else if outcome = ''failure''
      then andthen (db_call api_of_storage (advance_payout e (pot_id payout) PotFailed)) (\<lambda>x. respond (fst x))
      else refuse (api_validation ''outcome must be success or failure''))"

definition reconcile_payout :: "'n server \<Rightarrow> env \<Rightarrow> headers \<Rightarrow> string \<Rightarrow> string body \<Rightarrow> ('n, response) handler" where
  "reconcile_payout sv e headers i body =
     auth_scope sv headers SandboxWrite (\<lambda>auth.
     check (json_parse body) (\<lambda>outcome.
     fetch_payout (ac_project_id auth) i (\<lambda>payout.
     unless (pot_status payout \<noteq> payout_as_str PotUnknown)
       (api_conflict ''invalid_state'' ''only an unknown payout can be reconciled'')
     (andthen (resolve_payout sv e (ac_project_id auth) payout outcome) (\<lambda>resolved.
      andthen (payout_with_payment sv (ac_project_id auth) resolved) (\<lambda>body. respond (ok_response body)))))))"

section \<open>The handlers keep the schema\<close>

lemma moves_fetch_quote [moves_rules]: "(\<And>q. moves (k q)) \<Longrightarrow> moves (fetch_quote project_id i k)"
  unfolding fetch_quote_def by (intro moves_rules)

lemma moves_fetch_payout [moves_rules]: "(\<And>q. moves (k q)) \<Longrightarrow> moves (fetch_payout project_id i k)"
  unfolding fetch_payout_def by (intro moves_rules)

lemmas moves_sandbox_ops = moves_db_call [OF credit_op.db_op_axioms] moves_db_call [OF insert_quote_op.db_op_axioms]
  moves_db_call [OF advance_op.db_op_axioms] moves_db_call [OF attach_op.db_op_axioms]
  moves_db_call [OF reserve_op.db_op_axioms]

lemma moves_settle_payout [moves_rules]: "moves (settle_payout sv e project_id invoice finished)"
  unfolding settle_payout_def by (intro moves_sandbox_ops moves_rules)

lemma moves_complete_success [moves_rules]: "moves (complete_success sv e project_id payout)"
  unfolding complete_success_def split_beta by (intro moves_sandbox_ops moves_rules)

lemma moves_run_payout [moves_rules]: "moves (run_payout sv e project_id payout scn)"
  unfolding run_payout_def split_beta
  by (cases scn; simp only: scenario.case; intro moves_sandbox_ops moves_rules)

lemma moves_place_payout [moves_rules]: "moves (place_payout sv e project_id key scn req)"
  unfolding place_payout_def split_beta by (intro moves_sandbox_ops moves_rules)

lemma moves_payout_with_payment [moves_rules]: "moves (payout_with_payment sv project_id payout)"
  unfolding payout_with_payment_def by (intro moves_rules)

lemma moves_balances_response [moves_rules]: "moves (balances_response project_id)"
  unfolding balances_response_def by (intro moves_rules)

lemma moves_resolve_payout [moves_rules]: "moves (resolve_payout sv e project_id payout outcome)"
  unfolding resolve_payout_def by (intro moves_sandbox_ops moves_rules)

lemma moves_sandbox [moves_rules]:
  "moves (topup sv headers tbody)" "moves (balances sv headers)" "moves (create_quote sv e headers qbody)"
  "moves (get_quote_route sv headers i)" "moves (create_payout sv e headers pbody)"
  "moves (get_payout_route sv headers i)" "moves (reconcile_payout sv e headers i rbody)"
  unfolding topup_def balances_def create_quote_def get_quote_route_def create_payout_def
    get_payout_route_def reconcile_payout_def split_beta
  by (intro moves_sandbox_ops moves_rules)+

section \<open>What a send adds\<close>

lemma transition_last:
  assumes "transition_payment e key pid next res d = Inr (out, d')" and "t_payments d = ts @ [r]"
    and "pay_id r = pid" and "pid \<notin> pay_id ` set ts"
  shows "\<exists>r'. t_payments d' = ts @ [r'] \<and> payment_fixed r' = payment_fixed r"
  using assms(1)
proof (cases rule: transition_payment_cases)
  case unchanged
  then show ?thesis using assms(2) by simp
next
  case (moved d1 current fr fee)
  let ?f = "resolve_row e next fee res"
  have "update_where (\<lambda>x. pay_id x = pid) ?f ts = ts" using assms(4) by (intro update_where_none) auto
  then have "update_where (\<lambda>x. pay_id x = pid) ?f (ts @ [r]) = ts @ [?f r]"
    using assms(3) by (simp add: update_where_def)
  then have "t_payments d' = ts @ [?f r]" using resolution_payments [OF moved(8)] assms(2) by simp
  then show ?thesis by (intro exI [of _ "?f r"]) simp
qed

lemma engine_transition_last:
  assumes "engine_transition e pid next res s = (x, s')" and "t_payments (app_db s) = ts @ [r]"
    and "pay_id r = pid" and "pid \<notin> pay_id ` set ts"
  shows "\<exists>r'. t_payments (app_db s') = ts @ [r'] \<and> payment_fixed r' = payment_fixed r"
proof (cases x)
  case (Inl err)
  then show ?thesis using engine_transition_Inl assms(1,2) by blast
next
  case (Inr tr)
  then show ?thesis using transition_last [OF engine_transition_Inr(1) assms(2-4)] assms(1) by simp
qed

text \<open>At most one payment is added, under the caller's project and key, and the others stay as they are.\<close>

definition adds_one :: "string \<Rightarrow> string \<Rightarrow> payment_row list \<Rightarrow> payment_row list \<Rightarrow> bool" where
  "adds_one p k ts ts' \<longleftrightarrow>
     ts' = ts \<or> (\<exists>r. ts' = ts @ [r] \<and> pay_project_id r = p \<and> pay_idempotency_key r = k)"

text \<open>After \<open>send_begin\<close> the new payment is the last row, and stays it to the end of the send.\<close>

definition last_row :: "payment_row list \<Rightarrow> payment_row \<Rightarrow> 'n app \<Rightarrow> bool" where
  "last_row ts mine s \<longleftrightarrow> (\<exists>r. t_payments (app_db s) = ts @ [r] \<and> payment_fixed r = payment_fixed mine)"

lemma last_row_steps:
  assumes "last_row ts mine s" and "pay_id mine \<notin> pay_id ` set ts"
  shows "engine_transition e (pay_id mine) n rs s = (x, s') \<Longrightarrow> last_row ts mine s'"
    and "send_dispatch be b a s = (y, s') \<Longrightarrow> last_row ts mine s'"
proof -
  obtain r where r: "t_payments (app_db s) = ts @ [r]" "payment_fixed r = payment_fixed mine"
    using assms(1) by (auto simp: last_row_def)
  have "pay_id r = pay_id mine" using payment_fixed_cols [OF r(2)] by simp
  then show "engine_transition e (pay_id mine) n rs s = (x, s') \<Longrightarrow> last_row ts mine s'"
    using engine_transition_last [OF _ r(1)] assms(2) r(2) by (fastforce simp: last_row_def)
  show "send_dispatch be b a s = (y, s') \<Longrightarrow> last_row ts mine s'"
    using assms(1) send_dispatch_db [of be b a s y s'] by (simp add: last_row_def)
qed

lemma begun_last_row:
  assumes "send_payment be sha256 json_text e p k req s = (res, s')"
    and "send_begin be sha256 json_text e p k req s = (Inr (begun, b, a), s1)" and "bo_created begun"
    and "last_row ts (bo_payment begun) s1" and "pay_id (bo_payment begun) \<notin> pay_id ` set ts"
  shows "last_row ts (bo_payment begun) s'"
proof -
  note step = last_row_steps(1) [OF _ assms(5)] and disp = last_row_steps(2) [OF _ assms(5)]
  show ?thesis using assms(1-4)
    by (auto simp: send_payment_def send_pend_def send_refused_def split: prod.splits sum.splits
        dest: step disp intro: step [OF disp])
qed

lemma send_payment_adds_one:
  assumes "send_payment be sha256 json_text e p k req s = (res, s')"
  shows "adds_one p k (t_payments (app_db s)) (t_payments (app_db s'))"
proof (cases "fst (send_begin be sha256 json_text e p k req s)")
  case (Inl err)
  then have "send_begin be sha256 json_text e p k req s = (Inl err, s)"
    using send_begin_Inl [of be sha256 json_text e p k req s err] by (metis prod.collapse)
  then show ?thesis using assms by (simp add: send_payment_def adds_one_def)
next
  case (Inr y)
  then obtain begun b a s1 where bg: "send_begin be sha256 json_text e p k req s = (Inr (begun, b, a), s1)"
    by (metis prod.collapse)
  obtain new d0 where d0: "t_payments d0 = t_payments (app_db s)" and new: "np_project_id new = p" "np_idempotency_key new = k"
    and bp: "begin_payment e new d0 = Inr (begun, app_db s1)"
    using bg by (rule send_begin_Inr) (rule that, simp_all)
  from bp show ?thesis
  proof (cases rule: begin_payment_cases)
    case replayed
    then show ?thesis using assms bg d0 by (auto simp: send_payment_def adds_one_def)
  next
    case created
    have "last_row (t_payments (app_db s)) (bo_payment begun) s1"
      using created(2) d0 by (auto simp: last_row_def insert_row_def)
    from begun_last_row [OF assms bg created(1) this] created(4,5) d0
    have "last_row (t_payments (app_db s)) (bo_payment begun) s'" by simp
    then show ?thesis using created(7,8) new payment_fixed_cols by (auto simp: last_row_def adds_one_def)
  qed
qed

section \<open>The Bitcoin leg\<close>

lemma emit_payments: "emit e p kind res data sim d = Inr (ev, d') \<Longrightarrow> t_payments d' = t_payments d"
  by (auto simp: emitted_def dest!: emit_Inr)

lemma upsert_payments: "upsert_balance p c x d = Inr d' \<Longrightarrow> t_payments d' = t_payments d"
  by (auto simp: upsert_balance_def Let_def split: option.splits if_splits)

lemma refund_payments: "refund_if_failed n q d = Inr d' \<Longrightarrow> t_payments d' = t_payments d"
  by (auto simp: refund_if_failed_def refund_quote_def Let_def split: option.splits if_splits)

lemma reserve_payments: "payments_kept (reserve_payout e p q k s b)"
  unfolding payments_kept_def
proof (intro allI impI)
  fix d a d' assume c: "reserve_payout e p q k s b d = Inr (a, d')"
  obtain r created where "a = (r, created)" by (cases a)
  with c have "reserve_payout e p q k s b d = Inr ((r, created), d')" by simp
  then show "t_payments d' = t_payments d"
    by (cases rule: reserve_payout_cases)
      (auto dest!: emit_payments insert_payout_Inr(1) upsert_payments)
qed

lemma advance_payments: "payments_kept (advance_payout e i n)"
  unfolding payments_kept_def
proof (intro allI impI)
  fix d a d' assume c: "advance_payout e i n d = Inr (a, d')"
  obtain r changed where "a = (r, changed)" by (cases a)
  with c have "advance_payout e i n d = Inr ((r, changed), d')" by simp
  then show "t_payments d' = t_payments d"
    by (cases rule: advance_payout_cases) (auto dest!: emit_payments refund_payments)
qed

lemma attach_payments: "payments_kept (attach_payment_to_payout e i pid)"
  by (auto simp: payments_kept_def attach_payment_to_payout_def split: if_splits)

lemmas sandbox_payments = quiet_db_call [OF reserve_payments] quiet_db_call [OF advance_payments]
  quiet_db_call [OF attach_payments]

text \<open>The row a successful advance answers with is stored, in the status asked for.\<close>

lemma advance_payout_row:
  assumes "schema_ok d" and "advance_payout e i n d = Inr ((r, changed), d')"
  shows "r \<in> set (t_payouts d')" and "pot_id r = i" and "pot_status r = payout_as_str n"
    and "c \<in> set (t_payouts d) \<Longrightarrow> pot_id c = i \<Longrightarrow> payout_fixed r = payout_fixed c"
proof -
  have *: "r \<in> set (t_payouts d') \<and> pot_id r = i \<and> pot_status r = payout_as_str n
      \<and> (\<exists>c \<in> set (t_payouts d). payout_fixed c = payout_fixed r)"
    using assms(2)
  proof (cases rule: advance_payout_cases)
    case same
    have "pot_status r = payout_as_str n" using assms(2) same(1)
      by (auto simp: advance_payout_def Let_def simp flip: pot_text.parse_iff
          split: option.splits sum.splits if_splits)
    then show ?thesis using same by auto
  next
    case (moved current fr d2 ev)
    let ?t = "update_where (\<lambda>r. pot_id r = i) (advance_row e n) (t_payouts d)"
    have "t_payouts d2 = ?t" using moved(7)
      by (auto simp: refund_if_failed_def refund_quote_def Let_def split: option.splits if_splits)
    then have "t_payouts d' = ?t" using emitted_sandbox [OF moved(8)] by simp
    then have "r \<in> set (t_payouts d')" using moved(2,3,6) by (auto simp: set_update_where)
    then show ?thesis using moved(2,3,6) by (auto simp: advance_row_def payout_fixed_def)
  qed
  then show "r \<in> set (t_payouts d')" "pot_id r = i" "pot_status r = payout_as_str n" by blast+
  assume c: "c \<in> set (t_payouts d)" "pot_id c = i"
  obtain c0 where c0: "c0 \<in> set (t_payouts d)" "payout_fixed c0 = payout_fixed r" using * by blast
  then have "pot_id c0 = i" using * by (simp add: payout_fixed_def)
  then have "c0 = c" using assms(1) c0(1) c
    by (auto simp: schema_ok_def payouts_table_def dest: distinct_map_eq [of pot_id])
  then show "payout_fixed r = payout_fixed c" using c0(2) by simp
qed

lemma succeeded_stays:
  assumes "grows payout_le t t'" and "r \<in> set t" and "pot_status r = ''succeeded''"
  shows "\<exists>r' \<in> set t'. payout_fixed r' = payout_fixed r \<and> pot_status r' = ''succeeded''"
proof -
  obtain r' where r': "r' \<in> set t'" "payout_le r r'" using grows_mem [OF assms(1,2)] by blast
  have "\<not> payout_can_transition_to\<^sup>+\<^sup>+ s s'" if "pot_status r = payout_as_str s" for s s'
  proof
    assume t: "payout_can_transition_to\<^sup>+\<^sup>+ s s'"
    have "s = PotSucceeded" using that assms(3) by (cases s) simp_all
    then obtain z where "payout_can_transition_to PotSucceeded z" using t tranclpD by metis
    then show False by (cases z) simp_all
  qed
  then have "pot_status r' = pot_status r" using r'(2) by (auto simp: payout_le_def)
  then show ?thesis using r' assms(3) by (auto simp: payout_le_def)
qed

text \<open>
  A payment made on behalf of a payout: the payout is recorded as succeeded and asked for a settlement,
  and at most one payment was added, under the key derived from the payout.
\<close>

definition settled_leg :: "string \<Rightarrow> payout_row \<Rightarrow> 'n app \<Rightarrow> 'n app \<Rightarrow> bool" where
  "settled_leg project_id payout s s' \<longleftrightarrow>
     (\<exists>r \<in> set (t_payouts (app_db s')). payout_fixed r = payout_fixed payout \<and> pot_status r = ''succeeded'')
     \<and> pot_settlement_bolt11 payout \<noteq> None
     \<and> adds_one project_id (settlement_key (pot_id payout)) (t_payments (app_db s)) (t_payments (app_db s'))"

lemma adds_one_steps:
  "adds_one p k ts ts" "adds_one p k ts ts' \<Longrightarrow> ts'' = ts' \<Longrightarrow> adds_one p k ts ts''"
  by (simp_all add: adds_one_def)

lemma quiet_after_adds:
  assumes "adds_one p k ts (t_payments (app_db s))" and "quiet sv h" and "h s = (res, s')"
  shows "adds_one p k ts (t_payments (app_db s'))"
  using keepsD [OF assms(2,3)] assms(1) by (simp add: unpaid_def)

lemma settle_payout_adds:
  assumes "settle_payout sv e p invoice fin s = (res, s')"
  shows "adds_one p (settlement_key (pot_id fin)) (t_payments (app_db s)) (t_payments (app_db s'))"
proof (cases "get_quote p (pot_quote_id fin) (app_db s)")
  case (Inl err)
  then show ?thesis using assms
    by (auto simp: settle_payout_def with_db_def check_def map_error_def refuse_def adds_one_def)
next
  case (Inr quote)
  let ?req = "\<lparr>sr_bolt11 = invoice, sr_amount_msat = Some (word_of_int (qte_btc_amount_msat quote)),
          sr_metadata = JObj [(''sandbox_payout_id'', JStr (pot_id fin))]\<rparr>"
  define h :: "send_result \<Rightarrow> ('a, payout_row) handler" where "h = (\<lambda>sent. andthen (db_call api_of_storage
     (attach_payment_to_payout e (pot_id fin) (pay_id (sd_payment sent))))
     (\<lambda>_. with_db (\<lambda>d. check (map_error api_of_storage (get_payout p (pot_id fin) d)) respond)))"
  obtain x s1 where sent: "send_payment (sv_backend sv) (sv_sha256 sv) (sv_json_text sv) e p
      (settlement_key (pot_id fin)) ?req s = (x, s1)" by fastforce
  note one = send_payment_adds_one [OF sent]
  have q: "quiet sv (h sent)" for sent unfolding h_def by (intro sandbox_payments moves_rules)
  have "(case x of Inl err \<Rightarrow> (Inl err, s1) | Inr sent \<Rightarrow> h sent s1) = (res, s')"
    using assms Inr sent unfolding settle_payout_def h_def [symmetric]
    by (simp add: with_db_def check_def map_error_def andthen_def)
  then show ?thesis using one quiet_after_adds [OF one q] by (cases x) auto
qed

lemma complete_success_leg:
  assumes ok: "schema_ok (app_db s)" and r: "payout \<in> set (t_payouts (app_db s))"
    and c: "complete_success sv e p payout s = (res, s')"
  shows "unpaid (sv_backend sv) s s' \<or> settled_leg p payout s s'"
proof (cases "advance_payout e (pot_id payout) PotSucceeded (app_db s)")
  case (Inl err)
  then show ?thesis using c by (auto simp: complete_success_def andthen_def db_call_def unpaid_def)
next
  case (Inr x)
  obtain fin changed d1 where x: "x = ((fin, changed), d1)" by (metis prod.collapse)
  let ?s1 = "s\<lparr>app_db := d1\<rparr>"
  have adv: "advance_payout e (pot_id payout) PotSucceeded (app_db s) = Inr ((fin, changed), d1)" using Inr x by simp
  note row = advance_payout_row [OF ok adv]
  have pay: "t_payments d1 = t_payments (app_db s)"
    using advance_payments [of e "pot_id payout" PotSucceeded] adv by (simp add: payments_kept_def)
  show ?thesis
  proof (cases "pot_settlement_bolt11 payout")
    case None
    then show ?thesis using c adv pay
      by (auto simp: complete_success_def andthen_def db_call_def respond_def unpaid_def)
  next
    case (Some invoice)
    then have k: "settle_payout sv e p invoice fin ?s1 = (res, s')"
      using c adv by (simp add: complete_success_def andthen_def db_call_def)
    have "schema_ok d1" using advance_op.op_schema [OF ok adv] .
    then have "grows payout_le (t_payouts d1) (t_payouts (app_db s'))"
      using keepsD [OF moves_settle_payout k] by (simp add: app_steps_def evolves_def)
    then obtain r' where r': "r' \<in> set (t_payouts (app_db s'))" "payout_fixed r' = payout_fixed fin"
        "pot_status r' = ''succeeded''"
      using succeeded_stays [OF _ row(1)] row(3) by auto
    then show ?thesis using r' row(4) [OF r refl] Some settle_payout_adds [OF k] pay row(2) by (auto simp: settled_leg_def)
  qed
qed

lemma settled_leg_shift:
  assumes "settled_leg p r s1 s'" and "payout_fixed r = payout_fixed r0"
    and "t_payments (app_db s1) = t_payments (app_db s)"
  shows "settled_leg p r0 s s'"
proof -
  have "pot_id r = pot_id r0" "pot_settlement_bolt11 r = pot_settlement_bolt11 r0"
    using assms(2) by (simp_all add: payout_fixed_def)
  then show ?thesis using assms by (simp add: settled_leg_def)
qed

lemma unpaid_shift: "unpaid be s1 s' \<Longrightarrow> app_node s1 = app_node s \<Longrightarrow> t_payments (app_db s1) = t_payments (app_db s) \<Longrightarrow> unpaid be s s'"
  by (simp add: unpaid_def)

lemma run_payout_leg:
  assumes ok: "schema_ok (app_db s)" and r: "payout \<in> set (t_payouts (app_db s))"
    and c: "run_payout sv e p payout scn s = (res, s')"
  shows "unpaid (sv_backend sv) s s' \<or> settled_leg p payout s s'"
proof (cases "scn = ScnSuccess")
  case False
  have "quiet sv (run_payout sv e p payout scn)"
    using False unfolding run_payout_def split_beta
    by (cases scn; simp only: scenario.case; intro sandbox_payments moves_rules)
  then show ?thesis using keepsD c by blast
next
  case True
  show ?thesis
  proof (cases "advance_payout e (pot_id payout) PotPending (app_db s)")
    case (Inl err)
    then show ?thesis using c by (auto simp: run_payout_def andthen_def db_call_def unpaid_def)
  next
    case (Inr x)
    obtain pend changed d1 where x: "x = ((pend, changed), d1)" by (metis prod.collapse)
    have adv: "advance_payout e (pot_id payout) PotPending (app_db s) = Inr ((pend, changed), d1)" using Inr x by simp
    let ?s1 = "s\<lparr>app_db := d1\<rparr>"
    note row = advance_payout_row [OF ok adv]
    have pay: "t_payments d1 = t_payments (app_db s)"
      using advance_payments [of e "pot_id payout" PotPending] adv by (simp add: payments_kept_def)
    have k: "complete_success sv e p pend ?s1 = (res, s')"
      using c adv True by (simp add: run_payout_def andthen_def db_call_def)
    have "schema_ok (app_db ?s1)" using advance_op.op_schema [OF ok adv] by simp
    then show ?thesis using complete_success_leg [OF _ _ k] row(1) row(4) [OF r refl] pay
      settled_leg_shift [of p pend ?s1 s' payout s] unpaid_shift [of "sv_backend sv" ?s1 s' s] by auto
  qed
qed

lemma reserve_payout_row:
  assumes "reserve_payout e p q k s b d = Inr ((r, True), d')"
  shows "r \<in> set (t_payouts d')" and "pot_id r \<notin> pot_id ` set (t_payouts d)"
proof -
  have "r \<in> set (t_payouts d') \<and> pot_id r \<notin> pot_id ` set (t_payouts d)"
    using assms
  proof (cases rule: reserve_payout_cases)
    case (reserved quote d2 d3 ev)
    have "t_payouts d2 = t_payouts d"
      using reserved(8) by (auto simp: upsert_balance_def Let_def split: option.splits if_splits)
    then show ?thesis using insert_payout_Inr(1,2) [OF reserved(9)] emitted_sandbox [OF reserved(10)]
      by (simp add: insert_row_def)
  qed simp
  then show "r \<in> set (t_payouts d')" and "pot_id r \<notin> pot_id ` set (t_payouts d)" by blast+
qed

lemma place_payout_leg:
  assumes ok: "schema_ok (app_db s)" and c: "place_payout sv e p key scn req s = (res, s')"
  shows "unpaid (sv_backend sv) s s'
    \<or> (\<exists>payout. settled_leg p payout s s' \<and> pot_id payout \<notin> pot_id ` set (t_payouts (app_db s)))"
  using c unfolding place_payout_def
proof (rule run_andthen)
  fix err assume "db_call api_of_storage (reserve_payout e p (pr_quote_id req) (case key of None \<Rightarrow> [] | Some k \<Rightarrow> k)
    (scenario_as_str scn) (pr_settlement_invoice req)) s = (Inl err, s')"
  then show ?thesis by (rule run_db_call) (simp_all add: unpaid_def)
next
  fix a s1
  assume h: "db_call api_of_storage (reserve_payout e p (pr_quote_id req) (case key of None \<Rightarrow> [] | Some k \<Rightarrow> k)
    (scenario_as_str scn) (pr_settlement_invoice req)) s = (Inr a, s1)"
    and k: "(case a of (payout, created) \<Rightarrow>
          if \<not> created then respond (created_response False (json_payout payout))
          else andthen (run_payout sv e p payout scn) (\<lambda>finished.
            respond (created_response True (json_payout finished)))) s1 = (res, s')"
  obtain payout created where a: "a = (payout, created)" by (cases a)
  obtain d1 where rv: "reserve_payout e p (pr_quote_id req) (case key of None \<Rightarrow> [] | Some k \<Rightarrow> k)
    (scenario_as_str scn) (pr_settlement_invoice req) (app_db s) = Inr ((payout, created), d1)"
    and s1: "s1 = s\<lparr>app_db := d1\<rparr>" using h a by (elim run_db_call) auto
  have pay: "t_payments (app_db s1) = t_payments (app_db s)" "app_node s1 = app_node s"
    using reserve_payments rv s1 by (auto simp: payments_kept_def)
  have ok1: "schema_ok (app_db s1)" using reserve_op.op_schema [OF ok rv] s1 by simp
  show ?thesis
  proof (cases created)
    case False
    then show ?thesis using k a pay by (auto simp: unpaid_def)
  next
    case True
    then obtain x where "run_payout sv e p payout scn s1 = (x, s')" using k a by (auto elim: run_andthen)
    then show ?thesis using run_payout_leg [OF ok1] pay s1 True rv
        reserve_payout_row [of e p _ _ _ _ "app_db s" payout d1]
        settled_leg_shift [of p payout s1 s' payout s] unpaid_shift [of _ s1 s' s]
      by fastforce
  qed
qed

lemma create_payout_leg:
  assumes ok: "schema_ok (app_db s)" and c: "create_payout sv e headers body s = (res, s')"
  shows "unpaid (sv_backend sv) s s'
    \<or> (\<exists>auth payout. authorize (sv_sha256 sv) (app_db s) headers SandboxWrite = Inr auth
        \<and> settled_leg (ac_project_id auth) payout s s' \<and> pot_id payout \<notin> pot_id ` set (t_payouts (app_db s)))"
proof (cases "s' = s")
  case True
  then show ?thesis by (simp add: unpaid_def)
next
  case False
  then obtain auth key scn req where "authorize (sv_sha256 sv) (app_db s) headers SandboxWrite = Inr auth"
      "place_payout sv e (ac_project_id auth) key scn req s = (res, s')"
    using c unfolding create_payout_def fetch_quote_def by (elim run_elims) blast+
  then show ?thesis using place_payout_leg [OF ok] by blast
qed

lemma quiet_payout_with_payment [moves_rules]: "quiet sv (payout_with_payment sv p payout)"
  unfolding payout_with_payment_def by (intro moves_rules)

lemma resolve_payout_leg:
  assumes ok: "schema_ok (app_db s)" and r: "payout \<in> set (t_payouts (app_db s))"
    and c: "resolve_payout sv e p payout outcome s = (res, s')"
  shows "unpaid (sv_backend sv) s s' \<or> settled_leg p payout s s'"
proof (cases "outcome = ''success''")
  case True
  then show ?thesis using complete_success_leg [OF ok r] c by (simp add: resolve_payout_def)
next
  case False
  have "quiet sv (resolve_payout sv e p payout outcome)"
    using False unfolding resolve_payout_def by (simp only: if_False) (intro sandbox_payments moves_rules)
  then show ?thesis using keepsD c by blast
qed

lemma get_payout_Inr: "get_payout p i d = Inr r \<Longrightarrow> r \<in> set (t_payouts d) \<and> pot_project_id r = p \<and> pot_id r = i"
  by (auto simp: get_payout_def split: option.splits dest: select_one_Some)

lemma quiet_tail:
  assumes "andthen h k s = (res, s')" and "\<And>a. quiet sv (k a)"
  obtains x s1 where "h s = (x, s1)" "unpaid (sv_backend sv) s1 s'"
    "\<And>R. step_preorder R \<Longrightarrow> (\<And>a. keeps R (k a)) \<Longrightarrow> R s1 s'"
  using assms(1)
proof (rule run_andthen)
  fix err assume "h s = (Inl err, s')"
  then show thesis using that [of "Inl err" s'] quiet_steps.step_refl step_preorder.step_refl by blast
next
  fix a s1 assume "h s = (Inr a, s1)" "k a s1 = (res, s')"
  then show thesis using that [of "Inr a" s1] assms(2) keepsD by blast
qed

text \<open>A step without payments after the settlement leaves it settled.\<close>

lemma settled_leg_steps:
  assumes "settled_leg p payout s s1" and "unpaid be s1 s'" and "app_steps s1 s'" and "schema_ok (app_db s1)"
  shows "settled_leg p payout s s'"
proof -
  have "grows payout_le (t_payouts (app_db s1)) (t_payouts (app_db s'))"
    using assms(3,4) by (simp add: app_steps_def evolves_def)
  then have "\<exists>r \<in> set (t_payouts (app_db s')). payout_fixed r = payout_fixed payout \<and> pot_status r = ''succeeded''"
    using assms(1) succeeded_stays unfolding settled_leg_def by metis
  then show ?thesis using assms(1,2) by (simp add: settled_leg_def unpaid_def)
qed

lemma reconcile_payout_leg:
  assumes ok: "schema_ok (app_db s)" and c: "reconcile_payout sv e headers i body s = (res, s')"
  shows "unpaid (sv_backend sv) s s'
    \<or> (\<exists>auth payout. authorize (sv_sha256 sv) (app_db s) headers SandboxWrite = Inr auth
        \<and> settled_leg (ac_project_id auth) payout s s' \<and> payout \<in> set (t_payouts (app_db s)) \<and> pot_status payout = ''unknown'')"
proof (cases "s' = s")
  case True
  then show ?thesis by (simp add: unpaid_def)
next
  case False
  let ?tail = "\<lambda>p resolved. andthen (payout_with_payment sv p resolved) (\<lambda>body. respond (ok_response body))"
  obtain p payout outcome auth where g: "get_payout p i (app_db s) = Inr payout" "pot_status payout = ''unknown''"
      and au: "authorize (sv_sha256 sv) (app_db s) headers SandboxWrite = Inr auth" "p = ac_project_id auth"
      and k: "andthen (resolve_payout sv e p payout outcome) (?tail p) s = (res, s')"
    using c False unfolding reconcile_payout_def fetch_payout_def
    by (elim run_elims) (auto simp: payout_as_str.simps)
  have r: "payout \<in> set (t_payouts (app_db s))" using get_payout_Inr [OF g(1)] by simp
  have q: "quiet sv (?tail p a)" and mv: "moves (?tail p a)" for a by (intro moves_rules)+
  obtain x s1 where h: "resolve_payout sv e p payout outcome s = (x, s1)" "unpaid (sv_backend sv) s1 s'"
      "app_steps s1 s'"
    using k by (rule quiet_tail [OF _ q]) (metis mv schema_steps.step_preorder_axioms)
  have ok1: "schema_ok (app_db s1)" using keepsD [OF moves_resolve_payout h(1)] ok by (simp add: app_steps_def)
  from resolve_payout_leg [OF ok r h(1)] show ?thesis
    using settled_leg_steps [OF _ h(2,3) ok1] quiet_steps.step_trans [OF _ h(2)] r g(2) au by blast
qed

text \<open>
  C30. Bitcoin moves for a sandbox payout only after its simulated destination confirmed: whenever a
  payout request or a reconciliation changes any payment, stored or at the node, its key may write to the
  sandbox, some payout that was
  new or \<open>unknown\<close> before is recorded as succeeded and names a settlement invoice, and at most one
  payment was added, for the key's project under the idempotency key derived from that payout. A failed or timed-out payout
  releases nothing.
\<close>

theorem bitcoin_leg_gated:
  assumes "schema_ok (app_db s)"
    and "create_payout sv e headers body s = (res, s') \<or> reconcile_payout sv e headers i rbody s = (res, s')"
    and "\<not> unpaid (sv_backend sv) s s'"
  shows "\<exists>auth payout. authorize (sv_sha256 sv) (app_db s) headers SandboxWrite = Inr auth
    \<and> settled_leg (ac_project_id auth) payout s s'
    \<and> (\<forall>r \<in> set (t_payouts (app_db s)). pot_id r = pot_id payout \<longrightarrow> pot_status r = ''unknown'')"
proof -
  have "r = payout" if "r \<in> set (t_payouts (app_db s))" "payout \<in> set (t_payouts (app_db s))" "pot_id r = pot_id payout"
    for r payout
    using assms(1) that by (auto simp: schema_ok_def payouts_table_def dest: distinct_map_eq [of pot_id])
  then show ?thesis
    using assms(2,3) create_payout_leg [OF assms(1)] reconcile_payout_leg [OF assms(1)] by (metis image_eqI)
qed

section \<open>A settlement that cannot be sent\<close>

lemma send_sub_sat:
  assumes "sr_amount_msat req = Some a" and "unat a < 1000"
  shows "\<exists>err. send_payment be sha256 json_text e p k req s = (Inl err, s)"
proof -
  have "\<not> amount_in_supply a"
    using assms(2) unat_to_sats_floor [of "Millisatoshis a"]
    by (simp add: amount_in_supply_def Let_def unsigned_eq_0_iff)
  then show ?thesis using assms(1)
    by (auto simp: send_payment_def send_begin_def send_amount_def Let_def split: sum.splits option.splits if_splits)
qed

lemma advance_total:
  assumes ok: "schema_ok d" and fresh: "events_fresh e d" and r: "r \<in> set (t_payouts d)"
    and st: "pot_status r = payout_as_str fr" "payout_can_transition_to fr next" "next \<noteq> PotFailed"
  shows "\<exists>d'. advance_payout e (pot_id r) next d = Inr ((advance_row e next r, True), d') \<and> t_balances d' = t_balances d
    \<and> t_quotes d' = t_quotes d \<and> t_api_keys d' = t_api_keys d \<and> events_fresh e d'"
proof -
  have sel: "select_one (\<lambda>x. pot_id x = pot_id r) (t_payouts d) = Some r"
    using ok r by (intro select_one_unique) (auto simp: schema_ok_def payouts_table_def)
  have ne: "fr \<noteq> next" using st(2) by (cases fr) auto
  let ?d1 = "d\<lparr>t_payouts := update_where (\<lambda>x. pot_id x = pot_id r) (advance_row e next) (t_payouts d)\<rparr>"
  have "pot_project_id (advance_row e next r) \<in> set (map prj_id (t_projects ?d1))"
    using ok r by (auto simp: schema_ok_def payouts_table_def advance_row_def)
  moreover have fr: "events_fresh e ?d1" using fresh by (simp add: events_fresh_def)
  ultimately obtain ev d3 where em: "emit e (pot_project_id (advance_row e next r)) (''sandbox.payout.'' @ payout_as_str next)
      (pot_id (advance_row e next r)) (payout_event_data (advance_row e next r)) True ?d1 = Inr (ev, d3)"
    using emit_total by blast
  then have "advance_payout e (pot_id r) next d = Inr ((advance_row e next r, True), d3)"
    using sel st ne by (simp add: advance_payout_def refund_if_failed_def Let_def)
  moreover have "t_api_keys d3 = t_api_keys d" using emit_Inr [OF em] by (simp add: emitted_def)
  ultimately show ?thesis using emitted_sandbox [OF em] emitted_fresh [OF emit_Inr [OF em] fr] by simp
qed

lemma reconcile_succeeded_refused:
  assumes "schema_ok (app_db s)" and "r \<in> set (t_payouts (app_db s))" and "pot_status r = ''succeeded''"
  shows "\<exists>err. reconcile_payout sv e headers (pot_id r) body s = (Inl err, s)"
proof -
  have "r' = r" if "get_payout p (pot_id r) (app_db s) = Inr r'" for p r'
    using get_payout_Inr [OF that] assms(1,2)
    by (auto simp: schema_ok_def payouts_table_def dest: distinct_map_eq [of pot_id])
  note same = this
  obtain res s' where run: "reconcile_payout sv e headers (pot_id r) body s = (res, s')" by fastforce
  have "s' = s \<and> (\<exists>err. res = Inl err)"
    using run unfolding reconcile_payout_def fetch_payout_def
    by (elim run_elims) (auto dest!: same simp: assms(3))
  then show ?thesis using run by auto
qed

text \<open>
  The loss itself: when the quote of an \<open>unknown\<close> payout is worth less than 1000 millisatoshis, confirming
  it answers with an error but leaves the payout succeeded, and no later reconciliation is accepted.
\<close>

lemma unknown_settlement_lost:
  assumes "schema_ok (app_db s)" and "events_fresh e (app_db s)"
    and "authorize (sv_sha256 sv) (app_db s) headers SandboxWrite = Inr auth"
    and "payout \<in> set (t_payouts (app_db s))" and "pot_project_id payout = ac_project_id auth"
    and "pot_status payout = ''unknown''" and "pot_settlement_bolt11 payout = Some invoice"
    and "get_quote (ac_project_id auth) (pot_quote_id payout) (app_db s) = Inr qt"
    and "qte_btc_amount_msat qt < 1000"
  shows "\<exists>err s' r. reconcile_payout sv e headers (pot_id payout) (False, Inr ''success'') s = (Inl err, s')
    \<and> unpaid (sv_backend sv) s s' \<and> t_balances (app_db s') = t_balances (app_db s)
    \<and> r \<in> set (t_payouts (app_db s')) \<and> pot_id r = pot_id payout \<and> pot_status r = ''succeeded''
    \<and> pot_payment_id r = pot_payment_id payout
    \<and> (\<forall>s2 e' headers' body'. schema_ok (app_db s2) \<longrightarrow> evolves (app_db s') (app_db s2)
        \<longrightarrow> (\<exists>err'. reconcile_payout sv e' headers' (pot_id payout) body' s2 = (Inl err', s2)))"
proof -
  let ?r = "advance_row e PotSucceeded payout"
  obtain d1 where adv: "advance_payout e (pot_id payout) PotSucceeded (app_db s) = Inr ((?r, True), d1)"
    and d1: "t_balances d1 = t_balances (app_db s)" "t_quotes d1 = t_quotes (app_db s)"
    using advance_total [OF assms(1,2,4), of PotUnknown PotSucceeded] assms(6) by auto
  let ?s1 = "s\<lparr>app_db := d1\<rparr>"
  note row = advance_payout_row [OF assms(1) adv]
  have q: "get_quote (ac_project_id auth) (pot_quote_id ?r) d1 = Inr qt"
    using assms(8) d1(2) by (simp add: get_quote_def advance_row_def)
  have "0 < qte_btc_amount_msat qt"
    using assms(1,8) by (auto simp: get_quote_def schema_ok_def quotes_table_def split: option.splits dest!: select_one_Some)
  then have "unat (word_of_int (qte_btc_amount_msat qt) :: u64) < 1000"
    using assms(9) by (simp add: unat_eq_nat_uint uint_word_of_int nat_less_iff)
  then obtain err where "send_payment (sv_backend sv) (sv_sha256 sv) (sv_json_text sv) e (ac_project_id auth)
      (settlement_key (pot_id ?r)) \<lparr>sr_bolt11 = invoice, sr_amount_msat = Some (word_of_int (qte_btc_amount_msat qt)),
          sr_metadata = JObj [(''sandbox_payout_id'', JStr (pot_id ?r))]\<rparr> ?s1 = (Inl err, ?s1)"
    using send_sub_sat by (metis send_request.select_convs(2))
  then have "complete_success sv e (ac_project_id auth) payout s = (Inl err, ?s1)"
    using adv assms(7) q
    by (simp add: complete_success_def settle_payout_def andthen_def db_call_def check_def map_error_def)
  moreover have "select_one (\<lambda>r. pot_project_id r = ac_project_id auth \<and> pot_id r = pot_id payout) (t_payouts (app_db s))
      = Some payout"
    using assms(1,4,5) by (intro select_one_only)
      (auto simp: schema_ok_def payouts_table_def dest: distinct_map_eq [of pot_id])
  then have "get_payout (ac_project_id auth) (pot_id payout) (app_db s) = Inr payout" by (simp add: get_payout_def)
  ultimately have "reconcile_payout sv e headers (pot_id payout) (False, Inr ''success'') s = (Inl err, ?s1)"
    using assms(3,6) by (simp add: reconcile_payout_def auth_scope_def fetch_payout_def check_def json_parse_def
        map_error_def unless_def resolve_payout_def andthen_def)
  moreover have "unpaid (sv_backend sv) s ?s1"
    using advance_payments adv by (auto simp: unpaid_def payments_kept_def)
  moreover have "\<exists>err'. reconcile_payout sv e' headers' (pot_id payout) body' s2 = (Inl err', s2)"
    if ok2: "schema_ok (app_db s2)" and ev: "evolves d1 (app_db s2)" for s2 :: "'a app" and e' headers' body'
  proof -
    have "grows payout_le (t_payouts d1) (t_payouts (app_db s2))" using ev by (simp add: evolves_def)
    then obtain r' where "r' \<in> set (t_payouts (app_db s2))" "payout_fixed r' = payout_fixed ?r" "pot_status r' = ''succeeded''"
      using succeeded_stays [OF _ row(1)] row(3) by auto
    then show ?thesis using reconcile_succeeded_refused [OF ok2] row(2) by (metis payout_fixed_def prod.inject)
  qed
  ultimately show ?thesis using row d1(1)
    by (intro exI [of _ err] exI [of _ ?s1] exI [of _ ?r]) (simp add: advance_row_def)
qed

section \<open>From a quote to the loss\<close>

text \<open>Requests of one history draw their identifiers from one stream of UUIDs, at different times.\<close>

lemma drawn_uuid: "env_uuid e' = env_uuid e \<Longrightarrow> drawn e' k n ids \<longleftrightarrow> drawn e k n ids"
  by (simp add: drawn_def)

lemma events_fresh_uuid: "env_uuid e' = env_uuid e \<Longrightarrow> events_fresh e' d \<longleftrightarrow> events_fresh e d"
  by (simp add: events_fresh_def drawn_def)

lemma authorize_keys: "t_api_keys d' = t_api_keys d \<Longrightarrow> authorize sha256 d' headers scope = authorize sha256 d headers scope"
proof -
  assume "t_api_keys d' = t_api_keys d"
  then have same: "db_authenticate h d' = db_authenticate h d" for h by (simp add: db_authenticate_def)
  show ?thesis unfolding authorize_def authenticate_def same ..
qed

text \<open>Small amounts of naira for Kenyan shillings, or the reverse, are worth less than one satoshi.\<close>

definition sub_sat :: "currency \<Rightarrow> currency \<Rightarrow> u64 \<Rightarrow> bool" where
  "sub_sat src tgt m \<longleftrightarrow> src = Ngn \<and> tgt = Kes \<and> 24 \<le> unat m \<and> unat m \<le> 89
     \<or> src = Kes \<and> tgt = Ngn \<and> 1 \<le> unat m \<and> unat m \<le> 7"

lemma sub_sat_btc: "sub_sat src tgt m \<Longrightarrow> 0 < exact_btc src (unat m) \<and> exact_btc src (unat m) < 1000"
  by (auto simp: sub_sat_def exact_btc_def)

lemma sub_sat_quote:
  assumes "sub_sat src tgt m"
  obtains calc where "quote src tgt m = Inr calc" "unat (qc_btc_amount_msat calc) = exact_btc src (unat m)"
    "0 < unat (qc_target_minor calc)" "unat (qc_target_minor calc) < 2 ^ 63" "unat (qc_rate_ppm calc) < 2 ^ 63"
    "0 < unat m" "unat m < 2 ^ 63"
proof -
  have m: "src \<noteq> tgt" "m \<noteq> 0" "0 < unat m" "unat m < 2 ^ 63" using assms by (auto simp: sub_sat_def)
  have t: "0 < exact_target src tgt (unat m)" "exact_target src tgt (unat m) < 10000"
    using assms by (auto simp: sub_sat_def exact_target_def)
  have r: "exact_rate src tgt < 100000000" using assms by (auto simp: sub_sat_def exact_rate_def)
  note b = sub_sat_btc [OF assms]
  let ?t = "of_nat (exact_target src tgt (unat m)) :: u64"
  let ?b = "of_nat (exact_btc src (unat m)) :: u64"
  have u: "unat ?t = exact_target src tgt (unat m)" "unat ?b = exact_btc src (unat m)"
    "unat (of_nat (exact_rate src tgt) :: u64) = exact_rate src tgt"
    using t r b by (simp_all add: unat_of_nat)
  then have "?t \<noteq> 0" "?b \<noteq> 0" using t b by (metis less_not_refl unat_0)+
  moreover have "\<not> ?b > MAX_SATS * 1000" using b u(2) by (simp add: word_less_nat_alt MAX_SATS_def)
  ultimately have "quote src tgt m = Inr \<lparr>qc_target_minor = ?t, qc_rate_ppm = of_nat (exact_rate src tgt), qc_btc_amount_msat = ?b\<rparr>"
    using m t r b by (simp add: quote_def Let_def to_u64_cases word_target word_rate word_btc)
  then show thesis using that u m t r b by fastforce
qed

lemma quote_endpoint:
  assumes "schema_ok (app_db s)" and "inj (env_uuid e)"
    and "drawn e QuoteId (next_uuid (app_db s)) (map qte_id (t_quotes (app_db s)))"
    and au: "authorize (sv_sha256 sv) (app_db s) headers SandboxWrite = Inr auth"
    and p: "ac_project_id auth \<in> project_ids (app_db s)" and sub: "sub_sat src tgt m"
  obtains q d1 where "create_quote sv e headers (False, Inr \<lparr>qr_source = \<lparr>mr_currency = currency_code src,
      mr_minor_units = m\<rparr>, qr_target_currency = currency_code tgt\<rparr>) s = (Inr (201, json_quote q), s\<lparr>app_db := d1\<rparr>)"
    and "schema_ok d1"
    and "d1 = (app_db s)\<lparr>next_uuid := next_uuid (app_db s) + 1, t_quotes := insert_row q (t_quotes (app_db s))\<rparr>"
    and "qte_id q \<notin> qte_id ` set (t_quotes (app_db s))" and "qte_project_id q = ac_project_id auth"
    and "qte_source_currency q = currency_code src" and "qte_source_minor q = int (unat m)"
    and "qte_btc_amount_msat q = int (exact_btc src (unat m))" and "qte_status q = ''open''"
    and "qte_expires_at q = env_now e + seconds 300"
proof -
  obtain calc where c: "quote src tgt m = Inr calc" "unat (qc_btc_amount_msat calc) = exact_btc src (unat m)"
    "0 < unat (qc_target_minor calc)" "unat (qc_target_minor calc) < 2 ^ 63" "unat (qc_rate_ppm calc) < 2 ^ 63"
    "0 < unat m" "unat m < 2 ^ 63" using sub_sat_quote [OF sub] by blast
  note b = sub_sat_btc [OF sub]
  let ?new = "\<lparr>nq_project_id = ac_project_id auth, nq_source_currency = currency_code src,
          nq_target_currency = currency_code tgt, nq_source_minor = m, nq_target_minor = qc_target_minor calc,
          nq_rate_ppm = qc_rate_ppm calc, nq_btc_amount_msat = qc_btc_amount_msat calc,
          nq_expires_at = env_now e + seconds QUOTE_TTL_SECS\<rparr>"
  let ?i = "id_new QuoteId (env_uuid e (next_uuid (app_db s)))"
  have i: "?i \<notin> qte_id ` set (t_quotes (app_db s))" using drawn_fresh [OF assms(2,3) order_refl] by simp
  let ?q = "\<lparr>qte_id = ?i, qte_project_id = ac_project_id auth, qte_source_currency = currency_code src,
     qte_target_currency = currency_code tgt, qte_source_minor = int (unat m),
     qte_target_minor = int (unat (qc_target_minor calc)), qte_rate_ppm = int (unat (qc_rate_ppm calc)),
     qte_btc_amount_msat = int (exact_btc src (unat m)), qte_status = ''open'',
     qte_expires_at = env_now e + seconds 300, qte_created_at = env_now e\<rparr>"
  let ?d1 = "(app_db s)\<lparr>next_uuid := next_uuid (app_db s) + 1, t_quotes := insert_row ?q (t_quotes (app_db s))\<rparr>"
  have z: "m \<noteq> 0" "qc_target_minor calc \<noteq> 0" using c by auto
  have ins: "insert_quote e ?new (app_db s) = Inr (?q, ?d1)"
    using c b i p z by (simp add: insert_quote_def fresh_id_def to_i64_def Let_def QUOTE_TTL_SECS_def unsigned_eq_0_iff)
  then have "create_quote sv e headers (False, Inr \<lparr>qr_source = \<lparr>mr_currency = currency_code src,
      mr_minor_units = m\<rparr>, qr_target_currency = currency_code tgt\<rparr>) s = (Inr (201, json_quote ?q), s\<lparr>app_db := ?d1\<rparr>)"
    by (simp add: create_quote_def auth_scope_def au check_def json_parse_def map_error_def parse_currency_def
        sandbox_checked_def cur_text.parse_as_str c(1) andthen_def db_call_def created_response_def)
  then show thesis using insert_quote_op.op_schema [OF assms(1) ins] i by (intro that [of ?q ?d1]) simp_all
qed

text \<open>A reservation that is covered, for an open quote and a new key, goes through.\<close>

lemma reserve_total:
  assumes ok: "schema_ok d" and fresh: "events_fresh e d"
    and pots: "drawn e PayoutId (next_uuid d) (map pot_id (t_payouts d))"
    and q: "q \<in> set (t_quotes d)" "qte_status q = ''open''" "env_now e \<le> qte_expires_at q" "qte_project_id q = p"
    and bal: "qte_source_minor q \<le> balance_of p (qte_source_currency q) d"
    and unused: "qte_id q \<notin> pot_quote_id ` set (t_payouts d)"
      "\<forall>r \<in> set (t_payouts d). pot_project_id r = p \<longrightarrow> pot_idempotency_key r \<noteq> k"
  shows "\<exists>r d'. reserve_payout e p (qte_id q) k (scenario_as_str scn) b d = Inr ((r, True), d')
    \<and> events_fresh e d' \<and> t_api_keys d' = t_api_keys d \<and> t_quotes d' = use_quote (qte_id q) (t_quotes d)
    \<and> balance_of p (qte_source_currency q) d' = balance_of p (qte_source_currency q) d - qte_source_minor q
    \<and> r \<in> set (t_payouts d') \<and> pot_project_id r = p \<and> pot_quote_id r = qte_id q \<and> pot_status r = ''reserved''
    \<and> pot_settlement_bolt11 r = b \<and> pot_payment_id r = None"
proof -
  let ?c = "qte_source_currency q" and ?d1 = "d\<lparr>t_quotes := use_quote (qte_id q) (t_quotes d)\<rparr>"
  have pos: "0 < qte_source_minor q" using ok q(1) by (simp add: schema_ok_def quotes_table_def)
  have uniq: "x = q" if "x \<in> set (t_quotes d)" "qte_id x = qte_id q" for x
    using that ok q(1) by (auto simp: schema_ok_def quotes_table_def dest: distinct_map_eq)
  have sq: "select_one (\<lambda>r. qte_project_id r = p \<and> qte_id r = qte_id q) (t_quotes d) = Some q"
    using q(1,4) uniq by (intro select_one_only) auto
  have sp: "select_one (\<lambda>r. pot_project_id r = p \<and> pot_idempotency_key r = k) (t_payouts d) = None"
    using unused(2) by (auto simp: select_one_None)
  obtain b0 where b0: "select_one (\<lambda>b. bal_project_id b = p \<and> bal_currency b = ?c) (t_balances d) = Some b0"
    using bal pos by (cases "select_one (\<lambda>b. bal_project_id b = p \<and> bal_currency b = ?c) (t_balances d)")
      (auto simp: balance_of_def)
  note b0' = select_one_Some [OF b0]
  have hb: "has_balance p ?c d" using b0' by (auto simp: has_balance_def)
  have "in_i64 (bal_minor b0)" and p: "p \<in> project_ids d" using ok b0' by (auto simp: schema_ok_def balances_table_def)
  moreover have "qte_source_minor q \<le> bal_minor b0" using bal b0 by (simp add: balance_of_def)
  ultimately have "in_i64 (bal_minor b0 - qte_source_minor q)" using pos by (simp add: in_i64_def)
  then obtain d2 where up: "upsert_balance p ?c (- qte_source_minor q) ?d1 = Inr d2"
    using b0 by (simp add: upsert_balance_def Let_def)
  have "has_balance p ?c ?d1" using hb by (simp add: has_balance_def)
  note d2 = upsert_existing [OF this up]
  let ?i = "id_new PayoutId (env_uuid e (next_uuid d))"
  have i: "?i \<notin> pot_id ` set (t_payouts d)"
    using drawn_fresh [OF _ pots order_refl] fresh by (simp add: events_fresh_def)
  have key: "(p, k) \<notin> (\<lambda>r. (pot_project_id r, pot_idempotency_key r)) ` set (t_payouts d)" using unused(2) by auto
  have qin: "qte_id q \<in> qte_id ` set (use_quote (qte_id q) (t_quotes d))"
    using q(1) by (auto simp: use_quote_def image_update_where)
  have sc: "scenario_as_str scn \<in> {''success'', ''failure'', ''timeout''}" by (cases scn) simp_all
  obtain r d3 where ins: "insert_payout e p (qte_id q) k (scenario_as_str scn) b d2 = Inr (r, d3)" "pot_payment_id r = None"
    using i key qin sc p unused(1) by (auto simp: insert_payout_def fresh_id_def Let_def d2)
  note row = insert_payout_Inr [OF ins(1)]
  have fr3: "events_fresh e d3" using fresh by (auto simp: row(1) d2 events_fresh_def intro: drawn_mono)
  have "p \<in> set (map prj_id (t_projects d3))" using p by (simp add: row(1) d2)
  from emit_total [OF fr3 this] obtain ev d4 where em: "emit e p ''sandbox.payout.reserved'' (pot_id r)
      (payout_event_data r) True d3 = Inr (ev, d4)" by blast
  have "reserve_payout e p (qte_id q) k (scenario_as_str scn) b d = Inr ((r, True), d4)"
    using sq sp q(2,3) bal up ins em by (simp add: reserve_payout_def use_quote_def Let_def)
  moreover have "t_api_keys d4 = t_api_keys d" using emit_Inr [OF em] by (simp add: emitted_def row(1) d2)
  moreover have "t_balances d4 = update_where (\<lambda>b. bal_project_id b = p \<and> bal_currency b = ?c)
      (\<lambda>b. b\<lparr>bal_minor := bal_minor b + - qte_source_minor q\<rparr>) (t_balances d)"
    using emitted_sandbox [OF em] by (simp add: row(1) d2)
  then have "balance_of p ?c d4 = balance_of p ?c d - qte_source_minor q"
    using balance_of_add [OF ok hb, of d4 "- qte_source_minor q" p ?c] by simp
  ultimately show ?thesis using emitted_sandbox [OF em] emitted_fresh [OF emit_Inr [OF em] fr3] row(8-13) ins(2)
    by (simp add: row(1) d2 insert_row_def)
qed

text \<open>A payout for the timeout scenario ends in doubt.\<close>

lemma run_timeout:
  assumes ok: "schema_ok (app_db s)" and fresh: "events_fresh e (app_db s)"
    and r: "r \<in> set (t_payouts (app_db s))" "pot_status r = ''reserved''"
  shows "\<exists>r' d'. run_payout sv e p r ScnTimeout s = (Inr r', s\<lparr>app_db := d'\<rparr>) \<and> r' \<in> set (t_payouts d')
    \<and> pot_status r' = ''unknown'' \<and> payout_fixed r' = payout_fixed r \<and> pot_payment_id r' = pot_payment_id r
    \<and> schema_ok d' \<and> events_fresh e d' \<and> t_api_keys d' = t_api_keys (app_db s) \<and> t_quotes d' = t_quotes (app_db s)
    \<and> t_balances d' = t_balances (app_db s) \<and> t_payments d' = t_payments (app_db s)"
proof -
  let ?r1 = "advance_row e PotPending r"
  obtain d1 where a1: "advance_payout e (pot_id r) PotPending (app_db s) = Inr ((?r1, True), d1)"
    and d1: "t_balances d1 = t_balances (app_db s)" "t_quotes d1 = t_quotes (app_db s)"
      "t_api_keys d1 = t_api_keys (app_db s)" "events_fresh e d1"
    using advance_total [OF ok fresh r(1), of PotReserved PotPending] r(2) by auto
  note ok1 = advance_op.op_schema [OF ok a1] and row1 = advance_payout_row [OF ok a1]
  let ?r2 = "advance_row e PotUnknown ?r1"
  obtain d2 where a2: "advance_payout e (pot_id ?r1) PotUnknown d1 = Inr ((?r2, True), d2)"
    and d2: "t_balances d2 = t_balances d1" "t_quotes d2 = t_quotes d1" "t_api_keys d2 = t_api_keys d1" "events_fresh e d2"
    using advance_total [OF ok1 d1(4) row1(1), of PotPending PotUnknown] row1(3) by auto
  note ok2 = advance_op.op_schema [OF ok1 a2] and row2 = advance_payout_row [OF ok1 a2]
  have "run_payout sv e p r ScnTimeout s = (Inr ?r2, s\<lparr>app_db := d2\<rparr>)"
    using a1 a2 by (simp add: run_payout_def andthen_def db_call_def respond_def)
  moreover have "t_payments d2 = t_payments (app_db s)" using advance_payments a1 a2 unfolding payments_kept_def by metis
  ultimately show ?thesis using d1 d2 ok2 row2(1,3) row2(4) [OF row1(1) refl] row1(4) [OF r(1) refl]
    by (intro exI [of _ ?r2] exI [of _ d2]) (simp add: advance_row_def)
qed

lemma doubtful_payout:
  assumes ok: "schema_ok (app_db s)" and fresh: "events_fresh e (app_db s)"
    and pots: "drawn e PayoutId (next_uuid (app_db s)) (map pot_id (t_payouts (app_db s)))"
    and au: "authorize (sv_sha256 sv) (app_db s) headers SandboxWrite = Inr auth"
    and key: "idempotency_key headers True = Inr (Some k)"
      "\<forall>r \<in> set (t_payouts (app_db s)). pot_project_id r = ac_project_id auth \<longrightarrow> pot_idempotency_key r \<noteq> k"
    and q: "q \<in> set (t_quotes (app_db s))" "qte_status q = ''open''" "env_now e \<le> qte_expires_at q"
      "qte_project_id q = ac_project_id auth" "qte_id q \<notin> pot_quote_id ` set (t_payouts (app_db s))"
    and bal: "qte_source_minor q \<le> balance_of (ac_project_id auth) (qte_source_currency q) (app_db s)"
    and inv: "be_parse_invoice (sv_backend sv) (app_node s) invoice = Inr parsed"
      "\<forall>a. pi_amount_msat parsed = Some a \<longrightarrow> sint a = qte_btc_amount_msat q"
  shows "\<exists>r d'. create_payout sv e headers (False, Inr \<lparr>pr_quote_id = qte_id q, pr_scenario = ''timeout'',
      pr_settlement_invoice = Some invoice\<rparr>) s = (Inr (201, json_payout r), s\<lparr>app_db := d'\<rparr>)
    \<and> r \<in> set (t_payouts d') \<and> pot_status r = ''unknown'' \<and> pot_project_id r = ac_project_id auth
    \<and> pot_quote_id r = qte_id q \<and> pot_settlement_bolt11 r = Some invoice \<and> pot_payment_id r = None
    \<and> schema_ok d' \<and> events_fresh e d' \<and> t_api_keys d' = t_api_keys (app_db s)
    \<and> t_quotes d' = use_quote (qte_id q) (t_quotes (app_db s)) \<and> t_payments d' = t_payments (app_db s)
    \<and> balance_of (ac_project_id auth) (qte_source_currency q) d'
        = balance_of (ac_project_id auth) (qte_source_currency q) (app_db s) - qte_source_minor q"
proof -
  obtain r d1 where rv: "reserve_payout e (ac_project_id auth) (qte_id q) k (scenario_as_str ScnTimeout) (Some invoice)
      (app_db s) = Inr ((r, True), d1)"
    and d1: "events_fresh e d1" "t_api_keys d1 = t_api_keys (app_db s)" "t_quotes d1 = use_quote (qte_id q) (t_quotes (app_db s))"
      "balance_of (ac_project_id auth) (qte_source_currency q) d1
        = balance_of (ac_project_id auth) (qte_source_currency q) (app_db s) - qte_source_minor q"
    and r: "r \<in> set (t_payouts d1)" "pot_project_id r = ac_project_id auth" "pot_quote_id r = qte_id q"
      "pot_status r = ''reserved''" "pot_settlement_bolt11 r = Some invoice" "pot_payment_id r = None"
    using reserve_total [OF ok fresh pots q(1-4) bal q(5) key(2), of ScnTimeout "Some invoice"] by blast
  have ok1: "schema_ok (app_db (s\<lparr>app_db := d1\<rparr>))" using reserve_op.op_schema [OF ok rv] by simp
  obtain r' d2 where run: "run_payout sv e (ac_project_id auth) r ScnTimeout (s\<lparr>app_db := d1\<rparr>) = (Inr r', s\<lparr>app_db := d2\<rparr>)"
    and r': "r' \<in> set (t_payouts d2)" "pot_status r' = ''unknown''" "payout_fixed r' = payout_fixed r"
      "pot_payment_id r' = pot_payment_id r"
    and d2: "schema_ok d2" "events_fresh e d2" "t_api_keys d2 = t_api_keys d1" "t_quotes d2 = t_quotes d1"
      "t_balances d2 = t_balances d1" "t_payments d2 = t_payments d1"
    using run_timeout [OF ok1, of e r sv "ac_project_id auth"] d1(1) r(1,4) by auto
  have "t_payments d1 = t_payments (app_db s)" using reserve_payments rv unfolding payments_kept_def by metis
  moreover have "balance_of p c d2 = balance_of p c d1" for p c using d2(5) by (simp add: balance_of_def)
  moreover have "select_one (\<lambda>x. qte_project_id x = ac_project_id auth \<and> qte_id x = qte_id q) (t_quotes (app_db s)) = Some q"
    using ok q(1,4) by (intro select_one_only) (auto simp: schema_ok_def quotes_table_def dest: distinct_map_eq)
  then have gq: "get_quote (ac_project_id auth) (qte_id q) (app_db s) = Inr q" by (simp add: get_quote_def)
  have "check_settlement sv (Some invoice) q (app_node s) = Inr ()"
    using inv by (simp add: check_settlement_def split: option.split)
  then have "create_payout sv e headers (False, Inr \<lparr>pr_quote_id = qte_id q, pr_scenario = ''timeout'',
      pr_settlement_invoice = Some invoice\<rparr>) s = (Inr (201, json_payout r'), s\<lparr>app_db := d2\<rparr>)"
    using rv run gq key(1)
    by (simp add: create_payout_def auth_scope_def au check_def json_parse_def map_error_def sandbox_checked_def
        scenario_from_str_def fetch_quote_def place_payout_def andthen_def db_call_def respond_def created_response_def)
  ultimately show ?thesis using r r' d1 d2
    by (intro exI [of _ r'] exI [of _ d2]) (simp add: payout_fixed_def)
qed

text \<open>
  C31. A settlement below one satoshi is lost, and the API leads there. Starting from a project whose key
  may write to the sandbox and whose balance covers the amount, let a request for a quote over 24 to 89
  kobo into Kenyan shillings, or 1 to 7 Kenyan cents into naira, be followed within the quote's five minutes
  by a payout request for it with the \<open>timeout\<close> scenario, a new idempotency key and an invoice that
  parses and has no amount or the quote's. The quote is made, for less than 1000 millisatoshis, and the
  payout is recorded as \<open>unknown\<close>: both requests answer 201. Reconciling it as a success then answers with
  an error, yet leaves the payout succeeded with the reserved amount spent and no payment made, stored
  or at the node, and no later reconciliation, however the database evolves, is accepted again. The
  identifiers drawn are assumed new, and no other request is served in between.
\<close>

theorem settlement_lost:
  assumes "schema_ok (app_db s)" and "events_fresh e1 (app_db s)"
    and "drawn e1 QuoteId (next_uuid (app_db s)) (map qte_id (t_quotes (app_db s)))"
    and "drawn e1 PayoutId (next_uuid (app_db s)) (map pot_id (t_payouts (app_db s)))"
    and "env_uuid e2 = env_uuid e1" and "env_uuid e3 = env_uuid e1" and "env_now e2 \<le> env_now e1 + seconds 300"
    and "\<forall>h \<in> {h1, h2, h3}. authorize (sv_sha256 sv) (app_db s) h SandboxWrite = Inr auth"
    and "idempotency_key h2 True = Inr (Some k)"
    and "\<forall>r \<in> set (t_payouts (app_db s)). pot_project_id r = ac_project_id auth \<longrightarrow> pot_idempotency_key r \<noteq> k"
    and "src = Ngn \<and> tgt = Kes \<and> 24 \<le> unat m \<and> unat m \<le> 89 \<or> src = Kes \<and> tgt = Ngn \<and> 1 \<le> unat m \<and> unat m \<le> 7"
    and "int (unat m) \<le> balance_of (ac_project_id auth) (currency_code src) (app_db s)"
    and "be_parse_invoice (sv_backend sv) (app_node s) invoice = Inr parsed"
    and "\<forall>a. pi_amount_msat parsed = Some a \<longrightarrow> unat a = exact_btc src (unat m)"
  shows "\<exists>q s1 r s2 err s3 r3.
      create_quote sv e1 h1 (False, Inr \<lparr>qr_source = \<lparr>mr_currency = currency_code src, mr_minor_units = m\<rparr>,
        qr_target_currency = currency_code tgt\<rparr>) s = (Inr (201, json_quote q), s1)
    \<and> qte_btc_amount_msat q = int (exact_btc src (unat m)) \<and> qte_btc_amount_msat q < 1000
    \<and> create_payout sv e2 h2 (False, Inr \<lparr>pr_quote_id = qte_id q, pr_scenario = ''timeout'',
        pr_settlement_invoice = Some invoice\<rparr>) s1 = (Inr (201, json_payout r), s2) \<and> pot_status r = ''unknown''
    \<and> reconcile_payout sv e3 h3 (pot_id r) (False, Inr ''success'') s2 = (Inl err, s3)
    \<and> unpaid (sv_backend sv) s s3
    \<and> balance_of (ac_project_id auth) (currency_code src) (app_db s3)
        = balance_of (ac_project_id auth) (currency_code src) (app_db s) - int (unat m)
    \<and> r3 \<in> set (t_payouts (app_db s3)) \<and> pot_id r3 = pot_id r \<and> pot_status r3 = ''succeeded'' \<and> pot_payment_id r3 = None
    \<and> (\<forall>s4 e' headers' body'. schema_ok (app_db s4) \<longrightarrow> evolves (app_db s3) (app_db s4)
        \<longrightarrow> (\<exists>err'. reconcile_payout sv e' headers' (pot_id r) body' s4 = (Inl err', s4)))"
proof -
  let ?p = "ac_project_id auth" and ?c = "currency_code src"
  have sub: "sub_sat src tgt m" using assms(11) by (simp add: sub_sat_def)
  note btc = sub_sat_btc [OF sub]
  have au: "authorize (sv_sha256 sv) d h SandboxWrite = Inr auth"
    if "h \<in> {h1, h2, h3}" "t_api_keys d = t_api_keys (app_db s)" for h d
    using assms(8) that authorize_keys [of d "app_db s"] by auto
  have "0 < unat m" using sub by (auto simp: sub_sat_def)
  then have "0 < balance_of ?p ?c (app_db s)" using assms(12) by linarith
  then obtain b where "select_one (\<lambda>b. bal_project_id b = ?p \<and> bal_currency b = ?c) (t_balances (app_db s)) = Some b"
    by (cases "select_one (\<lambda>b. bal_project_id b = ?p \<and> bal_currency b = ?c) (t_balances (app_db s))")
      (auto simp: balance_of_def)
  then have "b \<in> set (t_balances (app_db s))" "bal_project_id b = ?p" by (auto dest: select_one_Some)
  moreover have "balances_table (project_ids (app_db s)) (t_balances (app_db s))" using assms(1) by (simp add: schema_ok_def)
  ultimately have p: "?p \<in> project_ids (app_db s)" unfolding balances_table_def by metis
  have "inj (env_uuid e1)" using assms(2) by (simp add: events_fresh_def)
  then obtain q d1 where quote: "create_quote sv e1 h1 (False, Inr \<lparr>qr_source = \<lparr>mr_currency = ?c, mr_minor_units = m\<rparr>,
        qr_target_currency = currency_code tgt\<rparr>) s = (Inr (201, json_quote q), s\<lparr>app_db := d1\<rparr>)"
    and ok1: "schema_ok d1"
    and d1: "d1 = (app_db s)\<lparr>next_uuid := next_uuid (app_db s) + 1, t_quotes := insert_row q (t_quotes (app_db s))\<rparr>"
    and q: "qte_id q \<notin> qte_id ` set (t_quotes (app_db s))" "qte_project_id q = ?p" "qte_source_currency q = ?c"
      "qte_source_minor q = int (unat m)" "qte_btc_amount_msat q = int (exact_btc src (unat m))" "qte_status q = ''open''"
      "qte_expires_at q = env_now e1 + seconds 300"
    using quote_endpoint [OF assms(1) _ assms(3) au [of h1] p sub] by (metis insertI1)
  let ?s1 = "s\<lparr>app_db := d1\<rparr>"
  have fr1: "events_fresh e2 (app_db ?s1)" and po1: "drawn e2 PayoutId (next_uuid (app_db ?s1)) (map pot_id (t_payouts (app_db ?s1)))"
    using assms(2,4) unfolding events_fresh_uuid [OF assms(5)] drawn_uuid [OF assms(5)]
    by (auto simp: d1 events_fresh_def intro: drawn_mono)
  have unused: "qte_id q \<notin> pot_quote_id ` set (t_payouts (app_db s))"
    using q(1) assms(1) by (auto simp: schema_ok_def payouts_table_def)
  have small: "sint a = int (unat a)" if "unat a < 1000" for a :: u64
  proof -
    have "int (unat a) < 1000" using that by linarith
    then have "uint a < 2 ^ 63" by simp
    moreover have "- (2 ^ 63) \<le> uint a" by (rule order_trans [of _ 0]) simp_all
    ultimately have "signed_take_bit 63 (uint a) = uint a" by (intro signed_take_bit_int_eq_self)
    then show ?thesis by (simp add: sint_uint)
  qed
  obtain r d2 where payout: "create_payout sv e2 h2 (False, Inr \<lparr>pr_quote_id = qte_id q, pr_scenario = ''timeout'',
        pr_settlement_invoice = Some invoice\<rparr>) ?s1 = (Inr (201, json_payout r), s\<lparr>app_db := d2\<rparr>)"
    and r: "r \<in> set (t_payouts d2)" "pot_status r = ''unknown''" "pot_project_id r = ?p" "pot_quote_id r = qte_id q"
      "pot_settlement_bolt11 r = Some invoice" "pot_payment_id r = None"
    and d2: "schema_ok d2" "events_fresh e2 d2" "t_api_keys d2 = t_api_keys (app_db s)"
      "t_quotes d2 = use_quote (qte_id q) (t_quotes d1)" "t_payments d2 = t_payments (app_db s)"
      "balance_of ?p ?c d2 = balance_of ?p ?c (app_db s) - int (unat m)"
    using doubtful_payout [of ?s1 e2 sv h2 auth k q invoice parsed] ok1 fr1 po1 au [of h2 d1] assms(7,9,10,12,13,14) q unused btc small
    by (auto simp: d1 insert_row_def balance_of_def)
  let ?s2 = "s\<lparr>app_db := d2\<rparr>" and ?q = "q\<lparr>qte_status := ''used''\<rparr>"
  have "?q \<in> set (t_quotes d2)" by (auto simp: d2(4) d1 use_quote_def set_update_where insert_row_def)
  then have "select_one (\<lambda>x. qte_project_id x = ?p \<and> qte_id x = qte_id q) (t_quotes d2) = Some ?q"
    using d2(1) q(2) by (intro select_one_only) (auto simp: schema_ok_def quotes_table_def dest: distinct_map_eq)
  then have gq: "get_quote ?p (pot_quote_id r) (app_db ?s2) = Inr ?q" by (simp add: get_quote_def r(4))
  have fr2: "events_fresh e3 (app_db ?s2)" 
    using d2(2) by (simp add: events_fresh_uuid [OF assms(5)] events_fresh_uuid [OF assms(6)])
  obtain err s3 r3 where rec: "reconcile_payout sv e3 h3 (pot_id r) (False, Inr ''success'') ?s2 = (Inl err, s3)"
    and un: "unpaid (sv_backend sv) ?s2 s3" and bl: "t_balances (app_db s3) = t_balances (app_db ?s2)"
    and r3: "r3 \<in> set (t_payouts (app_db s3))" "pot_id r3 = pot_id r" "pot_status r3 = ''succeeded''"
      "pot_payment_id r3 = pot_payment_id r"
    and later: "\<forall>s4 e' headers' body'. schema_ok (app_db s4) \<longrightarrow> evolves (app_db s3) (app_db s4)
        \<longrightarrow> (\<exists>err'. reconcile_payout sv e' headers' (pot_id r) body' s4 = (Inl err', s4))"
    using unknown_settlement_lost [of ?s2 e3 sv h3 auth r invoice ?q] d2(1,3) fr2 au [of h3 d2] r gq q(5) btc by auto
  have "unpaid (sv_backend sv) s s3" using unpaid_shift [OF un] d2(5) by simp
  moreover have "balance_of ?p ?c (app_db s3) = balance_of ?p ?c (app_db s) - int (unat m)"
    using bl d2(6) by (simp add: balance_of_def)
  ultimately show ?thesis using quote payout rec r(2,6) r3 later q(5) btc
    by (intro exI [of _ q] exI [of _ ?s1] exI [of _ r] exI [of _ ?s2] exI [of _ err] exI [of _ s3] exI [of _ r3]) simp
qed

section \<open>A payout in doubt\<close>

definition doubtful_app :: "int \<Rightarrow> mock_state app" where
  "doubtful_app btc = \<lparr>app_db = keyed_db [''sandbox:write''] (sample_db\<lparr>
       t_quotes := [sample_quote\<lparr>qte_status := ''used'', qte_btc_amount_msat := btc\<rparr>],
       t_payouts := [\<lparr>pot_id = ''pot_1'', pot_project_id = ''prj_a'', pot_quote_id = ''qte_1'', pot_idempotency_key = ''k'',
          pot_scenario = ''timeout'', pot_settlement_bolt11 = Some sample_bolt11, pot_status = ''unknown'',
          pot_payment_id = None, pot_created_at = 0, pot_updated_at = 0\<rparr>]\<rparr>),
     app_node = mock_new\<rparr>"

lemma doubtful_schema: "0 < btc \<Longrightarrow> schema_ok (app_db (doubtful_app btc))"
  by (simp add: schema_ok_def table_defs doubtful_app_def sample_quote_def sample_db_def empty_db_def keyed_db_def
      keyed_invoices_def in_i64_def payout_from_str_def quote_from_str_def parses_def)

lemma doubtful_fresh: "events_fresh sample_env (app_db (doubtful_app btc))"
  using sample_fresh by (simp add: doubtful_app_def events_fresh_def keyed_db_def)

lemma doubtful_auth:
  "authorize (sv_sha256 sample_server) (app_db (doubtful_app btc)) sample_headers SandboxWrite
     = Inr \<lparr>ac_project_id = ''prj_a'', ac_key_id = ''key_1'', ac_scopes = [''sandbox:write'']\<rparr>"
  by (simp add: sample_server_def doubtful_app_def sample_authorize)

section \<open>A funded project\<close>

definition funded_app :: "mock_state app" where
  "funded_app = \<lparr>app_db = keyed_db [''sandbox:write''] (sample_db\<lparr>t_balances :=
       [\<lparr>bal_project_id = ''prj_a'', bal_currency = ''NGN'', bal_minor = 1200\<rparr>]\<rparr>), app_node = mock_new\<rparr>"

definition paying_headers :: headers where
  "paying_headers = sample_headers(''idempotency-key'' := Some (Some ''k''))"

lemma authorize_headers:
  "headers ''authorization'' = headers' ''authorization'' \<Longrightarrow> authorize sha d headers scope = authorize sha d headers' scope"
  by (simp add: authorize_def authenticate_def)

lemma paying_key: "idempotency_key paying_headers True = Inr (Some ''k'')"
proof -
  have "trim ''k'' = ''k''" by (rule trim_graphic) (simp add: graphic_def code_def)
  then show ?thesis by (simp add: idempotency_key_def paying_headers_def)
qed

lemma funded_schema: "schema_ok (app_db funded_app)"
  by (simp add: schema_ok_def table_defs funded_app_def sample_db_def empty_db_def keyed_db_def keyed_invoices_def in_i64_def)

lemma funded_fresh: "events_fresh sample_env (app_db funded_app)"
  using sample_fresh by (simp add: funded_app_def events_fresh_def keyed_db_def)

lemma funded_auth:
  "authorize (sv_sha256 sample_server) (app_db funded_app) paying_headers SandboxWrite
     = Inr \<lparr>ac_project_id = ''prj_a'', ac_key_id = ''key_1'', ac_scopes = [''sandbox:write'']\<rparr>"
  using authorize_headers [of paying_headers sample_headers]
  by (simp add: sample_server_def funded_app_def paying_headers_def sample_authorize)

text \<open>An invoice for 700 msat, the worth of 63 kobo.\<close>

definition small_bolt11 :: string where
  "small_bolt11 = mock_bolt11 (nat_digits 7) (fake_hash 1)"

lemma small_bolt11_parse:
  "mock_parse_invoice show_err s small_bolt11 = Inr \<lparr>pi_payment_hash = fake_hash 1, pi_amount_msat = Some 700\<rparr>"
proof -
  have d: "nat_digits 7 \<noteq> []" "list_all is_ascii_digit (nat_digits 7)"
      "list_all is_ascii_hexdigit (fake_hash 1)" "length (fake_hash 1) = 64"
    by (simp_all add: nat_digits_digits fake_hash_shape)
  have "parse_u64 (nat_digits 7) = Some 7" using parse_u64_nat_digits [of 7] by simp
  then show ?thesis
    using mock_second [OF d(1-3)] mock_prefix [OF d(1-3)] mock_amount_digits [OF d(1-3)] d(4)
    by (simp add: mock_parse_invoice_def small_bolt11_def)
qed

theorem settlement_lost_witness:
  "\<exists>q s1 r s2 err s3 r3.
      create_quote sample_server sample_env paying_headers (False, Inr \<lparr>qr_source = \<lparr>mr_currency = ''NGN'',
        mr_minor_units = 63\<rparr>, qr_target_currency = ''KES''\<rparr>) funded_app = (Inr (201, json_quote q), s1)
    \<and> qte_btc_amount_msat q = 700
    \<and> create_payout sample_server sample_env paying_headers (False, Inr \<lparr>pr_quote_id = qte_id q,
        pr_scenario = ''timeout'', pr_settlement_invoice = Some small_bolt11\<rparr>) s1 = (Inr (201, json_payout r), s2)
    \<and> reconcile_payout sample_server sample_env paying_headers (pot_id r) (False, Inr ''success'') s2 = (Inl err, s3)
    \<and> balance_of ''prj_a'' ''NGN'' (app_db s3) = 1137
    \<and> r3 \<in> set (t_payouts (app_db s3)) \<and> pot_id r3 = pot_id r \<and> pot_status r3 = ''succeeded'' \<and> pot_payment_id r3 = None"
proof -
  have e: "exact_btc Ngn 63 = 700" by (simp add: exact_btc_def)
  have t: "t_quotes (app_db funded_app) = []" "t_payouts (app_db funded_app) = []" "balance_of ''prj_a'' ''NGN'' (app_db funded_app) = 1200"
    by (simp_all add: funded_app_def keyed_db_def sample_db_def empty_db_def balance_of_def select_one_def)
  have i: "be_parse_invoice (sv_backend sample_server) (app_node funded_app) small_bolt11
      = Inr \<lparr>pi_payment_hash = fake_hash 1, pi_amount_msat = Some 700\<rparr>"
    by (simp add: sample_server_def mock_backend_def small_bolt11_parse)
  note lost = settlement_lost [OF funded_schema funded_fresh, of sample_env sample_env paying_headers paying_headers paying_headers
      sample_server "\<lparr>ac_project_id = ''prj_a'', ac_key_id = ''key_1'', ac_scopes = [''sandbox:write'']\<rparr>" "''k''"
      Ngn Kes 63 small_bolt11, OF _ _ refl refl _ _ paying_key _ _ _ i]
  have "drawn sample_env QuoteId n []" "drawn sample_env PayoutId n []" for n by (simp_all add: drawn_def)
  then show ?thesis using lost t e funded_auth by fastforce
qed

lemma doubtful_send:
  "\<exists>res s'. reconcile_payout sample_server sample_env sample_headers ''pot_1'' (False, Inr ''success'') (doubtful_app 21000)
      = (Inr res, s') \<and> mk_payments (app_node s') (fake_hash 1) \<noteq> None"
proof -
  let ?s = "doubtful_app 21000"
  define r where "r = hd (t_payouts (app_db ?s))"
  have r: "get_payout ''prj_a'' ''pot_1'' (app_db ?s) = Inr r" "pot_status r = ''unknown''"
    by (simp_all add: r_def doubtful_app_def keyed_db_def get_payout_def select_one_def)
  have "reconcile_payout sample_server sample_env sample_headers ''pot_1'' (False, Inr ''success'') ?s
      = andthen (resolve_payout sample_server sample_env ''prj_a'' r ''success'') (\<lambda>resolved.
          andthen (payout_with_payment sample_server ''prj_a'' resolved) (\<lambda>body. respond (ok_response body))) ?s"
    using r by (simp add: reconcile_payout_def auth_scope_def check_def doubtful_auth json_parse_def map_error_def
        fetch_payout_def unless_def)
  then show ?thesis
    by (simp add: r_def check_def map_error_def sample_server_def get_payout_def resolve_payout_def
      complete_success_def settle_payout_def andthen_def db_call_def advance_payout_def select_one_def
      doubtful_app_def keyed_db_def sample_quote_def sample_db_def empty_db_def sample_env_def
      payout_from_str_def refund_if_failed_def emit_def new_event_def outbox_rows_def fresh_id_def Let_def
      advance_row_def update_where_def enumerate_eq_zip insert_row_def get_quote_def
      send_payment_def send_begin_def mock_backend_def send_amount_def
      amount_in_supply_def to_sats_floor_def MAX_SATS_def MSAT_PER_SAT_def word_le_nat_alt
      begin_payment_def to_i64_def send_pend_def
      engine_transition_def transition_payment_def payment_from_str_def payment_transition_def
      fee_column_def no_resolution_def send_dispatch_def mock_send_payment_def mock_new_def
      resolve_row_def attach_payment_to_payout_def payout_with_payment_def get_payment_def)
qed

theorem bitcoin_leg_gated_witness:
  "\<exists>res s' r. reconcile_payout sample_server sample_env sample_headers ''pot_1'' (False, Inr ''success'') (doubtful_app 21000)
      = (Inr res, s') \<and> \<not> unpaid (sv_backend sample_server) (doubtful_app 21000) s'
     \<and> r \<in> set (t_payouts (app_db s')) \<and> pot_status r = ''succeeded''"
proof -
  obtain res s' where c: "reconcile_payout sample_server sample_env sample_headers ''pot_1'' (False, Inr ''success'')
      (doubtful_app 21000) = (Inr res, s')" "mk_payments (app_node s') (fake_hash 1) \<noteq> None"
    using doubtful_send by blast
  then have n: "\<not> unpaid (sv_backend sample_server) (doubtful_app 21000) s'"
    by (auto simp: unpaid_def sample_server_def mock_backend_def mock_payment_def doubtful_app_def mock_new_def)
  from bitcoin_leg_gated [OF doubtful_schema disjI2 [OF c(1)] n] c(1) n show ?thesis
    by (auto simp: settled_leg_def)
qed

end
