(* ===== verification/Bitcoin_Watcher.thy ===== *)
theory Bitcoin_Watcher
  imports Bitcoin_Rpc Storage_Onchain
begin

text \<open>
  The chain watcher (safrod-bitcoin/src/watcher.rs): one pass scans the confirmed outputs and the
  mempool for the watched addresses and records what it sees. The loop of \<open>run\<close> repeats passes and
  logs their errors.
\<close>

definition MAX_MEMPOOL_TXS :: nat where
  "MAX_MEMPOOL_TXS = 2000"

datatype watch_error = WRpc rpc_error | WStorage storage_error

text \<open>A \<open>HashMap\<close> built from the rows: a later entry replaces an earlier one.\<close>

definition by_address :: "address_row list \<Rightarrow> string \<Rightarrow> address_row option" where
  "by_address addresses = map_of (rev (map (\<lambda>a. (adr_address a, a)) addresses))"

text \<open>
  The observation of a confirmed and of a mempool output; \<open>u32 as i32\<close> reinterprets the bits, and
  the addition wraps in a release build.
\<close>

definition confirmed_observation :: "u32 \<Rightarrow> address_row \<Rightarrow> unspent \<Rightarrow> observation" where
  "confirmed_observation tip_height address u =
     \<lparr>obs_address = address, obs_txid = un_txid u, obs_vout = sint (un_vout u),
      obs_amount_sat = un_amount_sat u, obs_block_height = Some (sint (un_height u)),
      obs_confirmations = sint (saturating_sub (tip_height + 1) (un_height u))\<rparr>"

definition mempool_observation :: "address_row \<Rightarrow> mempool_output \<Rightarrow> observation" where
  "mempool_observation address out =
     \<lparr>obs_address = address, obs_txid = mo_txid out, obs_vout = sint (mo_vout out),
      obs_amount_sat = mo_amount_sat out, obs_block_height = None, obs_confirmations = 0\<rparr>"

fun scan_confirmed ::
  "env \<Rightarrow> (string \<Rightarrow> address_row option) \<Rightarrow> u32 \<Rightarrow> unspent list \<Rightarrow> (string \<times> u32) list \<Rightarrow> nat \<Rightarrow> db
   \<Rightarrow> (watch_error + (string \<times> u32) list \<times> nat) \<times> db" where
  "scan_confirmed e watched tip_height [] seen changed d = (Inr (seen, changed), d)"
| "scan_confirmed e watched tip_height (u # us) seen changed d =
     (case watched (un_address u) of
        None \<Rightarrow> scan_confirmed e watched tip_height us seen changed d
      | Some address \<Rightarrow>
          (case record_observation e (confirmed_observation tip_height address u) d of
             Inl err \<Rightarrow> (Inl (WStorage err), d)
           | Inr (observed, d') \<Rightarrow>
               scan_confirmed e watched tip_height us ((un_txid u, un_vout u) # seen)
                 (changed + (if observed \<noteq> None then 1 else 0)) d'))"

fun scan_outputs ::
  "env \<Rightarrow> (string \<Rightarrow> address_row option) \<Rightarrow> (string \<times> u32) list \<Rightarrow> mempool_output list \<Rightarrow> nat \<Rightarrow> db
   \<Rightarrow> (watch_error + nat) \<times> db" where
  "scan_outputs e watched seen [] changed d = (Inr changed, d)"
| "scan_outputs e watched seen (out # outs) changed d =
     (case watched (mo_address out) of
        None \<Rightarrow> scan_outputs e watched seen outs changed d
      | Some address \<Rightarrow>
          if (mo_txid out, mo_vout out) \<in> set seen then scan_outputs e watched seen outs changed d
          else
            (case record_observation e (mempool_observation address out) d of
               Inl err \<Rightarrow> (Inl (WStorage err), d)
             | Inr (observed, d') \<Rightarrow>
                 scan_outputs e watched seen outs (changed + (if observed \<noteq> None then 1 else 0)) d'))"

fun scan_mempool ::
  "env \<Rightarrow> (string \<Rightarrow> rpc_error + mempool_output list option) \<Rightarrow> (string \<Rightarrow> address_row option)
   \<Rightarrow> (string \<times> u32) list \<Rightarrow> string list \<Rightarrow> nat \<Rightarrow> db \<Rightarrow> (watch_error + nat) \<times> db" where
  "scan_mempool e outputs watched seen [] changed d = (Inr changed, d)"
| "scan_mempool e outputs watched seen (txid # txids) changed d =
     (case outputs txid of
        Inl err \<Rightarrow> (Inl (WRpc err), d)
      | Inr None \<Rightarrow> scan_mempool e outputs watched seen txids changed d
      | Inr (Some outs) \<Rightarrow>
          (case scan_outputs e watched seen outs changed d of
             (Inl err, d') \<Rightarrow> (Inl err, d')
           | (Inr changed', d') \<Rightarrow> scan_mempool e outputs watched seen txids changed' d'))"

definition scan_once :: "bitcoind \<Rightarrow> bitcoin_rpc \<Rightarrow> env \<Rightarrow> db \<Rightarrow> (watch_error + nat) \<times> db" where
  "scan_once bd rpc e d =
     (let addresses = watched_addresses d
      in if addresses = [] then (Inr 0, d)
         else
           (case scan_addresses bd rpc (map adr_address addresses) of
              Inl err \<Rightarrow> (Inl (WRpc err), d)
            | Inr scan \<Rightarrow>
                (case scan_confirmed e (by_address addresses) (sc_tip_height scan) (sc_unspents scan) [] 0 d of
                   (Inl err, d1) \<Rightarrow> (Inl err, d1)
                 | (Inr (seen, changed), d1) \<Rightarrow>
                     (case mempool_txids bd rpc of
                        Inl err \<Rightarrow> (Inl (WRpc err), d1)
                      | Inr txids \<Rightarrow>
                          scan_mempool e (mempool_outputs bd rpc) (by_address addresses) seen
                            (take MAX_MEMPOOL_TXS txids) changed d1))))"

definition watcher_run :: "bitcoind \<Rightarrow> bitcoin_rpc \<Rightarrow> env list \<Rightarrow> db \<Rightarrow> db" where
  "watcher_run bd rpc passes d = fold (\<lambda>e d. snd (scan_once bd rpc e d)) passes d"

section \<open>A pass is a list of observations\<close>

fun record_all :: "env \<Rightarrow> observation list \<Rightarrow> nat \<Rightarrow> db \<Rightarrow> (watch_error + nat) \<times> db" where
  "record_all e [] n d = (Inr n, d)"
| "record_all e (ob # obs) n d =
     (case record_observation e ob d of
        Inl err \<Rightarrow> (Inl (WStorage err), d)
      | Inr (x, d') \<Rightarrow> record_all e obs (n + (if x \<noteq> None then 1 else 0)) d')"

fun confirmed_obs :: "(string \<Rightarrow> address_row option) \<Rightarrow> u32 \<Rightarrow> unspent list \<Rightarrow> observation list" where
  "confirmed_obs watched tip [] = []"
| "confirmed_obs watched tip (u # us) =
     (case watched (un_address u) of
        None \<Rightarrow> confirmed_obs watched tip us
      | Some a \<Rightarrow> confirmed_observation tip a u # confirmed_obs watched tip us)"

definition seen_of :: "(string \<Rightarrow> address_row option) \<Rightarrow> unspent list \<Rightarrow> (string \<times> u32) list" where
  "seen_of watched us = map (\<lambda>u. (un_txid u, un_vout u)) (filter (\<lambda>u. watched (un_address u) \<noteq> None) us)"

fun output_obs ::
  "(string \<Rightarrow> address_row option) \<Rightarrow> (string \<times> u32) list \<Rightarrow> mempool_output list \<Rightarrow> observation list" where
  "output_obs watched seen [] = []"
| "output_obs watched seen (out # outs) =
     (case watched (mo_address out) of
        None \<Rightarrow> output_obs watched seen outs
      | Some a \<Rightarrow>
          if (mo_txid out, mo_vout out) \<in> set seen then output_obs watched seen outs
          else mempool_observation a out # output_obs watched seen outs)"

abbreviation outpoint :: "observation \<Rightarrow> string \<times> int" where
  "outpoint ob \<equiv> (obs_txid ob, obs_vout ob)"

lemma scan_confirmed_records:
  "scan_confirmed e watched tip us seen n d =
     (case record_all e (confirmed_obs watched tip us) n d of
        (Inl err, d') \<Rightarrow> (Inl err, d')
      | (Inr m, d') \<Rightarrow> (Inr (rev (seen_of watched us) @ seen, m), d'))"
proof (induction us arbitrary: seen n d)
  case (Cons u us)
  show ?case by (cases "watched (un_address u)") (auto simp: Cons seen_of_def split: sum.splits prod.splits)
qed (simp add: seen_of_def)

lemma scan_outputs_records:
  "scan_outputs e watched seen outs n d = record_all e (output_obs watched seen outs) n d"
  by (induction outs arbitrary: n d) (auto split: option.splits sum.splits)

lemma record_all_append:
  "record_all e (xs @ ys) n d =
     (case record_all e xs n d of (Inl err, d') \<Rightarrow> (Inl err, d') | (Inr m, d') \<Rightarrow> record_all e ys m d')"
  by (induction xs arbitrary: n d) (auto split: sum.splits prod.splits)

text \<open>The observations of a list of mempool transactions whose outputs could all be fetched.\<close>

fun mempool_obs ::
  "(string \<Rightarrow> rpc_error + mempool_output list option) \<Rightarrow> (string \<Rightarrow> address_row option) \<Rightarrow> (string \<times> u32) list
   \<Rightarrow> string list \<Rightarrow> observation list" where
  "mempool_obs outputs watched seen [] = []"
| "mempool_obs outputs watched seen (txid # txids) =
     (case outputs txid of
        Inr (Some outs) \<Rightarrow> output_obs watched seen outs @ mempool_obs outputs watched seen txids
      | _ \<Rightarrow> mempool_obs outputs watched seen txids)"

lemma scan_mempool_records:
  "\<forall>txid \<in> set txids. \<exists>r. outputs txid = Inr r \<Longrightarrow>
     scan_mempool e outputs watched seen txids n d = record_all e (mempool_obs outputs watched seen txids) n d"
proof (induction txids arbitrary: n d)
  case (Cons t ts)
  then obtain r where "outputs t = Inr r" by auto
  then show ?case using Cons
    by (cases r) (auto simp: record_all_append scan_outputs_records split: sum.splits prod.splits)
qed simp

lemma scan_mempool_fetched:
  "scan_mempool e outputs watched seen txids n d = (Inr m, d') \<Longrightarrow> txid \<in> set txids \<Longrightarrow> \<exists>r. outputs txid = Inr r"
  by (induction txids arbitrary: n d) (auto split: sum.splits option.splits prod.splits)

section \<open>What is recorded stays recorded\<close>

definition recorded :: "observation \<Rightarrow> db \<Rightarrow> bool" where
  "recorded ob d \<longleftrightarrow> (\<exists>r \<in> set (t_transactions d). txn_txid r = obs_txid ob \<and> txn_vout r = obs_vout ob
     \<and> txn_confirmations r = obs_confirmations ob)"

lemma recorded_again:
  assumes "schema_ok d" and "recorded ob d"
  shows "record_observation e ob d = Inr (None, d)"
proof -
  obtain r where r: "r \<in> set (t_transactions d)" "txn_txid r = obs_txid ob" "txn_vout r = obs_vout ob"
    "txn_confirmations r = obs_confirmations ob" using assms(2) by (auto simp: recorded_def)
  have "select_one (\<lambda>r. txn_txid r = obs_txid ob \<and> txn_vout r = obs_vout ob) (t_transactions d) = Some r"
    using assms(1) r by (intro select_one_only)
      (auto simp: schema_ok_def transactions_table_def dest: distinct_map_eq [of "\<lambda>r. (txn_txid r, txn_vout r)"])
  then show ?thesis using r(4) by (simp add: record_observation_def)
qed

lemma observe_row_fields:
  "txn_txid (observe_row e ob r) = txn_txid r" "txn_vout (observe_row e ob r) = txn_vout r"
  "txn_confirmations (observe_row e ob r) = obs_confirmations ob"
  by (simp_all add: observe_row_def)

lemma record_transactions:
  assumes "record_observation e ob d = Inr (out, d')"
  shows "recorded ob d' \<and> t_addresses d' = t_addresses d
    \<and> (\<forall>r \<in> set (t_transactions d). (txn_txid r, txn_vout r) \<noteq> outpoint ob \<longrightarrow> schema_ok d \<longrightarrow> r \<in> set (t_transactions d'))"
  using assms
proof (cases rule: record_observation_cases)
  case (seen old)
  then show ?thesis by (auto simp: recorded_def)
next
  case (detected row d1 ev)
  note i = insert_transaction_Inr [OF detected(2)]
  have "t_transactions d' = t_transactions d1" "t_addresses d' = t_addresses d1"
    using emit_Inr [OF detected(4)] by (simp_all add: emitted_def)
  then show ?thesis using i by (auto simp: recorded_def)
next
  case (changed old ev)
  let ?u = "update_where (\<lambda>r. txn_id r = txn_id old) (observe_row e ob) (t_transactions d)"
  have t: "t_transactions d' = ?u" "t_addresses d' = t_addresses d"
    using emit_Inr [OF changed(6)] by (simp_all add: emitted_def)
  have "observe_row e ob old \<in> set ?u" using changed(2) by (auto simp: set_update_where)
  then have "recorded ob d'" using t changed(3,4) unfolding recorded_def by (metis (no_types, lifting) observe_row_fields)
  moreover have "r \<in> set ?u" if "r \<in> set (t_transactions d)" "(txn_txid r, txn_vout r) \<noteq> outpoint ob" "schema_ok d" for r
  proof -
    have "txn_id r \<noteq> txn_id old" using that changed(2-4)
      by (auto simp: schema_ok_def transactions_table_def dest: distinct_map_eq [of txn_id])
    then show ?thesis using that(1) by (force simp: set_update_where)
  qed
  ultimately show ?thesis using t by simp
qed

lemma record_all_records:
  assumes "record_all e obs n d = (Inr m, d')" and "schema_ok d" and "distinct (map outpoint obs)"
  shows "schema_ok d' \<and> t_addresses d' = t_addresses d
    \<and> (\<forall>ob. (ob \<in> set obs \<or> (recorded ob d \<and> outpoint ob \<notin> outpoint ` set obs)) \<longrightarrow> recorded ob d')"
  using assms
proof (induction obs arbitrary: n d)
  case (Cons o1 obs)
  obtain x d1 where r: "record_observation e o1 d = Inr (x, d1)"
    and rest: "record_all e obs (n + (if x \<noteq> None then 1 else 0)) d1 = (Inr m, d')"
    using Cons.prems(1) by (auto split: sum.splits)
  note t = record_transactions [OF r]
  have ok1: "schema_ok d1" using observe_op.op_schema [OF Cons.prems(2) r] .
  have k: "recorded ob d1" if "recorded ob d" "outpoint ob \<noteq> outpoint o1" for ob
    using that t Cons.prems(2) by (fastforce simp: recorded_def)
  have ih: "schema_ok d' \<and> t_addresses d' = t_addresses d1
      \<and> (\<forall>ob. (ob \<in> set obs \<or> (recorded ob d1 \<and> outpoint ob \<notin> outpoint ` set obs)) \<longrightarrow> recorded ob d')"
    using Cons.IH [OF rest ok1] Cons.prems(3) by simp
  have "recorded o1 d'" using ih t Cons.prems(3) by auto
  moreover have "recorded ob d'" if "recorded ob d" "outpoint ob \<notin> outpoint ` set (o1 # obs)" for ob
    using ih k [OF that(1)] that(2) by simp
  ultimately show ?case using ih t by auto
qed simp

lemma record_all_again:
  "schema_ok d \<Longrightarrow> (\<And>ob. ob \<in> set obs \<Longrightarrow> recorded ob d) \<Longrightarrow> record_all e obs n d = (Inr n, d)"
  by (induction obs arbitrary: n) (simp_all add: recorded_again)

section \<open>The outputs of one view of the chain\<close>

text \<open>
  What Bitcoin Core guarantees of its answers: the UTXO set holds an output once, the mempool a
  transaction once, and a transaction numbers its outputs.
\<close>

definition view_distinct :: "bitcoind \<Rightarrow> bitcoin_rpc \<Rightarrow> string list \<Rightarrow> bool" where
  "view_distinct bd rpc names \<longleftrightarrow>
     (\<forall>scan. scan_addresses bd rpc names = Inr scan \<longrightarrow>
        distinct (map (\<lambda>u. (un_txid u, un_vout u)) (sc_unspents scan)))
     \<and> (\<forall>txids. mempool_txids bd rpc = Inr txids \<longrightarrow> distinct txids)
     \<and> (\<forall>txid outs. mempool_outputs bd rpc txid = Inr (Some outs) \<longrightarrow> distinct (map mo_vout outs))"

lemma vout_outputs_txid: "vout_outputs txid vs = Inr outs \<Longrightarrow> out \<in> set outs \<Longrightarrow> mo_txid out = txid"
  by (induction vs arbitrary: outs) (auto split: option.splits sum.splits)

lemma mempool_outputs_txid: "mempool_outputs bd rpc txid = Inr (Some outs) \<Longrightarrow> out \<in> set outs \<Longrightarrow> mo_txid out = txid"
  by (auto simp: mempool_outputs_def split: sum.splits option.splits rpc_error.splits if_splits dest: vout_outputs_txid)

lemma sint_eq: "sint a = sint b \<longleftrightarrow> a = b" for a b :: u32
  by (rule signed_word_eqI [THEN iffI]) auto

lemma confirmed_obs_outpoints:
  "map outpoint (confirmed_obs watched tip us) = map (\<lambda>(t, v). (t, sint v)) (seen_of watched us)"
  by (induction us) (auto simp: seen_of_def confirmed_observation_def split: option.splits)

lemma output_obs_outpoint:
  "ob \<in> set (output_obs watched seen outs) \<Longrightarrow>
     \<exists>out \<in> set outs. outpoint ob = (mo_txid out, sint (mo_vout out)) \<and> (mo_txid out, mo_vout out) \<notin> set seen"
  by (induction outs) (auto simp: mempool_observation_def split: option.splits if_splits)

lemma output_obs_distinct:
  "distinct (map mo_vout outs) \<Longrightarrow> distinct (map outpoint (output_obs watched seen outs))"
proof (induction outs)
  case (Cons out outs)
  have n: "outpoint (mempool_observation a out) \<notin> outpoint ` set (output_obs watched seen outs)" for a
  proof
    assume "outpoint (mempool_observation a out) \<in> outpoint ` set (output_obs watched seen outs)"
    then obtain ob where "ob \<in> set (output_obs watched seen outs)" "outpoint ob = outpoint (mempool_observation a out)"
      by auto
    then show False using output_obs_outpoint [of ob watched seen outs] Cons.prems
      by (auto simp: mempool_observation_def sint_eq)
  qed
  show ?case
  proof (cases "watched (mo_address out)")
    case (Some a)
    show ?thesis using Some Cons n [of a] by (cases "(mo_txid out, mo_vout out) \<in> set seen") simp_all
  qed (use Cons in simp)
qed simp

lemma mempool_obs_outpoint:
  "ob \<in> set (mempool_obs outputs watched seen txids) \<Longrightarrow>
     (\<And>txid outs out. outputs txid = Inr (Some outs) \<Longrightarrow> out \<in> set outs \<Longrightarrow> mo_txid out = txid) \<Longrightarrow>
     obs_txid ob \<in> set txids \<and> (\<exists>v. obs_vout ob = sint v \<and> (obs_txid ob, v) \<notin> set seen)"
  by (induction txids) (fastforce split: sum.splits option.splits dest: output_obs_outpoint)+

lemma mempool_obs_distinct:
  assumes "distinct txids" and "\<And>txid outs. outputs txid = Inr (Some outs) \<Longrightarrow> distinct (map mo_vout outs)"
    and t: "\<And>txid outs out. outputs txid = Inr (Some outs) \<Longrightarrow> out \<in> set outs \<Longrightarrow> mo_txid out = txid"
  shows "distinct (map outpoint (mempool_obs outputs watched seen txids))"
  using assms(1)
proof (induction txids)
  case (Cons txid txids)
  have "outpoint o1 \<noteq> outpoint o2" if o: "outputs txid = Inr (Some outs)" "o1 \<in> set (output_obs watched seen outs)"
    "o2 \<in> set (mempool_obs outputs watched seen txids)" for outs o1 o2
  proof -
    have "obs_txid o1 = txid" using output_obs_outpoint [OF o(2)] t [OF o(1)] by auto
    moreover have "obs_txid o2 \<in> set txids" using mempool_obs_outpoint [OF o(3)] t by blast
    ultimately show ?thesis using Cons.prems by auto
  qed
  then show ?case using Cons output_obs_distinct [OF assms(2)]
    by (auto split: sum.splits option.splits)
qed simp

text \<open>The observations of a whole pass.\<close>

definition pass_obs :: "bitcoind \<Rightarrow> bitcoin_rpc \<Rightarrow> address_row list \<Rightarrow> scan_result \<Rightarrow> string list \<Rightarrow> observation list" where
  "pass_obs bd rpc addresses scan txids =
     (let watched = by_address addresses
      in confirmed_obs watched (sc_tip_height scan) (sc_unspents scan)
         @ mempool_obs (mempool_outputs bd rpc) watched (seen_of watched (sc_unspents scan))
             (take MAX_MEMPOOL_TXS txids))"

lemma seen_order:
  assumes "set seen = set seen'"
  shows "mempool_obs outputs watched seen txids = mempool_obs outputs watched seen' txids"
proof -
  have "output_obs watched seen outs = output_obs watched seen' outs" for outs
    by (induction outs) (auto simp: assms split: option.splits)
  then show ?thesis by (induction txids) (auto split: sum.splits option.splits)
qed

lemma pass_obs_distinct:
  assumes "view_distinct bd rpc (map adr_address addresses)"
    and "scan_addresses bd rpc (map adr_address addresses) = Inr scan" and "mempool_txids bd rpc = Inr txids"
  shows "distinct (map outpoint (pass_obs bd rpc addresses scan txids))"
proof -
  let ?w = "by_address addresses" and ?us = "sc_unspents scan"
  let ?m = "mempool_obs (mempool_outputs bd rpc) ?w (seen_of ?w ?us) (take MAX_MEMPOOL_TXS txids)"
  have us: "distinct (map (\<lambda>u. (un_txid u, un_vout u)) ?us)" "distinct txids"
      "\<And>txid outs. mempool_outputs bd rpc txid = Inr (Some outs) \<Longrightarrow> distinct (map mo_vout outs)"
    using assms by (auto simp: view_distinct_def)
  have "distinct (seen_of ?w ?us)" using us(1) by (simp add: seen_of_def distinct_map_filter)
  moreover have "inj_on (\<lambda>(t, v). (t, sint v)) (set (seen_of ?w ?us))" by (auto simp: inj_on_def sint_eq)
  ultimately have "distinct (map outpoint (confirmed_obs ?w (sc_tip_height scan) ?us))"
    by (simp only: confirmed_obs_outpoints distinct_map)
  moreover have "distinct (map outpoint ?m)"
    using us(2,3) mempool_outputs_txid by (intro mempool_obs_distinct) auto
  moreover have "outpoint o1 \<noteq> outpoint o2"
    if o: "o1 \<in> set (confirmed_obs ?w (sc_tip_height scan) ?us)" "o2 \<in> set ?m" for o1 o2
  proof -
    have "outpoint o1 \<in> (\<lambda>(t, v). (t, sint v)) ` set (seen_of ?w ?us)"
      using o(1) arg_cong [OF confirmed_obs_outpoints [of ?w "sc_tip_height scan" ?us], of set] by fastforce
    moreover obtain v where "obs_vout o2 = sint v" "(obs_txid o2, v) \<notin> set (seen_of ?w ?us)"
      using mempool_obs_outpoint [OF o(2)] mempool_outputs_txid by blast
    ultimately show ?thesis by (auto simp: sint_eq)
  qed
  ultimately show ?thesis unfolding pass_obs_def Let_def map_append distinct_append by fastforce
qed

lemma scan_once_records:
  assumes "watched_addresses d \<noteq> []" and "scan_addresses bd rpc (map adr_address (watched_addresses d)) = Inr scan"
    and "mempool_txids bd rpc = Inr txids"
    and "\<forall>txid \<in> set (take MAX_MEMPOOL_TXS txids). \<exists>r. mempool_outputs bd rpc txid = Inr r"
  shows "scan_once bd rpc e d = record_all e (pass_obs bd rpc (watched_addresses d) scan txids) 0 d"
  using assms scan_mempool_records [OF assms(4)]
    seen_order [of "rev (seen_of w u)" "seen_of w u" for w u]
  by (auto simp: scan_once_def pass_obs_def Let_def record_all_append scan_confirmed_records split: sum.splits prod.splits)

lemma scan_once_Inr:
  assumes "scan_once bd rpc e d = (Inr n, d')" and "watched_addresses d \<noteq> []"
  obtains scan txids where "scan_addresses bd rpc (map adr_address (watched_addresses d)) = Inr scan"
    and "mempool_txids bd rpc = Inr txids"
    and "\<forall>txid \<in> set (take MAX_MEMPOOL_TXS txids). \<exists>r. mempool_outputs bd rpc txid = Inr r"
proof -
  obtain scan where s: "scan_addresses bd rpc (map adr_address (watched_addresses d)) = Inr scan"
    using assms by (auto simp: scan_once_def Let_def split: sum.splits if_splits)
  obtain seen ch d1 where c: "scan_confirmed e (by_address (watched_addresses d)) (sc_tip_height scan) (sc_unspents scan) [] 0 d
      = (Inr (seen, ch), d1)"
    using assms s by (auto simp: scan_once_def Let_def split: sum.splits prod.splits if_splits)
  obtain txids where t: "mempool_txids bd rpc = Inr txids"
    using assms s c by (auto simp: scan_once_def Let_def split: sum.splits if_splits)
  have m: "scan_mempool e (mempool_outputs bd rpc) (by_address (watched_addresses d)) seen (take MAX_MEMPOOL_TXS txids) ch d1
      = (Inr n, d')"
    using assms s c t by (simp add: scan_once_def)
  show thesis by (rule that [OF s t]) (use scan_mempool_fetched [OF m] in blast)
qed

section \<open>Properties\<close>

text \<open>
  C28. A pass records the chain as seen and is idempotent: after a pass that succeeds, every confirmed
  output of a watched address has its row, with the number of confirmations counted from the tip, and
  a second pass over the same view of the chain reports no change and leaves the database alone.
\<close>

theorem scan_once_idempotent:
  assumes "schema_ok d" and "scan_once bd rpc e d = (Inr n, d')"
    and "view_distinct bd rpc (map adr_address (watched_addresses d))"
  shows "scan_once bd rpc e' d' = (Inr 0, d')
    \<and> (\<forall>scan u a. watched_addresses d \<noteq> [] \<longrightarrow> scan_addresses bd rpc (map adr_address (watched_addresses d)) = Inr scan
         \<longrightarrow> u \<in> set (sc_unspents scan) \<longrightarrow> by_address (watched_addresses d) (un_address u) = Some a
         \<longrightarrow> recorded (confirmed_observation (sc_tip_height scan) a u) d')"
proof (cases "watched_addresses d = []")
  case True
  then show ?thesis using assms(2) by (auto simp: scan_once_def)
next
  case False
  obtain scan txids where s: "scan_addresses bd rpc (map adr_address (watched_addresses d)) = Inr scan"
    and t: "mempool_txids bd rpc = Inr txids"
    and f: "\<forall>txid \<in> set (take MAX_MEMPOOL_TXS txids). \<exists>r. mempool_outputs bd rpc txid = Inr r"
    using scan_once_Inr [OF assms(2) False] .
  let ?obs = "pass_obs bd rpc (watched_addresses d) scan txids"
  have "record_all e ?obs 0 d = (Inr n, d')" using scan_once_records [OF False s t f] assms(2) by simp
  from record_all_records [OF this assms(1) pass_obs_distinct [OF assms(3) s t]]
  have r: "schema_ok d'" "t_addresses d' = t_addresses d" "\<forall>ob \<in> set ?obs. recorded ob d'" by auto
  have w: "watched_addresses d' = watched_addresses d" using r(2) by (simp add: watched_addresses_def)
  have "scan_once bd rpc e' d' = (Inr 0, d')"
    using scan_once_records [of d' bd rpc scan txids e'] record_all_again [OF r(1)] r(3) w s t f False by simp
  moreover have "confirmed_observation (sc_tip_height scan) a u \<in> set ?obs"
    if u: "u \<in> set (sc_unspents scan)" "by_address (watched_addresses d) (un_address u) = Some a" for u a
  proof -
    have "confirmed_observation tip a u \<in> set (confirmed_obs w tip us)" if "u \<in> set us" "w (un_address u) = Some a" for tip w us
      using that by (induction us) (auto split: option.splits)
    then show ?thesis using u by (simp add: pass_obs_def Let_def)
  qed
  ultimately show ?thesis using r(3) s by auto
qed

text \<open>A node that reports one confirmed output of the watched address and an empty mempool.\<close>

definition sample_bitcoind :: "string \<Rightarrow> bitcoind" where
  "sample_bitcoind amount =
     \<lparr>bd_post = (\<lambda>_ _. Inr ''{}''), bd_envelope = (\<lambda>_. Some \<lparr>en_result = Some ''{}'', en_error = None\<rparr>),
      bd_value = (\<lambda>_. None), bd_strings = (\<lambda>_. Some []), bd_raw_tx = (\<lambda>_. None),
      bd_raw_scan = (\<lambda>_. Some \<lparr>rs_height = 10, rs_unspents = [\<lparr>ru_txid = ''t'', ru_vout = 0,
        ru_desc = ''addr(bcrt1q)#x'', ru_amount = amount, ru_height = 9\<rparr>]\<rparr>)\<rparr>"

abbreviation sample_unspent :: "u64 \<Rightarrow> unspent" where
  "sample_unspent sats \<equiv> \<lparr>un_txid = ''t'', un_vout = 0, un_address = ''bcrt1q'', un_amount_sat = sats, un_height = 9\<rparr>"

lemma sample_view:
  assumes "btc_to_sats amount = Inr sats"
  shows "watched_addresses sample_chain = [sample_address]"
    and "scan_addresses (sample_bitcoind amount) rpc (map adr_address (watched_addresses sample_chain))
         = Inr \<lparr>sc_tip_height = 10, sc_unspents = [sample_unspent sats]\<rparr>"
    and "mempool_txids (sample_bitcoind amount) rpc = Inr []"
    and "mempool_outputs (sample_bitcoind amount) rpc t = Inl (RMalformed ''{}'')"
    and "view_distinct (sample_bitcoind amount) rpc (map adr_address (watched_addresses sample_chain))"
proof -
  show w: "watched_addresses sample_chain = [sample_address]" by (simp add: watched_addresses_def sample_chain_def)
  have tr: "truncate_text ''{}'' = ''{}''" by code_simp
  show s: "scan_addresses (sample_bitcoind amount) rpc (map adr_address (watched_addresses sample_chain))
         = Inr \<lparr>sc_tip_height = 10, sc_unspents = [sample_unspent sats]\<rparr>"
    using assms unfolding w
    by (simp add: scan_addresses_def call_raw_def sample_bitcoind_def sample_address_def address_for_script_def starts_with_def)
  show t: "mempool_txids (sample_bitcoind amount) rpc = Inr []"
    by (simp add: mempool_txids_def call_raw_def sample_bitcoind_def)
  have m: "mempool_outputs (sample_bitcoind amount) rpc x = Inl (RMalformed ''{}'')" for x
    by (simp add: mempool_outputs_def call_raw_def sample_bitcoind_def tr)
  show "mempool_outputs (sample_bitcoind amount) rpc t = Inl (RMalformed ''{}'')" by (rule m)
  show "view_distinct (sample_bitcoind amount) rpc (map adr_address (watched_addresses sample_chain))"
    unfolding view_distinct_def using s t m by auto
qed

theorem scan_once_idempotent_witness:
  "\<exists>n d'. scan_once (sample_bitcoind ''0.00000700'') (rpc_new ''http://127.0.0.1:18443/'' ''u'' ''p'') sample_env sample_chain
       = (Inr n, d') \<and> scan_once (sample_bitcoind ''0.00000700'') (rpc_new ''http://127.0.0.1:18443/'' ''u'' ''p'') sample_env d'
       = (Inr 0, d')"
proof -
  have b: "btc_to_sats ''0.00000700'' = Inr 700"
    by (simp add: btc_to_sats_value btc_well_formed_def btc_value_def btc_parts_def digit_val_def is_ascii_digit_def code_def)
  note v = sample_view [OF b]
  have "\<exists>n d'. scan_once (sample_bitcoind ''0.00000700'') (rpc_new ''http://127.0.0.1:18443/'' ''u'' ''p'') sample_env sample_chain
       = (Inr n, d')"
    using v(1-3) by (simp add: scan_once_def Let_def by_address_def sample_address_def)
      (simp add: record_observation_def insert_transaction_def confirmed_observation_def sample_chain_def
        sample_address_def sample_db_def empty_db_def select_one_def fresh_id_def to_i64_def emit_def
        new_event_def outbox_rows_def Let_def enumerate_eq_zip)
  then show ?thesis using scan_once_idempotent [OF sample_chain_ok _ v(5)] by blast
qed

text \<open>
  C29. One output of zero satoshis stops the watcher: when the scan reports a new zero-amount output of
  a watched address first, the pass fails on the \<open>amount_sat\<close> check before it records anything, and so
  does every later pass over that view.
\<close>

theorem zero_output_stops_scan:
  assumes "watched_addresses d \<noteq> []" and "scan_addresses bd rpc (map adr_address (watched_addresses d)) = Inr scan"
    and "sc_unspents scan = u # us" and "by_address (watched_addresses d) (un_address u) = Some a"
    and "un_amount_sat u = 0"
    and "\<forall>r \<in> set (t_transactions d). \<not> (txn_txid r = un_txid u \<and> txn_vout r = sint (un_vout u))"
  shows "scan_once bd rpc e d = (Inl (WStorage (SDatabase ''check amount_sat'')), d)"
proof -
  have "select_one (\<lambda>r. txn_txid r = un_txid u \<and> txn_vout r = sint (un_vout u)) (t_transactions d) = None"
    using assms(6) by (simp add: select_one_None)
  then have "record_observation e (confirmed_observation (sc_tip_height scan) a u) d = Inl (SDatabase ''check amount_sat'')"
    using assms(5)
    by (simp add: record_observation_def confirmed_observation_def insert_transaction_def fresh_id_def to_i64_def Let_def)
  then show ?thesis using assms(1-4) by (simp add: scan_once_def)
qed

theorem zero_output_stops_scan_witness:
  "scan_once (sample_bitcoind ''0.00000000'') (rpc_new ''http://127.0.0.1:18443/'' ''u'' ''p'') sample_env sample_chain
   = (Inl (WStorage (SDatabase ''check amount_sat'')), sample_chain)"
proof -
  have b: "btc_to_sats ''0.00000000'' = Inr 0"
    by (simp add: btc_to_sats_value btc_well_formed_def btc_value_def btc_parts_def digit_val_def is_ascii_digit_def code_def)
  note v = sample_view [OF b]
  show ?thesis
    by (rule zero_output_stops_scan [OF _ v(2), where u = "sample_unspent 0" and us = "[]" and a = sample_address])
      (simp_all add: v(1) by_address_def, simp_all add: sample_address_def sample_chain_def sample_db_def empty_db_def)
qed

end
