(* ===== verification/Api_Router.thy ===== *)
theory Api_Router
  imports Routes_Admin Routes_Sandbox Bitcoin_Watcher
begin

text \<open>
  The router (safrod-api/src/lib.rs): every route of the merged routers as a constructor of \<open>request\<close>,
  with what axum extracts from it. The layer around it is in \<open>Api_Http\<close>. The properties here hold for
  every route at once.
\<close>

datatype request =
    Healthz
  | Readyz bool bool
  | CreateProject "string body" "u8 list"
  | CreateKey string "new_key body" "u8 list"
  | ListKeys string
  | RevokeKey string string
  | OpenChannel "channel_request body"
  | Mine "u32 body"
  | DevStatus
  | CreateInvoice "invoice_request body"
  | ListInvoices "list_query option"
  | GetInvoice string
  | CreatePayment "payment_request body"
  | ListPayments "list_query option"
  | GetPayment string
  | ReconcilePayment string
  | CreateAddress "address_request body"
  | ListTransactions "list_query option"
  | GetTransaction string
  | GetProject
  | Balances
  | Node
  | ListEvents "event_query option"
  | GetEvent string
  | CreateEndpoint "string body" "u8 list"
  | ListEndpoints
  | DisableEndpoint string
  | TestEndpoint string
  | ListDeliveries "list_query option"
  | ReplayDelivery string
  | SandboxBalances
  | SandboxTopup "money_request body"
  | CreateQuote "quote_request body"
  | GetQuote string
  | CreatePayout "payout_request body"
  | GetPayout string
  | ReconcilePayout string "string body"

fun router :: "'n server \<Rightarrow> env \<Rightarrow> headers \<Rightarrow> request \<Rightarrow> ('n, response) handler" where
  "router sv e h Healthz = respond healthz"
| "router sv e h (Readyz database joined) = with_node (\<lambda>n. respond (readyz sv database joined n))"
| "router sv e h (CreateProject b bytes) = create_project_route sv e bytes h b"
| "router sv e h (CreateKey p b bytes) = create_key_route sv e bytes h p b"
| "router sv e h (ListKeys p) = list_keys sv h p"
| "router sv e h (RevokeKey p i) = revoke_key sv e h p i"
| "router sv e h (OpenChannel b) = open_channel sv h b"
| "router sv e h (Mine b) = mine sv h b"
| "router sv e h DevStatus = dev_status sv h"
| "router sv e h (CreateInvoice b) = create_invoice sv e h b"
| "router sv e h (ListInvoices q) = list_invoices_route sv h q"
| "router sv e h (GetInvoice i) = get_invoice_route sv h i"
| "router sv e h (CreatePayment b) = create_payment sv e h b"
| "router sv e h (ListPayments q) = list_payments_route sv h q"
| "router sv e h (GetPayment i) = get_payment_route sv h i"
| "router sv e h (ReconcilePayment i) = reconcile_payment_route sv e h i"
| "router sv e h (CreateAddress b) = create_address_route sv e h b"
| "router sv e h (ListTransactions q) = list_transactions sv h q"
| "router sv e h (GetTransaction i) = get_transaction sv h i"
| "router sv e h GetProject = project_route sv h"
| "router sv e h Balances = balances_route sv h"
| "router sv e h Node = node_route sv h"
| "router sv e h (ListEvents q) = list_events_route sv h q"
| "router sv e h (GetEvent i) = get_event_route sv h i"
| "router sv e h (CreateEndpoint b bytes) = create_endpoint sv e bytes h b"
| "router sv e h ListEndpoints = list_endpoints sv h"
| "router sv e h (DisableEndpoint i) = disable_endpoint sv h i"
| "router sv e h (TestEndpoint i) = test_endpoint sv e h i"
| "router sv e h (ListDeliveries q) = list_deliveries_route sv h q"
| "router sv e h (ReplayDelivery i) = replay_delivery_route sv e h i"
| "router sv e h SandboxBalances = balances sv h"
| "router sv e h (SandboxTopup b) = topup sv h b"
| "router sv e h (CreateQuote b) = create_quote sv e h b"
| "router sv e h (GetQuote i) = get_quote_route sv h i"
| "router sv e h (CreatePayout b) = create_payout sv e h b"
| "router sv e h (GetPayout i) = get_payout_route sv h i"
| "router sv e h (ReconcilePayout i b) = reconcile_payout sv e h i b"

section \<open>Every route keeps the schema\<close>

context step_preorder
begin

lemma keeps_auth_any [moves_rules]: "(\<And>ctx. keeps R (k ctx)) \<Longrightarrow> keeps R (auth_any sv headers k)"
  unfolding auth_any_def by (intro keeps_with_db keeps_check)

lemma keeps_admin_only [moves_rules]: "keeps R k \<Longrightarrow> keeps R (admin_only sv headers k)"
  unfolding admin_only_def by (intro keeps_check)

lemmas keeps_combinators = keeps_respond keeps_refuse keeps_check keeps_unless keeps_with_db keeps_with_node
  keeps_option keeps_auth_scope keeps_auth_any keeps_admin_only

lemma keeps_reads [moves_rules]:
  "keeps R (project_route sv h)" "keeps R (balances_route sv h)" "keeps R (node_route sv h)"
  "keeps R (list_events_route sv h eq)" "keeps R (get_event_route sv h i)" "keeps R (list_endpoints sv h)"
  "keeps R (list_deliveries_route sv h q)" "keeps R (get_transaction sv h i)" "keeps R (list_transactions sv h q)"
  "keeps R (list_keys sv h i)" "keeps R (dev_status sv h)" "keeps R (list_invoices_route sv h q)"
  "keeps R (get_invoice_route sv h i)" "keeps R (list_payments_route sv h q)" "keeps R (get_payment_route sv h i)"
  "keeps R (balances sv h)" "keeps R (get_quote_route sv h i)" "keeps R (get_payout_route sv h i)"
  unfolding project_route_def balances_route_def node_route_def list_events_route_def get_event_route_def
    list_endpoints_def list_deliveries_route_def get_transaction_def list_transactions_def list_keys_def
    dev_status_def list_invoices_route_def get_invoice_route_def list_payments_route_def get_payment_route_def
    fetch_payment_def balances_def balances_response_def get_quote_route_def fetch_quote_def
    get_payout_route_def fetch_payout_def payout_with_payment_def
  by (intro keeps_combinators keeps_andthen)+

end

lemma moves_account [moves_rules]:
  "moves (create_endpoint sv e raw h b)" "moves (disable_endpoint sv h i)" "moves (test_endpoint sv e h i)"
  "moves (replay_delivery_route sv e h i)" "moves (create_address_route sv e h ab)"
  unfolding create_endpoint_def disable_endpoint_def test_endpoint_def replay_delivery_route_def
    create_address_route_def Let_def
  by (intro moves_rules moves_db_call [OF create_endpoint_op.db_op_axioms] moves_db_call [OF disable_endpoint_op.db_op_axioms]
      moves_db_call [OF replay_op.db_op_axioms] moves_db_call [OF emit_standalone_op]
      moves_db_call [OF create_address_op.db_op_axioms])+

lemma moves_admin [moves_rules]:
  "moves (create_project_route sv e bytes h b)" "moves (create_key_route sv e bytes h p kb)"
  "moves (revoke_key sv e h p i)" "moves (mine sv h mb)" "moves (open_channel sv h cb)"
  unfolding create_project_route_def create_key_route_def revoke_key_def mine_def open_channel_def Let_def
  by (intro moves_rules moves_db_call [OF create_project_op.db_op_axioms] moves_db_call [OF create_key_op.db_op_axioms]
      moves_db_call [OF revoke_op.db_op_axioms])+

lemma moves_router: "moves (router sv e h req)"
  by (cases req; simp only: router.simps; intro moves_rules)

section \<open>Which routes can pay\<close>

lemma payments_kept_ops:
  "payments_kept (create_webhook_endpoint e p u s)" "payments_kept (disable_webhook_endpoint p i)"
  "payments_kept (replay_delivery e p i)" "payments_kept (create_address e p a l n)"
  "payments_kept (create_project e name net)" "payments_kept (create_api_key e p l sc k)"
  "payments_kept (revoke_api_key e p i)"
  by (auto simp: payments_kept_def create_webhook_endpoint_def disable_webhook_endpoint_def replay_delivery_def
      create_address_def create_project_def create_api_key_def revoke_api_key_def fresh_id_def Let_def
      split: if_splits)

lemma payments_kept_emit: "payments_kept (emit_standalone e p kind res data sim)"
  by (auto simp: payments_kept_def emit_standalone_def dest: emit_payments)

lemma payments_kept_invoice: "payments_kept (with_fresh e InvoiceId (\<lambda>i. insert_invoice e (new i)))"
  by (auto simp: payments_kept_def with_fresh_def fresh_id_def insert_invoice_def Let_def split: sum.splits if_splits)

lemmas quiet_ops = payments_kept_ops [THEN quiet_db_call] payments_kept_emit [THEN quiet_db_call]

text \<open>The node operations that are not sends leave its payments alone.\<close>

lemma quiet_node_ops:
  assumes "lightning_backend (sv_backend sv)"
  shows "quiet sv (node_call (\<lambda>n. be_create_invoice (sv_backend sv) n r))"
    and "quiet sv (node_call (be_new_onchain_address (sv_backend sv)))"
    and "quiet sv (node_call (\<lambda>n. be_open_channel (sv_backend sv) n i ad cap push))"
proof -
  show "quiet sv (node_call (\<lambda>n. be_create_invoice (sv_backend sv) n r))"
    by (rule quiet_node_call) (use lightning_backend.create_frame [OF assms] in blast)
  show "quiet sv (node_call (be_new_onchain_address (sv_backend sv)))"
    by (rule quiet_node_call) (use lightning_backend.address_frame [OF assms] in blast)
  show "quiet sv (node_call (\<lambda>n. be_open_channel (sv_backend sv) n i ad cap push))"
    by (rule quiet_node_call) (use lightning_backend.channel_frame [OF assms] in blast)
qed

lemma quiet_routes:
  assumes "lightning_backend (sv_backend sv)"
  shows "quiet sv (create_endpoint sv e raw h b)" "quiet sv (disable_endpoint sv h i)" "quiet sv (test_endpoint sv e h i)"
    "quiet sv (replay_delivery_route sv e h i)" "quiet sv (create_address_route sv e h ab)"
    "quiet sv (create_project_route sv e bytes h b)" "quiet sv (create_key_route sv e bytes h p kb)"
    "quiet sv (revoke_key sv e h p i)" "quiet sv (mine sv h mb)" "quiet sv (open_channel sv h cb)"
    "quiet sv (create_invoice sv e h ib)"
  unfolding create_endpoint_def disable_endpoint_def test_endpoint_def replay_delivery_route_def
    create_address_route_def create_project_route_def create_key_route_def revoke_key_def mine_def
    open_channel_def create_invoice_def issue_invoice_def Let_def
  by (intro quiet_ops quiet_node_ops [OF assms] quiet_db_match [OF payments_kept_invoice] moves_rules)+

text \<open>The scope a route asks for, where it can pay.\<close>

fun paying_scope :: "request \<Rightarrow> scope option" where
  "paying_scope (CreatePayment _) = Some PaymentsWrite"
| "paying_scope (ReconcilePayment _) = Some PaymentsWrite"
| "paying_scope (CreatePayout _) = Some SandboxWrite"
| "paying_scope (ReconcilePayout _ _) = Some SandboxWrite"
| "paying_scope _ = None"

lemma quiet_sandbox:
  "quiet sv (topup sv h tb)" "quiet sv (create_quote sv e h qb)"
  unfolding topup_def create_quote_def balances_response_def
  by (intro moves_rules; auto simp: payments_kept_def credit_sandbox_balance_def insert_quote_def fresh_id_def Let_def
      split: sum.splits if_splits dest: upsert_payments)+

lemma quiet_unless_paying:
  assumes "lightning_backend (sv_backend sv)" and "paying_scope req = None"
  shows "quiet sv (router sv e h req)"
  using assms(2) by (cases req; simp only: router.simps paying_scope.simps option.distinct;
      intro quiet_routes [OF assms(1)] quiet_sandbox moves_rules)

lemma auth_scope_refused:
  "authorize (sv_sha256 sv) (app_db s) h scope = Inl err \<Longrightarrow> auth_scope sv h scope k s = (Inl err, s)"
  by (simp add: auth_scope_def check_def)

lemma paying_needs_scope:
  assumes "paying_scope req = Some scope" and "authorize (sv_sha256 sv) (app_db s) h scope = Inl err"
  shows "router sv e h req s = (Inl err, s)"
  using assms by (cases req)
    (auto simp: create_payment_def reconcile_payment_route_def create_payout_def reconcile_payout_def auth_scope_refused)

section \<open>Payments of other projects\<close>

definition payments_but :: "string \<Rightarrow> db \<Rightarrow> payment_row list" where
  "payments_but p d = filter (\<lambda>r. pay_project_id r \<noteq> p) (t_payments d)"

definition owned :: "string \<Rightarrow> string \<Rightarrow> db \<Rightarrow> bool" where
  "owned p pid d \<longleftrightarrow> (\<forall>r \<in> set (t_payments d). pay_id r = pid \<longrightarrow> pay_project_id r = p)"

lemma filter_update_where:
  assumes "\<And>r. r \<in> set t \<Longrightarrow> Q r \<Longrightarrow> \<not> P r \<and> \<not> P (f r)"
  shows "filter P (update_where Q f t) = filter P t"
  using assms by (induction t) (auto simp: update_where_def)

lemma transition_others:
  assumes "transition_payment e key pid next res d = Inr (out, d')" and "owned p pid d"
  shows "payments_but p d' = payments_but p d \<and> owned p pid d'"
  using assms(1)
proof (cases rule: transition_payment_cases)
  case unchanged
  then show ?thesis using assms(2) by simp
next
  case (moved d1 current fr fee)
  let ?f = "resolve_row e next fee res"
  have t: "t_payments d' = update_where (\<lambda>r. pay_id r = pid) ?f (t_payments d)"
    using resolution_payments [OF moved(8)] by simp
  have cols: "pay_project_id (?f r) = pay_project_id r" "pay_id (?f r) = pay_id r" for r
    using payment_fixed_cols [OF resolve_row_fixed] by simp_all
  have "payments_but p d' = payments_but p d" unfolding payments_but_def t
    by (rule filter_update_where) (use assms(2) cols in \<open>auto simp: owned_def\<close>)
  moreover have "owned p pid d'" using assms(2) cols by (auto simp: owned_def t set_update_where)
  ultimately show ?thesis ..
qed

lemma engine_transition_others:
  assumes "engine_transition e pid next res s = (x, s')" and "owned p pid (app_db s)"
  shows "payments_but p (app_db s') = payments_but p (app_db s) \<and> owned p pid (app_db s')"
proof (cases x)
  case (Inl err)
  then show ?thesis using engine_transition_Inl assms by blast
next
  case (Inr tr)
  then show ?thesis using transition_others [OF engine_transition_Inr(1) assms(2)] assms(1) by simp
qed

lemma reconcile_others:
  assumes "reconcile_payment be e row s = (x, s')" and "owned p (pay_id row) (app_db s)"
  shows "payments_but p (app_db s') = payments_but p (app_db s)"
  using assms unfolding reconcile_payment_def pass_pending_def
  by (auto split: sum.splits if_splits option.splits prod.splits dest!: engine_transition_others)

lemma adds_one_others: "adds_one p k (t_payments d) (t_payments d') \<Longrightarrow> payments_but p d' = payments_but p d"
  by (auto simp: adds_one_def payments_but_def)

lemma create_payment_others:
  assumes "create_payment sv e h body s = (res, s')"
    and "authorize (sv_sha256 sv) (app_db s) h PaymentsWrite = Inr auth"
  shows "payments_but (ac_project_id auth) (app_db s') = payments_but (ac_project_id auth) (app_db s)"
proof (cases "s' = s")
  case False
  then obtain k req ans where "andthen (send_payment (sv_backend sv) (sv_sha256 sv) (sv_json_text sv) e
      (ac_project_id auth) k req) (\<lambda>result. respond (ans result)) s = (res, s')"
    using assms unfolding create_payment_def by (elim run_elims) auto
  then obtain x where "send_payment (sv_backend sv) (sv_sha256 sv) (sv_json_text sv) e (ac_project_id auth) k req s = (x, s')"
    by (elim run_andthen) auto
  then show ?thesis by (rule adds_one_others [OF send_payment_adds_one])
qed simp

lemma get_payment_owned:
  assumes "schema_ok d" and "get_payment p i d = Inr row"
  shows "owned p (pay_id row) d"
proof -
  have "row \<in> set (t_payments d)" "pay_project_id row = p"
    using assms(2) by (auto simp: get_payment_def split: option.splits dest: select_one_Some)
  then show ?thesis using assms(1)
    by (auto simp: owned_def schema_ok_def payments_table_def dest: distinct_map_eq [of pay_id])
qed

lemma reconcile_route_others:
  assumes "schema_ok (app_db s)" and "reconcile_payment_route sv e h i s = (res, s')"
    and "authorize (sv_sha256 sv) (app_db s) h PaymentsWrite = Inr auth"
  shows "payments_but (ac_project_id auth) (app_db s') = payments_but (ac_project_id auth) (app_db s)"
proof (cases "s' = s")
  case False
  then obtain j row where g: "get_payment (ac_project_id auth) j (app_db s) = Inr row"
    and k: "andthen (reconcile_payment (sv_backend sv) e row)
      (\<lambda>after. respond (ok_response (json_payment after (reveal_preimage sv)))) s = (res, s')"
    using assms(2,3) unfolding reconcile_payment_route_def fetch_payment_def by (elim run_elims) auto
  obtain x where "reconcile_payment (sv_backend sv) e row s = (x, s')" using k by (elim run_andthen) auto
  then show ?thesis by (rule reconcile_others) (rule get_payment_owned [OF assms(1) g])
qed simp

text \<open>
  C32. Only a key with the right scope moves money, and only its own project's: whenever any request
  changes a payment, stored or at the node, it is a payment or payout route, its bearer key holds
  \<open>payments:write\<close> or \<open>sandbox:write\<close> as that route demands, and the stored payments of every other
  project are untouched. This relies on the node's contract that only a send changes its payments.
\<close>

theorem money_needs_scope:
  assumes "lightning_backend (sv_backend sv)" and "schema_ok (app_db s)"
    and "router sv e h req s = (res, s')" and "\<not> unpaid (sv_backend sv) s s'"
  shows "\<exists>scope auth. paying_scope req = Some scope \<and> scope \<in> {PaymentsWrite, SandboxWrite}
    \<and> authorize (sv_sha256 sv) (app_db s) h scope = Inr auth
    \<and> payments_but (ac_project_id auth) (app_db s') = payments_but (ac_project_id auth) (app_db s)"
proof -
  obtain scope where sc: "paying_scope req = Some scope"
    using quiet_unless_paying [OF assms(1)] keepsD assms(3,4) by blast
  have "authorize (sv_sha256 sv) (app_db s) h scope = Inl err \<Longrightarrow> False" for err
    using paying_needs_scope [OF sc, of sv s h err e] assms(3,4) quiet_steps.step_refl by auto
  then obtain auth where au: "authorize (sv_sha256 sv) (app_db s) h scope = Inr auth"
    by (cases "authorize (sv_sha256 sv) (app_db s) h scope") auto
  have leg: "payments_but (ac_project_id auth) (app_db s') = payments_but (ac_project_id auth) (app_db s)"
    if "settled_leg (ac_project_id auth) payout s s'" for payout
    using that adds_one_others by (auto simp: settled_leg_def)
  have "payments_but (ac_project_id auth) (app_db s') = payments_but (ac_project_id auth) (app_db s)"
    using sc assms(3,4) au
    by (cases req) (auto dest: create_payment_others reconcile_route_others [OF assms(2)] leg
        dest!: create_payout_leg [OF assms(2)] reconcile_payout_leg [OF assms(2)])
  moreover have "scope \<in> {PaymentsWrite, SandboxWrite}" using sc by (cases req) auto
  ultimately show ?thesis using sc au by blast
qed

section \<open>The gateway over time\<close>

text \<open>
  Everything that changes the gateway's state, one piece at a time: a request, a node
  event, the reconciliation pass, the expiry pass, a pass of the chain watcher, the claim of due
  deliveries and the outcome of one; and the node, which moves on its own. A request is one step here;
  the parts of a send, interleaved with everything else and with crashes, are in \<open>Engine_World\<close>.
\<close>

inductive gateway_step :: "'n server \<Rightarrow> 'n app \<Rightarrow> 'n app \<Rightarrow> bool" for sv where
  request_step: "router sv e h req s = (res, s') \<Longrightarrow> gateway_step sv s s'"
| event_step: "handle_node_event e ev (app_db s) = (res, d') \<Longrightarrow> gateway_step sv s (s\<lparr>app_db := d'\<rparr>)"
| reconcile_step: "reconcile_payment (sv_backend sv) e row s = (res, s') \<Longrightarrow> gateway_step sv s s'"
| expire_step: "expire_invoices e (app_db s) = Inr (n, d') \<Longrightarrow> gateway_step sv s (s\<lparr>app_db := d'\<rparr>)"
| observe_step: "record_observation e obs (app_db s) = Inr (n, d') \<Longrightarrow> gateway_step sv s (s\<lparr>app_db := d'\<rparr>)"
| claim_step: "claim_due_deliveries e limit lease (app_db s) = Inr (due, d') \<Longrightarrow> gateway_step sv s (s\<lparr>app_db := d'\<rparr>)"
| outcome_step: "record_delivery e i outcome (app_db s) = Inr (u, d') \<Longrightarrow> gateway_step sv s (s\<lparr>app_db := d'\<rparr>)"
| node_step: "gateway_step sv s (s\<lparr>app_node := n\<rparr>)"

lemma gateway_step_steps: "gateway_step sv s s' \<Longrightarrow> app_steps s s'"
proof (induction rule: gateway_step.induct)
  case (request_step e h req s res s')
  then show ?case using keepsD [OF moves_router] by blast
next
  case (event_step e ev s res d')
  then show ?case using handle_node_event_keeps by (auto simp: app_steps_def)
next
  case (reconcile_step e row s res s')
  then show ?case by (rule keepsD [OF moves_reconcile])
next
  case (expire_step e s n d')
  then show ?case by (rule db_op_app_steps [OF expire_op.db_op_axioms])
next
  case (observe_step e obs s n d')
  then show ?case by (rule db_op_app_steps [OF observe_op.db_op_axioms])
next
  case (claim_step e limit lease s due d')
  then show ?case by (rule db_op_app_steps [OF claim_op.db_op_axioms])
next
  case (outcome_step e i outcome s u d')
  then show ?case by (rule db_op_app_steps [OF record_op.db_op_axioms])
next
  case (node_step s n)
  then show ?case by (simp add: app_steps_def)
qed

lemma gateway_steps: "(gateway_step sv)\<^sup>*\<^sup>* s s' \<Longrightarrow> app_steps s s'"
  by (induction rule: rtranclp_induct) (auto intro: app_steps_trans gateway_step_steps)

lemma final_payment_stays:
  assumes "payment_le r r'" and "payment_from_str (pay_status r) = Inr st" and "payment_is_final st"
  shows "r' = r"
proof (rule ccontr)
  assume "r' \<noteq> r"
  then obtain s s' where s: "pay_status r = payment_as_str s" "payment_can_transition_to\<^sup>+\<^sup>+ s s'"
    using assms(1) by (auto simp: payment_le_def)
  have "s = st" using s(1) assms(2) by simp
  moreover obtain z where "payment_can_transition_to s z" using s(2) tranclpD by metis
  ultimately show False using pay_machine.final_stuck [OF assms(3)] by blast
qed

text \<open>
  C33. Nothing settled is ever undone, whatever requests, node events, passes and outcomes follow in
  whatever order: every reachable database satisfies the schema, a payment in a final status keeps its
  row unchanged, an invoice that left \<open>open\<close> keeps its row, a revoked key stays revoked, and the event
  log only grows at its end.
\<close>

theorem gateway_history:
  assumes "schema_ok (app_db s)" and "(gateway_step sv)\<^sup>*\<^sup>* s s'"
  shows "schema_ok (app_db s')
    \<and> (\<forall>r \<in> set (t_payments (app_db s)). \<forall>st. payment_from_str (pay_status r) = Inr st \<longrightarrow> payment_is_final st
         \<longrightarrow> r \<in> set (t_payments (app_db s')))
    \<and> (\<forall>r \<in> set (t_invoices (app_db s)). inv_status r \<noteq> ''open'' \<longrightarrow> r \<in> set (t_invoices (app_db s')))
    \<and> (\<forall>r \<in> set (t_api_keys (app_db s)). key_revoked_at r \<noteq> None \<longrightarrow> r \<in> set (t_api_keys (app_db s')))
    \<and> take (length (t_events (app_db s))) (t_events (app_db s')) = t_events (app_db s)"
proof -
  have "schema_ok (app_db s')" and ev: "evolves (app_db s) (app_db s')"
    using gateway_steps [OF assms(2)] assms(1) by (simp_all add: app_steps_def)
  moreover have "r \<in> set (t_payments (app_db s'))"
    if "r \<in> set (t_payments (app_db s))" "payment_from_str (pay_status r) = Inr st" "payment_is_final st" for r st
    using ev grows_mem [of payment_le, OF _ that(1)] final_payment_stays that(2,3)
    by (auto simp: evolves_def)
  moreover have "r \<in> set (t_invoices (app_db s'))"
    if "r \<in> set (t_invoices (app_db s))" "inv_status r \<noteq> ''open''" for r
    using ev grows_mem [of invoice_le, OF _ that(1)] that(2) by (auto simp: evolves_def invoice_le_def)
  moreover have "r \<in> set (t_api_keys (app_db s'))"
    if "r \<in> set (t_api_keys (app_db s))" "key_revoked_at r \<noteq> None" for r
    using ev grows_mem [of key_le, OF _ that(1)] that(2) by (auto simp: evolves_def key_le_def)
  moreover have "take (length (t_events (app_db s))) (t_events (app_db s')) = t_events (app_db s)"
    using ev by (simp add: evolves_def grows_def list.rel_eq)
  ultimately show ?thesis by blast
qed

section \<open>The routes on the small database\<close>

text \<open>A payment of the sample invoice through the router, with a key that may pay.\<close>

definition paying_app :: "mock_state app" where
  "paying_app = \<lparr>app_db = keyed_db [''payments:write''] sample_db, app_node = mock_new\<rparr>"

definition paying_request :: request where
  "paying_request = CreatePayment (False, Inr \<lparr>pr_bolt11 = sample_bolt11, pr_amount_msat = None, pr_metadata = None\<rparr>)"

lemma paying_schema: "schema_ok (app_db paying_app)"
  by (simp add: schema_ok_def table_defs paying_app_def keyed_db_def sample_db_def empty_db_def keyed_invoices_def)

lemma paying_auth:
  "authorize (sv_sha256 sample_server) (app_db paying_app) paying_headers PaymentsWrite
     = Inr \<lparr>ac_project_id = ''prj_a'', ac_key_id = ''key_1'', ac_scopes = [''payments:write'']\<rparr>"
  using authorize_headers [of paying_headers sample_headers] sample_authorize [of "[''payments:write'']" sample_db PaymentsWrite]
  by (simp add: sample_server_def paying_app_def paying_headers_def)

lemma paying_run:
  "\<exists>res s'. router sample_server sample_env paying_headers paying_request paying_app = (Inr res, s')
     \<and> mk_payments (app_node s') (fake_hash 1) \<noteq> None"
proof -
  have len: "\<not> 2048 < length sample_bolt11"
    using fake_hash_shape [of 1] by (simp add: sample_bolt11_def mock_bolt11_def nat_digits.simps)
  note key = paying_key
  have "router sample_server sample_env paying_headers paying_request paying_app
      = andthen (send_payment (sv_backend sample_server) (sv_sha256 sample_server) (sv_json_text sample_server) sample_env
          ''prj_a'' ''k'' \<lparr>sr_bolt11 = sample_bolt11, sr_amount_msat = None, sr_metadata = JObj []\<rparr>) (\<lambda>result.
        respond (created_response (sd_created result) (json_payment (sd_payment result) (reveal_preimage sample_server))))
        paying_app"
    using len key by (simp add: paying_request_def create_payment_def auth_scope_def check_def paying_auth json_parse_def
        map_error_def unless_def metadata_def)
  then show ?thesis
    by (simp add: andthen_def sample_server_def send_payment_def send_begin_def paying_app_def mock_backend_def send_amount_def
      amount_in_supply_def to_sats_floor_def MAX_SATS_def MSAT_PER_SAT_def word_le_nat_alt fresh_id_def keyed_db_def
      sample_db_def empty_db_def begin_payment_def to_i64_def select_one_def Let_def send_pend_def
      engine_transition_def insert_row_def transition_payment_def payment_from_str_def payment_transition_def
      fee_column_def no_resolution_def update_where_def send_dispatch_def mock_send_payment_def mock_new_def
      resolve_row_def)
qed

theorem money_needs_scope_witness:
  "\<exists>res s'. router sample_server sample_env paying_headers paying_request paying_app = (Inr res, s')
     \<and> \<not> unpaid (sv_backend sample_server) paying_app s'
     \<and> (\<exists>auth. authorize (sv_sha256 sample_server) (app_db paying_app) paying_headers PaymentsWrite = Inr auth
          \<and> payments_but (ac_project_id auth) (app_db s') = payments_but (ac_project_id auth) (app_db paying_app))"
proof -
  obtain res s' where c: "router sample_server sample_env paying_headers paying_request paying_app = (Inr res, s')"
      "mk_payments (app_node s') (fake_hash 1) \<noteq> None" using paying_run by blast
  have be: "lightning_backend (sv_backend sample_server)"
    using mock.lightning_backend_axioms by (simp add: sample_server_def)
  have n: "\<not> unpaid (sv_backend sample_server) paying_app s'"
    using c(2) by (auto simp: unpaid_def sample_server_def mock_backend_def mock_payment_def paying_app_def mock_new_def)
  from money_needs_scope [OF be paying_schema c(1) n] c(1) n show ?thesis
    by (auto simp: paying_request_def)
qed

theorem gateway_history_witness:
  "\<exists>res s'. router sample_server sample_env paying_headers paying_request paying_app = (Inr res, s')
     \<and> schema_ok (app_db s')"
proof -
  obtain res s' where c: "router sample_server sample_env paying_headers paying_request paying_app = (Inr res, s')"
    using paying_run by blast
  then have "(gateway_step sample_server)\<^sup>*\<^sup>* paying_app s'" by (blast intro: request_step)
  from gateway_history [OF paying_schema this] c show ?thesis by auto
qed

end
