(* ===== verification/Api_Http.thy ===== *)
theory Api_Http
  imports Api_Router
begin

text \<open>
  The outermost layer of the API (\<open>request_context\<close> of safrod-api/src/lib.rs, \<open>into_response\<close> of error.rs
  and the pages of routes/docs.rs): the HTTP response of a request, with its headers. A request runs in
  the scope of a request id, which the error bodies quote and a header repeats. The two files the pages
  include at compile time are an argument, \<open>pages\<close>; the id comes from the \<open>uuid\<close> crate.
\<close>

type_synonym header_map = "(string \<times> string) list"

datatype http_body = NoBody | TextBody string | JsonBody json

record http_response =
  hr_status :: nat
  hr_headers :: header_map
  hr_body :: http_body

text \<open>As documented, \<open>HeaderMap::insert\<close> replaces every value the name had.\<close>

definition header_insert :: "string \<Rightarrow> string \<Rightarrow> header_map \<Rightarrow> header_map" where
  "header_insert name v headers = filter (\<lambda>h. fst h \<noteq> name) headers @ [(name, v)]"

definition header_values :: "string \<Rightarrow> header_map \<Rightarrow> string list" where
  "header_values name headers = map snd (filter (\<lambda>h. fst h = name) headers)"

text \<open>Outside the scope of a request the task-local is not set.\<close>

definition current_request_id :: "string option \<Rightarrow> string" where
  "current_request_id scope = (case scope of Some i \<Rightarrow> i | None \<Rightarrow> ''req_unknown'')"

definition json_reply :: "nat \<times> json \<Rightarrow> http_response" where
  "json_reply r = \<lparr>hr_status = fst r, hr_headers = [(''content-type'', ''application/json'')],
     hr_body = JsonBody (snd r)\<rparr>"

text \<open>The routes that revoke a key and disable an endpoint answer with a bare status, 204 (\<open>no_content\<close>).\<close>

definition into_response :: "string option \<Rightarrow> api_error + response \<Rightarrow> http_response" where
  "into_response scope res =
     (case res of
        Inl err \<Rightarrow> json_reply (error_response (current_request_id scope) err)
      | Inr (status, body) \<Rightarrow>
          if status = 204 then \<lparr>hr_status = status, hr_headers = [], hr_body = NoBody\<rparr>
          else json_reply (status, body))"

section \<open>The documentation pages\<close>

record pages =
  pg_openapi :: string
  pg_dashboard :: string

datatype page = Openapi | Swagger | Dashboard | FlowBuilder

definition html_response :: "string \<Rightarrow> http_response" where
  "html_response text = \<lparr>hr_status = 200, hr_headers = [(''content-type'', ''text/html; charset=utf-8'')],
     hr_body = TextBody text\<rparr>"

definition openapi :: "pages \<Rightarrow> http_response" where
  "openapi pages = \<lparr>hr_status = 200, hr_headers = [(''content-type'', ''application/json'')],
     hr_body = TextBody (pg_openapi pages)\<rparr>"

definition swagger_lines :: "string list" where
  \<open>swagger_lines =
     [''<!doctype html>'',
      ''<html lang="en"><head><meta charset="utf-8"><title>Safrod API</title>'',
      ''<meta name="viewport" content="width=device-width, initial-scale=1">'',
      ''<link rel="stylesheet" href="https://cdn.jsdelivr.net/npm/swagger-ui-dist@5.17.14/swagger-ui.css"></head>'',
      ''<body><div id="ui"></div>'',
      ''<noscript>Enable JavaScript or read <a href="/openapi.json">/openapi.json</a>.</noscript>'',
      ''<script src="https://cdn.jsdelivr.net/npm/swagger-ui-dist@5.17.14/swagger-ui-bundle.js"></script>'',
      ''<script>SwaggerUIBundle({ url: "/openapi.json", dom_id: "#ui" });</script>'',
      ''</body></html>'']\<close>

definition newline :: string where
  "newline = [CHR 0x0A]"

definition swagger :: http_response where
  "swagger = html_response (hd swagger_lines @ concat (map (\<lambda>l. newline @ l) (tl swagger_lines)))"

definition quoted :: "string \<Rightarrow> string" where
  "quoted text = [CHR 0x27] @ text @ [CHR 0x27]"

definition dashboard_csp :: string where
  "dashboard_csp = ''default-src '' @ quoted ''none'' @ ''; script-src '' @ quoted ''unsafe-inline''
     @ ''; style-src '' @ quoted ''unsafe-inline'' @ ''; connect-src '' @ quoted ''self''
     @ ''; base-uri '' @ quoted ''none'' @ ''; form-action '' @ quoted ''none''"

definition dashboard :: "pages \<Rightarrow> http_response" where
  "dashboard pages = \<lparr>hr_status = 200,
     hr_headers = [(''content-type'', ''text/html; charset=utf-8''), (''content-security-policy'', dashboard_csp)],
     hr_body = TextBody (pg_dashboard pages)\<rparr>"

text \<open>\<open>Redirect::temporary\<close> answers with 307 and the location.\<close>

definition flow_builder :: http_response where
  "flow_builder = \<lparr>hr_status = 307, hr_headers = [(''location'', ''http://127.0.0.1:3001/'')], hr_body = NoBody\<rparr>"

fun docs_page :: "pages \<Rightarrow> page \<Rightarrow> http_response" where
  "docs_page pages Openapi = openapi pages"
| "docs_page pages Swagger = swagger"
| "docs_page pages Dashboard = dashboard pages"
| "docs_page pages FlowBuilder = flow_builder"

section \<open>The middleware\<close>

datatype inbound = Page page | Api request

type_synonym 'n handled = "string option \<Rightarrow> 'n app \<Rightarrow> http_response \<times> 'n app"

fun run_route :: "pages \<Rightarrow> 'n server \<Rightarrow> env \<Rightarrow> headers \<Rightarrow> inbound \<Rightarrow> 'n handled" where
  "run_route pages sv e h (Page p) scope s = (docs_page pages p, s)"
| "run_route pages sv e h (Api r) scope s =
     (let (res, s') = router sv e h r s in (into_response scope res, s'))"

definition context_headers :: "string \<Rightarrow> header_map \<Rightarrow> header_map" where
  "context_headers rid headers =
     header_insert ''x-content-type-options'' ''nosniff''
       (header_insert ''cache-control'' ''no-store'' (header_insert ''x-request-id'' rid headers))"

definition request_context :: "string \<Rightarrow> 'n handled \<Rightarrow> 'n app \<Rightarrow> http_response \<times> 'n app" where
  "request_context uuid run s =
     (let rid = ''req_'' @ uuid;
          (response, s') = run (Some rid) s
      in (response\<lparr>hr_headers := context_headers rid (hr_headers response)\<rparr>, s'))"

definition http_service ::
  "pages \<Rightarrow> 'n server \<Rightarrow> env \<Rightarrow> headers \<Rightarrow> string \<Rightarrow> inbound \<Rightarrow> 'n app \<Rightarrow> http_response \<times> 'n app" where
  "http_service pages sv e h uuid req = request_context uuid (run_route pages sv e h req)"

lemma header_values_insert [simp]:
  "header_values n (header_insert n v hs) = [v]"
  "n \<noteq> m \<Longrightarrow> header_values n (header_insert m v hs) = header_values n hs"
  by (auto simp: header_values_def header_insert_def cong: conj_cong intro: arg_cong [where f = "map snd"] filter_cong)

lemma context_headers_values:
  "header_values ''x-request-id'' (context_headers rid hs) = [rid]"
  "header_values ''cache-control'' (context_headers rid hs) = [''no-store'']"
  "header_values ''x-content-type-options'' (context_headers rid hs) = [''nosniff'']"
  "n \<notin> {''x-request-id'', ''cache-control'', ''x-content-type-options''}
    \<Longrightarrow> header_values n (context_headers rid hs) = header_values n hs"
  by (simp_all add: context_headers_def)

lemma http_api:
  "http_service pages sv e h uuid (Api r) s
     = (let (res, s') = router sv e h r s; response = into_response (Some (''req_'' @ uuid)) res
        in (response\<lparr>hr_headers := context_headers (''req_'' @ uuid) (hr_headers response)\<rparr>, s'))"
  by (simp add: http_service_def request_context_def Let_def split: prod.split)

text \<open>
  Every response names its request, whatever the route and its outcome: it carries the request id once,
  in \<open>x-request-id\<close>, is never cached and never sniffed. An API request changes the state as its handler
  does, and when the handler refuses, the body holds the error's code and message and quotes the same
  id, and nothing else. A documentation page changes nothing, and the content policy of the dashboard
  passes the middleware.
\<close>

theorem responses_identified:
  assumes "http_service pages sv e h uuid req s = (response, s')"
  shows "header_values ''x-request-id'' (hr_headers response) = [''req_'' @ uuid]"
    and "header_values ''cache-control'' (hr_headers response) = [''no-store'']"
    and "header_values ''x-content-type-options'' (hr_headers response) = [''nosniff'']"
    and "req = Api r \<Longrightarrow> s' = snd (router sv e h r s)"
    and "req = Api r \<Longrightarrow> fst (router sv e h r s) = Inl err \<Longrightarrow> hr_status response = ae_status err
      \<and> hr_body response = JsonBody (snd (error_response (''req_'' @ uuid) err))"
    and "req = Page p \<Longrightarrow> s' = s"
    and "req = Page Dashboard \<Longrightarrow> header_values ''content-security-policy'' (hr_headers response) = [dashboard_csp]"
proof -
  obtain hs where hs: "hr_headers response = context_headers (''req_'' @ uuid) hs"
    using assms by (auto simp: http_service_def request_context_def Let_def split: prod.splits)
  show "header_values ''x-request-id'' (hr_headers response) = [''req_'' @ uuid]"
    and "header_values ''cache-control'' (hr_headers response) = [''no-store'']"
    and "header_values ''x-content-type-options'' (hr_headers response) = [''nosniff'']"
    unfolding hs by (rule context_headers_values)+
  show "s' = snd (router sv e h r s)" if "req = Api r"
    using assms unfolding that http_api by (simp add: Let_def split: prod.splits)
  show "hr_status response = ae_status err \<and> hr_body response = JsonBody (snd (error_response (''req_'' @ uuid) err))"
    if "req = Api r" "fst (router sv e h r s) = Inl err"
    using assms that(2) unfolding that(1) http_api
    by (auto simp: Let_def into_response_def json_reply_def current_request_id_def error_response_def split: prod.splits)
  show "s' = s" if "req = Page p"
    using assms unfolding that by (simp add: http_service_def request_context_def Let_def)
  show "header_values ''content-security-policy'' (hr_headers response) = [dashboard_csp]" if "req = Page Dashboard"
  proof -
    have "hr_headers response = context_headers (''req_'' @ uuid) (hr_headers (dashboard pages))"
      using assms unfolding that by (auto simp: http_service_def request_context_def Let_def)
    then show ?thesis by (simp add: context_headers_values) (simp add: dashboard_def header_values_def)
  qed
qed

section \<open>The table of routes\<close>

text \<open>
  What the \<open>routes\<close> function of each module registers: a path with its parameters and, for each method,
  the handler. Matching a path against the table is axum's; what a matched request runs is \<open>run_route\<close>.
\<close>

datatype http_method = GET | POST | DELETE

type_synonym routes = "(string \<times> (http_method \<times> string) list) list"

definition health_routes :: routes where
  "health_routes =
     [(''/healthz'', [(GET, ''healthz'')]),
      (''/readyz'', [(GET, ''readyz'')])]"

definition docs_routes :: routes where
  "docs_routes =
     [(''/openapi.json'', [(GET, ''openapi'')]),
      (''/docs'', [(GET, ''swagger'')]),
      (''/dashboard'', [(GET, ''dashboard'')]),
      (''/flow-builder'', [(GET, ''flow_builder'')])]"

definition admin_routes :: routes where
  "admin_routes =
     [(''/v1/projects'', [(POST, ''create_project'')]),
      (''/v1/projects/:project_id/api-keys'', [(POST, ''create_key''), (GET, ''list_keys'')]),
      (''/v1/projects/:project_id/api-keys/:key_id'', [(DELETE, ''revoke_key'')]),
      (''/v1/admin/channels'', [(POST, ''open_channel'')]),
      (''/v1/dev/mine'', [(POST, ''mine'')]),
      (''/v1/dev/status'', [(GET, ''dev_status'')])]"

definition lightning_routes :: routes where
  "lightning_routes =
     [(''/v1/lightning/invoices'', [(POST, ''create_invoice''), (GET, ''list_invoices'')]),
      (''/v1/lightning/invoices/:id'', [(GET, ''get_invoice'')]),
      (''/v1/lightning/payments'', [(POST, ''create_payment''), (GET, ''list_payments'')]),
      (''/v1/lightning/payments/:id'', [(GET, ''get_payment'')]),
      (''/v1/lightning/payments/:id/reconcile'', [(POST, ''reconcile_payment'')])]"

definition bitcoin_routes :: routes where
  "bitcoin_routes =
     [(''/v1/bitcoin/addresses'', [(POST, ''create_address'')]),
      (''/v1/bitcoin/transactions'', [(GET, ''list_transactions'')]),
      (''/v1/bitcoin/transactions/:id'', [(GET, ''get_transaction'')])]"

definition account_routes :: routes where
  "account_routes =
     [(''/v1/project'', [(GET, ''project'')]),
      (''/v1/balances'', [(GET, ''balances'')]),
      (''/v1/node'', [(GET, ''node'')]),
      (''/v1/events'', [(GET, ''list_events'')]),
      (''/v1/events/:id'', [(GET, ''get_event'')])]"

definition webhook_routes :: routes where
  "webhook_routes =
     [(''/v1/webhook-endpoints'', [(POST, ''create_endpoint''), (GET, ''list_endpoints'')]),
      (''/v1/webhook-endpoints/:id'', [(DELETE, ''disable_endpoint'')]),
      (''/v1/webhook-endpoints/:id/test'', [(POST, ''test_endpoint'')]),
      (''/v1/webhook-deliveries'', [(GET, ''list_deliveries'')]),
      (''/v1/webhook-deliveries/:id/replay'', [(POST, ''replay_delivery'')])]"

definition sandbox_routes :: routes where
  "sandbox_routes =
     [(''/v1/sandbox/balances'', [(GET, ''balances''), (POST, ''topup'')]),
      (''/v1/sandbox/quotes'', [(POST, ''create_quote'')]),
      (''/v1/sandbox/quotes/:id'', [(GET, ''get_quote'')]),
      (''/v1/sandbox/payouts'', [(POST, ''create_payout'')]),
      (''/v1/sandbox/payouts/:id'', [(GET, ''get_payout'')]),
      (''/v1/sandbox/payouts/:id/reconcile'', [(POST, ''reconcile_payout'')])]"

definition api_routes :: routes where
  "api_routes = health_routes @ docs_routes @ admin_routes @ lightning_routes @ bitcoin_routes
     @ account_routes @ webhook_routes @ sandbox_routes"

definition route_entries :: "routes \<Rightarrow> (string \<times> http_method) list" where
  "route_entries routes = concat (map (\<lambda>(path, methods). map (\<lambda>(m, _). (path, m)) methods) routes)"

text \<open>The registration a request of the model comes in by.\<close>

fun route_of :: "inbound \<Rightarrow> string \<times> http_method" where
  "route_of (Page Openapi) = (''/openapi.json'', GET)"
| "route_of (Page Swagger) = (''/docs'', GET)"
| "route_of (Page Dashboard) = (''/dashboard'', GET)"
| "route_of (Page FlowBuilder) = (''/flow-builder'', GET)"
| "route_of (Api Healthz) = (''/healthz'', GET)"
| "route_of (Api (Readyz _ _)) = (''/readyz'', GET)"
| "route_of (Api (CreateProject _ _)) = (''/v1/projects'', POST)"
| "route_of (Api (CreateKey _ _ _)) = (''/v1/projects/:project_id/api-keys'', POST)"
| "route_of (Api (ListKeys _)) = (''/v1/projects/:project_id/api-keys'', GET)"
| "route_of (Api (RevokeKey _ _)) = (''/v1/projects/:project_id/api-keys/:key_id'', DELETE)"
| "route_of (Api (OpenChannel _)) = (''/v1/admin/channels'', POST)"
| "route_of (Api (Mine _)) = (''/v1/dev/mine'', POST)"
| "route_of (Api DevStatus) = (''/v1/dev/status'', GET)"
| "route_of (Api (CreateInvoice _)) = (''/v1/lightning/invoices'', POST)"
| "route_of (Api (ListInvoices _)) = (''/v1/lightning/invoices'', GET)"
| "route_of (Api (GetInvoice _)) = (''/v1/lightning/invoices/:id'', GET)"
| "route_of (Api (CreatePayment _)) = (''/v1/lightning/payments'', POST)"
| "route_of (Api (ListPayments _)) = (''/v1/lightning/payments'', GET)"
| "route_of (Api (GetPayment _)) = (''/v1/lightning/payments/:id'', GET)"
| "route_of (Api (ReconcilePayment _)) = (''/v1/lightning/payments/:id/reconcile'', POST)"
| "route_of (Api (CreateAddress _)) = (''/v1/bitcoin/addresses'', POST)"
| "route_of (Api (ListTransactions _)) = (''/v1/bitcoin/transactions'', GET)"
| "route_of (Api (GetTransaction _)) = (''/v1/bitcoin/transactions/:id'', GET)"
| "route_of (Api GetProject) = (''/v1/project'', GET)"
| "route_of (Api Balances) = (''/v1/balances'', GET)"
| "route_of (Api Node) = (''/v1/node'', GET)"
| "route_of (Api (ListEvents _)) = (''/v1/events'', GET)"
| "route_of (Api (GetEvent _)) = (''/v1/events/:id'', GET)"
| "route_of (Api (CreateEndpoint _ _)) = (''/v1/webhook-endpoints'', POST)"
| "route_of (Api ListEndpoints) = (''/v1/webhook-endpoints'', GET)"
| "route_of (Api (DisableEndpoint _)) = (''/v1/webhook-endpoints/:id'', DELETE)"
| "route_of (Api (TestEndpoint _)) = (''/v1/webhook-endpoints/:id/test'', POST)"
| "route_of (Api (ListDeliveries _)) = (''/v1/webhook-deliveries'', GET)"
| "route_of (Api (ReplayDelivery _)) = (''/v1/webhook-deliveries/:id/replay'', POST)"
| "route_of (Api SandboxBalances) = (''/v1/sandbox/balances'', GET)"
| "route_of (Api (SandboxTopup _)) = (''/v1/sandbox/balances'', POST)"
| "route_of (Api (CreateQuote _)) = (''/v1/sandbox/quotes'', POST)"
| "route_of (Api (GetQuote _)) = (''/v1/sandbox/quotes/:id'', GET)"
| "route_of (Api (CreatePayout _)) = (''/v1/sandbox/payouts'', POST)"
| "route_of (Api (GetPayout _)) = (''/v1/sandbox/payouts/:id'', GET)"
| "route_of (Api (ReconcilePayout _ _)) = (''/v1/sandbox/payouts/:id/reconcile'', POST)"

lemmas api_routes_defs = api_routes_def health_routes_def docs_routes_def admin_routes_def lightning_routes_def
  bitcoin_routes_def account_routes_def webhook_routes_def sandbox_routes_def

lemmas route_of_range = route_of.simps [THEN sym, THEN range_eqI [where f = route_of]]

text \<open>
  The table registers every path once, as axum demands when the router is built, and the requests of the
  model are exactly what it registers: none is missing, and none is reached by two registrations.
\<close>

theorem routes_registered:
  "distinct (map fst api_routes)" "distinct (route_entries api_routes)"
  "route_of req \<in> set (route_entries api_routes)"
  "entry \<in> set (route_entries api_routes) \<Longrightarrow> \<exists>req. route_of req = entry"
proof -
  show "distinct (map fst api_routes)" by (simp add: api_routes_defs)
  show "distinct (route_entries api_routes)" by (simp add: api_routes_defs route_entries_def)
  show "route_of req \<in> set (route_entries api_routes)"
    by (cases req rule: route_of.cases) (simp_all add: api_routes_defs route_entries_def)
  have "set (route_entries api_routes) \<subseteq> range route_of"
    by (simp add: api_routes_defs route_entries_def route_of_range)
  then show "\<exists>req. route_of req = entry" if "entry \<in> set (route_entries api_routes)"
    using that by blast
qed

end
