(* ===== verification/Api_Store.thy ===== *)
theory Api_Store
  imports Api_Router
begin

text \<open>
  The gateway seen from the database: whatever a request, a node event or a background pass does, it
  reaches the tables only through the transactions of \<open>safrod-storage\<close>. \<open>storage_step\<close> lists them, one
  rule each, so what every transaction keeps holds over every run of the gateway by rule induction.
\<close>

inductive storage_step :: "db \<Rightarrow> db \<Rightarrow> bool" where
  draw: "storage_step d (d\<lparr>next_uuid := n\<rparr>)"
| begin_payment: "begin_payment e new d = Inr (begun, d') \<Longrightarrow> storage_step d d'"
| transition_payment: "transition_payment e key pid status res d = Inr (tr, d') \<Longrightarrow> storage_step d d'"
| insert_invoice: "insert_invoice e ni d = Inr (invoice, d') \<Longrightarrow> storage_step d d'"
| mark_invoice_paid: "mark_invoice_paid e k h amount d = Inr (paid, d') \<Longrightarrow> storage_step d d'"
| expire_invoices: "expire_invoices e d = Inr (count, d') \<Longrightarrow> storage_step d d'"
| create_address: "create_address e p addr label confs d = Inr (adr, d') \<Longrightarrow> storage_step d d'"
| record_observation: "record_observation e obs d = Inr (seen, d') \<Longrightarrow> storage_step d d'"
| create_project: "create_project e name net d = Inr (prj, d') \<Longrightarrow> storage_step d d'"
| create_api_key: "create_api_key e p label scopes generated d = Inr (made, d') \<Longrightarrow> storage_step d d'"
| revoke_api_key: "revoke_api_key e p i d = Inr (u, d') \<Longrightarrow> storage_step d d'"
| insert_quote: "insert_quote e nq d = Inr (qte, d') \<Longrightarrow> storage_step d d'"
| reserve_payout: "reserve_payout e p q k scn bolt11 d = Inr (reserved, d') \<Longrightarrow> storage_step d d'"
| attach_payment: "attach_payment_to_payout e i pid d = Inr (u, d') \<Longrightarrow> storage_step d d'"
| advance_payout: "advance_payout e i state d = Inr (moved, d') \<Longrightarrow> storage_step d d'"
| credit_balance: "credit_sandbox_balance p c minor d = Inr (u, d') \<Longrightarrow> storage_step d d'"
| create_endpoint: "create_webhook_endpoint e p url secret d = Inr (whe, d') \<Longrightarrow> storage_step d d'"
| disable_endpoint: "disable_webhook_endpoint p i d = Inr (u, d') \<Longrightarrow> storage_step d d'"
| test_event: "emit_standalone e p ''webhook.test'' i data sim d = Inr (ev, d') \<Longrightarrow> storage_step d d'"
| claim_deliveries: "claim_due_deliveries e limit lease d = Inr (due, d') \<Longrightarrow> storage_step d d'"
| record_delivery: "record_delivery e i outcome d = Inr (u, d') \<Longrightarrow> storage_step d d'"
| replay_delivery: "replay_delivery e p i d = Inr (u, d') \<Longrightarrow> storage_step d d'"

lemma storage_step_schema: "storage_step d d' \<Longrightarrow> schema_ok d \<Longrightarrow> schema_ok d'"
  by (induction rule: storage_step.induct)
    (blast intro: schema_table(9) begin_op.op_schema transition_op.op_schema insert_invoice_op.op_schema
      mark_paid_op.op_schema expire_op.op_schema create_address_op.op_schema observe_op.op_schema
      create_project_op.op_schema create_key_op.op_schema revoke_op.op_schema insert_quote_op.op_schema
      reserve_op.op_schema attach_op.op_schema advance_op.op_schema credit_op.op_schema
      create_endpoint_op.op_schema disable_endpoint_op.op_schema claim_op.op_schema record_op.op_schema
      replay_op.op_schema db_op.op_schema [OF emit_standalone_op])+

abbreviation storage_steps :: "db \<Rightarrow> db \<Rightarrow> bool" where
  "storage_steps \<equiv> storage_step\<^sup>*\<^sup>*"

lemmas storage_steps = storage_step.intros [THEN r_into_rtranclp [where r = storage_step]]

definition stored :: "'n app \<Rightarrow> 'n app \<Rightarrow> bool" where
  "stored s s' \<longleftrightarrow> storage_steps (app_db s) (app_db s')"

abbreviation stores :: "('n, 'a) handler \<Rightarrow> bool" where
  "stores \<equiv> keeps stored"

interpretation stored_steps: step_preorder stored
  by unfold_locales (auto simp: stored_def)

definition store_op :: "(db \<Rightarrow> storage_error + 'a \<times> db) \<Rightarrow> bool" where
  "store_op op \<longleftrightarrow> (\<forall>d a d'. op d = Inr (a, d') \<longrightarrow> storage_steps d d')"

lemma store_opI: "(\<And>d a d'. op d = Inr (a, d') \<Longrightarrow> storage_step d d') \<Longrightarrow> store_op op"
  by (auto simp: store_op_def)

lemma store_ops [moves_rules]:
  "store_op (create_address e p addr label confs)" "store_op (create_project e name net)"
  "store_op (create_api_key e p label scopes generated)" "store_op (revoke_api_key e p i)"
  "store_op (insert_quote e nq)" "store_op (reserve_payout e p q k scn bolt11)"
  "store_op (attach_payment_to_payout e i pid)" "store_op (advance_payout e i state)"
  "store_op (credit_sandbox_balance p c minor)" "store_op (create_webhook_endpoint e p url secret)"
  "store_op (disable_webhook_endpoint p i)" "store_op (emit_standalone e p ''webhook.test'' i data sim)"
  "store_op (replay_delivery e p i)" "store_op (insert_invoice e ni)"
  by (rule store_opI; erule storage_step.intros)+

lemma draw_stored: "storage_steps (d\<lparr>next_uuid := n\<rparr>) d' \<Longrightarrow> storage_steps d d'"
  by (blast intro: converse_rtranclp_into_rtranclp storage_step.draw)

lemma store_with_fresh [moves_rules]: "(\<And>i. store_op (op i)) \<Longrightarrow> store_op (with_fresh e kind op)"
  unfolding store_op_def with_fresh_def fresh_id_def Let_def prod.case
  by (blast intro: draw_stored)

lemma stores_db_call [moves_rules]: "store_op op \<Longrightarrow> stores (db_call f op)"
  by (rule stored_steps.keeps_db_call) (simp add: stored_def store_op_def)

lemma stores_db_match [moves_rules]:
  "store_op op \<Longrightarrow> (\<And>a. stores (ok a)) \<Longrightarrow> (\<And>err. stores (bad err)) \<Longrightarrow> stores (db_match op ok bad)"
  by (rule stored_steps.keeps_db_match) (simp_all add: stored_def store_op_def)

lemma stores_node_call [moves_rules]: "stores (node_call op)"
  by (simp add: keeps_def node_call_def stored_def split: prod.split sum.split)

section \<open>The engine\<close>

lemma engine_transition_stored: "engine_transition e pid n res s = (r, s') \<Longrightarrow> stored s s'"
  by (auto simp: engine_transition_def stored_def intro: storage_steps
      split: sum.splits)

lemma send_begin_stored: "send_begin be sha256 json_text e p k req s = (r, s') \<Longrightarrow> stored s s'"
  by (auto simp: send_begin_def stored_def fresh_id_def Let_def split: sum.splits if_splits
      dest!: storage_steps(2) intro: draw_stored)

lemma send_dispatch_stored: "send_dispatch be b a s = (r, s') \<Longrightarrow> stored s s'"
  by (simp add: stored_def send_dispatch_db)

lemmas engine_stored = send_begin_stored send_dispatch_stored engine_transition_stored

lemma stores_send_payment [moves_rules]: "stores (send_payment be sha256 json_text e p k req)"
proof -
  have "stored s s'" if "send_payment be sha256 json_text e p k req s = (r, s')" for s r s'
    using that unfolding send_payment_def send_pend_def send_refused_def
    by (auto split: prod.splits sum.splits if_splits dest!: engine_stored intro: stored_steps.step_trans)
  then show ?thesis unfolding keeps_def by (metis prod.collapse)
qed

lemma stores_reconcile [moves_rules]: "stores (reconcile_payment be e row)"
proof -
  have "stored s s'" if "reconcile_payment be e row s = (r, s')" for s r s'
    using that unfolding reconcile_payment_def pass_pending_def
    by (auto split: sum.splits if_splits option.splits prod.splits
        dest!: engine_transition_stored intro: stored_steps.step_trans stored_steps.step_refl)
  then show ?thesis unfolding keeps_def by (metis prod.collapse)
qed

lemma node_event_stored: "handle_node_event e ev d = (r, d') \<Longrightarrow> storage_steps d d'"
  by (cases ev) (auto simp: handle_node_event_def settle_event_def split: sum.splits option.splits
      intro: storage_steps)

section \<open>The routes\<close>

lemma stores_fetch_payment [moves_rules]: "(\<And>p. stores (k p)) \<Longrightarrow> stores (fetch_payment project_id i k)"
  unfolding fetch_payment_def by (intro moves_rules)

lemma stores_fetch_quote [moves_rules]: "(\<And>q. stores (k q)) \<Longrightarrow> stores (fetch_quote project_id i k)"
  unfolding fetch_quote_def by (intro moves_rules)

lemma stores_fetch_payout [moves_rules]: "(\<And>q. stores (k q)) \<Longrightarrow> stores (fetch_payout project_id i k)"
  unfolding fetch_payout_def by (intro moves_rules)

lemma stores_parts [moves_rules]:
  "stores (payout_with_payment sv project_id payout)" "stores (balances_response project_id)"
  "stores (issue_invoice sv e p idem amt desc expiry meta)"
  "stores (settle_payout sv e project_id invoice finished)"
  unfolding payout_with_payment_def balances_response_def issue_invoice_def settle_payout_def
  by (intro moves_rules)+

lemma stores_complete_success [moves_rules]: "stores (complete_success sv e project_id payout)"
  unfolding complete_success_def split_beta by (intro moves_rules)

lemma stores_run_payout [moves_rules]: "stores (run_payout sv e project_id payout scn)"
  unfolding run_payout_def split_beta
  by (cases scn; simp only: scenario.case; intro moves_rules)

lemma stores_place_payout [moves_rules]: "stores (place_payout sv e project_id key scn req)"
  unfolding place_payout_def split_beta by (intro moves_rules)

lemma stores_resolve_payout [moves_rules]: "stores (resolve_payout sv e project_id payout outcome)"
  unfolding resolve_payout_def by (intro moves_rules)

lemma stores_writes [moves_rules]:
  "stores (create_invoice sv e h ib)" "stores (create_payment sv e h pb)" "stores (reconcile_payment_route sv e h i)"
  "stores (create_endpoint sv e raw h b)" "stores (disable_endpoint sv h i)" "stores (test_endpoint sv e h i)"
  "stores (replay_delivery_route sv e h i)" "stores (create_address_route sv e h ab)"
  "stores (create_project_route sv e bytes h b)" "stores (create_key_route sv e bytes h p kb)"
  "stores (revoke_key sv e h p i)" "stores (mine sv h mb)" "stores (open_channel sv h cb)"
  "stores (topup sv h tb)" "stores (create_quote sv e h qb)" "stores (create_payout sv e h yb)"
  "stores (reconcile_payout sv e h i ob)"
  unfolding create_invoice_def create_payment_def reconcile_payment_route_def create_endpoint_def
    disable_endpoint_def test_endpoint_def replay_delivery_route_def create_address_route_def
    create_project_route_def create_key_route_def revoke_key_def mine_def open_channel_def topup_def
    create_quote_def create_payout_def reconcile_payout_def Let_def
  by (intro moves_rules)+

lemma stores_router: "stores (router sv e h req)"
  by (cases req; simp only: router.simps; intro moves_rules)

lemma gateway_step_stored: "gateway_step sv s s' \<Longrightarrow> storage_steps (app_db s) (app_db s')"
proof (induction rule: gateway_step.induct)
  case (request_step e h req s res s')
  then show ?case using keepsD [OF stores_router] stored_def by blast
next
  case (event_step e ev s res d')
  then show ?case by (simp add: node_event_stored)
next
  case (reconcile_step e row s res s')
  then show ?case using keepsD [OF stores_reconcile] stored_def by blast
qed (auto intro: storage_steps)

lemma gateway_stored: "(gateway_step sv)\<^sup>*\<^sup>* s s' \<Longrightarrow> storage_steps (app_db s) (app_db s')"
  by (induction rule: rtranclp_induct) (auto dest: gateway_step_stored)

end
