(* ===== verification/Api_Outbox.thy ===== *)
theory Api_Outbox
  imports Api_Store "HOL-Library.Multiset"
begin

text \<open>
  The transactional outbox (\<open>emit\<close> in events.rs): a record that settles and the event that says so are
  written together. Over every run of the gateway the events of final outcomes are exactly the final
  records, each announced once.
\<close>

lemma sum_update_where:
  fixes g :: "'a \<Rightarrow> 'b :: comm_monoid_add"
  assumes "\<And>r. r \<in> set t \<Longrightarrow> P r \<Longrightarrow> g (f r) = g r + h r"
  shows "(\<Sum>r\<leftarrow>update_where P f t. g r) = (\<Sum>r\<leftarrow>t. g r) + (\<Sum>r\<leftarrow>filter P t. h r)"
  using assms by (induction t) (auto simp: update_where_Nil update_where_Cons ac_simps)

lemma filter_key: "distinct (map k t) \<Longrightarrow> r \<in> set t \<Longrightarrow> filter (\<lambda>x. k x = k r) t = [r]"
  by (induction t) (auto simp: image_iff filter_empty_conv)

lemma sum_update_key:
  fixes g :: "'a \<Rightarrow> 'b :: comm_monoid_add"
  assumes "distinct (map k t)" and "c \<in> set t" and "g c = 0"
  shows "(\<Sum>r\<leftarrow>update_where (\<lambda>r. k r = k c) f t. g r) = (\<Sum>r\<leftarrow>t. g r) + g (f c)"
proof -
  have "g r = 0" if "r \<in> set t" "k r = k c" for r
    using distinct_map_eq [OF assms(1) that(1) assms(2) that(2)] assms(3) by simp
  then have "(\<Sum>r\<leftarrow>update_where (\<lambda>r. k r = k c) f t. g r)
      = (\<Sum>r\<leftarrow>t. g r) + (\<Sum>r\<leftarrow>filter (\<lambda>r. k r = k c) t. g (f r))"
    by (intro sum_update_where) simp
  then show ?thesis using filter_key [OF assms(1,2)] by simp
qed

section \<open>Announcements and outcomes\<close>

text \<open>The event types that announce the end of a payment, an invoice or a payout.\<close>

definition final_kinds :: "string list" where
  "final_kinds = [''payment.succeeded'', ''payment.failed'', ''invoice.paid'', ''invoice.expired'',
     ''sandbox.payout.succeeded'', ''sandbox.payout.failed'']"

text \<open>A project, an event type and a resource, counted when the type is final.\<close>

definition notice :: "string \<Rightarrow> string \<Rightarrow> string \<Rightarrow> (string \<times> string \<times> string) multiset" where
  "notice p kind i = (if kind \<in> set final_kinds then {#(p, kind, i)#} else {#})"

definition event_notice :: "event_row \<Rightarrow> (string \<times> string \<times> string) multiset" where
  "event_notice ev = notice (ev_project_id ev) (ev_kind ev) (ev_resource_id ev)"

definition payment_notice :: "payment_row \<Rightarrow> (string \<times> string \<times> string) multiset" where
  "payment_notice r = notice (pay_project_id r) (''payment.'' @ pay_status r) (pay_id r)"

definition invoice_notice :: "invoice_row \<Rightarrow> (string \<times> string \<times> string) multiset" where
  "invoice_notice r = notice (inv_project_id r) (''invoice.'' @ inv_status r) (inv_id r)"

definition payout_notice :: "payout_row \<Rightarrow> (string \<times> string \<times> string) multiset" where
  "payout_notice r = notice (pot_project_id r) (''sandbox.payout.'' @ pot_status r) (pot_id r)"

definition announced :: "db \<Rightarrow> (string \<times> string \<times> string) multiset" where
  "announced d = (\<Sum>ev\<leftarrow>t_events d. event_notice ev)"

definition outcomes :: "db \<Rightarrow> (string \<times> string \<times> string) multiset" where
  "outcomes d = (\<Sum>r\<leftarrow>t_payments d. payment_notice r) + (\<Sum>r\<leftarrow>t_invoices d. invoice_notice r)
     + (\<Sum>r\<leftarrow>t_payouts d. payout_notice r)"

definition balanced :: "db \<Rightarrow> bool" where
  "balanced d \<longleftrightarrow> announced d = outcomes d"

lemma notice_simps [simp]:
  "notice p ''payment.created'' i = {#}" "notice p ''payment.pending'' i = {#}"
  "notice p ''payment.unknown'' i = {#}" "notice p ''invoice.open'' i = {#}"
  "notice p ''sandbox.payout.reserved'' i = {#}" "notice p ''sandbox.payout.pending'' i = {#}"
  "notice p ''sandbox.payout.unknown'' i = {#}" "notice p ''webhook.test'' i = {#}"
  "notice p ''bitcoin.transaction.detected'' i = {#}" "notice p ''bitcoin.transaction.confirmed'' i = {#}"
  "notice p ''bitcoin.transaction.updated'' i = {#}"
  by (simp_all add: notice_def final_kinds_def)

lemma moving_notice:
  "payment_can_transition_to s s' \<Longrightarrow> notice p (''payment.'' @ payment_as_str s) i = {#}"
  "payout_can_transition_to q q' \<Longrightarrow> notice p (''sandbox.payout.'' @ payout_as_str q) i = {#}"
  by (cases "(s, s')" rule: payment_can_transition_to.cases; simp)
    (cases "(q, q')" rule: payout_can_transition_to.cases; simp)

lemma emit_books:
  "emit e p kind res data sim d = Inr (ev, d') \<Longrightarrow> announced d' = announced d + notice p kind res \<and> outcomes d' = outcomes d"
  by (auto simp: announced_def outcomes_def event_notice_def emitted_def new_event_def dest!: emit_Inr)

text \<open>A transaction that leaves the four tables alone keeps the balance.\<close>

definition books :: "db \<Rightarrow> event_row list \<times> payment_row list \<times> invoice_row list \<times> payout_row list" where
  "books d = (t_events d, t_payments d, t_invoices d, t_payouts d)"

lemma books_kept: "books d' = books d \<Longrightarrow> announced d' = announced d \<and> outcomes d' = outcomes d"
  by (simp add: books_def announced_def outcomes_def)

lemma claim_books: "claim_node_event k kind pl d = (b, d1) \<Longrightarrow> books d1 = books d"
  by (auto simp: claim_node_event_def books_def split: if_splits)

lemma balance_books: "upsert_balance p c x d = Inr d' \<Longrightarrow> books d' = books d"
  by (auto simp: upsert_balance_def books_def Let_def split: option.splits if_splits)

lemma refund_books: "refund_if_failed n q d = Inr d' \<Longrightarrow> books d' = books d"
  by (auto simp: refund_if_failed_def refund_quote_def Let_def books_def split: option.splits if_splits)

section \<open>Every transaction keeps the balance\<close>

lemma begin_balanced:
  assumes "begin_payment e new d = Inr (out, d')"
  shows "announced d' = announced d \<and> outcomes d' = outcomes d"
  using assms
proof (cases rule: begin_payment_cases)
  case created
  then show ?thesis by (simp add: announced_def outcomes_def payment_notice_def insert_row_def)
qed simp

lemma transition_balanced:
  assumes "transition_payment e key pid n res d = Inr (out, d')" and "schema_ok d" and "balanced d"
  shows "balanced d'"
  using assms(1)
proof (cases rule: transition_payment_cases)
  case (moved d1 current fr fee)
  let ?f = "resolve_row e n fee res"
  let ?d2 = "d1\<lparr>t_payments := update_where (\<lambda>r. pay_id r = pid) ?f (t_payments d)\<rparr>"
  have d1: "books d1 = books d" using moved(6) claim_books by auto
  have "payment_notice current = {#}"
    using moved(4,5) moving_notice(1) by (simp add: payment_notice_def pay_text.parse_iff)
  then have "(\<Sum>r\<leftarrow>t_payments ?d2. payment_notice r) = (\<Sum>r\<leftarrow>t_payments d. payment_notice r) + payment_notice (?f current)"
    using sum_update_key [of pay_id "t_payments d" current payment_notice ?f] moved(2,3) assms(2)
    by (simp add: schema_ok_def payments_table_def)
  then have s2: "outcomes ?d2 = outcomes d + payment_notice (?f current)"
    using d1 by (simp add: outcomes_def books_def ac_simps)
  have a2: "announced ?d2 = announced d" using d1 by (simp add: announced_def books_def)
  have "announced d' = announced d + payment_notice (?f current) \<and> outcomes d' = outcomes ?d2"
  proof (cases "n \<in> {PaySucceeded, PayFailed, PayUnknown}")
    case True
    then obtain ev where "emit e (pay_project_id (?f current)) (''payment.'' @ payment_as_str n) (pay_id (?f current))
        (payment_event_data (?f current)) False ?d2 = Inr (ev, d')"
      using moved(7,8) by (auto simp: resolution_emitted_def)
    then show ?thesis using a2 emit_books by (fastforce simp: payment_notice_def resolve_row_def)
  next
    case False
    then have "d' = ?d2" "n = PayPending \<or> n = PayCreated" using moved(7,8) by (auto simp: resolution_emitted_def intro: payment_status.exhaust [of n])
    then show ?thesis using a2 by (auto simp: payment_notice_def resolve_row_def)
  qed
  then show ?thesis using s2 assms(3) by (simp add: balanced_def)
qed (use assms in simp)

lemma mark_paid_balanced:
  assumes "mark_invoice_paid e key h amt d = Inr (out, d')" and "schema_ok d" and "balanced d"
  shows "balanced d'"
  using assms(1)
proof (cases rule: mark_invoice_paid_cases)
  case (paid d1 current amount ev pl)
  let ?d2 = "d1\<lparr>t_invoices := update_where (\<lambda>r. inv_id r = inv_id current) (pay_row e amount) (t_invoices d)\<rparr>"
  have d1: "books d1 = books d" using claim_books [OF paid(1)] .
  have row: "invoice_notice (pay_row e amount current) = notice (inv_project_id current) ''invoice.paid'' (inv_id current)"
    "invoice_notice current = {#}" using paid(4) by (simp_all add: invoice_notice_def pay_row_def)
  then have "outcomes ?d2 = outcomes d + notice (inv_project_id current) ''invoice.paid'' (inv_id current)"
    using sum_update_key [of inv_id "t_invoices d" current invoice_notice "pay_row e amount"] paid(2) assms(2) d1
    by (simp add: schema_ok_def invoices_table_def outcomes_def books_def ac_simps)
  moreover have "announced ?d2 = announced d" using d1 by (simp add: announced_def books_def)
  ultimately show ?thesis using emit_books [OF paid(7)] assms(3) by (simp add: balanced_def)
qed (use assms in simp)

lemma emit_expired_books:
  "emit_expired e rs d = Inr d' \<Longrightarrow> outcomes d' = outcomes d
     \<and> announced d' = announced d + (\<Sum>r\<leftarrow>rs. notice (inv_project_id r) ''invoice.expired'' (inv_id r))"
proof (induction rs arbitrary: d)
  case (Cons r rs)
  then obtain ev d1 where "emit e (inv_project_id r) ''invoice.expired'' (inv_id r)
      (invoice_event_data r) False d = Inr (ev, d1)" "emit_expired e rs d1 = Inr d'"
    by (auto split: sum.splits)
  then show ?case using Cons.IH emit_books by (fastforce simp: ac_simps)
qed simp

lemma expire_balanced:
  assumes "expire_invoices e d = Inr (n, d')" and "balanced d"
  shows "balanced d'"
proof -
  let ?x = "filter (overdue e) (t_invoices d)"
  let ?d1 = "d\<lparr>t_invoices := update_where (overdue e) (expire_row e) (t_invoices d)\<rparr>"
  have "emit_expired e (map (expire_row e) ?x) ?d1 = Inr d'"
    using assms(1) by (auto simp: expire_invoices_def Let_def split: sum.splits)
  note em = emit_expired_books [OF this]
  have "(\<Sum>r\<leftarrow>t_invoices ?d1. invoice_notice r)
      = (\<Sum>r\<leftarrow>t_invoices d. invoice_notice r) + (\<Sum>r\<leftarrow>?x. invoice_notice (expire_row e r))"
    by (simp, intro sum_update_where) (simp add: invoice_notice_def overdue_def)
  moreover have "(\<Sum>r\<leftarrow>?x. invoice_notice (expire_row e r))
      = (\<Sum>r\<leftarrow>map (expire_row e) ?x. notice (inv_project_id r) ''invoice.expired'' (inv_id r))"
    by (simp add: invoice_notice_def expire_row_def comp_def)
  ultimately have "outcomes ?d1 = outcomes d
      + (\<Sum>r\<leftarrow>map (expire_row e) ?x. notice (inv_project_id r) ''invoice.expired'' (inv_id r))"
    by (simp add: outcomes_def ac_simps)
  then show ?thesis using em assms(2) by (simp add: balanced_def announced_def)
qed

lemma reserve_balanced:
  assumes "reserve_payout e p q k s b d = Inr ((r, created), d')"
  shows "announced d' = announced d \<and> outcomes d' = outcomes d"
  using assms
proof (cases rule: reserve_payout_cases)
  case (reserved quote d2 d3 ev)
  have "books d2 = books d" using balance_books [OF reserved(8)] by (simp add: books_def)
  moreover note insert_payout_Inr [OF reserved(9)]
  ultimately have "announced d3 = announced d \<and> outcomes d3 = outcomes d"
    by (simp add: announced_def outcomes_def books_def payout_notice_def insert_row_def)
  then show ?thesis using emit_books [OF reserved(10)] by simp
qed simp

lemma advance_balanced:
  assumes "advance_payout e i n d = Inr ((r, changed), d')" and "schema_ok d" and "balanced d"
  shows "balanced d'"
  using assms(1)
proof (cases rule: advance_payout_cases)
  case (moved current fr d2 ev)
  let ?d1 = "d\<lparr>t_payouts := update_where (\<lambda>r. pot_id r = i) (advance_row e n) (t_payouts d)\<rparr>"
  have "payout_notice current = {#}"
    using moved(4,5) moving_notice(2) by (simp add: payout_notice_def pot_text.parse_iff)
  moreover have row: "payout_notice (advance_row e n current)
      = notice (pot_project_id current) (''sandbox.payout.'' @ payout_as_str n) i"
    using moved(3) by (simp add: payout_notice_def advance_row_def)
  ultimately have "outcomes ?d1 = outcomes d + notice (pot_project_id current) (''sandbox.payout.'' @ payout_as_str n) i"
    using sum_update_key [of pot_id "t_payouts d" current payout_notice "advance_row e n"] moved(2,3) assms(2)
    by (simp add: schema_ok_def payouts_table_def outcomes_def ac_simps)
  moreover have "announced ?d1 = announced d" by (simp add: announced_def)
  ultimately show ?thesis using books_kept [OF refund_books [OF moved(7)]] emit_books [OF moved(8)] assms(3)
    by (simp add: balanced_def)
qed (use assms in simp)

lemma attach_balanced:
  assumes "attach_payment_to_payout e i pid d = Inr (u, d')"
  shows "announced d' = announced d \<and> outcomes d' = outcomes d"
proof -
  let ?f = "\<lambda>r. r\<lparr>pot_payment_id := Some pid, pot_updated_at := env_now e\<rparr>"
  have "(\<Sum>r\<leftarrow>update_where P ?f (t_payouts d). payout_notice r) = (\<Sum>r\<leftarrow>t_payouts d. payout_notice r)" for P
    using sum_update_where [of "t_payouts d" P payout_notice ?f "\<lambda>_. {#}"] by (simp add: payout_notice_def)
  then show ?thesis using assms
    by (auto simp: attach_payment_to_payout_def announced_def outcomes_def split: if_splits)
qed

lemma observe_balanced:
  assumes "record_observation e obs d = Inr (out, d')"
  shows "announced d' = announced d \<and> outcomes d' = outcomes d"
  using assms
proof (cases rule: record_observation_cases)
  case (detected row d1 ev)
  then show ?thesis using emit_books [OF detected(4)] insert_transaction_Inr(1) [OF detected(2)]
    by (simp add: announced_def outcomes_def)
next
  case (changed old ev)
  then show ?thesis using emit_books [OF changed(6)] by (simp add: announced_def outcomes_def split: if_splits)
qed simp

lemma plain_books:
  "create_address e p addr label confs d = Inr (adr, d') \<Longrightarrow> books d' = books d"
  "create_project e name net d = Inr (prj, d') \<Longrightarrow> books d' = books d"
  "create_api_key e p label scopes generated d = Inr (made, d') \<Longrightarrow> books d' = books d"
  "revoke_api_key e p i d = Inr (u, d') \<Longrightarrow> books d' = books d"
  "insert_quote e nq d = Inr (qte, d') \<Longrightarrow> books d' = books d"
  "credit_sandbox_balance p c minor d = Inr (u, d') \<Longrightarrow> books d' = books d"
  "create_webhook_endpoint e p url secret d = Inr (whe, d') \<Longrightarrow> books d' = books d"
  "disable_webhook_endpoint p i d = Inr (u, d') \<Longrightarrow> books d' = books d"
  "claim_due_deliveries e limit lease d = Inr (due, d') \<Longrightarrow> books d' = books d"
  "record_delivery e i outcome d = Inr (u, d') \<Longrightarrow> books d' = books d"
  "replay_delivery e p i d = Inr (u, d') \<Longrightarrow> books d' = books d"
  by (auto simp: create_address_def create_project_def create_api_key_def revoke_api_key_def insert_quote_def
      credit_sandbox_balance_def create_webhook_endpoint_def disable_webhook_endpoint_def claim_due_deliveries_def
      record_delivery_def replay_delivery_def fresh_id_def books_def Let_def split: sum.splits if_splits
      dest!: balance_books)

lemma insert_invoice_books:
  "insert_invoice e new d = Inr (r, d') \<Longrightarrow> announced d' = announced d \<and> outcomes d' = outcomes d"
  by (auto simp: insert_invoice_def announced_def outcomes_def invoice_notice_def insert_row_def Let_def
      split: sum.splits if_splits)

lemmas unchanged_books = plain_books [THEN books_kept] begin_balanced insert_invoice_books attach_balanced observe_balanced

lemma storage_step_balanced:
  assumes "storage_step d d'" and "schema_ok d" and "balanced d"
  shows "balanced d'"
  using assms
proof (cases rule: storage_step.cases)
  case (draw n)
  then show ?thesis using assms(3) books_kept [of d' d] by (simp add: books_def balanced_def)
next
  case (reserve_payout e p q k scn bolt11 reserved)
  then show ?thesis using assms(3) reserve_balanced [of e p q k scn bolt11 d "fst reserved" "snd reserved" d']
    by (simp add: balanced_def)
next
  case (advance_payout e i state moved)
  then show ?thesis using advance_balanced [of e i state d "fst moved" "snd moved" d'] assms(2,3) by simp
next
  case (test_event e p i data sim ev)
  then show ?thesis using assms(3) emit_books [of e p "''webhook.test''" i data sim d ev d']
    by (simp add: emit_standalone_def balanced_def)
qed (use assms(2,3) in \<open>auto simp: balanced_def dest: unchanged_books transition_balanced mark_paid_balanced expire_balanced\<close>)

lemma storage_steps_balanced:
  "storage_steps d d' \<Longrightarrow> schema_ok d \<Longrightarrow> balanced d \<Longrightarrow> schema_ok d' \<and> balanced d'"
  by (induction rule: rtranclp_induct) (auto intro: storage_step_schema storage_step_balanced)

text \<open>
  C8. Every final outcome is announced exactly once, and nothing else is announced: whatever requests,
  node events, passes and outcomes follow in whatever order, the events that announce a final outcome,
  counted with their project, type and resource, are exactly the payments that succeeded or failed, the
  invoices that were paid or expired and the sandbox payouts that succeeded or failed. No crash between
  two transactions leaves a paid invoice without its event, or an event without its paid invoice.
\<close>

theorem outbox_exact:
  assumes "schema_ok (app_db s)" and "balanced (app_db s)" and "(gateway_step sv)\<^sup>*\<^sup>* s s'"
  shows "announced (app_db s') = outcomes (app_db s')"
  using storage_steps_balanced [OF gateway_stored [OF assms(3)] assms(1,2)] by (simp add: balanced_def)

text \<open>The sample invoice is paid; the event of the node arrives, and its notice is the only one.\<close>

lemma sample_balanced: "balanced sample_invoices"
  by (simp add: balanced_def announced_def outcomes_def sample_invoices_def sample_db_def empty_db_def
      invoice_notice_def sample_invoice_def)

lemma sample_receipt:
  "\<exists>d1. mark_invoice_paid sample_env ''recv:h'' ''h'' 5000 sample_invoices = Inr (Some (pay_row sample_env 5000 sample_invoice), d1)
     \<and> outcomes d1 = {#(''prj_a'', ''invoice.paid'', ''inv_1'')#}"
proof -
  have "\<exists>d1. mark_invoice_paid sample_env ''recv:h'' (inv_payment_hash sample_invoice) 5000 sample_invoices
      = Inr (Some (pay_row sample_env 5000 sample_invoice), d1)"
    by (rule mark_paid_total [OF sample_invoices_ok])
      (simp_all add: sample_invoices_def sample_invoice_def sample_db_def empty_db_def to_i64_def)
  then obtain d1 where m: "mark_invoice_paid sample_env ''recv:h'' ''h'' 5000 sample_invoices
      = Inr (Some (pay_row sample_env 5000 sample_invoice), d1)" by (auto simp: sample_invoice_def)
  then have "outcomes d1 = {#(''prj_a'', ''invoice.paid'', ''inv_1'')#}"
  proof (cases rule: mark_invoice_paid_cases)
    case (paid d0 current amount ev pl)
    then show ?thesis using emit_books [OF paid(7)] claim_books [OF paid(1)]
      by (auto simp: outcomes_def books_def sample_invoices_def sample_db_def empty_db_def update_where_def
          sample_invoice_def pay_row_def invoice_notice_def notice_def final_kinds_def)
  qed simp
  then show ?thesis using m by blast
qed

theorem outbox_exact_witness:
  "\<exists>s'. gateway_step sample_server \<lparr>app_db = sample_invoices, app_node = mock_new\<rparr> s'
     \<and> announced (app_db s') = {#(''prj_a'', ''invoice.paid'', ''inv_1'')#}"
proof -
  obtain d1 where m: "mark_invoice_paid sample_env ''recv:h'' ''h'' 5000 sample_invoices
      = Inr (Some (pay_row sample_env 5000 sample_invoice), d1)"
    and paid: "outcomes d1 = {#(''prj_a'', ''invoice.paid'', ''inv_1'')#}" using sample_receipt by blast
  let ?s = "\<lparr>app_db = sample_invoices, app_node = mock_new\<rparr>"
  have "handle_node_event sample_env (PaymentReceived ''h'' 5000) (app_db ?s) = (Inr (), d1)"
    using m by (simp add: handle_node_event_def)
  from event_step [OF this] have step: "gateway_step sample_server ?s (?s\<lparr>app_db := d1\<rparr>)" .
  have run: "(gateway_step sample_server)\<^sup>*\<^sup>* ?s (?s\<lparr>app_db := d1\<rparr>)" using step by (rule r_into_rtranclp)
  have "announced (app_db (?s\<lparr>app_db := d1\<rparr>)) = outcomes (app_db (?s\<lparr>app_db := d1\<rparr>))"
    by (rule outbox_exact [OF _ _ run]) (simp_all add: sample_invoices_ok sample_balanced)
  then show ?thesis using step paid by auto
qed

end
