(* ===== verification/Api_Isolation.thy ===== *)
theory Api_Isolation
  imports Api_Router
begin

text \<open>
  Tenants do not see each other: a route that reads for a project answers from the project's own slice
  of the database. The slice is written as a database, so that one lemma per query says that the query
  does not notice the other tenants.
\<close>

lemma select_one_filter: "(\<And>r. r \<in> set t \<Longrightarrow> P r \<Longrightarrow> Q r) \<Longrightarrow> select_one P (filter Q t) = select_one P t"
  by (induction t) (auto simp: select_one_def)

lemma select_one_slice:
  assumes "distinct (map k t)" and "\<And>r. P r \<Longrightarrow> k r = a"
  shows "select_one P (filter Q t) = (case select_one P t of Some r \<Rightarrow> if Q r then Some r else None | None \<Rightarrow> None)"
proof (cases "select_one P t")
  case None
  then have "select_one P (filter Q t) = None" by (simp add: select_one_None)
  then show ?thesis using None by simp
next
  case (Some r)
  note r = select_one_Some [OF Some]
  have only: "x = r" if "x \<in> set t" "P x" for x
    using distinct_map_eq [OF assms(1) that(1)] r assms(2) that(2) by metis
  show ?thesis
  proof (cases "Q r")
    case True
    then have "select_one P (filter Q t) = Some r" using r only by (intro select_one_only) (simp, blast, simp)
    then show ?thesis using True Some by simp
  next
    case False
    then have "select_one P (filter Q t) = None" unfolding select_one_None using only by fastforce
    then show ?thesis using False Some by simp
  qed
qed

definition touched_addresses :: "string \<Rightarrow> db \<Rightarrow> string list" where
  "touched_addresses p d = map txn_address_id (filter (\<lambda>r. txn_project_id r = p) (t_transactions d))"

text \<open>
  What belongs to a project. Deliveries belong through their endpoint. The addresses the project's own
  transactions name stay in the slice, whoever they belong to, since a listing of the transactions shows them.
\<close>

definition tenant :: "string \<Rightarrow> db \<Rightarrow> db" where
  "tenant p d =
     \<lparr>t_projects = filter (\<lambda>r. prj_id r = p) (t_projects d),
      t_api_keys = filter (\<lambda>r. key_project_id r = p) (t_api_keys d),
      t_invoices = filter (\<lambda>r. inv_project_id r = p) (t_invoices d),
      t_payments = filter (\<lambda>r. pay_project_id r = p) (t_payments d),
      t_addresses = filter (\<lambda>r. adr_project_id r = p \<or> adr_id r \<in> set (touched_addresses p d)) (t_addresses d),
      t_transactions = filter (\<lambda>r. txn_project_id r = p) (t_transactions d),
      t_events = filter (\<lambda>r. ev_project_id r = p) (t_events d),
      t_endpoints = filter (\<lambda>r. whe_project_id r = p) (t_endpoints d),
      t_deliveries = filter (of_project d p) (t_deliveries d),
      t_node_events = [],
      t_quotes = filter (\<lambda>r. qte_project_id r = p) (t_quotes d),
      t_payouts = filter (\<lambda>r. pot_project_id r = p) (t_payouts d),
      t_balances = filter (\<lambda>r. bal_project_id r = p) (t_balances d),
      next_seq = 0, next_uuid = 0\<rparr>"

section \<open>What a query sees\<close>

lemma own_rows [simp]:
  "t_projects (tenant p d) = filter (\<lambda>r. prj_id r = p) (t_projects d)"
  "t_invoices (tenant p d) = filter (\<lambda>r. inv_project_id r = p) (t_invoices d)"
  "t_payments (tenant p d) = filter (\<lambda>r. pay_project_id r = p) (t_payments d)"
  "t_transactions (tenant p d) = filter (\<lambda>r. txn_project_id r = p) (t_transactions d)"
  "t_events (tenant p d) = filter (\<lambda>r. ev_project_id r = p) (t_events d)"
  "t_endpoints (tenant p d) = filter (\<lambda>r. whe_project_id r = p) (t_endpoints d)"
  "t_quotes (tenant p d) = filter (\<lambda>r. qte_project_id r = p) (t_quotes d)"
  "t_payouts (tenant p d) = filter (\<lambda>r. pot_project_id r = p) (t_payouts d)"
  "t_balances (tenant p d) = filter (\<lambda>r. bal_project_id r = p) (t_balances d)"
  by (simp_all add: tenant_def)

lemma tenant_get:
  "get_project p (tenant p d) = get_project p d"
  "get_invoice p i (tenant p d) = get_invoice p i d"
  "get_payment p i (tenant p d) = get_payment p i d"
  "get_onchain_transaction p i (tenant p d) = get_onchain_transaction p i d"
  "get_event p i (tenant p d) = get_event p i d"
  "get_quote p i (tenant p d) = get_quote p i d"
  "get_payout p i (tenant p d) = get_payout p i d"
  unfolding get_project_def get_invoice_def get_payment_def get_onchain_transaction_def get_event_def
    get_quote_def get_payout_def own_rows
  by (subst select_one_filter; simp)+

lemma filter_same: "(\<And>r. r \<in> set t \<Longrightarrow> P r \<Longrightarrow> Q r) \<Longrightarrow> filter P (filter Q t) = filter P t"
  by (induction t) auto

lemma tenant_list:
  "list_invoices p c n (tenant p d) = list_invoices p c n d"
  "list_payments p c n (tenant p d) = list_payments p c n d"
  "list_onchain_transactions p n (tenant p d) = list_onchain_transactions p n d"
  "list_events p a kind n (tenant p d) = list_events p a kind n d"
  "list_webhook_endpoints p (tenant p d) = list_webhook_endpoints p d"
  "sandbox_balances p (tenant p d) = sandbox_balances p d"
  by (simp_all add: list_invoices_def list_payments_def list_onchain_transactions_def list_events_def
      list_webhook_endpoints_def sandbox_balances_def filter_same)

lemma col_sum_slice: "(\<And>r. P r \<Longrightarrow> Q r) \<Longrightarrow> col_sum P c (filter Q t) = col_sum P c t"
  by (simp add: col_sum_def filter_same del: filter_filter)

lemma tenant_totals: "project_totals p (tenant p d) = project_totals p d"
proof -
  have "project_sums p (tenant p d) = project_sums p d" 
    unfolding project_sums_def own_rows by (simp, intro conjI col_sum_slice) simp_all
  then show ?thesis by (simp add: project_totals_def)
qed

lemma tenant_endpoint:
  assumes "schema_ok d"
  shows "endpoint_of (tenant p d) r = (case endpoint_of d r of
    Some w \<Rightarrow> if whe_project_id w = p then Some w else None | None \<Rightarrow> None)"
  unfolding endpoint_of_def own_rows
  by (rule select_one_slice [where k = whe_id]) (use assms in \<open>simp_all add: schema_ok_def endpoints_table_def\<close>)

lemma tenant_deliveries:
  assumes "schema_ok d"
  shows "list_deliveries p n (tenant p d) = list_deliveries p n d"
proof -
  have "of_project (tenant p d) p = of_project d p"
    using tenant_endpoint [OF assms] by (auto simp: of_project_def fun_eq_iff split: option.splits)
  then show ?thesis by (simp add: list_deliveries_def tenant_def)
qed

lemma tenant_address:
  assumes "tx \<in> set (t_transactions d)" and "txn_project_id tx = p"
  shows "address_for_transaction (txn_address_id tx) (tenant p d) = address_for_transaction (txn_address_id tx) d"
proof -
  have "txn_address_id tx \<in> set (touched_addresses p d)" using assms by (auto simp: touched_addresses_def)
  then have "select_one (\<lambda>r. adr_id r = txn_address_id tx) (t_addresses (tenant p d))
      = select_one (\<lambda>r. adr_id r = txn_address_id tx) (t_addresses d)"
    unfolding tenant_def by (simp, intro select_one_filter) simp
  then show ?thesis by (simp add: address_for_transaction_def)
qed

lemma tenant_addresses:
  "(\<And>tx. tx \<in> set txs \<Longrightarrow> tx \<in> set (t_transactions d) \<and> txn_project_id tx = p)
     \<Longrightarrow> with_addresses (tenant p d) txs = with_addresses d txs"
  by (induction txs) (simp_all add: tenant_address cong: sum.case_cong)

text \<open>The bearer key is looked up by its digest, which is unique over all projects.\<close>

lemma tenant_key:
  assumes "schema_ok d"
  shows "db_authenticate hash (tenant p d) = (case db_authenticate hash d of
    Some ctx \<Rightarrow> if ac_project_id ctx = p then Some ctx else None | None \<Rightarrow> None)"
proof -
  let ?P = "\<lambda>r. key_hash r = hash \<and> key_revoked_at r = None"
  have "select_one ?P (filter (\<lambda>r. key_project_id r = p) (t_api_keys d)) = (case select_one ?P (t_api_keys d) of
      Some r \<Rightarrow> if key_project_id r = p then Some r else None | None \<Rightarrow> None)"
    by (rule select_one_slice [where k = key_hash]) (use assms in \<open>simp_all add: schema_ok_def api_keys_table_def\<close>)
  then show ?thesis by (auto simp: db_authenticate_def tenant_def split: option.splits)
qed

lemma tenant_authenticate:
  assumes "schema_ok d"
  shows "authenticate sha (tenant p d) h = Inr ctx
    \<longleftrightarrow> authenticate sha d h = Inr ctx \<and> ac_project_id ctx = p"
  by (auto simp: authenticate_def Let_def tenant_key [OF assms] split: option.splits sum.splits if_splits)

section \<open>What a route answers\<close>

text \<open>The routes that read for the project of the bearer key.\<close>

fun reads :: "request \<Rightarrow> bool" where
  "reads GetProject = True"
| "reads Balances = True"
| "reads Node = True"
| "reads (ListEvents _) = True"
| "reads (GetEvent _) = True"
| "reads ListEndpoints = True"
| "reads (ListDeliveries _) = True"
| "reads (GetInvoice _) = True"
| "reads (ListInvoices _) = True"
| "reads (GetPayment _) = True"
| "reads (ListPayments _) = True"
| "reads (GetTransaction _) = True"
| "reads (ListTransactions _) = True"
| "reads SandboxBalances = True"
| "reads (GetQuote _) = True"
| "reads (GetPayout _) = True"
| "reads _ = False"

text \<open>A handler of the project is local when the slice is all it sees.\<close>

definition tenant_local :: "string \<Rightarrow> ('n, 'a) handler \<Rightarrow> bool" where
  "tenant_local p h \<longleftrightarrow> (\<forall>d n. schema_ok d \<longrightarrow>
     fst (h \<lparr>app_db = tenant p d, app_node = n\<rparr>) = fst (h \<lparr>app_db = d, app_node = n\<rparr>))"

named_theorems local_rules \<open>rules for what handlers see\<close>

lemma local_respond [local_rules]: "tenant_local p (respond a)" "tenant_local p (refuse err)"
  by (simp_all add: tenant_local_def)

lemma local_check [local_rules]: "(\<And>a. tenant_local p (k a)) \<Longrightarrow> tenant_local p (check x k)"
  by (cases x) (simp_all add: check_def local_respond)

lemma local_with_node [local_rules]: "(\<And>n. tenant_local p (k n)) \<Longrightarrow> tenant_local p (with_node k)"
  by (simp add: tenant_local_def)

lemma local_query [local_rules]:
  "(\<And>d. schema_ok d \<Longrightarrow> q (tenant p d) = q d) \<Longrightarrow> (\<And>a. tenant_local p (k a))
     \<Longrightarrow> tenant_local p (with_db (\<lambda>d. check (map_error f (q d)) k))"
  by (auto simp: tenant_local_def check_def split: sum.split)

lemma local_lists [local_rules]:
  "tenant_local p (balances_response p)"
  "tenant_local p (with_db (\<lambda>d. respond (ok_response (json_list (map json_endpoint (list_webhook_endpoints p d))))))"
  by (simp_all add: tenant_local_def balances_response_def tenant_list)

lemma local_transaction [local_rules]:
  "tenant_local p (with_db (\<lambda>d. check (map_error f (get_onchain_transaction p i d)) (\<lambda>tx.
     check (map_error g (address_for_transaction (txn_address_id tx) d)) (\<lambda>address. respond (k tx address)))))"
proof -
  have "address_for_transaction (txn_address_id tx) (tenant p d) = address_for_transaction (txn_address_id tx) d"
    if "get_onchain_transaction p i d = Inr tx" for tx d
    using that by (intro tenant_address)
      (auto simp: get_onchain_transaction_def dest!: select_one_Some split: option.splits)
  then show ?thesis by (auto simp: tenant_local_def tenant_get check_def map_error_def split: sum.split)
qed

lemma local_transactions [local_rules]:
  "tenant_local p (with_db (\<lambda>d. check (map_error f (list_onchain_transactions p n d)) (\<lambda>rows.
     check (map_error g (with_addresses d rows)) (\<lambda>data. respond (k data)))))"
proof -
  have "with_addresses (tenant p d) rows = with_addresses d rows"
    if "list_onchain_transactions p n d = Inr rows" for rows d
    using that by (intro tenant_addresses)
      (auto simp: list_onchain_transactions_def split: if_splits dest: in_set_takeD)
  then show ?thesis by (auto simp: tenant_local_def tenant_list check_def map_error_def split: sum.split)
qed

lemma local_payout [local_rules]:
  "tenant_local p (andthen (payout_with_payment sv p payout) (\<lambda>body. respond (k body)))"
  by (auto simp: tenant_local_def andthen_def payout_with_payment_def tenant_get check_def split: option.split sum.split)

lemma local_fetch [local_rules]:
  "(\<And>a. tenant_local p (k a)) \<Longrightarrow> tenant_local p (fetch_payment p i k)"
  "(\<And>a. tenant_local p (kq a)) \<Longrightarrow> tenant_local p (fetch_quote p i kq)"
  "(\<And>a. tenant_local p (kp a)) \<Longrightarrow> tenant_local p (fetch_payout p i kp)"
  unfolding fetch_payment_def fetch_quote_def fetch_payout_def
  by (rule local_query; simp add: tenant_get)+

text \<open>A whole route, for a key that authenticates to \<open>p\<close>.\<close>

definition alike :: "string \<Rightarrow> 'n app \<Rightarrow> ('n, 'a) handler \<Rightarrow> bool" where
  "alike p s h \<longleftrightarrow> fst (h (s\<lparr>app_db := tenant p (app_db s)\<rparr>)) = fst (h s)"

lemma local_alike: "tenant_local p h \<Longrightarrow> schema_ok (app_db s) \<Longrightarrow> alike p s h"
  by (cases s) (simp add: tenant_local_def alike_def)

lemma local_auth:
  assumes "schema_ok (app_db s)" and "authenticate (sv_sha256 sv) (app_db s) h = Inr ctx"
    and "\<And>ctx. tenant_local (ac_project_id ctx) (k ctx)"
  shows "alike (ac_project_id ctx) s (auth_scope sv h scope k)" and "alike (ac_project_id ctx) s (auth_any sv h k)"
proof -
  have "authenticate (sv_sha256 sv) (tenant (ac_project_id ctx) (app_db s)) h = Inr ctx"
    using assms(1,2) tenant_authenticate by blast
  moreover have "alike (ac_project_id ctx) s (k ctx)" using assms(3,1) by (rule local_alike)
  ultimately show "alike (ac_project_id ctx) s (auth_scope sv h scope k)" "alike (ac_project_id ctx) s (auth_any sv h k)"
    using assms(2) by (simp_all add: alike_def auth_scope_def auth_any_def authorize_def check_def)
qed

lemma local_totals:
  "tenant_local p (with_db (\<lambda>d. check (map_error f (project_totals p d)) (\<lambda>totals. respond (k totals (sandbox_balances p d)))))"
  by (auto simp: tenant_local_def tenant_list tenant_totals check_def map_error_def split: sum.split)

lemmas local_queries = local_rules tenant_get tenant_list

lemma alike_routes:
  assumes "schema_ok (app_db s)" and "authenticate (sv_sha256 sv) (app_db s) h = Inr ctx"
  shows "alike (ac_project_id ctx) s (project_route sv h)" "alike (ac_project_id ctx) s (node_route sv h)"
    "alike (ac_project_id ctx) s (list_events_route sv h eq)" "alike (ac_project_id ctx) s (get_event_route sv h i)"
    "alike (ac_project_id ctx) s (list_endpoints sv h)"
    "alike (ac_project_id ctx) s (get_transaction sv h i)" "alike (ac_project_id ctx) s (list_transactions sv h q)"
    "alike (ac_project_id ctx) s (list_invoices_route sv h q)" "alike (ac_project_id ctx) s (get_invoice_route sv h i)"
    "alike (ac_project_id ctx) s (list_payments_route sv h q)" "alike (ac_project_id ctx) s (get_payment_route sv h i)"
    "alike (ac_project_id ctx) s (balances sv h)" "alike (ac_project_id ctx) s (get_quote_route sv h i)"
    "alike (ac_project_id ctx) s (get_payout_route sv h i)"
  unfolding project_route_def node_route_def list_events_route_def get_event_route_def list_endpoints_def
    get_transaction_def list_transactions_def list_invoices_route_def get_invoice_route_def
    list_payments_route_def get_payment_route_def balances_def get_quote_route_def get_payout_route_def
  by (intro local_auth [OF assms] local_queries)+

lemma alike_joins:
  assumes "schema_ok (app_db s)" and "authenticate (sv_sha256 sv) (app_db s) h = Inr ctx"
  shows "alike (ac_project_id ctx) s (balances_route sv h)" "alike (ac_project_id ctx) s (list_deliveries_route sv h q)"
  unfolding balances_route_def list_deliveries_route_def
  by (rule local_auth [OF assms], rule local_totals)
    (intro local_auth [OF assms] local_queries tenant_deliveries)

lemma alike_reads:
  assumes "schema_ok (app_db s)" and "authenticate (sv_sha256 sv) (app_db s) h = Inr ctx" and "reads req"
  shows "alike (ac_project_id ctx) s (router sv e h req)"
  using assms(3) by (cases req) (simp_all add: alike_routes [OF assms(1,2)] alike_joins [OF assms(1,2)])

interpretation equal_steps: step_preorder "(=)"
  by unfold_locales simp_all

lemma reads_only: "reads req \<Longrightarrow> keeps (=) (router sv e h req)"
  by (cases req) (simp_all add: equal_steps.keeps_reads)

text \<open>
  C9. Tenants do not see each other: whatever a key reads, through any route that reads for its project,
  the answer depends on that project's rows alone. When two databases hold the same rows of the project
  and the node is the same, the answers are the same, however the databases differ for every other
  project, and reading changes nothing.
\<close>

theorem tenant_isolation:
  assumes "schema_ok d1" and "schema_ok d2" and "tenant (ac_project_id ctx) d1 = tenant (ac_project_id ctx) d2"
    and "authenticate (sv_sha256 sv) d1 h = Inr ctx" and "reads req"
  shows "router sv e h req \<lparr>app_db = d2, app_node = n\<rparr>
    = (fst (router sv e h req \<lparr>app_db = d1, app_node = n\<rparr>), \<lparr>app_db = d2, app_node = n\<rparr>)"
proof -
  have "authenticate (sv_sha256 sv) d2 h = Inr ctx"
    using assms(1-4) tenant_authenticate by metis
  then have "fst (router sv e h req \<lparr>app_db = d1, app_node = n\<rparr>) = fst (router sv e h req \<lparr>app_db = d2, app_node = n\<rparr>)"
    using alike_reads [of "\<lparr>app_db = d1, app_node = n\<rparr>" sv h ctx req] alike_reads [of "\<lparr>app_db = d2, app_node = n\<rparr>" sv h ctx req]
      assms by (simp add: alike_def)
  moreover have "keeps (=) (router sv e h req)" using assms(5) by (rule reads_only)
  ultimately show ?thesis by (simp add: keeps_def prod_eq_iff)
qed

text \<open>A second project with an event and a webhook of its own makes no difference to the first.\<close>

definition lone_db :: db where
  "lone_db = keyed_db [''events:read''] sample_db"

definition shared_db :: db where
  "shared_db = lone_db\<lparr>
     t_projects := t_projects lone_db @ [\<lparr>prj_id = ''prj_b'', prj_name = ''b'', prj_network = ''regtest'', prj_created_at = 5\<rparr>],
     t_events := [\<lparr>ev_seq = 1, ev_id = ''evt_1'', ev_project_id = ''prj_b'', ev_kind = ''webhook.test'',
       ev_resource_id = ''whe_c'', ev_data = JNull, ev_simulated = False, ev_created_at = 7\<rparr>],
     next_seq := 2\<rparr>"

definition all_events :: event_query where
  "all_events = \<lparr>eq_after = None, eq_kind = None, eq_limit = None\<rparr>"

lemmas shared_defs = shared_db_def lone_db_def keyed_db_def sample_db_def empty_db_def

lemma shared_schema: "schema_ok lone_db" "schema_ok shared_db"
  by (simp_all add: schema_ok_def table_defs shared_defs keyed_invoices_def)

lemma shared_slice: "tenant ''prj_a'' lone_db = tenant ''prj_a'' shared_db"
  by (simp add: tenant_def shared_defs touched_addresses_def)

lemma authorize_authenticates: "authorize sha d h scope = Inr ctx \<Longrightarrow> authenticate sha d h = Inr ctx"
  by (auto simp: authorize_def split: sum.splits if_splits)

lemma lone_auth:
  "authenticate (sv_sha256 sample_server) lone_db sample_headers
     = Inr \<lparr>ac_project_id = ''prj_a'', ac_key_id = ''key_1'', ac_scopes = [''events:read'']\<rparr>"
  by (rule authorize_authenticates [where scope = EventsRead])
    (simp add: sample_server_def lone_db_def sample_authorize)

theorem tenant_isolation_witness:
  "router sample_server sample_env sample_headers (ListEvents (Some all_events)) \<lparr>app_db = shared_db, app_node = mock_new\<rparr>
     = (fst (router sample_server sample_env sample_headers (ListEvents (Some all_events)) \<lparr>app_db = lone_db, app_node = mock_new\<rparr>),
        \<lparr>app_db = shared_db, app_node = mock_new\<rparr>)
   \<and> t_events shared_db \<noteq> t_events lone_db"
proof
  show "router sample_server sample_env sample_headers (ListEvents (Some all_events)) \<lparr>app_db = shared_db, app_node = mock_new\<rparr>
     = (fst (router sample_server sample_env sample_headers (ListEvents (Some all_events)) \<lparr>app_db = lone_db, app_node = mock_new\<rparr>),
        \<lparr>app_db = shared_db, app_node = mock_new\<rparr>)"
    by (rule tenant_isolation [OF shared_schema _ lone_auth]) (simp_all add: shared_slice)
  show "t_events shared_db \<noteq> t_events lone_db" by (simp add: shared_defs)
qed

end
