(* ===== verification/Api_Confined.thy ===== *)
theory Api_Confined
  imports Api_Isolation Api_Store
begin

text \<open>
  Tenants do not touch each other: a request that is let in by a project's key leaves the slice of every
  other project as it was. Together with the slices that a reading route sees (Api_Isolation) this is
  the separation of the tenants in both directions.
\<close>

section \<open>The transactions\<close>

text \<open>Only the slice of \<open>p\<close> may differ.\<close>

definition others :: "string \<Rightarrow> db \<Rightarrow> db \<Rightarrow> bool" where
  "others p d d' \<longleftrightarrow> (\<forall>q. q \<noteq> p \<longrightarrow> tenant q d' = tenant q d)"

lemma others_refl [simp]: "others p d d"
  by (simp add: others_def)

lemma others_trans: "others p d d' \<Longrightarrow> others p d' d'' \<Longrightarrow> others p d d''"
  by (simp add: others_def)

lemma of_project_cong: "t_endpoints d' = t_endpoints d \<Longrightarrow> of_project d' = of_project d"
  by (simp add: of_project_def endpoint_of_def fun_eq_iff)

text \<open>A delivery belongs to a project exactly when the endpoint is in the project's slice.\<close>

lemma of_project_slice:
  assumes "schema_ok d"
  shows "of_project d q r \<longleftrightarrow> endpoint_of (tenant q d) r \<noteq> None"
  by (simp add: tenant_endpoint [OF assms] of_project_def split: option.split)

lemma of_project_endpoints:
  assumes "schema_ok d" and "schema_ok d'"
    and "filter (\<lambda>w. whe_project_id w = q) (t_endpoints d') = filter (\<lambda>w. whe_project_id w = q) (t_endpoints d)"
  shows "of_project d' q = of_project d q"
  using assms(3) of_project_slice [OF assms(1)] of_project_slice [OF assms(2)]
  by (simp add: fun_eq_iff endpoint_of_def)

lemma touched_known:
  assumes "schema_ok d" and "i \<in> set (touched_addresses q d)"
  shows "i \<in> adr_id ` set (t_addresses d)"
  using assms by (auto simp: schema_ok_def transactions_table_def touched_addresses_def)

lemma touched_cong: "t_transactions d' = t_transactions d \<Longrightarrow> touched_addresses q d' = touched_addresses q d"
  by (simp add: touched_addresses_def)

lemma of_project_update [simp]:
  "of_project (d\<lparr>next_uuid := n\<rparr>) = of_project d" "of_project (d\<lparr>t_payments := ps\<rparr>) = of_project d"
  "of_project (d\<lparr>t_invoices := is\<rparr>) = of_project d" "of_project (d\<lparr>t_quotes := qs\<rparr>) = of_project d"
  "of_project (d\<lparr>t_payouts := ts\<rparr>) = of_project d" "of_project (d\<lparr>t_balances := bs\<rparr>) = of_project d"
  "of_project (d\<lparr>t_deliveries := ds\<rparr>) = of_project d" "of_project (d\<lparr>t_node_events := ns\<rparr>) = of_project d"
  "of_project (d\<lparr>t_addresses := as\<rparr>) = of_project d" "of_project (d\<lparr>t_api_keys := ks\<rparr>) = of_project d"
  by (rule of_project_cong; simp)+

lemma tenant_uuid [simp]: "tenant q (d\<lparr>next_uuid := n\<rparr>) = tenant q d" "tenant q (d\<lparr>t_node_events := ns\<rparr>) = tenant q d"
  by (simp_all add: tenant_def touched_addresses_def)

lemma others_uuid [simp]:
  "others p d (d'\<lparr>next_uuid := n\<rparr>) \<longleftrightarrow> others p d d'" "others p (d\<lparr>next_uuid := n\<rparr>) d' \<longleftrightarrow> others p d d'"
  by (simp_all add: others_def)

lemma others_inserts:
  "pay_project_id r = p \<Longrightarrow> others p d (d\<lparr>t_payments := insert_row r (t_payments d)\<rparr>)"
  "inv_project_id i = p \<Longrightarrow> others p d (d\<lparr>t_invoices := insert_row i (t_invoices d)\<rparr>)"
  "qte_project_id q = p \<Longrightarrow> others p d (d\<lparr>t_quotes := insert_row q (t_quotes d)\<rparr>)"
  "pot_project_id t = p \<Longrightarrow> others p d (d\<lparr>t_payouts := insert_row t (t_payouts d)\<rparr>)"
  "bal_project_id b = p \<Longrightarrow> others p d (d\<lparr>t_balances := insert_row b (t_balances d)\<rparr>)"
  by (simp_all add: others_def tenant_def touched_addresses_def)

lemma others_payments:
  "(\<And>r. r \<in> set (t_payments d) \<Longrightarrow> P r \<Longrightarrow> pay_project_id r = p \<and> pay_project_id (f r) = p)
     \<Longrightarrow> others p d (d\<lparr>t_payments := update_where P f (t_payments d)\<rparr>)"
  by (simp add: others_def tenant_def touched_addresses_def) (auto intro!: filter_update_where)

lemma others_quotes:
  "(\<And>r. r \<in> set (t_quotes d) \<Longrightarrow> P r \<Longrightarrow> qte_project_id r = p \<and> qte_project_id (f r) = p)
     \<Longrightarrow> others p d (d\<lparr>t_quotes := update_where P f (t_quotes d)\<rparr>)"
  by (simp add: others_def tenant_def touched_addresses_def) (auto intro!: filter_update_where)

lemma others_payouts:
  "(\<And>r. r \<in> set (t_payouts d) \<Longrightarrow> P r \<Longrightarrow> pot_project_id r = p \<and> pot_project_id (f r) = p)
     \<Longrightarrow> others p d (d\<lparr>t_payouts := update_where P f (t_payouts d)\<rparr>)"
  by (simp add: others_def tenant_def touched_addresses_def) (auto intro!: filter_update_where)

lemma others_balances:
  "(\<And>r. r \<in> set (t_balances d) \<Longrightarrow> P r \<Longrightarrow> bal_project_id r = p \<and> bal_project_id (f r) = p)
     \<Longrightarrow> others p d (d\<lparr>t_balances := update_where P f (t_balances d)\<rparr>)"
  by (simp add: others_def tenant_def touched_addresses_def) (auto intro!: filter_update_where)

text \<open>The event and its deliveries stay with the project they are emitted for.\<close>

lemma schema_endpoints: "schema_ok d \<Longrightarrow> distinct (map whe_id (t_endpoints d))"
  by (simp add: schema_ok_def endpoints_table_def)

lemma outbox_of_project:
  assumes "distinct (map whe_id (t_endpoints d))" and "r \<in> set (outbox_rows e p n d0)" and "t_endpoints d0 = t_endpoints d"
  shows "of_project d q r \<longleftrightarrow> q = p"
proof -
  have "dlv_endpoint_id r \<in> set (map dlv_endpoint_id (outbox_rows e p n d0))" using assms(2) by simp
  then obtain w where w: "w \<in> set (t_endpoints d)" "whe_project_id w = p" "dlv_endpoint_id r = whe_id w"
    using assms(3) by (auto simp: outbox_endpoints)
  then have "endpoint_of d r = Some w" using assms(1) select_one_unique [of whe_id "t_endpoints d" w] by (simp add: endpoint_of_def)
  then show ?thesis using w(2) by (auto simp: of_project_def)
qed

lemma emit_others:
  assumes "emit e p kind res data sim d = Inr (ev, d')" and "distinct (map whe_id (t_endpoints d))"
  shows "others p d d'"
proof -
  note em = emit_Inr [OF assms(1), unfolded emitted_def]
  have "filter (of_project d q) (outbox_rows e p (next_seq d) (snd (fresh_id e EventId d))) = []" if "q \<noteq> p" for q
    unfolding filter_empty_conv using outbox_of_project [OF assms(2)] that by (simp add: fresh_id_def)
  moreover have "of_project d' = of_project d" using em by (intro of_project_cong) simp
  ultimately show ?thesis using em by (simp add: others_def tenant_def touched_addresses_def new_event_def)
qed

section \<open>Whose quote a payout settles\<close>

text \<open>
  The refund of a failed payout goes to the project of its quote. The schema does not say that this is
  the payout's own project; every transaction keeps it so.
\<close>

definition payout_quotes :: "db \<Rightarrow> (string \<times> string) list" where
  "payout_quotes d = map (\<lambda>t. (pot_quote_id t, pot_project_id t)) (t_payouts d)"

definition quote_owners :: "db \<Rightarrow> (string \<times> string) list" where
  "quote_owners d = map (\<lambda>q. (qte_id q, qte_project_id q)) (t_quotes d)"

definition quotes_own :: "db \<Rightarrow> bool" where
  "quotes_own d \<longleftrightarrow> (\<forall>(i, p) \<in> set (payout_quotes d). \<forall>(j, q) \<in> set (quote_owners d). j = i \<longrightarrow> q = p)"

abbreviation sandbox_rows :: "db \<Rightarrow> (string \<times> string) list \<times> (string \<times> string) list" where
  "sandbox_rows d \<equiv> (payout_quotes d, quote_owners d)"

lemma quotes_own_cong: "sandbox_rows d' = sandbox_rows d \<Longrightarrow> quotes_own d \<Longrightarrow> quotes_own d'"
  by (simp add: quotes_own_def)

lemmas rows_defs = payout_quotes_def quote_owners_def

lemma emit_rows: "emit e p kind res data sim d = Inr (ev, d') \<Longrightarrow> sandbox_rows d' = sandbox_rows d"
  by (auto simp: emitted_def rows_defs dest!: emit_Inr)

lemma expired_rows: "emit_expired e rs d = Inr d' \<Longrightarrow> sandbox_rows d' = sandbox_rows d"
  by (induction rs arbitrary: d) (auto split: sum.splits dest!: emit_rows)

lemma claim_rows: "claim_node_event k kind pl d = (b, d1) \<Longrightarrow> sandbox_rows d1 = sandbox_rows d"
  by (auto simp: claim_node_event_def rows_defs split: if_splits)

lemma balance_rows: "upsert_balance p c x d = Inr d' \<Longrightarrow> sandbox_rows d' = sandbox_rows d"
  by (auto simp: upsert_balance_def rows_defs Let_def split: option.splits if_splits)

lemma refund_rows: "refund_if_failed n q d = Inr d' \<Longrightarrow> sandbox_rows d' = sandbox_rows d"
  by (auto simp: refund_if_failed_def refund_quote_def rows_defs Let_def split: option.splits if_splits)

lemma begin_rows: "begin_payment e new d = Inr (out, d') \<Longrightarrow> sandbox_rows d' = sandbox_rows d"
  by (erule begin_payment_cases) (simp_all add: rows_defs)

lemma transition_rows: "transition_payment e key pid n res d = Inr (out, d') \<Longrightarrow> sandbox_rows d' = sandbox_rows d"
proof (erule transition_payment_cases)
  fix d1 current fr fee
  assume d1: "d1 = d \<or> (\<exists>k pl. key = Some k \<and> claim_node_event k ''payment_outcome'' pl d = (True, d1))"
    and em: "resolution_emitted e n (tr_payment out)
      (d1\<lparr>t_payments := update_where (\<lambda>r. pay_id r = pid) (resolve_row e n fee res) (t_payments d)\<rparr>) d'"
  have "sandbox_rows d1 = sandbox_rows d" using d1 claim_rows by auto
  then show ?thesis using em
    by (auto simp: resolution_emitted_def rows_defs split: if_splits dest!: emit_rows)
qed simp

lemma mark_paid_rows: "mark_invoice_paid e k h amount d = Inr (paid, d') \<Longrightarrow> sandbox_rows d' = sandbox_rows d"
  by (erule mark_invoice_paid_cases) (auto simp: rows_defs dest!: claim_rows emit_rows)

lemma expire_rows: "expire_invoices e d = Inr (n, d') \<Longrightarrow> sandbox_rows d' = sandbox_rows d"
  by (auto simp: expire_invoices_def Let_def rows_defs split: sum.splits dest!: expired_rows)

lemma observe_rows: "record_observation e obs d = Inr (seen, d') \<Longrightarrow> sandbox_rows d' = sandbox_rows d"
  by (erule record_observation_cases) (auto simp: rows_defs dest!: emit_rows insert_transaction_Inr(1))

lemma attach_rows: "attach_payment_to_payout e i pid d = Inr (u, d') \<Longrightarrow> sandbox_rows d' = sandbox_rows d"
  by (auto simp: attach_payment_to_payout_def rows_defs split: if_splits intro!: map_update_where_same)

lemma advance_rows: "advance_payout e i n d = Inr (moved, d') \<Longrightarrow> sandbox_rows d' = sandbox_rows d"
proof (cases moved)
  case (Pair r changed)
  assume "advance_payout e i n d = Inr (moved, d')"
  then have "advance_payout e i n d = Inr ((r, changed), d')" using Pair by simp
  then show ?thesis
  proof (cases rule: advance_payout_cases)
    case (moved current fr d2 ev)
    have "sandbox_rows (d\<lparr>t_payouts := update_where (\<lambda>r. pot_id r = i) (advance_row e n) (t_payouts d)\<rparr>) = sandbox_rows d"
      by (auto simp: rows_defs advance_row_def intro!: map_update_where_same)
    then show ?thesis using refund_rows [OF moved(7)] emit_rows [OF moved(8)] by simp
  qed simp
qed

lemma plain_rows:
  "create_address e p addr label confs d = Inr (adr, d') \<Longrightarrow> sandbox_rows d' = sandbox_rows d"
  "create_project e name net d = Inr (prj, d') \<Longrightarrow> sandbox_rows d' = sandbox_rows d"
  "create_api_key e p label scopes generated d = Inr (made, d') \<Longrightarrow> sandbox_rows d' = sandbox_rows d"
  "revoke_api_key e p i d = Inr (u, d') \<Longrightarrow> sandbox_rows d' = sandbox_rows d"
  "insert_invoice e ni d = Inr (invoice, d') \<Longrightarrow> sandbox_rows d' = sandbox_rows d"
  "credit_sandbox_balance p c minor d = Inr (u, d') \<Longrightarrow> sandbox_rows d' = sandbox_rows d"
  "create_webhook_endpoint e p url secret d = Inr (whe, d') \<Longrightarrow> sandbox_rows d' = sandbox_rows d"
  "disable_webhook_endpoint p i d = Inr (u, d') \<Longrightarrow> sandbox_rows d' = sandbox_rows d"
  "claim_due_deliveries e limit lease d = Inr (due, d') \<Longrightarrow> sandbox_rows d' = sandbox_rows d"
  "record_delivery e i outcome d = Inr (u, d') \<Longrightarrow> sandbox_rows d' = sandbox_rows d"
  "replay_delivery e p i d = Inr (u, d') \<Longrightarrow> sandbox_rows d' = sandbox_rows d"
  "emit_standalone e p kind i data sim d = Inr (ev, d') \<Longrightarrow> sandbox_rows d' = sandbox_rows d"
  by (auto simp: create_address_def create_project_def create_api_key_def revoke_api_key_def insert_invoice_def
      credit_sandbox_balance_def create_webhook_endpoint_def disable_webhook_endpoint_def claim_due_deliveries_def
      record_delivery_def replay_delivery_def emit_standalone_def fresh_id_def rows_defs Let_def
      split: sum.splits if_splits dest!: balance_rows emit_rows)

lemmas same_rows = begin_rows transition_rows mark_paid_rows expire_rows observe_rows attach_rows advance_rows plain_rows

lemma insert_quote_own:
  assumes "insert_quote e nq d = Inr (r, d')" and "schema_ok d" and "quotes_own d"
  shows "quotes_own d'"
proof -
  have d': "payout_quotes d' = payout_quotes d" "quote_owners d' = quote_owners d @ [(qte_id r, qte_project_id r)]"
      "qte_id r \<notin> qte_id ` set (t_quotes d)"
    using assms(1) by (auto simp: insert_quote_def fresh_id_def Let_def rows_defs split: sum.splits if_splits)
  moreover have "qte_id r \<notin> fst ` set (payout_quotes d)"
    using assms(2) d'(3) by (auto simp: schema_ok_def payouts_table_def payout_quotes_def)
  ultimately show ?thesis using assms(3) by (force simp: quotes_own_def)
qed

lemma reserve_own:
  assumes "reserve_payout e p q k s b d = Inr (reserved, d')" and "schema_ok d" and "quotes_own d"
  shows "quotes_own d'"
proof -
  obtain r created where "reserve_payout e p q k s b d = Inr ((r, created), d')" using assms(1) by (cases reserved) auto
  then show ?thesis
  proof (cases rule: reserve_payout_cases)
    case replayed
    then show ?thesis using assms(3) by simp
  next
    case (reserved quote d2 d3 ev)
    note ins = insert_payout_Inr [OF reserved(9)]
    have "sandbox_rows d2 = sandbox_rows d"
      using balance_rows [OF reserved(8)] by (auto simp: rows_defs use_quote_def intro: map_update_where_same)
    then have rows: "payout_quotes d' = payout_quotes d @ [(q, p)]" "quote_owners d' = quote_owners d"
      using emit_rows [OF reserved(10)] ins by (simp_all add: rows_defs)
    have "x = p" if "(q, x) \<in> set (quote_owners d)" for x
      using that reserved(2-4) assms(2)
      by (auto simp: quote_owners_def schema_ok_def quotes_table_def dest: distinct_map_eq [of qte_id])
    then show ?thesis using assms(3) by (auto simp: quotes_own_def rows)
  qed
qed

lemma storage_step_own: "storage_step d d' \<Longrightarrow> schema_ok d \<Longrightarrow> quotes_own d \<Longrightarrow> quotes_own d'"
proof (induction rule: storage_step.induct)
  case (insert_quote e nq d qte d')
  then show ?case by (rule insert_quote_own)
next
  case (reserve_payout e p q k scn bolt11 d reserved d')
  then show ?case by (rule reserve_own)
next
  case (draw d n)
  then show ?case by (simp add: quotes_own_def rows_defs)
qed (blast dest: same_rows intro: quotes_own_cong)+

section \<open>A transaction of one project\<close>

text \<open>
  What a transaction may rely on: the schema, the invariant above, and that the payments and payouts it
  names are the project's. The last stays true whatever else happens within the project.
\<close>

fun owns :: "string \<Rightarrow> string + string \<Rightarrow> db \<Rightarrow> bool" where
  "owns p (Inl pid) d = owned p pid d"
| "owns p (Inr i) d = (\<forall>r \<in> set (t_payouts d). pot_id r = i \<longrightarrow> pot_project_id r = p)"

definition good :: "string \<Rightarrow> (string + string) set \<Rightarrow> db \<Rightarrow> bool" where
  "good p I d \<longleftrightarrow> schema_ok d \<and> quotes_own d \<and> (\<forall>x \<in> I. owns p x d)"

definition tied :: "string \<Rightarrow> (string + string) set \<Rightarrow> db \<Rightarrow> db \<Rightarrow> bool" where
  "tied p I d d' \<longleftrightarrow> (good p I d \<longrightarrow> good p I d' \<and> others p d d')"

lemma tied_refl [simp]: "tied p I d d"
  by (simp add: tied_def)

lemma tied_trans: "tied p I d d' \<Longrightarrow> tied p I d' d'' \<Longrightarrow> tied p I d d''"
  by (auto simp: tied_def intro: others_trans)

lemma slice_mem: "filter (\<lambda>r. k r = a) t' = filter (\<lambda>r. k r = a) t \<Longrightarrow> r \<in> set t' \<Longrightarrow> k r = a \<Longrightarrow> r \<in> set t"
  by (metis (mono_tags, lifting) filter_set mem_Collect_eq set_filter)

lemma others_mem:
  assumes "others p d d'"
  shows "r \<in> set (t_payments d') \<Longrightarrow> pay_project_id r \<noteq> p \<Longrightarrow> r \<in> set (t_payments d)"
    and "t \<in> set (t_payouts d') \<Longrightarrow> pot_project_id t \<noteq> p \<Longrightarrow> t \<in> set (t_payouts d)"
proof -
  have "t_payments (tenant q d') = t_payments (tenant q d)" "t_payouts (tenant q d') = t_payouts (tenant q d)" if "q \<noteq> p" for q
    using assms that by (simp_all add: others_def)
  then show "r \<in> set (t_payments d') \<Longrightarrow> pay_project_id r \<noteq> p \<Longrightarrow> r \<in> set (t_payments d)"
    and "t \<in> set (t_payouts d') \<Longrightarrow> pot_project_id t \<noteq> p \<Longrightarrow> t \<in> set (t_payouts d)"
    unfolding own_rows by (blast dest: slice_mem [OF _ _ refl])+
qed

lemma owns_others: "owns p x d \<Longrightarrow> others p d d' \<Longrightarrow> owns p x d'"
  by (cases x) (auto simp: owned_def dest: others_mem)

lemma tiedI:
  assumes "schema_ok d \<Longrightarrow> quotes_own d \<Longrightarrow> schema_ok d' \<and> quotes_own d'"
    and "good p I d \<Longrightarrow> others p d d'"
  shows "tied p I d d'"
  using assms owns_others by (fastforce simp: tied_def good_def)

text \<open>Transactions as \<open>storage_step\<close>s keep both invariants, so only the slices are left to see.\<close>

lemma stored_tied: "storage_step d d' \<Longrightarrow> (good p I d \<Longrightarrow> others p d d') \<Longrightarrow> tied p I d d'"
  by (rule tiedI) (simp_all add: storage_step_schema storage_step_own)

lemma good_schema: "good p I d \<Longrightarrow> schema_ok d"
  by (simp add: good_def)

lemma begin_tied:
  assumes "begin_payment e new d = Inr (out, d')" and "np_project_id new = p"
  shows "tied p I d d'"
proof (rule stored_tied [OF storage_step.begin_payment [OF assms(1)]])
  show "others p d d'" using assms
    by (cases rule: begin_payment_cases) (simp_all add: others_inserts)
qed

lemma transition_tied:
  assumes "transition_payment e key pid n res d = Inr (out, d')" and "Inl pid \<in> I"
  shows "tied p I d d'"
proof (rule stored_tied [OF storage_step.transition_payment [OF assms(1)]])
  assume g: "good p I d"
  then have ow: "owned p pid d" and ok: "schema_ok d" using assms(2) by (auto simp: good_def)
  show "others p d d'" using assms(1)
  proof (cases rule: transition_payment_cases)
    case (moved d1 current fr fee)
    let ?f = "resolve_row e n fee res"
    have cols: "pay_project_id (?f r) = pay_project_id r" for r
      using payment_fixed_cols [OF resolve_row_fixed] by simp
    have d1: "t_payments d1 = t_payments d" "t_endpoints d1 = t_endpoints d" "others p d d1"
      using moved(6) by (auto dest!: claim_tables simp: others_def)
    let ?d2 = "d1\<lparr>t_payments := update_where (\<lambda>r. pay_id r = pid) ?f (t_payments d)\<rparr>"
    have "others p d1 (d1\<lparr>t_payments := update_where (\<lambda>r. pay_id r = pid) ?f (t_payments d1)\<rparr>)"
      by (rule others_payments) (use ow cols d1(1) in \<open>auto simp: owned_def\<close>)
    then have "others p d ?d2" using d1 others_trans by metis
    moreover have "distinct (map whe_id (t_endpoints ?d2))" using schema_endpoints [OF ok] d1(2) by simp
    moreover have "pay_project_id (tr_payment out) = p" using ow moved(2,3,7) cols by (simp add: owned_def)
    ultimately show ?thesis using moved(8) emit_others
      by (auto simp: resolution_emitted_def split: if_splits intro: others_trans)
  qed simp
qed

lemma insert_invoice_tied: "insert_invoice e ni d = Inr (r, d') \<Longrightarrow> ni_project_id ni = p \<Longrightarrow> tied p I d d'"
  by (frule storage_step.insert_invoice, erule stored_tied)
    (auto simp: insert_invoice_def Let_def others_inserts split: sum.splits if_splits)

lemma insert_quote_tied: "insert_quote e nq d = Inr (r, d') \<Longrightarrow> nq_project_id nq = p \<Longrightarrow> tied p I d d'"
  by (frule storage_step.insert_quote, erule stored_tied)
    (auto simp: insert_quote_def fresh_id_def Let_def others_def tenant_def touched_addresses_def
      split: sum.splits if_splits)

lemma create_address_tied: "create_address e p addr label confs d = Inr (r, d') \<Longrightarrow> tied p I d d'"
proof (frule storage_step.create_address, erule stored_tied)
  assume a: "create_address e p addr label confs d = Inr (r, d')" "good p I d"
  then have d': "d' = d\<lparr>next_uuid := next_uuid d', t_addresses := insert_row r (t_addresses d)\<rparr>"
      "adr_id r \<notin> adr_id ` set (t_addresses d)" "adr_project_id r = p"
    by (auto simp: create_address_def fresh_id_def Let_def split: if_splits)
  have "adr_id r \<notin> set (touched_addresses q d)" for q
    using touched_known [OF good_schema [OF a(2)]] d'(2) by blast
  then show "others p d d'" using d'(3) by (subst d'(1)) (simp add: others_def tenant_def touched_addresses_def)
qed

lemma upsert_others: "upsert_balance p c x d = Inr d' \<Longrightarrow> others p d d'"
  by (auto simp: upsert_balance_def Let_def split: option.splits if_splits
      intro!: others_inserts others_balances)

lemma credit_tied: "credit_sandbox_balance p c minor d = Inr (u, d') \<Longrightarrow> tied p I d d'"
  by (frule storage_step.credit_balance, erule stored_tied)
    (auto simp: credit_sandbox_balance_def split: sum.splits dest: upsert_others)

lemma test_event_tied: "emit_standalone e p ''webhook.test'' i data sim d = Inr (ev, d') \<Longrightarrow> tied p I d d'"
  by (frule storage_step.test_event, erule stored_tied)
    (auto simp: emit_standalone_def dest: emit_others good_schema schema_endpoints)

lemma replay_tied: "replay_delivery e p i d = Inr (u, d') \<Longrightarrow> tied p I d d'"
proof (frule storage_step.replay_delivery, erule stored_tied)
  let ?P = "\<lambda>r. dlv_id r = i \<and> of_project d p r"
  let ?f = "\<lambda>r. r\<lparr>dlv_status := ''pending'', dlv_next_attempt_at := env_now e\<rparr>"
  assume "replay_delivery e p i d = Inr (u, d')"
  then have d': "d' = d\<lparr>t_deliveries := update_where ?P ?f (t_deliveries d)\<rparr>"
    by (auto simp: replay_delivery_def Let_def split: if_splits)
  have "filter (of_project d q) (update_where ?P ?f (t_deliveries d)) = filter (of_project d q) (t_deliveries d)"
    if "q \<noteq> p" for q
    by (rule filter_update_where) (use that in \<open>auto simp: of_project_def endpoint_of_def split: option.splits\<close>)
  then show "others p d d'" by (simp add: d' others_def tenant_def touched_addresses_def)
qed

lemma endpoints_others:
  assumes "schema_ok d" and "schema_ok (d\<lparr>t_endpoints := t\<rparr>)"
    and "\<And>q. q \<noteq> p \<Longrightarrow> filter (\<lambda>w. whe_project_id w = q) t = filter (\<lambda>w. whe_project_id w = q) (t_endpoints d)"
  shows "others p d (d\<lparr>t_endpoints := t\<rparr>)"
  using assms(3) of_project_endpoints [OF assms(1,2)]
  by (simp add: others_def tenant_def touched_addresses_def)

lemma create_endpoint_tied: "create_webhook_endpoint e p url secret d = Inr (r, d') \<Longrightarrow> tied p I d d'"
proof (frule storage_step.create_endpoint, erule stored_tied)
  assume a: "create_webhook_endpoint e p url secret d = Inr (r, d')" "good p I d"
  then have d': "d' = (d\<lparr>t_endpoints := insert_row r (t_endpoints d)\<rparr>)\<lparr>next_uuid := next_uuid d'\<rparr>"
      and r: "whe_project_id r = p"
    by (auto simp: create_webhook_endpoint_def fresh_id_def Let_def split: if_splits)
  have "schema_ok d'" using a create_endpoint_op.op_schema good_schema by blast
  then have "schema_ok (d\<lparr>t_endpoints := insert_row r (t_endpoints d)\<rparr>)"
    using d' uuid_schema by metis
  then have "others p d (d\<lparr>t_endpoints := insert_row r (t_endpoints d)\<rparr>)"
    by (intro endpoints_others good_schema [OF a(2)]) (simp_all add: r)
  then show "others p d d'" by (subst d') simp
qed

lemma disable_endpoint_tied: "disable_webhook_endpoint p i d = Inr (u, d') \<Longrightarrow> tied p I d d'"
proof (frule storage_step.disable_endpoint, erule stored_tied)
  let ?t = "update_where (\<lambda>r. whe_id r = i \<and> whe_project_id r = p) (\<lambda>r. r\<lparr>whe_enabled := False\<rparr>) (t_endpoints d)"
  assume a: "disable_webhook_endpoint p i d = Inr (u, d')" "good p I d"
  then have d': "d' = d\<lparr>t_endpoints := ?t\<rparr>" by (auto simp: disable_webhook_endpoint_def Let_def split: if_splits)
  have "schema_ok d'" using a disable_endpoint_op.op_schema good_schema by blast
  then show "others p d d'" unfolding d'
    by (intro endpoints_others good_schema [OF a(2)] filter_update_where) auto
qed

lemma reserve_tied: "reserve_payout e p q k s b d = Inr (reserved, d') \<Longrightarrow> tied p I d d'"
proof (frule storage_step.reserve_payout, erule stored_tied)
  assume a: "reserve_payout e p q k s b d = Inr (reserved, d')" "good p I d"
  note ok = good_schema [OF a(2)]
  obtain r created where "reserve_payout e p q k s b d = Inr ((r, created), d')" using a(1) by (cases reserved) auto
  then show "others p d d'"
  proof (cases rule: reserve_payout_cases)
    case (reserved quote d2 d3 ev)
    have "r = quote" if "r \<in> set (t_quotes d)" "qte_id r = q" for r
      using that reserved(2,4) ok by (auto simp: schema_ok_def quotes_table_def dest: distinct_map_eq [of qte_id])
    then have "others p d (d\<lparr>t_quotes := use_quote q (t_quotes d)\<rparr>)"
      unfolding use_quote_def by (intro others_quotes) (use reserved(3) in auto)
    moreover note upsert_others [OF reserved(8)]
    moreover have "others p d2 d3" using insert_payout_Inr [OF reserved(9)] by (simp add: others_inserts others_def tenant_def touched_addresses_def)
    moreover have "t_endpoints d2 = t_endpoints d"
      using reserved(8) by (auto simp: upsert_balance_def Let_def split: option.splits if_splits)
    then have "others p d3 d'" using emit_others [OF reserved(10)] insert_payout_Inr(1) [OF reserved(9)] schema_endpoints [OF ok] by simp
    ultimately show ?thesis using others_trans by blast
  qed simp
qed

lemma own_payouts:
  assumes "good p I d" and "Inr i \<in> I" and "r \<in> set (t_payouts d)" and "pot_id r = i"
  shows "pot_project_id r = p"
  using assms by (fastforce simp: good_def)

lemma attach_tied:
  assumes "attach_payment_to_payout e i pid d = Inr (u, d')" and "Inr i \<in> I"
  shows "tied p I d d'"
proof (rule stored_tied [OF storage_step.attach_payment [OF assms(1)]])
  assume g: "good p I d"
  show "others p d d'" using assms(1) own_payouts [OF g assms(2)]
    by (auto simp: attach_payment_to_payout_def split: if_splits intro!: others_payouts)
qed

lemma refund_others:
  assumes "refund_if_failed n i d = Inr d'" and "\<And>q. q \<in> set (t_quotes d) \<Longrightarrow> qte_id q = i \<Longrightarrow> qte_project_id q = p"
  shows "others p d d'"
  using assms by (auto simp: refund_if_failed_def refund_quote_def Let_def split: option.splits if_splits
      dest!: select_one_Some intro!: others_balances)

lemma advance_tied:
  assumes "advance_payout e i n d = Inr (moved, d')" and "Inr i \<in> I"
  shows "tied p I d d'"
proof (rule stored_tied [OF storage_step.advance_payout [OF assms(1)]])
  assume g: "good p I d"
  obtain r changed where "advance_payout e i n d = Inr ((r, changed), d')" using assms(1) by (cases moved) auto
  then show "others p d d'"
  proof (cases rule: advance_payout_cases)
    case (moved current fr d2 ev)
    let ?d1 = "d\<lparr>t_payouts := update_where (\<lambda>r. pot_id r = i) (advance_row e n) (t_payouts d)\<rparr>"
    have own: "pot_project_id current = p" by (rule own_payouts [OF g assms(2) moved(2,3)])
    have "others p d ?d1" by (rule others_payouts) (use own_payouts [OF g assms(2)] in \<open>auto simp: advance_row_def\<close>)
    moreover have "others p ?d1 d2" using g own moved(2)
      by (intro refund_others [OF moved(7)]) (fastforce simp: good_def quotes_own_def rows_defs)
    moreover have "t_endpoints d2 = t_endpoints d"
      using moved(7) by (auto simp: refund_if_failed_def dest!: refund_quote_Inr(1) split: if_splits)
    then have "others p d2 d'" using emit_others [OF moved(8)] own schema_endpoints [OF good_schema [OF g]] by simp
    ultimately show ?thesis using others_trans by blast
  qed simp
qed

section \<open>The handlers\<close>

definition confined :: "string \<Rightarrow> (string + string) set \<Rightarrow> 'n app \<Rightarrow> 'n app \<Rightarrow> bool" where
  "confined p I s s' \<longleftrightarrow> tied p I (app_db s) (app_db s')"

abbreviation confines :: "string \<Rightarrow> (string + string) set \<Rightarrow> ('n, 'a) handler \<Rightarrow> bool" where
  "confines p I \<equiv> keeps (confined p I)"

interpretation confined_steps: step_preorder "confined p I" for p I
  by unfold_locales (auto simp: confined_def intro: tied_trans)

definition tied_op :: "string \<Rightarrow> (string + string) set \<Rightarrow> (db \<Rightarrow> storage_error + 'a \<times> db) \<Rightarrow> bool" where
  "tied_op p I op \<longleftrightarrow> (\<forall>d a d'. op d = Inr (a, d') \<longrightarrow> tied p I d d')"

lemma tied_opI: "(\<And>d a d'. op d = Inr (a, d') \<Longrightarrow> tied p I d d') \<Longrightarrow> tied_op p I op"
  by (auto simp: tied_op_def)

lemma tied_ops [moves_rules]:
  "tied_op p I (create_address e p addr label confs)" "tied_op p I (reserve_payout e p q k s b)"
  "tied_op p I (credit_sandbox_balance p c minor)" "tied_op p I (create_webhook_endpoint e p url secret)"
  "tied_op p I (disable_webhook_endpoint p i)" "tied_op p I (emit_standalone e p ''webhook.test'' i data sim)"
  "tied_op p I (replay_delivery e p i)"
  by (rule tied_opI; erule create_address_tied reserve_tied credit_tied create_endpoint_tied disable_endpoint_tied
      test_event_tied replay_tied)+

lemma tied_named [moves_rules]:
  "nq_project_id nq = p \<Longrightarrow> tied_op p I (insert_quote e nq)"
  "ni_project_id ni = p \<Longrightarrow> tied_op p I (insert_invoice e ni)"
  "Inr t \<in> I \<Longrightarrow> tied_op p I (attach_payment_to_payout e t pid)"
  "Inr t \<in> I \<Longrightarrow> tied_op p I (advance_payout e t n)"
  by (rule tied_opI; erule (1) insert_quote_tied insert_invoice_tied attach_tied advance_tied)+

lemma good_uuid [simp]: "good p I (d\<lparr>next_uuid := n\<rparr>) \<longleftrightarrow> good p I d"
proof -
  have "owns p x (d\<lparr>next_uuid := n\<rparr>) \<longleftrightarrow> owns p x d" for x by (cases x) (simp_all add: owned_def)
  then show ?thesis by (simp add: good_def uuid_schema quotes_own_def rows_defs)
qed

lemma tied_uuid [simp]: "tied p I (d\<lparr>next_uuid := n\<rparr>) d' \<longleftrightarrow> tied p I d d'"
  by (simp add: tied_def)

lemma tied_with_fresh [moves_rules]: "(\<And>i. tied_op p I (op i)) \<Longrightarrow> tied_op p I (with_fresh e kind op)"
  unfolding tied_op_def with_fresh_def fresh_id_def Let_def prod.case by (metis tied_uuid)

lemma confines_db_call [moves_rules]: "tied_op p I op \<Longrightarrow> confines p I (db_call f op)"
  by (rule confined_steps.keeps_db_call) (simp add: confined_def tied_op_def)

lemma confines_db_match [moves_rules]:
  "tied_op p I op \<Longrightarrow> (\<And>a. confines p I (ok a)) \<Longrightarrow> (\<And>err. confines p I (bad err)) \<Longrightarrow> confines p I (db_match op ok bad)"
  by (rule confined_steps.keeps_db_match) (simp_all add: confined_def tied_op_def)

lemma confines_node_call [moves_rules]: "confines p I (node_call op)"
  by (simp add: keeps_def node_call_def confined_def split: prod.split sum.split)

text \<open>A handler that goes on with a row of the project may rely on the row being the project's.\<close>

lemma tied_use: "tied p (insert x I) d d' \<Longrightarrow> (good p I d \<Longrightarrow> owns p x d) \<Longrightarrow> tied p I d d'"
  by (auto simp: tied_def good_def)

lemma confines_and:
  assumes "confines p I h" and "\<And>a. confines p (insert (x a) I) (k a)"
    and "\<And>s a s'. h s = (Inr a, s') \<Longrightarrow> good p I (app_db s) \<Longrightarrow> owns p (x a) (app_db s')"
  shows "confines p I (andthen h k)"
  unfolding keeps_def
proof
  fix s
  obtain r s1 where h: "h s = (r, s1)" by fastforce
  have 1: "tied p I (app_db s) (app_db s1)" using keepsD [OF assms(1) h] by (simp add: confined_def)
  show "confined p I s (snd (andthen h k s))"
  proof (cases r)
    case (Inl err)
    then show ?thesis using h 1 by (simp add: andthen_def confined_def)
  next
    case (Inr a)
    have 2: "tied p (insert (x a) I) (app_db s1) (app_db (snd (k a s1)))"
      using assms(2) by (simp add: keeps_def confined_def)
    have "tied p I (app_db s) (app_db (snd (k a s1)))" if g: "good p I (app_db s)"
      using 1 tied_use [OF 2] assms(3) [OF h [unfolded Inr] g] tied_trans by blast
    then show ?thesis using h Inr by (auto simp: andthen_def confined_def tied_def)
  qed
qed

lemma confines_query:
  assumes "\<And>a. confines p (insert (x a) I) (k a)" and "\<And>d a. good p I d \<Longrightarrow> q d = Inr a \<Longrightarrow> owns p (x a) d"
  shows "confines p I (with_db (\<lambda>d. check (map_error f (q d)) k))"
  unfolding keeps_def
proof
  fix s
  show "confined p I s (snd (with_db (\<lambda>d. check (map_error f (q d)) k) s))"
  proof (cases "q (app_db s)")
    case (Inr a)
    have "tied p (insert (x a) I) (app_db s) (app_db (snd (k a s)))"
      using assms(1) by (simp add: keeps_def confined_def)
    then show ?thesis using Inr assms(2) tied_use by (fastforce simp: check_def map_error_def confined_def)
  qed (simp add: check_def map_error_def confined_steps.step_refl)
qed

lemma confines_fetch_payment [moves_rules]:
  "(\<And>r. confines p (insert (Inl (pay_id r)) I) (k r)) \<Longrightarrow> confines p I (fetch_payment p i k)"
  unfolding fetch_payment_def
  by (rule confines_query) (auto dest: get_payment_owned [OF good_schema])

lemma payout_owned:
  assumes "schema_ok d" and "r \<in> set (t_payouts d)" and "pot_project_id r = p"
  shows "owns p (Inr (pot_id r)) d"
  using assms by (auto simp: schema_ok_def payouts_table_def dest: distinct_map_eq [of pot_id])

lemma confines_fetch_payout [moves_rules]:
  "(\<And>r. confines p (insert (Inr (pot_id r)) I) (k r)) \<Longrightarrow> confines p I (fetch_payout p i k)"
  unfolding fetch_payout_def
proof (rule confines_query)
  fix d r
  assume "good p I d" "get_payout p i d = Inr r"
  then show "owns p (Inr (pot_id r)) d"
    by (intro payout_owned) (auto simp: good_def get_payout_def split: option.splits dest: select_one_Some)
qed

lemma confines_fetch_quote [moves_rules]: "(\<And>q. confines p I (k q)) \<Longrightarrow> confines p I (fetch_quote p i k)"
  unfolding fetch_quote_def by (intro moves_rules)

subsection \<open>The engine\<close>

lemma tied_weaken: "tied p I d d' \<Longrightarrow> I \<subseteq> J \<Longrightarrow> tied p J d d'"
  using owns_others by (fastforce simp: tied_def good_def)

lemma engine_transition_tied:
  assumes "engine_transition e pid n res s = (r, s')" and "Inl pid \<in> I"
  shows "tied p I (app_db s) (app_db s')"
  using assms by (auto simp: engine_transition_def split: sum.splits intro: transition_tied)

lemma begun_owned:
  assumes "begin_payment e new d = Inr (out, d')" and "np_project_id new = p" and "schema_ok d"
  shows "owns p (Inl (pay_id (bo_payment out))) d'"
  using assms(1)
proof (cases rule: begin_payment_cases)
  case created
  then show ?thesis using assms(2) by (force simp: owned_def)
next
  case replayed
  then show ?thesis using assms(2,3)
    by (auto simp: owned_def schema_ok_def payments_table_def dest: distinct_map_eq [of pay_id])
qed

lemma send_begin_tied:
  assumes "send_begin be sha256 json_text e p k req s = (Inr (begun, b, a), s')"
  shows "tied p I (app_db s) (app_db s')"
    and "good p I (app_db s) \<Longrightarrow> owns p (Inl (pay_id (bo_payment begun))) (app_db s')"
proof -
  obtain new where bp: "begin_payment e new ((app_db s)\<lparr>next_uuid := next_uuid (app_db s) + 1\<rparr>) = Inr (begun, app_db s')"
      "np_project_id new = p"
    using assms by (rule send_begin_Inr) (rule that, simp, simp)
  show "tied p I (app_db s) (app_db s')" using begin_tied [OF bp] by simp
  show "owns p (Inl (pay_id (bo_payment begun))) (app_db s')" if "good p I (app_db s)"
    using begun_owned [OF bp] good_schema [OF that] by (simp add: uuid_schema)
qed

lemma confines_send_payment [moves_rules]: "confines p I (send_payment be sha256 json_text e p k req)"
proof -
  have "tied p I (app_db s) (app_db s')" if sp: "send_payment be sha256 json_text e p k req s = (r, s')" for s r s'
  proof (cases "fst (send_begin be sha256 json_text e p k req s)")
    case (Inl err)
    then have "send_begin be sha256 json_text e p k req s = (Inl err, s)"
      using send_begin_Inl [of be sha256 json_text e p k req s err] by (metis prod.collapse)
    then show ?thesis using sp by (simp add: send_payment_def)
  next
    case (Inr y)
    then obtain begun b a s1 where bg: "send_begin be sha256 json_text e p k req s = (Inr (begun, b, a), s1)"
      by (metis prod.collapse)
    let ?x = "Inl (pay_id (bo_payment begun))"
    note move = engine_transition_tied [where pid = "pay_id (bo_payment begun)" and I = "insert ?x I" and p = p, OF _ insertI1]
    have "tied p (insert ?x I) (app_db s1) (app_db s')"
      using sp bg unfolding send_payment_def send_pend_def send_refused_def
      by (auto split: prod.splits sum.splits if_splits dest!: move send_dispatch_db intro: tied_trans)
    then have "good p I (app_db s) \<Longrightarrow> tied p I (app_db s1) (app_db s')"
      using send_begin_tied(2) [OF bg] tied_use by blast
    then show ?thesis using send_begin_tied(1) [OF bg, of I] by (auto simp: tied_def intro: others_trans)
  qed
  then show ?thesis unfolding keeps_def confined_def by (metis prod.collapse)
qed

lemma confines_reconcile [moves_rules]:
  assumes "Inl (pay_id row) \<in> I"
  shows "confines p I (reconcile_payment be e row)"
proof -
  note move = engine_transition_tied [where pid = "pay_id row" and p = p, OF _ assms]
  have "tied p I (app_db s) (app_db s')" if "reconcile_payment be e row s = (r, s')" for s r s'
    using that unfolding reconcile_payment_def pass_pending_def
    by (auto split: sum.splits if_splits option.splits prod.splits dest!: move intro: tied_trans)
  then show ?thesis unfolding keeps_def confined_def by (metis prod.collapse)
qed

subsection \<open>The routes\<close>

lemma confines_parts [moves_rules]:
  "confines p I (payout_with_payment sv p payout)" "confines p I (balances_response p)"
  "confines p I (issue_invoice sv e p idem amt desc expiry meta)"
  "Inr (pot_id t) \<in> I \<Longrightarrow> confines p I (settle_payout sv e p invoice t)"
  unfolding payout_with_payment_def balances_response_def issue_invoice_def settle_payout_def
  by (intro moves_rules; simp)+

lemma advance_result:
  "advance_payout e i n d = Inr (moved, d') \<Longrightarrow> pot_id (fst moved) = i"
  by (cases moved) (auto elim!: advance_payout_cases simp: advance_row_def)

lemma confines_advance:
  assumes "Inr i \<in> I" and "\<And>moved. pot_id (fst moved) = i \<Longrightarrow> confines p I (k moved)"
  shows "confines p I (andthen (db_call f (advance_payout e i n)) k)"
proof -
  have "andthen (db_call f (advance_payout e i n)) k
      = andthen (db_call f (advance_payout e i n)) (\<lambda>m. if pot_id (fst m) = i then k m else refuse undefined)"
    by (auto simp: fun_eq_iff andthen_def db_call_def split: sum.splits dest: advance_result)
  moreover have "confines p I (andthen (db_call f (advance_payout e i n))
      (\<lambda>m. if pot_id (fst m) = i then k m else refuse undefined))"
    by (rule confined_steps.keeps_andthen) (auto intro!: assms moves_rules)
  ultimately show ?thesis by simp
qed

lemma confines_complete_success:
  "Inr (pot_id payout) \<in> I \<Longrightarrow> confines p I (complete_success sv e p payout)"
  unfolding complete_success_def split_beta
  by (rule confines_advance) (assumption, intro moves_rules, simp)

lemma confines_run_payout:
  assumes "Inr (pot_id payout) \<in> I"
  shows "confines p I (run_payout sv e p payout scn)"
  unfolding run_payout_def split_beta
proof (rule confines_advance [OF assms])
  fix moved :: "payout_row \<times> bool"
  assume "pot_id (fst moved) = pot_id payout"
  then have mine: "Inr (pot_id (fst moved)) \<in> I" using assms by simp
  then have "confines p I (andthen (db_call api_of_storage (advance_payout e (pot_id (fst moved)) n)) (\<lambda>x. respond (fst x)))" for n
    by (rule confines_advance) (rule confined_steps.keeps_respond)
  then show "confines p I (case scn of
      ScnFailure \<Rightarrow> andthen (db_call api_of_storage (advance_payout e (pot_id (fst moved)) PotFailed)) (\<lambda>x. respond (fst x))
    | ScnTimeout \<Rightarrow> andthen (db_call api_of_storage (advance_payout e (pot_id (fst moved)) PotUnknown)) (\<lambda>x. respond (fst x))
    | ScnSuccess \<Rightarrow> complete_success sv e p (fst moved))"
    using confines_complete_success [OF mine] by (cases scn) simp_all
qed

lemma reserved_owned:
  assumes "reserve_payout e p q k s b d = Inr (reserved, d')" and "good p I d"
  shows "owns p (Inr (pot_id (fst reserved))) d'"
proof -
  have ok: "schema_ok d'" using assms reserve_op.op_schema good_schema by blast
  obtain r created where r: "reserved = (r, created)" by (cases reserved)
  have "r \<in> set (t_payouts d') \<and> pot_project_id r = p" using assms(1) unfolding r
  proof (cases rule: reserve_payout_cases)
    case (reserved quote d2 d3 ev)
    then show ?thesis using insert_payout_Inr [OF reserved(9)] emit_Inr [OF reserved(10)] by (simp add: emitted_def)
  qed simp
  then show ?thesis using payout_owned [OF ok, of r p] r by simp
qed

lemma confines_place_payout [moves_rules]: "confines p I (place_payout sv e p key scn req)"
  unfolding place_payout_def split_beta
proof (rule confines_and [where x = "\<lambda>m. Inr (pot_id (fst m))"])
  fix s :: "'a app" and m s'
  assume "db_call api_of_storage (reserve_payout e p (pr_quote_id req) (case key of None \<Rightarrow> [] | Some k \<Rightarrow> k)
      (scenario_as_str scn) (pr_settlement_invoice req)) s = (Inr m, s')" "good p I (app_db s)"
  then show "owns p (Inr (pot_id (fst m))) (app_db s')"
    by (elim run_db_call) (auto dest: reserved_owned)
qed (intro moves_rules confines_run_payout insertI1)+

lemma confines_resolve_payout:
  "Inr (pot_id payout) \<in> I \<Longrightarrow> confines p I (resolve_payout sv e p payout outcome)"
  unfolding resolve_payout_def by (intro moves_rules confines_complete_success)

text \<open>A request that its key or the admin token lets in; the slices it changed.\<close>

definition let_in :: "'n server \<Rightarrow> headers \<Rightarrow> db \<Rightarrow> string \<Rightarrow> bool" where
  "let_in sv h d q \<longleftrightarrow> (\<exists>ctx. authenticate (sv_sha256 sv) d h = Inr ctx \<and> ac_project_id ctx = q)
     \<or> require_admin (sv_sha256 sv) (sv_config sv) h = Inr ()"

definition separate :: "'n server \<Rightarrow> headers \<Rightarrow> ('n, 'a) handler \<Rightarrow> bool" where
  "separate sv h k \<longleftrightarrow> (\<forall>s q. schema_ok (app_db s) \<longrightarrow> quotes_own (app_db s)
     \<longrightarrow> tenant q (app_db (snd (k s))) \<noteq> tenant q (app_db s) \<longrightarrow> let_in sv h (app_db s) q)"

lemma separate_auth:
  assumes "\<And>p. confines p {} (k p)"
  shows "separate sv h (auth_scope sv h scope (\<lambda>auth. k (ac_project_id auth)))"
  unfolding separate_def
proof (intro allI impI)
  fix s q
  assume g: "schema_ok (app_db s)" "quotes_own (app_db s)"
    and ch: "tenant q (app_db (snd (auth_scope sv h scope (\<lambda>auth. k (ac_project_id auth)) s))) \<noteq> tenant q (app_db s)"
  show "let_in sv h (app_db s) q"
  proof (cases "authorize (sv_sha256 sv) (app_db s) h scope")
    case (Inl err)
    then show ?thesis using ch by (simp add: auth_scope_def check_def)
  next
    case (Inr ctx)
    have "confined (ac_project_id ctx) {} s (snd (k (ac_project_id ctx) s))" using assms(1) by (simp add: keeps_def)
    then have "others (ac_project_id ctx) (app_db s) (app_db (snd (k (ac_project_id ctx) s)))"
      using g by (simp add: confined_def tied_def good_def)
    then have "q = ac_project_id ctx" using ch Inr by (auto simp: auth_scope_def check_def others_def)
    then show ?thesis using authorize_authenticates [OF Inr] by (auto simp: let_in_def)
  qed
qed

lemma separate_admin: "separate sv h (admin_only sv h k)"
  by (auto simp: separate_def let_in_def admin_only_def check_def split: sum.split)

lemma separate_equal: "keeps (=) k \<Longrightarrow> separate sv h k"
  by (auto simp: separate_def keeps_def)

lemmas confines_sandbox = confines_place_payout confines_resolve_payout

lemma separate_writes:
  "separate sv h (create_invoice sv e h ib)" "separate sv h (create_payment sv e h pb)"
  "separate sv h (reconcile_payment_route sv e h i)" "separate sv h (create_endpoint sv e raw h b)"
  "separate sv h (disable_endpoint sv h i)" "separate sv h (test_endpoint sv e h i)"
  "separate sv h (replay_delivery_route sv e h i)" "separate sv h (create_address_route sv e h ab)"
  "separate sv h (topup sv h tb)" "separate sv h (create_quote sv e h qb)" "separate sv h (create_payout sv e h yb)"
  "separate sv h (reconcile_payout sv e h i ob)"
  unfolding create_invoice_def create_payment_def reconcile_payment_route_def create_endpoint_def
    disable_endpoint_def test_endpoint_def replay_delivery_route_def create_address_route_def
    topup_def create_quote_def create_payout_def reconcile_payout_def Let_def
  by (rule separate_auth; (intro moves_rules confines_resolve_payout insertI1; simp)?)+

lemma separate_admin_routes:
  "separate sv h (create_project_route sv e bytes h b)" "separate sv h (create_key_route sv e bytes h p kb)"
  "separate sv h (revoke_key sv e h p i)" "separate sv h (mine sv h mb)" "separate sv h (open_channel sv h cb)"
  "separate sv h (list_keys sv h p)" "separate sv h (dev_status sv h)"
  unfolding create_project_route_def create_key_route_def revoke_key_def mine_def open_channel_def list_keys_def dev_status_def
  by (rule separate_admin)+

lemma separate_plain: "separate sv h (respond a)" "separate sv h (with_node (\<lambda>n. respond (b n)))"
  by (simp_all add: separate_def)

lemma separate_router: "separate sv h (router sv e h req)"
proof (cases "reads req")
  case True
  then show ?thesis by (intro separate_equal reads_only)
next
  case False
  then show ?thesis by (cases req) (simp_all add: separate_writes separate_admin_routes separate_plain)
qed

text \<open>Every run of the gateway keeps what the transactions rely on.\<close>

lemma gateway_good:
  assumes "(gateway_step sv)\<^sup>*\<^sup>* s s'" and "schema_ok (app_db s)" and "quotes_own (app_db s)"
  shows "schema_ok (app_db s') \<and> quotes_own (app_db s')"
  using gateway_stored [OF assms(1)] assms(2,3)
  by (induction rule: rtranclp_induct) (auto intro: storage_step_schema storage_step_own)

text \<open>
  C10. Tenants do not touch each other: after any history of the gateway, when a request changes anything
  that belongs to a project, from its invoices and payments to its balances, webhooks, deliveries and
  keys, then the bearer key of the request is a live key of that project, or the request carries the
  admin token. The database the history starts from satisfies the schema, and each of its payouts
  settles a quote of its own project, as the empty database does.
\<close>

theorem tenant_writes:
  assumes "schema_ok (app_db s0)" and "quotes_own (app_db s0)" and "(gateway_step sv)\<^sup>*\<^sup>* s0 s"
    and "router sv e h req s = (res, s')" and "tenant q (app_db s') \<noteq> tenant q (app_db s)"
  shows "(\<exists>ctx. authenticate (sv_sha256 sv) (app_db s) h = Inr ctx \<and> ac_project_id ctx = q)
    \<or> require_admin (sv_sha256 sv) (sv_config sv) h = Inr ()"
  using separate_router [of sv h e req] gateway_good [OF assms(3,1,2)] assms(4,5)
  by (fastforce simp: separate_def let_in_def)

text \<open>A key of the project disables its endpoint.\<close>

definition hooked_app :: "mock_state app" where
  "hooked_app = \<lparr>app_db = keyed_db [''webhooks:write''] sample_db, app_node = mock_new\<rparr>"

definition unhooked_app :: "mock_state app" where
  "unhooked_app = hooked_app\<lparr>app_db := (app_db hooked_app)\<lparr>t_endpoints :=
     update_where (\<lambda>r. whe_id r = ''whe_a'' \<and> whe_project_id r = ''prj_a'') (\<lambda>r. r\<lparr>whe_enabled := False\<rparr>)
       (t_endpoints sample_db)\<rparr>\<rparr>"

lemma hooked_good: "schema_ok (app_db hooked_app)" "quotes_own (app_db hooked_app)"
  by (simp_all add: schema_ok_def table_defs hooked_app_def keyed_db_def sample_db_def empty_db_def keyed_invoices_def
      quotes_own_def rows_defs)

lemma unhook_run:
  "router sample_server sample_env sample_headers (DisableEndpoint ''whe_a'') hooked_app = (Inr no_content, unhooked_app)"
proof -
  have "authorize (sv_sha256 sample_server) (app_db hooked_app) sample_headers WebhooksWrite
      = Inr \<lparr>ac_project_id = ''prj_a'', ac_key_id = ''key_1'', ac_scopes = [''webhooks:write'']\<rparr>"
    by (simp add: sample_server_def hooked_app_def sample_authorize)
  then show ?thesis
    by (simp add: disable_endpoint_def auth_scope_def check_def andthen_def db_call_def disable_webhook_endpoint_def
        unhooked_app_def hooked_app_def keyed_db_def sample_db_def)
qed

lemma unhook_changes: "tenant ''prj_a'' (app_db unhooked_app) \<noteq> tenant ''prj_a'' (app_db hooked_app)"
proof
  assume "tenant ''prj_a'' (app_db unhooked_app) = tenant ''prj_a'' (app_db hooked_app)"
  then have "t_endpoints (tenant ''prj_a'' (app_db unhooked_app)) = t_endpoints (tenant ''prj_a'' (app_db hooked_app))"
    by simp
  then show False by (simp add: unhooked_app_def hooked_app_def keyed_db_def sample_db_def update_where_def)
qed

theorem tenant_writes_witness:
  "(\<exists>ctx. authenticate (sv_sha256 sample_server) (app_db hooked_app) sample_headers = Inr ctx \<and> ac_project_id ctx = ''prj_a'')
     \<or> require_admin (sv_sha256 sample_server) (sv_config sample_server) sample_headers = Inr ()"
  by (rule tenant_writes [OF hooked_good _ unhook_run unhook_changes]) simp

end
