(* ===== verification/Settle_Base.thy ===== *)
theory Settle_Base
  imports Core_Base
begin

text \<open>
  The data of the legacy settlement node (legacy/settlement/src): its state machine (state.rs), amounts
  (money.rs) and identifiers (ids.rs).
\<close>

section \<open>state.rs\<close>

datatype settlement_state =
    StCreated | StQuoted | StSourceReserved | StDestinationReserved | StConditionCreated
  | StPayoutRequested | StPayoutConfirmed | StPayoutFailed | StPayoutUnknown
  | StReleased | StRefunded | StDisputed

datatype payout_outcome = OutConfirmed | OutFailed

datatype settlement_event =
    EvQuote | EvReserveSource | EvReserveDestination | EvCreateCondition | EvRequestPayout
  | EvObservePayout "payout_outcome option"
  | EvReconcileUnknown payout_outcome
  | EvRelease | EvRefund | EvDispute

datatype transition_error = TransitionError settlement_state settlement_event

text \<open>The match on the pair, one equation per state; every other event is the error.\<close>

definition step_on :: "settlement_state \<Rightarrow> settlement_event \<Rightarrow> (settlement_event \<times> settlement_state) list
    \<Rightarrow> transition_error + settlement_state" where
  "step_on from event arms = (case map_of arms event of Some to \<Rightarrow> Inr to | None \<Rightarrow> Inl (TransitionError from event))"

fun settle_transition :: "settlement_state \<Rightarrow> settlement_event \<Rightarrow> transition_error + settlement_state" where
  "settle_transition StCreated event = step_on StCreated event [(EvQuote, StQuoted)]"
| "settle_transition StQuoted event = step_on StQuoted event [(EvReserveSource, StSourceReserved)]"
| "settle_transition StSourceReserved event =
     step_on StSourceReserved event [(EvReserveDestination, StDestinationReserved)]"
| "settle_transition StDestinationReserved event =
     step_on StDestinationReserved event [(EvCreateCondition, StConditionCreated)]"
| "settle_transition StConditionCreated event = step_on StConditionCreated event [(EvRequestPayout, StPayoutRequested)]"
| "settle_transition StPayoutRequested event = step_on StPayoutRequested event
     [(EvObservePayout (Some OutConfirmed), StPayoutConfirmed), (EvObservePayout (Some OutFailed), StPayoutFailed),
      (EvObservePayout None, StPayoutUnknown), (EvDispute, StDisputed)]"
| "settle_transition StPayoutUnknown event = step_on StPayoutUnknown event
     [(EvReconcileUnknown OutConfirmed, StPayoutConfirmed), (EvReconcileUnknown OutFailed, StPayoutFailed),
      (EvDispute, StDisputed)]"
| "settle_transition StPayoutConfirmed event = step_on StPayoutConfirmed event
     [(EvRelease, StReleased), (EvDispute, StDisputed)]"
| "settle_transition StPayoutFailed event = step_on StPayoutFailed event
     [(EvRefund, StRefunded), (EvDispute, StDisputed)]"
| "settle_transition from event = step_on from event []"

text \<open>A sequence of events from the first state on.\<close>

fun drive :: "settlement_state \<Rightarrow> settlement_event list \<Rightarrow> transition_error + settlement_state" where
  "drive s [] = Inr s"
| "drive s (e # es) = (case settle_transition s e of Inl err \<Rightarrow> Inl err | Inr t \<Rightarrow> drive t es)"

section \<open>money.rs\<close>

datatype settle_sats = SettleSats (settle_sat: u64)
datatype settle_msats = SettleMsats (settle_msat: u64)

definition ssat_checked_add :: "settle_sats \<Rightarrow> settle_sats \<Rightarrow> settle_sats option" where
  "ssat_checked_add a b = map_option SettleSats (checked_add (settle_sat a) (settle_sat b))"

definition ssat_checked_sub :: "settle_sats \<Rightarrow> settle_sats \<Rightarrow> settle_sats option" where
  "ssat_checked_sub a b = map_option SettleSats (checked_sub (settle_sat a) (settle_sat b))"

definition to_millisatoshis :: "settle_sats \<Rightarrow> settle_msats option" where
  "to_millisatoshis a = map_option SettleMsats (checked_mul (settle_sat a) 1000)"

definition smsat_checked_add :: "settle_msats \<Rightarrow> settle_msats \<Rightarrow> settle_msats option" where
  "smsat_checked_add a b = map_option SettleMsats (checked_add (settle_msat a) (settle_msat b))"

definition smsat_checked_sub :: "settle_msats \<Rightarrow> settle_msats \<Rightarrow> settle_msats option" where
  "smsat_checked_sub a b = map_option SettleMsats (checked_sub (settle_msat a) (settle_msat b))"

datatype fiat_currency = FiatNgn | FiatKes

fun fiat_code :: "fiat_currency \<Rightarrow> string" where
  "fiat_code FiatNgn = ''NGN''"
| "fiat_code FiatKes = ''KES''"

text \<open>\<open>minor_units\<close> is an \<open>i64\<close>, kept as an integer whose range is checked where the code checks it.\<close>

record fiat_amount =
  fa_currency :: fiat_currency
  fa_minor_units :: int

definition fiat_checked_add :: "fiat_amount \<Rightarrow> fiat_amount \<Rightarrow> fiat_amount option" where
  "fiat_checked_add a b =
     (if fa_currency a \<noteq> fa_currency b then None
      else if in_i64 (fa_minor_units a + fa_minor_units b)
      then Some \<lparr>fa_currency = fa_currency a, fa_minor_units = fa_minor_units a + fa_minor_units b\<rparr>
      else None)"

section \<open>ids.rs\<close>

text \<open>Sixteen random bytes; the bytes are an argument of \<open>new\<close>.\<close>

type_synonym settle_id = "u8 list"

definition settle_id_text :: "settle_id \<Rightarrow> string" where
  "settle_id_text i = bytes_hex i"

text \<open>\<open>u8::from_str_radix(s, 16)\<close>: an optional plus sign and digits; two characters never overflow.\<close>

definition hex_value :: "string \<Rightarrow> nat option" where
  "hex_value s = (if s = [] then None else foldl (\<lambda>acc c. case (acc, hex_val c) of (Some n, Some x) \<Rightarrow> Some (16 * n + x) | _ \<Rightarrow> None) (Some 0) s)"

definition u8_from_hex :: "string \<Rightarrow> u8 option" where
  "u8_from_hex s =
     (case hex_value (case s of c # cs \<Rightarrow> if c = CHR ''+'' then cs else s | [] \<Rightarrow> []) of
        Some n \<Rightarrow> if n < 256 then Some (of_nat n) else None
      | None \<Rightarrow> None)"

fun hex_pairs :: "string \<Rightarrow> u8 list option" where
  "hex_pairs (a # b # cs) =
     (case u8_from_hex [a, b] of
        None \<Rightarrow> None
      | Some x \<Rightarrow> (case hex_pairs cs of None \<Rightarrow> None | Some xs \<Rightarrow> Some (x # xs)))"
| "hex_pairs _ = Some []"

definition settle_id_from_hex :: "string \<Rightarrow> settle_id option" where
  "settle_id_from_hex s = (if length s \<noteq> 32 \<or> \<not> list_all is_ascii_byte s then None else hex_pairs s)"

lemma u8_from_hex_byte: "u8_from_hex (byte_hex b) = Some b"
proof -
  have lt: "unat b div 16 < 16" "unat b mod 16 < 16" using unsigned_less [of b, where 'a = nat] by simp_all
  have plus: "hex_digit n \<noteq> CHR ''+''" if "n < 16" for n
    using hex_digit_hexdigit [OF that] by (auto simp: is_ascii_hexdigit_def is_ascii_digit_def code_def)
  have "u8_from_hex (byte_hex b) = (if 16 * (unat b div 16) + unat b mod 16 < 256
      then Some (of_nat (16 * (unat b div 16) + unat b mod 16)) else None)"
    using lt plus [OF lt(1)] by (simp add: byte_hex_def u8_from_hex_def hex_value_def hex_val_hex_digit)
  moreover have "16 * (unat b div 16) + unat b mod 16 = unat b" by (simp add: mult_div_mod_eq)
  moreover have "unat b < 256" using unsigned_less [of b, where 'a = nat] by simp
  ultimately show ?thesis by (simp add: word_unat_eq_iff)
qed

lemma hex_pairs_bytes: "hex_pairs (bytes_hex bs) = Some bs"
proof (induction bs)
  case (Cons b bs)
  have "u8_from_hex [hex_digit (unat b div 16), hex_digit (unat b mod 16)] = Some b"
    using u8_from_hex_byte [of b] by (simp add: byte_hex_def)
  then show ?case using Cons by (simp add: bytes_hex_def byte_hex_def)
qed (simp add: bytes_hex_def)

text \<open>The text of an identifier reads back.\<close>

lemma settle_id_roundtrip: "length i = 16 \<Longrightarrow> settle_id_from_hex (settle_id_text i) = Some i"
  using bytes_hex_hexdigits [of i]
  by (auto simp: settle_id_from_hex_def settle_id_text_def hex_pairs_bytes list_all_iff is_ascii_hexdigit_def
      is_ascii_digit_def is_ascii_byte_def)

section \<open>The state machine\<close>

definition settle_final :: "settlement_state \<Rightarrow> bool" where
  "settle_final s \<longleftrightarrow> s \<in> {StReleased, StRefunded, StDisputed}"

fun settle_rank :: "settlement_state \<Rightarrow> nat" where
  "settle_rank StCreated = 0"
| "settle_rank StQuoted = 1"
| "settle_rank StSourceReserved = 2"
| "settle_rank StDestinationReserved = 3"
| "settle_rank StConditionCreated = 4"
| "settle_rank StPayoutRequested = 5"
| "settle_rank StPayoutUnknown = 6"
| "settle_rank StPayoutConfirmed = 7"
| "settle_rank StPayoutFailed = 7"
| "settle_rank StReleased = 8"
| "settle_rank StRefunded = 8"
| "settle_rank StDisputed = 8"

definition settle_can :: "settlement_state \<Rightarrow> settlement_state \<Rightarrow> bool" where
  "settle_can s t \<longleftrightarrow> (\<exists>e. settle_transition s e = Inr t)"

text \<open>Every legal step, as equations on the target state.\<close>

lemma settle_transition_Inr:
  "settle_transition s e = Inr t \<longleftrightarrow>
     (case t of
        StCreated \<Rightarrow> False
      | StQuoted \<Rightarrow> s = StCreated \<and> e = EvQuote
      | StSourceReserved \<Rightarrow> s = StQuoted \<and> e = EvReserveSource
      | StDestinationReserved \<Rightarrow> s = StSourceReserved \<and> e = EvReserveDestination
      | StConditionCreated \<Rightarrow> s = StDestinationReserved \<and> e = EvCreateCondition
      | StPayoutRequested \<Rightarrow> s = StConditionCreated \<and> e = EvRequestPayout
      | StPayoutConfirmed \<Rightarrow> s = StPayoutRequested \<and> e = EvObservePayout (Some OutConfirmed)
           \<or> s = StPayoutUnknown \<and> e = EvReconcileUnknown OutConfirmed
      | StPayoutFailed \<Rightarrow> s = StPayoutRequested \<and> e = EvObservePayout (Some OutFailed)
           \<or> s = StPayoutUnknown \<and> e = EvReconcileUnknown OutFailed
      | StPayoutUnknown \<Rightarrow> s = StPayoutRequested \<and> e = EvObservePayout None
      | StReleased \<Rightarrow> s = StPayoutConfirmed \<and> e = EvRelease
      | StRefunded \<Rightarrow> s = StPayoutFailed \<and> e = EvRefund
      | StDisputed \<Rightarrow> s \<in> {StPayoutRequested, StPayoutUnknown, StPayoutConfirmed, StPayoutFailed} \<and> e = EvDispute)"
  by (cases s; cases t) (auto simp: step_on_def split: option.splits if_splits)

interpretation settle_machine: status_machine settle_can settle_final settle_rank
proof
  show "settle_final s \<Longrightarrow> \<not> settle_can s t" for s t
    by (cases t) (auto simp: settle_final_def settle_can_def settle_transition_Inr)
  show "settle_can s t \<Longrightarrow> settle_rank s < settle_rank t" for s t
    by (cases t) (auto simp: settle_can_def settle_transition_Inr)
qed

lemma drive_append: "drive s (es @ fs) = (case drive s es of Inl err \<Rightarrow> Inl err | Inr t \<Rightarrow> drive t fs)"
  by (induction es arbitrary: s) (auto split: sum.split)

lemma drive_snoc: "drive s (es @ [e]) = Inr t \<longleftrightarrow> (\<exists>u. drive s es = Inr u \<and> settle_transition u e = Inr t)"
  by (auto simp: drive_append split: sum.splits)

lemma drive_can: "drive s es = Inr t \<Longrightarrow> (settle_can ^^ length es) s t"
proof (induction es arbitrary: t rule: rev_induct)
  case (snoc e es)
  then show ?case by (auto simp: drive_snoc settle_can_def)
qed simp

definition request_prefix :: "settlement_event list" where
  "request_prefix = [EvQuote, EvReserveSource, EvReserveDestination, EvCreateCondition, EvRequestPayout]"

text \<open>The two ways an outcome is learnt after the payout was requested.\<close>

definition learnt :: "payout_outcome \<Rightarrow> settlement_event list set" where
  "learnt out = {[EvObservePayout (Some out)], [EvObservePayout None, EvReconcileUnknown out]}"

lemma drive_nonempty: "drive StCreated es = Inr t \<Longrightarrow> t \<noteq> StCreated \<Longrightarrow> \<exists>fs e u. es = fs @ [e]
    \<and> drive StCreated fs = Inr u \<and> settle_transition u e = Inr t"
  by (cases es rule: rev_cases) (auto simp: drive_snoc)

lemma drive_states:
  "drive StCreated es = Inr StCreated \<Longrightarrow> es = []"
  "drive StCreated es = Inr StQuoted \<Longrightarrow> es = [EvQuote]"
  "drive StCreated es = Inr StSourceReserved \<Longrightarrow> es = [EvQuote, EvReserveSource]"
  "drive StCreated es = Inr StDestinationReserved \<Longrightarrow> es = [EvQuote, EvReserveSource, EvReserveDestination]"
  "drive StCreated es = Inr StConditionCreated
     \<Longrightarrow> es = [EvQuote, EvReserveSource, EvReserveDestination, EvCreateCondition]"
  "drive StCreated es = Inr StPayoutRequested \<Longrightarrow> es = request_prefix"
  "drive StCreated es = Inr StPayoutUnknown \<Longrightarrow> es = request_prefix @ [EvObservePayout None]"
  "drive StCreated es = Inr StPayoutConfirmed \<Longrightarrow> \<exists>l \<in> learnt OutConfirmed. es = request_prefix @ l"
  "drive StCreated es = Inr StPayoutFailed \<Longrightarrow> \<exists>l \<in> learnt OutFailed. es = request_prefix @ l"
proof -
  note step = drive_nonempty settle_transition_Inr
  show 0: "drive StCreated es = Inr StCreated \<Longrightarrow> es = []" for es
    by (cases es rule: rev_cases) (auto simp: drive_snoc settle_transition_Inr)
  show 1: "drive StCreated es = Inr StQuoted \<Longrightarrow> es = [EvQuote]" for es
    by (drule drive_nonempty) (auto simp: settle_transition_Inr dest: 0)
  show 2: "drive StCreated es = Inr StSourceReserved \<Longrightarrow> es = [EvQuote, EvReserveSource]" for es
    by (drule drive_nonempty) (auto simp: settle_transition_Inr dest: 1)
  show 3: "drive StCreated es = Inr StDestinationReserved \<Longrightarrow> es = [EvQuote, EvReserveSource, EvReserveDestination]" for es
    by (drule drive_nonempty) (auto simp: settle_transition_Inr dest: 2)
  show 4: "drive StCreated es = Inr StConditionCreated
     \<Longrightarrow> es = [EvQuote, EvReserveSource, EvReserveDestination, EvCreateCondition]" for es
    by (drule drive_nonempty) (auto simp: settle_transition_Inr dest: 3)
  show 5: "drive StCreated es = Inr StPayoutRequested \<Longrightarrow> es = request_prefix" for es
    by (drule drive_nonempty) (auto simp: settle_transition_Inr request_prefix_def dest: 4)
  show 6: "drive StCreated es = Inr StPayoutUnknown \<Longrightarrow> es = request_prefix @ [EvObservePayout None]" for es
    by (drule drive_nonempty) (auto simp: settle_transition_Inr dest: 5)
  show "drive StCreated es = Inr StPayoutConfirmed \<Longrightarrow> \<exists>l \<in> learnt OutConfirmed. es = request_prefix @ l" for es
    by (drule drive_nonempty) (auto simp: settle_transition_Inr learnt_def dest: 5 6)
  show "drive StCreated es = Inr StPayoutFailed \<Longrightarrow> \<exists>l \<in> learnt OutFailed. es = request_prefix @ l" for es
    by (drule drive_nonempty) (auto simp: settle_transition_Inr learnt_def dest: 5 6)
qed

lemma drive_prefix: "drive StCreated request_prefix = Inr StPayoutRequested"
  by (simp add: request_prefix_def step_on_def)

text \<open>
  C34. The settlement machine has exactly the histories it should: a settlement is released precisely by
  the full preparation, one payout request, a confirmation (observed, or reconciled after a timeout) and
  the release; it is refunded precisely the same way with a failure, so never from a timeout alone; and
  no accepted history is longer than eight events or continues after release, refund or dispute.
\<close>

theorem settlement_histories:
  "(drive StCreated es = Inr StReleased \<longleftrightarrow> (\<exists>l \<in> learnt OutConfirmed. es = request_prefix @ l @ [EvRelease]))
   \<and> (drive StCreated es = Inr StRefunded \<longleftrightarrow> (\<exists>l \<in> learnt OutFailed. es = request_prefix @ l @ [EvRefund]))
   \<and> (\<forall>t. drive StCreated es = Inr t \<longrightarrow> length es \<le> 8
        \<and> (settle_final t \<longrightarrow> (\<forall>e fs u. drive StCreated (es @ e # fs) \<noteq> Inr u)))"
proof (intro conjI allI impI)
  show "drive StCreated es = Inr StReleased \<longleftrightarrow> (\<exists>l \<in> learnt OutConfirmed. es = request_prefix @ l @ [EvRelease])"
    by (rule iffI, drule drive_nonempty)
      (auto simp: settle_transition_Inr drive_prefix drive_append learnt_def step_on_def dest!: drive_states(8))
  show "drive StCreated es = Inr StRefunded \<longleftrightarrow> (\<exists>l \<in> learnt OutFailed. es = request_prefix @ l @ [EvRefund])"
    by (rule iffI, drule drive_nonempty)
      (auto simp: settle_transition_Inr drive_prefix drive_append learnt_def step_on_def dest!: drive_states(9))
next
  fix t assume d: "drive StCreated es = Inr t"
  have "settle_rank t \<le> 8" by (cases t) simp_all
  then show "length es \<le> 8" using settle_machine.history_bounded [OF drive_can [OF d]] by simp
  fix e fs u assume "settle_final t"
  then have "\<exists>err. settle_transition t e = Inl err"
    using settle_machine.final_stuck [of t] by (cases "settle_transition t e") (auto simp: settle_can_def)
  then show "drive StCreated (es @ e # fs) \<noteq> Inr u" using d by (auto simp: drive_append)
qed

theorem settlement_histories_witness:
  "drive StCreated (request_prefix @ [EvObservePayout None, EvReconcileUnknown OutConfirmed] @ [EvRelease]) = Inr StReleased
   \<and> length (request_prefix @ [EvObservePayout None, EvReconcileUnknown OutConfirmed] @ [EvRelease]) \<le> 8"
proof -
  let ?es = "request_prefix @ [EvObservePayout None, EvReconcileUnknown OutConfirmed] @ [EvRelease]"
  have d: "drive StCreated ?es = Inr StReleased" using settlement_histories [of ?es] by (auto simp: learnt_def)
  then show ?thesis using settlement_histories [of ?es] by blast
qed

end
