(* ===== verification/Settle_Sign.thy ===== *)
theory Settle_Sign
  imports Settle_Base
begin

text \<open>
  Signed statements of the legacy settlement node: payout attestations (attestation.rs) and executable
  quotes (quote.rs). The secp256k1 operations, SHA-256 and the JSON text of quote terms are parameters;
  a public key or signature is its serialized form.
\<close>

record secp =
  sp_sha256 :: "string \<Rightarrow> u8 list"
  sp_sign :: "u8 list \<Rightarrow> u8 list \<Rightarrow> u8 list"
  sp_public :: "u8 list \<Rightarrow> u8 list"
  sp_parse_key :: "u8 list \<Rightarrow> u8 list option"
  sp_parse_sig :: "u8 list \<Rightarrow> u8 list option"
  sp_verify :: "u8 list \<Rightarrow> u8 list \<Rightarrow> u8 list \<Rightarrow> bool"

text \<open>What the library documents: serialized keys and signatures parse back, and signatures verify.\<close>

definition ecdsa_ok :: "secp \<Rightarrow> bool" where
  "ecdsa_ok sp \<longleftrightarrow> (\<forall>k. sp_parse_key sp (sp_public sp k) = Some (sp_public sp k))
     \<and> (\<forall>m k. sp_parse_sig sp (sp_sign sp m k) = Some (sp_sign sp m k))
     \<and> (\<forall>m k. sp_verify sp m (sp_sign sp m k) (sp_public sp k))"

section \<open>attestation.rs\<close>

record attestation =
  att_settlement_id :: settle_id
  att_status :: payout_outcome
  att_evidence_ref :: string
  att_observed_at :: u64
  att_signer :: "u8 list"
  att_signature :: "u8 list"

datatype attestation_error = AttMalformed | AttInvalidSignature

fun outcome_byte :: "payout_outcome \<Rightarrow> char" where
  "outcome_byte OutConfirmed = char_of (0 :: nat)"
| "outcome_byte OutFailed = char_of (1 :: nat)"

definition raw_bytes :: "u8 list \<Rightarrow> string" where
  "raw_bytes bs = map (\<lambda>b. char_of (unat b)) bs"

text \<open>What the digest is taken of; \<open>len() as u64\<close> keeps the low 64 bits.\<close>

definition att_message :: "settle_id \<Rightarrow> payout_outcome \<Rightarrow> string \<Rightarrow> u64 \<Rightarrow> string" where
  "att_message i status evidence_ref observed_at =
     ''safro/payout-attestation/v1'' @ raw_bytes i @ [outcome_byte status]
       @ to_be_bytes (of_nat (length evidence_ref)) @ evidence_ref @ to_be_bytes observed_at"

definition att_digest :: "secp \<Rightarrow> settle_id \<Rightarrow> payout_outcome \<Rightarrow> string \<Rightarrow> u64 \<Rightarrow> u8 list" where
  "att_digest sp i status evidence_ref observed_at = sp_sha256 sp (att_message i status evidence_ref observed_at)"

definition att_sign :: "secp \<Rightarrow> u8 list \<Rightarrow> settle_id \<Rightarrow> payout_outcome \<Rightarrow> string \<Rightarrow> u64 \<Rightarrow> attestation" where
  "att_sign sp signing_key i status evidence_ref observed_at =
     \<lparr>att_settlement_id = i, att_status = status, att_evidence_ref = evidence_ref,
      att_observed_at = observed_at, att_signer = sp_public sp signing_key,
      att_signature = sp_sign sp (att_digest sp i status evidence_ref observed_at) signing_key\<rparr>"

definition att_verify :: "secp \<Rightarrow> attestation \<Rightarrow> attestation_error + unit" where
  "att_verify sp a =
     (case sp_parse_key sp (att_signer a) of
        None \<Rightarrow> Inl AttMalformed
      | Some pubkey \<Rightarrow>
          (case sp_parse_sig sp (att_signature a) of
             None \<Rightarrow> Inl AttMalformed
           | Some signature \<Rightarrow>
               if sp_verify sp (att_digest sp (att_settlement_id a) (att_status a) (att_evidence_ref a)
                    (att_observed_at a)) signature pubkey
               then Inr () else Inl AttInvalidSignature))"

section \<open>quote.rs\<close>

record quote_terms =
  qt_quote_id :: settle_id
  qt_source_amount :: fiat_amount
  qt_destination_amount :: fiat_amount
  qt_settlement_amount :: settle_msats
  qt_fee_amount :: fiat_amount
  qt_expires_at_unix :: u64
  qt_source_provider :: "u8 list"
  qt_destination_provider :: "u8 list"

record executable_quote =
  xq_terms :: quote_terms
  xq_signer :: "u8 list"
  xq_signature :: "u8 list"

datatype quote_error = QuoteExpired | QuoteMalformed | QuoteInvalidSignature | QuoteWrongProviders

definition quote_digest :: "secp \<Rightarrow> (quote_terms \<Rightarrow> string) \<Rightarrow> quote_terms \<Rightarrow> u8 list" where
  "quote_digest sp terms_json terms = sp_sha256 sp (''safro/executable-quote/v1'' @ terms_json terms)"

definition quote_sign :: "secp \<Rightarrow> (quote_terms \<Rightarrow> string) \<Rightarrow> u8 list \<Rightarrow> quote_terms \<Rightarrow> executable_quote" where
  "quote_sign sp terms_json signing_key terms =
     \<lparr>xq_terms = terms, xq_signer = sp_public sp signing_key,
      xq_signature = sp_sign sp (quote_digest sp terms_json terms) signing_key\<rparr>"

definition quote_verify ::
  "secp \<Rightarrow> (quote_terms \<Rightarrow> string) \<Rightarrow> executable_quote \<Rightarrow> u8 list \<Rightarrow> u8 list \<Rightarrow> u8 list \<Rightarrow> u64 \<Rightarrow> quote_error + unit" where
  "quote_verify sp terms_json q expected_signer source_provider destination_provider now_unix =
     (if qt_expires_at_unix (xq_terms q) \<le> now_unix then Inl QuoteExpired
      else (case sp_parse_key sp (xq_signer q) of
        None \<Rightarrow> Inl QuoteMalformed
      | Some signer \<Rightarrow>
          (case sp_parse_sig sp (xq_signature q) of
             None \<Rightarrow> Inl QuoteMalformed
           | Some signature \<Rightarrow>
               if signer \<noteq> expected_signer \<or> qt_source_provider (xq_terms q) \<noteq> source_provider
                  \<or> qt_destination_provider (xq_terms q) \<noteq> destination_provider
               then Inl QuoteWrongProviders
               else if sp_verify sp (quote_digest sp terms_json (xq_terms q)) signature signer
               then Inr () else Inl QuoteInvalidSignature)))"

section \<open>What a signature covers\<close>

lemma char_of_byte_inj: "char_of (unat a) = (char_of (unat b) :: char) \<longleftrightarrow> a = b" for a b :: u8
proof -
  have "unat a < 256" "unat b < 256" using unsigned_less [of a, where 'a = nat] unsigned_less [of b, where 'a = nat] by simp_all
  then show ?thesis by (metis of_char_of mod_less word_unat_eq_iff)
qed

lemma raw_bytes_inj: "raw_bytes a = raw_bytes b \<longleftrightarrow> a = b"
  unfolding raw_bytes_def by (rule inj_map_eq_map) (blast intro: injI char_of_byte_inj [THEN iffD1])

lemma length_raw_bytes [simp]: "length (raw_bytes a) = length a"
  by (simp add: raw_bytes_def)

lemma outcome_byte_inj: "outcome_byte a = outcome_byte b \<longleftrightarrow> a = b"
  by (cases a; cases b) simp_all

lemma att_message_inj:
  assumes "att_message i st ev t = att_message i' st' ev' t'"
    and "length i = 16" and "length i' = 16" and "length ev < 2 ^ 64" and "length ev' < 2 ^ 64"
  shows "i = i' \<and> st = st' \<and> ev = ev' \<and> t = t'"
proof -
  have 1: "raw_bytes i @ [outcome_byte st] @ to_be_bytes (of_nat (length ev)) @ ev @ to_be_bytes t
      = raw_bytes i' @ [outcome_byte st'] @ to_be_bytes (of_nat (length ev')) @ ev' @ to_be_bytes t'"
    using assms(1) by (simp add: att_message_def)
  then have i: "i = i'" and 2: "st = st'" "to_be_bytes (of_nat (length ev)) @ ev @ to_be_bytes t
      = to_be_bytes (of_nat (length ev')) @ ev' @ to_be_bytes t'"
    using assms(2,3) by (simp_all add: raw_bytes_inj outcome_byte_inj)
  then have len: "(of_nat (length ev) :: u64) = of_nat (length ev')" and 3: "ev @ to_be_bytes t = ev' @ to_be_bytes t'"
    by (simp_all add: to_be_bytes_inj)
  from len have "unat (of_nat (length ev) :: u64) = unat (of_nat (length ev') :: u64)" by simp
  then have "length ev = length ev'" using assms(4,5) by (simp add: unat_of_nat)
  then show ?thesis using i 2(1) 3 by (simp add: to_be_bytes_inj)
qed

lemma att_sign_verifies: "ecdsa_ok sp \<Longrightarrow> att_verify sp (att_sign sp k i st ev t) = Inr ()"
  by (simp add: att_verify_def att_sign_def ecdsa_ok_def)

lemma quote_verify_Inr:
  "quote_verify sp tj q expected src dst now = Inr () \<longleftrightarrow>
     now < qt_expires_at_unix (xq_terms q) \<and> sp_parse_key sp (xq_signer q) = Some expected
     \<and> qt_source_provider (xq_terms q) = src \<and> qt_destination_provider (xq_terms q) = dst
     \<and> (\<exists>sig. sp_parse_sig sp (xq_signature q) = Some sig \<and> sp_verify sp (quote_digest sp tj (xq_terms q)) sig expected)"
  by (auto simp: quote_verify_def not_le split: option.splits if_splits)

text \<open>
  C35. An attestation says what its signer signed: one made with a key verifies under that key, and the
  signed bytes determine the settlement, the outcome, the evidence and the time, so no statement can be
  passed off under a signature made for another (up to collisions of SHA-256 and forgery of ECDSA).
\<close>

theorem attestation_binds:
  assumes "ecdsa_ok sp" and "length i = 16" and "length ev < 2 ^ 64"
  shows "att_verify sp (att_sign sp k i st ev t) = Inr ()
    \<and> att_signer (att_sign sp k i st ev t) = sp_public sp k
    \<and> (\<forall>i' st' ev' t'. length i' = 16 \<longrightarrow> length ev' < 2 ^ 64
         \<longrightarrow> att_message i' st' ev' t' = att_message i st ev t \<longrightarrow> (i', st', ev', t') = (i, st, ev, t))"
proof (intro conjI allI impI)
  show "att_verify sp (att_sign sp k i st ev t) = Inr ()" using att_sign_verifies [OF assms(1)] .
  show "att_signer (att_sign sp k i st ev t) = sp_public sp k" by (simp add: att_sign_def)
  show "(i', st', ev', t') = (i, st, ev, t)"
    if "length i' = 16" "length ev' < 2 ^ 64" "att_message i' st' ev' t' = att_message i st ev t" for i' st' ev' t'
    using att_message_inj [OF that(3,1) assms(2) that(2) assms(3)] by simp
qed

text \<open>A signature scheme for examples: a signature is the digest and the key.\<close>

definition plain_secp :: secp where
  "plain_secp = \<lparr>sp_sha256 = (\<lambda>s. map (\<lambda>c. of_nat (of_char c)) s), sp_sign = (\<lambda>m k. k @ m), sp_public = (\<lambda>k. k),
     sp_parse_key = Some, sp_parse_sig = Some, sp_verify = (\<lambda>m sig k. sig = k @ m)\<rparr>"

lemma plain_secp_ok: "ecdsa_ok plain_secp"
  by (simp add: ecdsa_ok_def plain_secp_def)

theorem attestation_binds_witness:
  "att_verify plain_secp (att_sign plain_secp [5] (replicate 16 0) OutConfirmed ''rail-1'' 7) = Inr ()"
  using attestation_binds [OF plain_secp_ok, of "replicate 16 0" "''rail-1''" "[5]" OutConfirmed 7] by simp

end
