(* ===== verification/Settle_Store.thy ===== *)
theory Settle_Store
  imports Settle_Sign
begin

text \<open>
  The settlement store (legacy/settlement/src/store.rs): the record, the contract of the trait as a
  locale, the store in memory and the journal in a file. A hash map is a list of records with distinct
  identifiers; the order in which it is iterated is not relied on. The JSON codec is a parameter.
\<close>

record settlement_record =
  sr_id :: settle_id
  sr_state :: settlement_state
  sr_fiat_amount :: fiat_amount
  sr_btc_amount :: settle_msats
  sr_counterparty :: string
  sr_beneficiary :: string
  sr_payout_key :: string
  sr_quote_expires_at :: "u64 option"
  sr_quote :: "executable_quote option"
  sr_source_reservation :: "settle_id option"
  sr_counterparty_invoice :: "string option"
  sr_attestations :: "attestation list"

section \<open>The trait\<close>

record 's store_ops =
  so_put :: "settlement_record \<Rightarrow> 's \<Rightarrow> 's"
  so_get :: "settle_id \<Rightarrow> 's \<Rightarrow> settlement_record option"
  so_pending :: "'s \<Rightarrow> settlement_record list"

definition closed :: "settlement_state \<Rightarrow> bool" where
  "closed s \<longleftrightarrow> s = StReleased \<or> s = StRefunded"

locale settlement_store =
  fixes so :: "'s store_ops" and ok :: "'s \<Rightarrow> bool"
  assumes put_ok: "ok s \<Longrightarrow> ok (so_put so r s)"
    and get_put: "ok s \<Longrightarrow> so_get so i (so_put so r s) = (if i = sr_id r then Some r else so_get so i s)"
    and get_id: "ok s \<Longrightarrow> so_get so i s = Some r \<Longrightarrow> sr_id r = i"
    and pending_iff: "ok s \<Longrightarrow> r \<in> set (so_pending so s) \<longleftrightarrow> so_get so (sr_id r) s = Some r \<and> \<not> closed (sr_state r)"
begin

lemma get_put_same: "ok s \<Longrightarrow> so_get so (sr_id r) (so_put so r s) = Some r"
  by (simp add: get_put)

lemma get_put_cases:
  assumes "ok s" and "so_get so i (so_put so r s) = Some x"
  obtains (new) "x = r" "i = sr_id r" | (old) "i \<noteq> sr_id r" "so_get so i s = Some x"
  using assms by (auto simp: get_put split: if_splits)

end

section \<open>In memory\<close>

definition put_record :: "settlement_record \<Rightarrow> settlement_record list \<Rightarrow> settlement_record list" where
  "put_record r rs = filter (\<lambda>x. sr_id x \<noteq> sr_id r) rs @ [r]"

definition get_record :: "settle_id \<Rightarrow> settlement_record list \<Rightarrow> settlement_record option" where
  "get_record i rs = find (\<lambda>x. sr_id x = i) rs"

definition pending_records :: "settlement_record list \<Rightarrow> settlement_record list" where
  "pending_records rs = filter (\<lambda>r. \<not> closed (sr_state r)) rs"

definition memory_ops :: "settlement_record list store_ops" where
  "memory_ops = \<lparr>so_put = put_record, so_get = get_record, so_pending = pending_records\<rparr>"

abbreviation records_ok :: "settlement_record list \<Rightarrow> bool" where
  "records_ok rs \<equiv> distinct (map sr_id rs)"

lemma get_record_Some: "get_record i rs = Some r \<Longrightarrow> r \<in> set rs \<and> sr_id r = i"
  by (auto simp: get_record_def find_Some_iff)

lemma get_record_mem: "records_ok rs \<Longrightarrow> get_record (sr_id r) rs = Some r \<longleftrightarrow> r \<in> set rs"
  by (induction rs) (auto simp: get_record_def)

lemma put_record_ok: "records_ok rs \<Longrightarrow> records_ok (put_record r rs)"
  by (auto simp: put_record_def distinct_map_filter)

lemma get_put_record: "get_record i (put_record r rs) = (if i = sr_id r then Some r else get_record i rs)"
  by (induction rs) (auto simp: get_record_def put_record_def)

interpretation memory: settlement_store memory_ops records_ok
  by unfold_locales
    (auto simp: memory_ops_def put_record_ok get_put_record pending_records_def get_record_mem dest: get_record_Some)

section \<open>In a file\<close>

text \<open>
  The files by path, and what the calls of one \<open>save\<close> do: how the temporary file is opened, how many
  bytes are written before an error (\<open>None\<close> for all), and whether the two syncs and the rename succeed.
\<close>

type_synonym disk = "string \<Rightarrow> string option"

record save_io =
  io_open :: bool
  io_written :: "nat option"
  io_sync :: bool
  io_rename :: bool
  io_sync_dir :: bool

record file_store =
  fs_path :: string
  fs_tmp :: string
  fs_records :: "settlement_record list"
  fs_poisoned :: bool
  fs_disk :: disk

definition save :: "save_io \<Rightarrow> string \<Rightarrow> string \<Rightarrow> string \<Rightarrow> disk \<Rightarrow> bool \<times> disk" where
  "save io path tmp bytes disk =
     (if \<not> io_open io then (False, disk)
      else case io_written io of
        Some n \<Rightarrow> (False, disk(tmp \<mapsto> take n bytes))
      | None \<Rightarrow>
          if \<not> io_sync io \<or> \<not> io_rename io then (False, disk(tmp \<mapsto> bytes))
          else (io_sync_dir io, disk(tmp := None, path \<mapsto> bytes)))"

text \<open>What is on the disk if the process dies inside \<open>save\<close>.\<close>

definition save_crash :: "string \<Rightarrow> string \<Rightarrow> string \<Rightarrow> disk \<Rightarrow> disk \<Rightarrow> bool" where
  "save_crash path tmp bytes disk disk' \<longleftrightarrow>
     disk' = disk \<or> (\<exists>n. disk' = disk(tmp \<mapsto> take n bytes)) \<or> disk' = disk(tmp := None, path \<mapsto> bytes)"

text \<open>
  \<open>open\<close> reads what is there. The mutex of a store whose \<open>put\<close> panicked is poisoned, and every later
  call panics; a panic is \<open>Inl\<close> with the state it leaves.
\<close>

definition file_open :: "(string \<Rightarrow> settlement_record list option) \<Rightarrow> string \<Rightarrow> string \<Rightarrow> disk \<Rightarrow> string + file_store" where
  "file_open decode path tmp disk =
     (case disk path of
        None \<Rightarrow> Inr \<lparr>fs_path = path, fs_tmp = tmp, fs_records = [], fs_poisoned = False, fs_disk = disk\<rparr>
      | Some bytes \<Rightarrow>
          (case decode bytes of
             None \<Rightarrow> Inl ''parse error''
           | Some rs \<Rightarrow> Inr \<lparr>fs_path = path, fs_tmp = tmp, fs_records = rs, fs_poisoned = False, fs_disk = disk\<rparr>))"

definition file_put ::
  "(settlement_record list \<Rightarrow> string) \<Rightarrow> save_io \<Rightarrow> settlement_record \<Rightarrow> file_store \<Rightarrow> file_store + file_store" where
  "file_put encode io r fs =
     (if fs_poisoned fs then Inl fs
      else
        (let rs = put_record r (fs_records fs);
             (saved, disk) = save io (fs_path fs) (fs_tmp fs) (encode rs) (fs_disk fs)
         in if saved then Inr (fs\<lparr>fs_records := rs, fs_disk := disk\<rparr>)
            else Inl (fs\<lparr>fs_poisoned := True, fs_disk := disk\<rparr>)))"

definition file_get :: "settle_id \<Rightarrow> file_store \<Rightarrow> settlement_record option" where
  "file_get i fs = get_record i (fs_records fs)"

definition file_pending :: "file_store \<Rightarrow> settlement_record list" where
  "file_pending fs = pending_records (fs_records fs)"

definition good_io :: save_io where
  "good_io = \<lparr>io_open = True, io_written = None, io_sync = True, io_rename = True, io_sync_dir = True\<rparr>"

text \<open>The file store with a disk that works.\<close>

definition file_ops :: "(settlement_record list \<Rightarrow> string) \<Rightarrow> file_store store_ops" where
  "file_ops encode = \<lparr>so_put = (\<lambda>r fs. case file_put encode good_io r fs of Inl x \<Rightarrow> x | Inr x \<Rightarrow> x),
     so_get = file_get, so_pending = file_pending\<rparr>"

lemma file_put_good:
  "\<not> fs_poisoned fs \<Longrightarrow> \<exists>disk. file_put encode good_io r fs
     = Inr (fs\<lparr>fs_records := put_record r (fs_records fs), fs_disk := disk\<rparr>)"
  by (auto simp: file_put_def save_def good_io_def Let_def)

interpretation journal: settlement_store "file_ops encode" "\<lambda>fs. \<not> fs_poisoned fs \<and> records_ok (fs_records fs)" for encode
proof
  fix s :: file_store and r i
  assume ok: "\<not> fs_poisoned s \<and> records_ok (fs_records s)"
  then obtain disk where p: "file_put encode good_io r s = Inr (s\<lparr>fs_records := put_record r (fs_records s), fs_disk := disk\<rparr>)"
    using file_put_good by blast
  show "\<not> fs_poisoned (so_put (file_ops encode) r s) \<and> records_ok (fs_records (so_put (file_ops encode) r s))"
    using ok p by (simp add: file_ops_def put_record_ok)
  show "so_get (file_ops encode) i (so_put (file_ops encode) r s)
      = (if i = sr_id r then Some r else so_get (file_ops encode) i s)"
    using p by (simp add: file_ops_def file_get_def get_put_record)
  show "so_get (file_ops encode) i s = Some r \<Longrightarrow> sr_id r = i"
    by (auto simp: file_ops_def file_get_def dest: get_record_Some)
  show "r \<in> set (so_pending (file_ops encode) s)
      \<longleftrightarrow> so_get (file_ops encode) (sr_id r) s = Some r \<and> \<not> closed (sr_state r)"
    using ok by (auto simp: file_ops_def file_get_def file_pending_def pending_records_def get_record_mem)
qed

section \<open>The journal survives\<close>

text \<open>The disk holds what the store has in memory.\<close>

definition journal_ok :: "(string \<Rightarrow> settlement_record list option) \<Rightarrow> file_store \<Rightarrow> bool" where
  "journal_ok decode fs \<longleftrightarrow> fs_tmp fs \<noteq> fs_path fs \<and> \<not> fs_poisoned fs
     \<and> (case fs_disk fs (fs_path fs) of None \<Rightarrow> fs_records fs = [] | Some bytes \<Rightarrow> decode bytes = Some (fs_records fs))"

definition reopened :: "(string \<Rightarrow> settlement_record list option) \<Rightarrow> file_store \<Rightarrow> disk \<Rightarrow> settlement_record list option" where
  "reopened decode fs disk =
     (case file_open decode (fs_path fs) (fs_tmp fs) disk of Inl _ \<Rightarrow> None | Inr fs' \<Rightarrow> Some (fs_records fs'))"

lemma reopened_eq:
  "reopened decode fs disk = (case disk (fs_path fs) of None \<Rightarrow> Some [] | Some bytes \<Rightarrow> decode bytes)"
  by (simp add: reopened_def file_open_def split: option.split)

lemma reopened_old:
  assumes "journal_ok decode fs" and "disk (fs_path fs) = fs_disk fs (fs_path fs)"
  shows "reopened decode fs disk = Some (fs_records fs)"
  using assms by (auto simp: journal_ok_def reopened_eq split: option.splits)

text \<open>
  C36. The settlement journal is atomic: a \<open>put\<close> that returns keeps the journal equal to memory, so a
  restart reads the new record; a \<open>put\<close> that panics on an I/O error, and a process that dies anywhere
  inside \<open>save\<close>, leave a file from which a restart reads either all the old records or all the new ones,
  never a mixture or a parse error. This needs a codec that reads back what it wrote and a temporary
  file distinct from the journal.
\<close>

theorem journal_atomic:
  assumes "journal_ok decode fs"
    and "decode (encode (put_record r (fs_records fs))) = Some (put_record r (fs_records fs))"
  shows "(\<forall>fs'. file_put encode io r fs = Inr fs' \<longrightarrow> journal_ok decode fs'
            \<and> reopened decode fs' (fs_disk fs') = Some (put_record r (fs_records fs)))
    \<and> (\<forall>fs'. file_put encode io r fs = Inl fs' \<longrightarrow> fs_poisoned fs' \<and> fs_records fs' = fs_records fs
            \<and> reopened decode fs (fs_disk fs') \<in> {Some (fs_records fs), Some (put_record r (fs_records fs))})
    \<and> (\<forall>disk'. save_crash (fs_path fs) (fs_tmp fs) (encode (put_record r (fs_records fs))) (fs_disk fs) disk'
         \<longrightarrow> reopened decode fs disk' \<in> {Some (fs_records fs), Some (put_record r (fs_records fs))})"
proof -
  let ?rs = "put_record r (fs_records fs)"
  have j: "decode (encode ?rs) = Some ?rs" "fs_tmp fs \<noteq> fs_path fs" "\<not> fs_poisoned fs"
    using assms by (simp_all add: journal_ok_def)
  have old: "reopened decode fs (fs_disk fs) = Some (fs_records fs)"
      "reopened decode fs ((fs_disk fs)(fs_tmp fs \<mapsto> x)) = Some (fs_records fs)" for x
    using reopened_old [OF assms(1)] j(2) by simp_all
  have new: "reopened decode fs ((fs_disk fs)(fs_tmp fs := None, fs_path fs \<mapsto> encode ?rs)) = Some ?rs"
    using j(1) by (simp add: reopened_eq)
  have ret: "journal_ok decode fs' \<and> reopened decode fs' (fs_disk fs') = Some ?rs"
    if "file_put encode io r fs = Inr fs'" for fs'
  proof -
    have "fs' = fs\<lparr>fs_records := ?rs, fs_disk := (fs_disk fs)(fs_tmp fs := None, fs_path fs \<mapsto> encode ?rs)\<rparr>"
      using that j(3) by (auto simp: file_put_def save_def Let_def split: if_splits option.splits)
    then show ?thesis using assms j by (simp add: journal_ok_def reopened_eq)
  qed
  have pan: "fs_poisoned fs' \<and> fs_records fs' = fs_records fs
      \<and> reopened decode fs (fs_disk fs') \<in> {Some (fs_records fs), Some ?rs}"
    if "file_put encode io r fs = Inl fs'" for fs'
    using that j(3) old new by (auto simp: file_put_def save_def Let_def split: if_splits option.splits)
  show ?thesis using ret pan old new by (auto simp: save_crash_def)
qed

definition sample_record :: settlement_record where
  "sample_record = \<lparr>sr_id = replicate 16 1, sr_state = StQuoted,
     sr_fiat_amount = \<lparr>fa_currency = FiatNgn, fa_minor_units = 1000\<rparr>, sr_btc_amount = SettleMsats 1000,
     sr_counterparty = ''kes-node'', sr_beneficiary = [], sr_payout_key = ''k'', sr_quote_expires_at = None,
     sr_quote = None, sr_source_reservation = None, sr_counterparty_invoice = None, sr_attestations = []\<rparr>"

text \<open>A codec that knows one journal.\<close>

theorem journal_atomic_witness:
  "\<exists>encode decode fs fs'. journal_ok decode fs \<and> fs_records fs = []
     \<and> file_put encode good_io sample_record fs = Inr fs'
     \<and> reopened decode fs' (fs_disk fs') = Some [sample_record]"
proof -
  let ?enc = "\<lambda>rs :: settlement_record list. ''one''" and ?dec = "\<lambda>t :: string. Some [sample_record]"
  let ?fs = "\<lparr>fs_path = ''a'', fs_tmp = ''b'', fs_records = [], fs_poisoned = False, fs_disk = (\<lambda>_. None)\<rparr>"
  have j: "journal_ok ?dec ?fs" by (simp add: journal_ok_def)
  have p: "put_record sample_record (fs_records ?fs) = [sample_record]" by (simp add: put_record_def)
  obtain fs' where f: "file_put ?enc good_io sample_record ?fs = Inr fs'"
    using file_put_good [of ?fs ?enc sample_record] by auto
  have "reopened ?dec fs' (fs_disk fs') = Some [sample_record]"
    using journal_atomic [OF j, where encode = ?enc and r = sample_record and io = good_io] f p by simp
  then show ?thesis using j f by (intro exI [of _ ?enc] exI [of _ ?dec] exI [of _ ?fs] exI [of _ fs']) simp
qed

end
