(* ===== verification/Settle_Rails.thy ===== *)
theory Settle_Rails
  imports Settle_Store Storage_Db
begin

text \<open>
  The two rails of a settlement: the fiat adapter (adapter.rs) with its simulation
  (adapters/simulated.rs), and the Lightning side (lightning/mod.rs) backed by Core Lightning
  (lightning/cln.rs). Each trait is a record of operations with its contract as a locale.
\<close>

section \<open>adapter.rs\<close>

datatype adapter_error = Rejected string | Timeout | ReservationNotFound

record 'a adapter_ops =
  ao_reserve :: "fiat_amount \<Rightarrow> 'a \<Rightarrow> (adapter_error + settle_id) \<times> 'a"
  ao_initiate :: "settle_id \<Rightarrow> string \<Rightarrow> string \<Rightarrow> 'a \<Rightarrow> (adapter_error + payout_outcome) \<times> 'a"
  ao_query :: "string \<Rightarrow> 'a \<Rightarrow> adapter_error + payout_outcome option"
  ao_cancel :: "settle_id \<Rightarrow> 'a \<Rightarrow> (adapter_error + unit) \<times> 'a"

text \<open>
  The contract: what an initiated payout answers is what a query reports from then on, a second
  initiation never changes it, and nothing else does.
\<close>

locale fiat_adapter =
  fixes ao :: "'a adapter_ops"
  assumes initiate_recorded: "ao_initiate ao rv b k a = (Inr out, a') \<Longrightarrow> ao_query ao k a' = Inr (Some out)"
    and rejection_recorded: "ao_initiate ao rv b k a = (Inl (Rejected why), a') \<Longrightarrow> ao_query ao k a' = Inr (Some OutFailed)"
    and initiate_keeps: "ao_query ao k' a = Inr (Some out) \<Longrightarrow> ao_initiate ao rv b k a = (res, a') \<Longrightarrow> ao_query ao k' a' = Inr (Some out)"
    and reserve_keeps: "ao_reserve ao amount a = (res', a') \<Longrightarrow> ao_query ao k a' = ao_query ao k a"
    and cancel_keeps: "ao_cancel ao rv a = (res'', a') \<Longrightarrow> ao_query ao k a' = ao_query ao k a"
begin

lemma initiate_replays:
  assumes "ao_query ao k a = Inr (Some out)" and "ao_initiate ao rv b k a = (Inr out', a')"
  shows "out' = out"
  using initiate_recorded [OF assms(2)] initiate_keeps [OF assms(1,2)] by simp

end

section \<open>adapters/simulated.rs\<close>

datatype payout_behavior = SimConfirmed | SimRejected string | SimConfirmedAfterTimeout

text \<open>The random identifiers are a sequence and the position in it.\<close>

record simulated =
  sim_reservations :: "settle_id \<rightharpoonup> fiat_amount"
  sim_payouts :: "string \<rightharpoonup> payout_outcome"
  sim_behaviors :: "string \<rightharpoonup> payout_behavior"
  sim_draw :: "nat \<Rightarrow> settle_id"
  sim_next :: nat

definition simulated_new :: "(nat \<Rightarrow> settle_id) \<Rightarrow> simulated" where
  "simulated_new draw = \<lparr>sim_reservations = Map.empty, sim_payouts = Map.empty, sim_behaviors = Map.empty,
     sim_draw = draw, sim_next = 0\<rparr>"

definition set_behavior :: "string \<Rightarrow> payout_behavior \<Rightarrow> simulated \<Rightarrow> simulated" where
  "set_behavior k b s = s\<lparr>sim_behaviors := (sim_behaviors s)(k \<mapsto> b)\<rparr>"

definition sim_reserve :: "fiat_amount \<Rightarrow> simulated \<Rightarrow> (adapter_error + settle_id) \<times> simulated" where
  "sim_reserve amount s =
     (let i = sim_draw s (sim_next s)
      in (Inr i, s\<lparr>sim_reservations := (sim_reservations s)(i \<mapsto> amount), sim_next := sim_next s + 1\<rparr>))"

definition sim_initiate ::
  "settle_id \<Rightarrow> string \<Rightarrow> string \<Rightarrow> simulated \<Rightarrow> (adapter_error + payout_outcome) \<times> simulated" where
  "sim_initiate reservation beneficiary k s =
     (if sim_reservations s reservation = None then (Inl ReservationNotFound, s)
      else case sim_payouts s k of
        Some out \<Rightarrow> (Inr out, s)
      | None \<Rightarrow>
          (case (case sim_behaviors s k of Some b \<Rightarrow> b | None \<Rightarrow> SimConfirmed) of
             SimConfirmed \<Rightarrow> (Inr OutConfirmed, s\<lparr>sim_payouts := (sim_payouts s)(k \<mapsto> OutConfirmed)\<rparr>)
           | SimRejected reason \<Rightarrow> (Inl (Rejected reason), s\<lparr>sim_payouts := (sim_payouts s)(k \<mapsto> OutFailed)\<rparr>)
           | SimConfirmedAfterTimeout \<Rightarrow> (Inl Timeout, s\<lparr>sim_payouts := (sim_payouts s)(k \<mapsto> OutConfirmed)\<rparr>)))"

definition sim_query :: "string \<Rightarrow> simulated \<Rightarrow> adapter_error + payout_outcome option" where
  "sim_query k s = Inr (sim_payouts s k)"

definition sim_cancel :: "settle_id \<Rightarrow> simulated \<Rightarrow> (adapter_error + unit) \<times> simulated" where
  "sim_cancel reservation s =
     (if sim_reservations s reservation = None then (Inl ReservationNotFound, s)
      else (Inr (), s\<lparr>sim_reservations := (sim_reservations s)(reservation := None)\<rparr>))"

definition simulated_ops :: "simulated adapter_ops" where
  "simulated_ops = \<lparr>ao_reserve = sim_reserve, ao_initiate = sim_initiate, ao_query = sim_query, ao_cancel = sim_cancel\<rparr>"

interpretation simulated: fiat_adapter simulated_ops
  by unfold_locales
    (auto simp: simulated_ops_def sim_initiate_def sim_query_def sim_reserve_def sim_cancel_def Let_def
      split: if_splits option.splits payout_behavior.splits)

section \<open>lightning/mod.rs\<close>

datatype settle_ln_error =
    InsufficientLiquidity | PeerUnreachable | AmountMismatch | MalformedInvoice string | NoRecordedInvoice
  | LnBackendError string

record 'l lightning_ops =
  lo_create :: "settle_id \<Rightarrow> settle_msats \<Rightarrow> 'l \<Rightarrow> (settle_ln_error + string) \<times> 'l"
  lo_accept :: "settle_id \<Rightarrow> settle_msats \<Rightarrow> string \<Rightarrow> 'l \<Rightarrow> (settle_ln_error + unit) \<times> 'l"
  lo_release :: "settle_id \<Rightarrow> 'l \<Rightarrow> (settle_ln_error + u8 list) \<times> 'l"
  lo_refund :: "settle_id \<Rightarrow> 'l \<Rightarrow> (settle_ln_error + unit) \<times> 'l"

text \<open>
  The contract, over what the backend has accepted (\<open>held\<close>) and the invoices it was asked to pay
  (\<open>asked\<close>): only an invoice of the agreed amount is accepted, only a release pays, and it pays
  the invoice accepted for that settlement.
\<close>

locale lightning_settlement =
  fixes lo :: "'l lightning_ops" and held :: "'l \<Rightarrow> settle_id \<Rightarrow> string option" and asked :: "'l \<Rightarrow> string set"
    and amount :: "string \<Rightarrow> u64 option"
  assumes create_frame: "lo_create lo i m l = (r1, l') \<Longrightarrow> held l' = held l \<and> asked l' = asked l"
    and accept_error: "lo_accept lo i m b l = (Inl err, l') \<Longrightarrow> held l' = held l \<and> asked l' = asked l"
    and accept_ok: "lo_accept lo i m b l = (Inr u, l') \<Longrightarrow> amount b = Some (settle_msat m)
        \<and> held l' = (held l)(i \<mapsto> b) \<and> asked l' = asked l"
    and release_asks: "lo_release lo i l = (r2, l') \<Longrightarrow>
        asked l' \<subseteq> asked l \<union> set_option (held l i) \<and> (\<forall>j. j \<noteq> i \<longrightarrow> held l' j = held l j)
        \<and> (held l' i = held l i \<or> held l' i = None)"
    and release_ok: "lo_release lo i l = (Inr p, l') \<Longrightarrow> \<exists>b. held l i = Some b \<and> b \<in> asked l'"
    and asked_kept: "lo_release lo i l = (r4, l') \<Longrightarrow> asked l \<subseteq> asked l'"
    and refund_frame: "lo_refund lo i l = (r3, l') \<Longrightarrow> held l' = (held l)(i := None) \<and> asked l' = asked l"

text \<open>A backend that starts again: what it was asked to pay stays, what it holds is gone.\<close>

locale restartable_lightning = lightning_settlement lo held asked amount
  for lo :: "'l lightning_ops" and held asked amount +
  fixes restart :: "'l \<Rightarrow> 'l"
  assumes restart_frame: "held (restart l) = Map.empty \<and> asked (restart l) = asked l"

section \<open>lightning/cln.rs\<close>

text \<open>
  \<open>lightningd\<close> behind its socket: the requests sent so far, and what it answers as a function of them
  (an error when the connection, the encoding or the reply fails). The parser of \<open>lightning_invoice\<close>
  gives an error text or the amount.
\<close>

record cln =
  cl_pending :: "settle_id \<rightharpoonup> string"
  cl_next_id :: nat
  cl_log :: "(string \<times> json) list"

record cln_env =
  ce_reply :: "(string \<times> json) list \<Rightarrow> string + json"
  ce_amount :: "string \<Rightarrow> string + u64 option"
  ce_text :: "json \<Rightarrow> string"

fun json_field :: "string \<Rightarrow> json \<Rightarrow> json option" where
  "json_field k (JObj kvs) = map_of kvs k"
| "json_field k v = None"

fun json_as_str :: "json option \<Rightarrow> string option" where
  "json_as_str (Some (JStr s)) = Some s"
| "json_as_str _ = None"

definition cln_call :: "cln_env \<Rightarrow> string \<Rightarrow> json \<Rightarrow> cln \<Rightarrow> (settle_ln_error + json) \<times> cln" where
  "cln_call ce method params l =
     (let log = cl_log l @ [(method, params)]; l' = l\<lparr>cl_next_id := cl_next_id l + 1, cl_log := log\<rparr>
      in (case ce_reply ce log of
            Inl err \<Rightarrow> (Inl (LnBackendError err), l')
          | Inr response \<Rightarrow>
              (case json_field ''error'' response of
                 Some err \<Rightarrow> (Inl (LnBackendError (''lightningd error: '' @ ce_text ce err)), l')
               | None \<Rightarrow>
                   (case json_field ''result'' response of
                      Some result \<Rightarrow> (Inr result, l')
                    | None \<Rightarrow> (Inl (LnBackendError ''response had neither result nor error''), l')))))"

text \<open>A text that is not ASCII is a decoding error here; slicing it inside a character panics in the code.\<close>

definition hex_decode_32 :: "string \<Rightarrow> u8 list option" where
  "hex_decode_32 s = (if length s \<noteq> 64 then None else hex_pairs s)"

definition cln_create :: "cln_env \<Rightarrow> settle_id \<Rightarrow> settle_msats \<Rightarrow> cln \<Rightarrow> (settle_ln_error + string) \<times> cln" where
  "cln_create ce i amount l =
     (case cln_call ce ''invoice'' (JObj [(''amount_msat'', JInt (uint (settle_msat amount))),
         (''label'', JStr (''safro-settlement-'' @ settle_id_text i)),
         (''description'', JStr (''Safro settlement '' @ settle_id_text i))]) l of
        (Inl err, l') \<Rightarrow> (Inl err, l')
      | (Inr result, l') \<Rightarrow>
          (case json_as_str (json_field ''bolt11'' result) of
             None \<Rightarrow> (Inl (LnBackendError ''invoice response missing bolt11''), l')
           | Some bolt11 \<Rightarrow> (Inr bolt11, l')))"

definition cln_accept ::
  "cln_env \<Rightarrow> settle_id \<Rightarrow> settle_msats \<Rightarrow> string \<Rightarrow> cln \<Rightarrow> (settle_ln_error + unit) \<times> cln" where
  "cln_accept ce i expected invoice l =
     (case ce_amount ce invoice of
        Inl err \<Rightarrow> (Inl (MalformedInvoice err), l)
      | Inr None \<Rightarrow> (Inl (MalformedInvoice ''invoice has no fixed amount''), l)
      | Inr (Some found) \<Rightarrow>
          if found \<noteq> settle_msat expected then (Inl AmountMismatch, l)
          else (Inr (), l\<lparr>cl_pending := (cl_pending l)(i \<mapsto> invoice)\<rparr>))"

definition cln_release :: "cln_env \<Rightarrow> settle_id \<Rightarrow> cln \<Rightarrow> (settle_ln_error + u8 list) \<times> cln" where
  "cln_release ce i l =
     (case cl_pending l i of
        None \<Rightarrow> (Inl NoRecordedInvoice, l)
      | Some invoice \<Rightarrow>
          (case cln_call ce ''pay'' (JObj [(''bolt11'', JStr invoice)]) l of
             (Inl err, l') \<Rightarrow> (Inl err, l')
           | (Inr result, l') \<Rightarrow>
               (case json_as_str (json_field ''payment_preimage'' result) of
                  None \<Rightarrow> (Inl (LnBackendError ''pay response missing payment_preimage''), l')
                | Some preimage_hex \<Rightarrow>
                    (case hex_decode_32 preimage_hex of
                       None \<Rightarrow> (Inl (LnBackendError ''payment_preimage was not 32 bytes of hex''), l')
                     | Some preimage \<Rightarrow> (Inr preimage, l'\<lparr>cl_pending := (cl_pending l')(i := None)\<rparr>)))))"

definition cln_refund :: "settle_id \<Rightarrow> cln \<Rightarrow> (settle_ln_error + unit) \<times> cln" where
  "cln_refund i l = (Inr (), l\<lparr>cl_pending := (cl_pending l)(i := None)\<rparr>)"

text \<open>A new client of the same \<open>lightningd\<close>, whose log of requests goes on.\<close>

definition cln_new :: "cln \<Rightarrow> cln" where
  "cln_new l = l\<lparr>cl_pending := Map.empty, cl_next_id := 1\<rparr>"

definition cln_ops :: "cln_env \<Rightarrow> cln lightning_ops" where
  "cln_ops ce = \<lparr>lo_create = cln_create ce, lo_accept = cln_accept ce, lo_release = cln_release ce, lo_refund = cln_refund\<rparr>"

text \<open>The invoices in the \<open>pay\<close> requests.\<close>

definition pay_requests :: "cln \<Rightarrow> string set" where
  "pay_requests l = {b. (''pay'', JObj [(''bolt11'', JStr b)]) \<in> set (cl_log l)}"

definition cln_amount :: "cln_env \<Rightarrow> string \<Rightarrow> u64 option" where
  "cln_amount ce b = (case ce_amount ce b of Inl _ \<Rightarrow> None | Inr a \<Rightarrow> a)"

lemma cln_call_effect: "cln_call ce m p l = (r, l') \<Longrightarrow> cl_pending l' = cl_pending l \<and> cl_log l' = cl_log l @ [(m, p)]"
  by (auto simp: cln_call_def Let_def split: sum.splits option.splits)

interpretation cln: restartable_lightning "cln_ops ce" cl_pending pay_requests "cln_amount ce" cln_new for ce
proof
  fix i m l r l'
  assume "lo_create (cln_ops ce) i m l = (r, l')"
  then show "cl_pending l' = cl_pending l \<and> pay_requests l' = pay_requests l"
    by (auto simp: cln_ops_def cln_create_def pay_requests_def split: prod.splits sum.splits option.splits dest!: cln_call_effect)
next
  fix i l r l'
  assume "lo_release (cln_ops ce) i l = (r, l')"
  then show "pay_requests l' \<subseteq> pay_requests l \<union> set_option (cl_pending l i)
      \<and> (\<forall>j. j \<noteq> i \<longrightarrow> cl_pending l' j = cl_pending l j) \<and> (cl_pending l' i = cl_pending l i \<or> cl_pending l' i = None)"
    and "pay_requests l \<subseteq> pay_requests l'"
    by (auto simp: cln_ops_def cln_release_def pay_requests_def split: prod.splits sum.splits option.splits dest!: cln_call_effect)
next
  fix i l p l'
  assume "lo_release (cln_ops ce) i l = (Inr p, l')"
  then show "\<exists>b. cl_pending l i = Some b \<and> b \<in> pay_requests l'"
    by (auto simp: cln_ops_def cln_release_def pay_requests_def split: prod.splits sum.splits option.splits dest!: cln_call_effect)
qed (auto simp: cln_ops_def cln_accept_def cln_refund_def cln_amount_def cln_new_def pay_requests_def
    split: sum.splits option.splits if_splits)

end
