(* ===== verification/Settle_Node.thy ===== *)
theory Settle_Node
  imports Settle_Rails
begin

text \<open>
  The settlement node (legacy/settlement/src/node.rs): every method of \<open>Node\<close> over its adapter, its
  Lightning backend and its store. The clock is an argument (\<open>None\<close> when it is before the epoch), as are
  the random bytes of a new identifier.
\<close>

datatype node_error =
    UnknownSettlement settle_id
  | MissingReservation
  | NodeTransition transition_error
  | NodeAdapter adapter_error
  | NodeLightning settle_ln_error
  | PayoutRejected string
  | PayoutUnknown
  | NodeQuoteExpired
  | NodeQuote quote_error
  | NotReconcilable settlement_state
  | StillUnknown
  | InvalidAttestation attestation_error
  | UnexpectedAttestationSigner
  | ConflictingEvidence

record ('a, 'l, 's) node_cfg =
  nc_adapter :: "'a adapter_ops"
  nc_lightning :: "'l lightning_ops"
  nc_store :: "'s store_ops"
  nc_secp :: secp
  nc_terms_json :: "quote_terms \<Rightarrow> string"
  nc_signing_key :: "u8 list"
  nc_peer_identity :: "u8 list option"

record ('a, 'l, 's) node =
  nd_adapter :: 'a
  nd_lightning :: 'l
  nd_store :: 's

definition node_get :: "('a, 'l, 's) node_cfg \<Rightarrow> settle_id \<Rightarrow> ('a, 'l, 's) node \<Rightarrow> node_error + settlement_record" where
  "node_get c i n = (case so_get (nc_store c) i (nd_store n) of None \<Rightarrow> Inl (UnknownSettlement i) | Some r \<Rightarrow> Inr r)"

definition node_put :: "('a, 'l, 's) node_cfg \<Rightarrow> settlement_record \<Rightarrow> ('a, 'l, 's) node \<Rightarrow> ('a, 'l, 's) node" where
  "node_put c r n = n\<lparr>nd_store := so_put (nc_store c) r (nd_store n)\<rparr>"

section \<open>Beginning a settlement\<close>

definition new_record ::
  "settle_id \<Rightarrow> settlement_state \<Rightarrow> fiat_amount \<Rightarrow> settle_msats \<Rightarrow> string \<Rightarrow> string \<Rightarrow> u64 option \<Rightarrow> executable_quote option
   \<Rightarrow> settle_id option \<Rightarrow> settlement_record" where
  "new_record i st fiat btc counterparty beneficiary expiry q reservation =
     \<lparr>sr_id = i, sr_state = st, sr_fiat_amount = fiat, sr_btc_amount = btc, sr_counterparty = counterparty,
      sr_beneficiary = beneficiary, sr_payout_key = settle_id_text i, sr_quote_expires_at = expiry, sr_quote = q,
      sr_source_reservation = reservation, sr_counterparty_invoice = None, sr_attestations = []\<rparr>"

definition begin_with_expiry ::
  "('a, 'l, 's) node_cfg \<Rightarrow> settle_id \<Rightarrow> fiat_amount \<Rightarrow> settle_msats \<Rightarrow> string \<Rightarrow> u64 option
   \<Rightarrow> ('a, 'l, 's) node \<Rightarrow> settle_id \<times> ('a, 'l, 's) node" where
  "begin_with_expiry c i fiat btc counterparty expiry n =
     (i, node_put c (new_record i StQuoted fiat btc counterparty [] expiry None None) n)"

definition begin_settlement ::
  "('a, 'l, 's) node_cfg \<Rightarrow> settle_id \<Rightarrow> fiat_amount \<Rightarrow> settle_msats \<Rightarrow> string
   \<Rightarrow> ('a, 'l, 's) node \<Rightarrow> settle_id \<times> ('a, 'l, 's) node" where
  "begin_settlement c i fiat btc counterparty n = begin_with_expiry c i fiat btc counterparty None n"

text \<open>\<open>map_or(true, ...)\<close>: a clock before the epoch counts as expired.\<close>

definition past :: "u64 option \<Rightarrow> u64 \<Rightarrow> bool" where
  "past now expiry \<longleftrightarrow> (case now of None \<Rightarrow> True | Some t \<Rightarrow> expiry \<le> t)"

definition quote_is_expired :: "u64 option \<Rightarrow> settlement_record \<Rightarrow> bool" where
  "quote_is_expired now r =
     (case sr_quote r of
        Some q \<Rightarrow> past now (qt_expires_at_unix (xq_terms q))
      | None \<Rightarrow> (case sr_quote_expires_at r of None \<Rightarrow> False | Some expiry \<Rightarrow> past now expiry))"

definition begin_from_quote ::
  "('a, 'l, 's) node_cfg \<Rightarrow> u64 option \<Rightarrow> settle_id \<Rightarrow> executable_quote \<Rightarrow> string
   \<Rightarrow> ('a, 'l, 's) node \<Rightarrow> (node_error + settle_id) \<times> ('a, 'l, 's) node" where
  "begin_from_quote c now i q counterparty n =
     (case nc_peer_identity c of
        None \<Rightarrow> (Inl (NodeQuote QuoteWrongProviders), n)
      | Some peer \<Rightarrow>
          (case quote_verify (nc_secp c) (nc_terms_json c) q peer (sp_public (nc_secp c) (nc_signing_key c)) peer
                  (case now of Some t \<Rightarrow> t | None \<Rightarrow> 0) of
             Inl err \<Rightarrow> (Inl (NodeQuote err), n)
           | Inr _ \<Rightarrow>
               (Inr i, node_put c (new_record i StQuoted (qt_source_amount (xq_terms q)) (qt_settlement_amount (xq_terms q))
                  counterparty [] (Some (qt_expires_at_unix (xq_terms q))) (Some q) None) n)))"

section \<open>Conditions\<close>

text \<open>Several transitions in a row, as a chain of \<open>?\<close>.\<close>

definition transitions :: "settlement_state \<Rightarrow> settlement_event list \<Rightarrow> node_error + settlement_state" where
  "transitions s es = (case drive s es of Inl err \<Rightarrow> Inl (NodeTransition err) | Inr t \<Rightarrow> Inr t)"

definition attach_invoice ::
  "('a, 'l, 's) node_cfg \<Rightarrow> u64 option \<Rightarrow> settle_id \<Rightarrow> string \<Rightarrow> ('a, 'l, 's) node \<Rightarrow> (node_error + unit) \<times> ('a, 'l, 's) node" where
  "attach_invoice c now i invoice n =
     (case node_get c i n of
        Inl err \<Rightarrow> (Inl err, n)
      | Inr r \<Rightarrow>
          if quote_is_expired now r then (Inl NodeQuoteExpired, n)
          else
            (case transitions (sr_state r) [EvReserveSource, EvReserveDestination, EvCreateCondition] of
               Inl err \<Rightarrow> (Inl err, n)
             | Inr st \<Rightarrow>
                 (case ao_reserve (nc_adapter c) (sr_fiat_amount r) (nd_adapter n) of
                    (Inl err, a') \<Rightarrow> (Inl (NodeAdapter err), n\<lparr>nd_adapter := a'\<rparr>)
                  | (Inr reservation, a') \<Rightarrow>
                      (case lo_accept (nc_lightning c) i (sr_btc_amount r) invoice (nd_lightning n) of
                         (Inl err, l') \<Rightarrow> (Inl (NodeLightning err), n\<lparr>nd_adapter := a', nd_lightning := l'\<rparr>)
                       | (Inr _, l') \<Rightarrow>
                           (Inr (), node_put c (r\<lparr>sr_state := st, sr_source_reservation := Some reservation,
                              sr_counterparty_invoice := Some invoice\<rparr>) (n\<lparr>nd_adapter := a', nd_lightning := l'\<rparr>))))))"

definition create_settlement_invoice ::
  "('a, 'l, 's) node_cfg \<Rightarrow> settle_id \<Rightarrow> settle_msats \<Rightarrow> ('a, 'l, 's) node \<Rightarrow> (node_error + string) \<times> ('a, 'l, 's) node" where
  "create_settlement_invoice c i btc n =
     (case lo_create (nc_lightning c) i btc (nd_lightning n) of
        (Inl err, l') \<Rightarrow> (Inl (NodeLightning err), n\<lparr>nd_lightning := l'\<rparr>)
      | (Inr invoice, l') \<Rightarrow> (Inr invoice, n\<lparr>nd_lightning := l'\<rparr>))"

definition prepare_destination ::
  "('a, 'l, 's) node_cfg \<Rightarrow> u64 option \<Rightarrow> settle_id \<Rightarrow> fiat_amount \<Rightarrow> settle_msats \<Rightarrow> string \<Rightarrow> string \<Rightarrow> u64 option
   \<Rightarrow> ('a, 'l, 's) node \<Rightarrow> (node_error + string) \<times> ('a, 'l, 's) node" where
  "prepare_destination c now i fiat btc counterparty beneficiary expiry n =
     (if so_get (nc_store c) i (nd_store n) \<noteq> None
      then (Inl (NodeTransition (TransitionError StConditionCreated EvQuote)), n)
      else if (case expiry of None \<Rightarrow> False | Some x \<Rightarrow> past now x) then (Inl NodeQuoteExpired, n)
      else
        (case transitions StCreated [EvQuote, EvReserveSource, EvReserveDestination, EvCreateCondition] of
           Inl err \<Rightarrow> (Inl err, n)
         | Inr st \<Rightarrow>
             (case ao_reserve (nc_adapter c) fiat (nd_adapter n) of
                (Inl err, a') \<Rightarrow> (Inl (NodeAdapter err), n\<lparr>nd_adapter := a'\<rparr>)
              | (Inr reservation, a') \<Rightarrow>
                  (case create_settlement_invoice c i btc (n\<lparr>nd_adapter := a'\<rparr>) of
                     (Inl err, n') \<Rightarrow> (Inl err, n')
                   | (Inr invoice, n') \<Rightarrow>
                       (Inr invoice, node_put c (new_record i st fiat btc counterparty beneficiary expiry None
                          (Some reservation)) n')))))"

section \<open>The payout\<close>

text \<open>How the answer of the rail is recorded; \<open>Inr None\<close> leaves the record alone.\<close>

definition observe_payout ::
  "adapter_error + payout_outcome \<Rightarrow> settlement_state \<Rightarrow> node_error + (node_error + payout_outcome) \<times> settlement_state" where
  "observe_payout out st =
     (case out of
        Inr o1 \<Rightarrow> (case transitions st [EvObservePayout (Some o1)] of Inl err \<Rightarrow> Inl err | Inr t \<Rightarrow> Inr (Inr o1, t))
      | Inl (Rejected reason) \<Rightarrow>
          (case transitions st [EvObservePayout (Some OutFailed)] of Inl err \<Rightarrow> Inl err | Inr t \<Rightarrow> Inr (Inl (PayoutRejected reason), t))
      | Inl Timeout \<Rightarrow> (case transitions st [EvObservePayout None] of Inl err \<Rightarrow> Inl err | Inr t \<Rightarrow> Inr (Inl PayoutUnknown, t))
      | Inl ReservationNotFound \<Rightarrow> Inl MissingReservation)"

definition node_request_payout ::
  "('a, 'l, 's) node_cfg \<Rightarrow> settle_id \<Rightarrow> ('a, 'l, 's) node \<Rightarrow> (node_error + payout_outcome) \<times> ('a, 'l, 's) node" where
  "node_request_payout c i n =
     (case node_get c i n of
        Inl err \<Rightarrow> (Inl err, n)
      | Inr r \<Rightarrow>
          (case transitions (sr_state r) [EvRequestPayout] of
             Inl err \<Rightarrow> (Inl err, n)
           | Inr st \<Rightarrow>
               (case sr_source_reservation r of
                  None \<Rightarrow> (Inl MissingReservation, n)
                | Some reservation \<Rightarrow>
                    (case ao_initiate (nc_adapter c) reservation (sr_beneficiary r) (sr_payout_key r) (nd_adapter n) of
                       (out, a') \<Rightarrow>
                         (case observe_payout out st of
                            Inl err \<Rightarrow> (Inl err, n\<lparr>nd_adapter := a'\<rparr>)
                          | Inr (result, t) \<Rightarrow> (result, node_put c (r\<lparr>sr_state := t\<rparr>) (n\<lparr>nd_adapter := a'\<rparr>)))))))"

text \<open>The two checks an attestation has to pass.\<close>

definition trusted :: "('a, 'l, 's) node_cfg \<Rightarrow> attestation \<Rightarrow> node_error + unit" where
  "trusted c a =
     (case att_verify (nc_secp c) a of
        Inl err \<Rightarrow> Inl (InvalidAttestation err)
      | Inr _ \<Rightarrow>
          (case nc_peer_identity c of
             None \<Rightarrow> Inr ()
           | Some expected \<Rightarrow>
               (case sp_parse_key (nc_secp c) (att_signer a) of
                  None \<Rightarrow> Inl (InvalidAttestation AttMalformed)
                | Some actual \<Rightarrow> if actual \<noteq> expected then Inl UnexpectedAttestationSigner else Inr ())))"

definition apply_attestation ::
  "('a, 'l, 's) node_cfg \<Rightarrow> attestation \<Rightarrow> ('a, 'l, 's) node \<Rightarrow> (node_error + unit) \<times> ('a, 'l, 's) node" where
  "apply_attestation c a n =
     (case trusted c a of
        Inl err \<Rightarrow> (Inl err, n)
      | Inr _ \<Rightarrow>
          (case node_get c (att_settlement_id a) n of
             Inl err \<Rightarrow> (Inl err, n)
           | Inr r \<Rightarrow>
               (case (if sr_state r = StConditionCreated
                      then transitions (sr_state r) [EvRequestPayout, EvObservePayout (Some (att_status a))]
                      else if sr_state r = StPayoutUnknown
                      then transitions (sr_state r) [EvReconcileUnknown (att_status a)]
                      else Inl (NodeTransition (TransitionError (sr_state r) EvRequestPayout))) of
                  Inl err \<Rightarrow> (Inl err, n)
                | Inr st \<Rightarrow>
                    (Inr (), node_put c (r\<lparr>sr_state := st, sr_attestations := sr_attestations r @ [a]\<rparr>) n))))"

definition mark_payout_unknown ::
  "('a, 'l, 's) node_cfg \<Rightarrow> settle_id \<Rightarrow> ('a, 'l, 's) node \<Rightarrow> (node_error + unit) \<times> ('a, 'l, 's) node" where
  "mark_payout_unknown c i n =
     (case node_get c i n of
        Inl err \<Rightarrow> (Inl err, n)
      | Inr r \<Rightarrow>
          (case transitions (sr_state r) [EvRequestPayout, EvObservePayout None] of
             Inl err \<Rightarrow> (Inl err, n)
           | Inr st \<Rightarrow> (Inr (), node_put c (r\<lparr>sr_state := st\<rparr>) n)))"

definition reconcile_unknown ::
  "('a, 'l, 's) node_cfg \<Rightarrow> settle_id \<Rightarrow> ('a, 'l, 's) node \<Rightarrow> (node_error + payout_outcome) \<times> ('a, 'l, 's) node" where
  "reconcile_unknown c i n =
     (case node_get c i n of
        Inl err \<Rightarrow> (Inl err, n)
      | Inr r \<Rightarrow>
          if sr_state r \<noteq> StPayoutUnknown then (Inl (NotReconcilable (sr_state r)), n)
          else
            (case ao_query (nc_adapter c) (sr_payout_key r) (nd_adapter n) of
               Inl err \<Rightarrow> (Inl (NodeAdapter err), n)
             | Inr None \<Rightarrow> (Inl StillUnknown, n)
             | Inr (Some out) \<Rightarrow>
                 (case transitions (sr_state r) [EvReconcileUnknown out] of
                    Inl err \<Rightarrow> (Inl err, n)
                  | Inr st \<Rightarrow> (Inr out, node_put c (r\<lparr>sr_state := st\<rparr>) n))))"

section \<open>Release, refund and evidence\<close>

definition node_release ::
  "('a, 'l, 's) node_cfg \<Rightarrow> settle_id \<Rightarrow> ('a, 'l, 's) node \<Rightarrow> (node_error + u8 list) \<times> ('a, 'l, 's) node" where
  "node_release c i n =
     (case node_get c i n of
        Inl err \<Rightarrow> (Inl err, n)
      | Inr r \<Rightarrow>
          (case transitions (sr_state r) [EvRelease] of
             Inl err \<Rightarrow> (Inl err, n)
           | Inr st \<Rightarrow>
               (case lo_release (nc_lightning c) i (nd_lightning n) of
                  (Inl err, l') \<Rightarrow> (Inl (NodeLightning err), n\<lparr>nd_lightning := l'\<rparr>)
                | (Inr preimage, l') \<Rightarrow> (Inr preimage, node_put c (r\<lparr>sr_state := st\<rparr>) (n\<lparr>nd_lightning := l'\<rparr>)))))"

definition node_refund ::
  "('a, 'l, 's) node_cfg \<Rightarrow> settle_id \<Rightarrow> ('a, 'l, 's) node \<Rightarrow> (node_error + unit) \<times> ('a, 'l, 's) node" where
  "node_refund c i n =
     (case node_get c i n of
        Inl err \<Rightarrow> (Inl err, n)
      | Inr r \<Rightarrow>
          (case transitions (sr_state r) [EvRefund] of
             Inl err \<Rightarrow> (Inl err, n)
           | Inr st \<Rightarrow>
               (case lo_refund (nc_lightning c) i (nd_lightning n) of
                  (Inl err, l') \<Rightarrow> (Inl (NodeLightning err), n\<lparr>nd_lightning := l'\<rparr>)
                | (Inr _, l') \<Rightarrow> (Inr (), node_put c (r\<lparr>sr_state := st\<rparr>) (n\<lparr>nd_lightning := l'\<rparr>)))))"

definition sign_payout_attestation ::
  "('a, 'l, 's) node_cfg \<Rightarrow> settle_id \<Rightarrow> payout_outcome \<Rightarrow> string \<Rightarrow> u64 \<Rightarrow> attestation" where
  "sign_payout_attestation c i status evidence_ref observed_at =
     att_sign (nc_secp c) (nc_signing_key c) i status evidence_ref observed_at"

definition record_attestation ::
  "('a, 'l, 's) node_cfg \<Rightarrow> attestation \<Rightarrow> ('a, 'l, 's) node \<Rightarrow> (node_error + unit) \<times> ('a, 'l, 's) node" where
  "record_attestation c a n =
     (case trusted c a of
        Inl err \<Rightarrow> (Inl err, n)
      | Inr _ \<Rightarrow>
          (case node_get c (att_settlement_id a) n of
             Inl err \<Rightarrow> (Inl err, n)
           | Inr r \<Rightarrow>
               (let conflicts = list_ex (\<lambda>x. att_status x \<noteq> att_status a) (sr_attestations r);
                    r' = r\<lparr>sr_attestations := sr_attestations r @ [a]\<rparr>
                in if conflicts
                   then (case transitions (sr_state r) [EvDispute] of
                           Inl err \<Rightarrow> (Inl err, n)
                         | Inr st \<Rightarrow> (Inl ConflictingEvidence, node_put c (r'\<lparr>sr_state := st\<rparr>) n))
                   else (Inr (), node_put c r' n))))"

definition node_state_of :: "('a, 'l, 's) node_cfg \<Rightarrow> settle_id \<Rightarrow> ('a, 'l, 's) node \<Rightarrow> settlement_state option" where
  "node_state_of c i n = map_option sr_state (so_get (nc_store c) i (nd_store n))"

fun recover_each ::
  "('a, 'l, 's) node_cfg \<Rightarrow> settlement_record list \<Rightarrow> ('a, 'l, 's) node \<Rightarrow> (node_error + unit) \<times> ('a, 'l, 's) node" where
  "recover_each c [] n = (Inr (), n)"
| "recover_each c (r # rs) n =
     (case sr_counterparty_invoice r of
        Some invoice \<Rightarrow>
          if sr_state r \<in> {StConditionCreated, StPayoutRequested, StPayoutUnknown, StPayoutConfirmed}
          then (case lo_accept (nc_lightning c) (sr_id r) (sr_btc_amount r) invoice (nd_lightning n) of
                  (Inl err, l') \<Rightarrow> (Inl (NodeLightning err), n\<lparr>nd_lightning := l'\<rparr>)
                | (Inr _, l') \<Rightarrow> recover_each c rs (n\<lparr>nd_lightning := l'\<rparr>))
          else recover_each c rs n
      | None \<Rightarrow> recover_each c rs n)"

definition recover ::
  "('a, 'l, 's) node_cfg \<Rightarrow> ('a, 'l, 's) node \<Rightarrow> (node_error + unit) \<times> ('a, 'l, 's) node" where
  "recover c n = recover_each c (so_pending (nc_store c) (nd_store n)) n"

section \<open>The reference daemon\<close>

text \<open>The node \<open>main\<close> builds, and its parts when it starts for the first time.\<close>

definition settlementd_cfg ::
  "(settlement_record list \<Rightarrow> string) \<Rightarrow> cln_env \<Rightarrow> secp \<Rightarrow> (quote_terms \<Rightarrow> string) \<Rightarrow> u8 list \<Rightarrow> u8 list
   \<Rightarrow> (simulated, cln, file_store) node_cfg" where
  "settlementd_cfg encode ce sp terms_json identity_key peer_identity =
     \<lparr>nc_adapter = simulated_ops, nc_lightning = cln_ops ce, nc_store = file_ops encode, nc_secp = sp,
      nc_terms_json = terms_json, nc_signing_key = identity_key, nc_peer_identity = Some peer_identity\<rparr>"

definition first_start ::
  "(nat \<Rightarrow> settle_id) \<Rightarrow> string \<Rightarrow> string \<Rightarrow> disk \<Rightarrow> (simulated, cln, file_store) node" where
  "first_start draw path tmp disk =
     \<lparr>nd_adapter = simulated_new draw, nd_lightning = \<lparr>cl_pending = Map.empty, cl_next_id = 1, cl_log = []\<rparr>,
      nd_store = \<lparr>fs_path = path, fs_tmp = tmp, fs_records = [], fs_poisoned = False, fs_disk = disk(path := None)\<rparr>\<rparr>"

end
