(* ===== verification/Settle_Safety.thy ===== *)
theory Settle_Safety
  imports Settle_Node
begin

text \<open>
  What the settlement node guarantees over every run: methods called in any order with any arguments,
  a fiat rail that answers anything, operations cut off by a crash after their effects on the rails and
  before the store is written, and restarts that forget the accepted invoices and recover them. A
  Lightning payment is asked for only with evidence that the destination payout was confirmed.
\<close>

section \<open>Runs of a node\<close>

text \<open>
  One method call. The set collects the settlements whose own rail answered that the payout was
  confirmed. New identifiers are unused ones.
\<close>

definition rail_evidence :: "settle_id \<Rightarrow> node_error + payout_outcome \<Rightarrow> settle_id set" where
  "rail_evidence i out = (if out = Inr OutConfirmed then {i} else {})"

inductive node_op ::
  "('a, 'l, 's) node_cfg \<Rightarrow> ('a, 'l, 's) node \<Rightarrow> settle_id set \<Rightarrow> ('a, 'l, 's) node \<Rightarrow> bool" for c n where
  quoted: "so_get (nc_store c) i (nd_store n) = None \<Longrightarrow> node_op c n {} (snd (begin_with_expiry c i fiat btc cp x n))"
| from_quote: "so_get (nc_store c) i (nd_store n) = None \<Longrightarrow> node_op c n {} (snd (begin_from_quote c now i q cp n))"
| attach: "node_op c n {} (snd (attach_invoice c now i b n))"
| invoice: "node_op c n {} (snd (create_settlement_invoice c i btc n))"
| prepare: "node_op c n {} (snd (prepare_destination c now i fiat btc cp ben x n))"
| request: "node_request_payout c i n = (out, n') \<Longrightarrow> node_op c n (rail_evidence i out) n'"
| attested: "node_op c n {} (snd (apply_attestation c a n))"
| unknown: "node_op c n {} (snd (mark_payout_unknown c i n))"
| reconcile: "reconcile_unknown c i n = (out, n') \<Longrightarrow> node_op c n (rail_evidence i out) n'"
| release: "node_op c n {} (snd (node_release c i n))"
| refund: "node_op c n {} (snd (node_refund c i n))"
| recorded: "node_op c n {} (snd (record_attestation c a n))"

text \<open>A run from a given node; \<open>restart\<close> is what starting again does to the Lightning side.\<close>

inductive node_run ::
  "('a, 'l, 's) node_cfg \<Rightarrow> ('l \<Rightarrow> 'l) \<Rightarrow> ('a, 'l, 's) node \<Rightarrow> settle_id set \<Rightarrow> ('a, 'l, 's) node \<Rightarrow> bool"
  for c restart n0 where
  start: "node_run c restart n0 {} n0"
| call: "node_run c restart n0 E n \<Longrightarrow> node_op c n e n' \<Longrightarrow> node_run c restart n0 (E \<union> e) n'"
| rail: "node_run c restart n0 E n \<Longrightarrow> node_run c restart n0 E (n\<lparr>nd_adapter := a\<rparr>)"
| crash: "node_run c restart n0 E n \<Longrightarrow> node_op c n e n'
    \<Longrightarrow> node_run c restart n0 E (n'\<lparr>nd_store := nd_store n, nd_lightning := restart (nd_lightning n')\<rparr>)"
| restarted: "node_run c restart n0 E n
    \<Longrightarrow> node_run c restart n0 E (snd (recover c (n\<lparr>nd_lightning := restart (nd_lightning n)\<rparr>)))"

section \<open>The invariant\<close>

text \<open>Evidence that the payout of a settlement was confirmed: the own rail said so, or the peer signed it.\<close>

definition confirmed_by :: "('a, 'l, 's) node_cfg \<Rightarrow> settle_id set \<Rightarrow> settlement_record \<Rightarrow> bool" where
  "confirmed_by c E r \<longleftrightarrow> sr_id r \<in> E
     \<or> (\<exists>a \<in> set (sr_attestations r). trusted c a = Inr () \<and> att_settlement_id a = sr_id r \<and> att_status a = OutConfirmed)"

definition decided :: "settlement_state \<Rightarrow> bool" where
  "decided st \<longleftrightarrow> st \<in> {StPayoutConfirmed, StReleased, StDisputed}"

definition record_inv :: "('a, 'l, 's) node_cfg \<Rightarrow> settle_id set \<Rightarrow> string set \<Rightarrow> settlement_record \<Rightarrow> bool" where
  "record_inv c E paid r \<longleftrightarrow>
     (sr_state r \<in> {StPayoutConfirmed, StReleased} \<longrightarrow> confirmed_by c E r)
     \<and> (sr_state r = StReleased \<longrightarrow> (\<exists>b \<in> paid. sr_counterparty_invoice r = Some b))
     \<and> (sr_state r = StQuoted \<longrightarrow> sr_counterparty_invoice r = None)"

lemma confirmed_by_mono:
  "confirmed_by c E r \<Longrightarrow> E \<subseteq> E' \<Longrightarrow> set (sr_attestations r) \<subseteq> set (sr_attestations r') \<Longrightarrow> sr_id r' = sr_id r
     \<Longrightarrow> confirmed_by c E' r'"
  by (auto simp: confirmed_by_def)

lemma record_inv_mono: "record_inv c E paid r \<Longrightarrow> E \<subseteq> E' \<Longrightarrow> paid \<subseteq> paid' \<Longrightarrow> record_inv c E' paid' r"
  using confirmed_by_mono [of c E r E' r] by (auto simp: record_inv_def)

lemma transitions_Inr: "transitions s es = Inr t \<longleftrightarrow> drive s es = Inr t"
  by (simp add: transitions_def split: sum.split)

lemma drive_Cons_Inr: "drive s (e # es) = Inr t \<longleftrightarrow> (\<exists>u. settle_transition s e = Inr u \<and> drive u es = Inr t)"
  by (simp split: sum.split)

text \<open>What each chain of events the node uses does.\<close>

lemma node_chains:
  "transitions s [EvReserveSource, EvReserveDestination, EvCreateCondition] = Inr t \<longleftrightarrow> s = StQuoted \<and> t = StConditionCreated"
  "transitions s [EvRequestPayout] = Inr t \<longleftrightarrow> s = StConditionCreated \<and> t = StPayoutRequested"
  "transitions s [EvRequestPayout, EvObservePayout None] = Inr t \<longleftrightarrow> s = StConditionCreated \<and> t = StPayoutUnknown"
  "transitions s [EvRequestPayout, EvObservePayout (Some OutConfirmed)] = Inr t \<longleftrightarrow> s = StConditionCreated \<and> t = StPayoutConfirmed"
  "transitions s [EvRequestPayout, EvObservePayout (Some OutFailed)] = Inr t \<longleftrightarrow> s = StConditionCreated \<and> t = StPayoutFailed"
  "transitions s [EvReconcileUnknown OutConfirmed] = Inr t \<longleftrightarrow> s = StPayoutUnknown \<and> t = StPayoutConfirmed"
  "transitions s [EvReconcileUnknown OutFailed] = Inr t \<longleftrightarrow> s = StPayoutUnknown \<and> t = StPayoutFailed"
  "transitions s [EvRelease] = Inr t \<longleftrightarrow> s = StPayoutConfirmed \<and> t = StReleased"
  "transitions s [EvRefund] = Inr t \<longleftrightarrow> s = StPayoutFailed \<and> t = StRefunded"
  "transitions s [EvDispute] = Inr t
     \<longleftrightarrow> s \<in> {StPayoutRequested, StPayoutUnknown, StPayoutConfirmed, StPayoutFailed} \<and> t = StDisputed"
  "transitions StCreated [EvQuote, EvReserveSource, EvReserveDestination, EvCreateCondition] = Inr StConditionCreated"
  unfolding transitions_Inr
  by (cases s; auto simp: step_on_def split: option.splits if_splits)+

text \<open>How an outcome decides a settlement.\<close>

fun outcome_state :: "payout_outcome \<Rightarrow> settlement_state" where
  "outcome_state OutConfirmed = StPayoutConfirmed"
| "outcome_state OutFailed = StPayoutFailed"

lemma reconcile_chain: "transitions StPayoutUnknown [EvReconcileUnknown x] = Inr (outcome_state x)"
  by (cases x) (simp_all add: transitions_def step_on_def)

lemma observe_payout_requested:
  "observe_payout out StPayoutRequested =
     (case out of
        Inr x \<Rightarrow> Inr (Inr x, outcome_state x)
      | Inl (Rejected why) \<Rightarrow> Inr (Inl (PayoutRejected why), StPayoutFailed)
      | Inl Timeout \<Rightarrow> Inr (Inl PayoutUnknown, StPayoutUnknown)
      | Inl ReservationNotFound \<Rightarrow> Inl MissingReservation)"
  by (auto simp: observe_payout_def transitions_def step_on_def split: sum.split adapter_error.split)
    (case_tac x2, simp_all)

locale settlement_node = settlement_store "nc_store c" ok + restartable_lightning "nc_lightning c" held asked amount restart
  for c :: "('a, 'l, 's) node_cfg" and ok held asked amount restart
begin

abbreviation record_of :: "settle_id \<Rightarrow> ('a, 'l, 's) node \<Rightarrow> settlement_record option" where
  "record_of i n \<equiv> so_get (nc_store c) i (nd_store n)"

text \<open>An invoice the backend holds, or was asked to pay, is that of a record with its amount.\<close>

definition backed :: "('a, 'l, 's) node \<Rightarrow> settle_id \<Rightarrow> string \<Rightarrow> (settlement_record \<Rightarrow> bool) \<Rightarrow> bool" where
  "backed n i b P \<longleftrightarrow> (\<exists>r. record_of i n = Some r \<and> sr_counterparty_invoice r = Some b
     \<and> amount b = Some (settle_msat (sr_btc_amount r)) \<and> P r)"

definition node_inv :: "settle_id set \<Rightarrow> ('a, 'l, 's) node \<Rightarrow> bool" where
  "node_inv E n \<longleftrightarrow> ok (nd_store n)
     \<and> (\<forall>i r. record_of i n = Some r \<longrightarrow> record_inv c E (asked (nd_lightning n)) r)
     \<and> (\<forall>i b. held (nd_lightning n) i = Some b \<longrightarrow> backed n i b (\<lambda>_. True))
     \<and> (\<forall>b \<in> asked (nd_lightning n). \<exists>i. backed n i b (\<lambda>r. decided (sr_state r) \<and> confirmed_by c E r))"

lemma record_of_put:
  "ok (nd_store n) \<Longrightarrow> record_of i (node_put c r n) = (if i = sr_id r then Some r else record_of i n)"
  by (simp add: node_put_def get_put)

lemma backed_put:
  assumes "ok (nd_store n)" and "backed n i b P"
    and "\<And>x. record_of (sr_id r) n = Some x \<Longrightarrow> P x \<Longrightarrow> sr_counterparty_invoice x = Some b \<Longrightarrow>
        sr_counterparty_invoice r = Some b \<and> sr_btc_amount r = sr_btc_amount x \<and> Q r"
    and "\<And>x. P x \<Longrightarrow> Q x"
  shows "backed (node_put c r n) i b Q"
  using assms by (auto simp: backed_def record_of_put)

text \<open>Writing a record: a new one, or one whose evidence, amount and invoice are kept.\<close>

lemma inv_put:
  assumes n: "node_inv E n" and E: "E \<subseteq> E'" and r: "record_inv c E' (asked (nd_lightning n)) r"
    and old: "\<And>x. record_of (sr_id r) n = Some x \<Longrightarrow>
       sr_counterparty_invoice x \<in> {None, sr_counterparty_invoice r} \<and> sr_btc_amount r = sr_btc_amount x
       \<and> set (sr_attestations x) \<subseteq> set (sr_attestations r) \<and> (decided (sr_state x) \<longrightarrow> decided (sr_state r))"
  shows "node_inv E' (node_put c r n)"
proof -
  have ok: "ok (nd_store n)" using n by (simp add: node_inv_def)
  have held: "backed (node_put c r n) i b (\<lambda>_. True)" if "held (nd_lightning n) i = Some b" for i b
    using that n old by (intro backed_put [OF ok, where P = "\<lambda>_. True"]) (auto simp: node_inv_def)
  have asked: "\<exists>i. backed (node_put c r n) i b (\<lambda>r. decided (sr_state r) \<and> confirmed_by c E' r)"
    if b: "b \<in> asked (nd_lightning n)" for b
  proof -
    obtain i where "backed n i b (\<lambda>r. decided (sr_state r) \<and> confirmed_by c E r)" using b n unfolding node_inv_def by blast
    then have "backed (node_put c r n) i b (\<lambda>r. decided (sr_state r) \<and> confirmed_by c E' r)"
    proof (rule backed_put [OF ok])
      fix x assume x: "record_of (sr_id r) n = Some x" "decided (sr_state x) \<and> confirmed_by c E x"
        "sr_counterparty_invoice x = Some b"
      moreover have "sr_id x = sr_id r" using get_id [OF ok x(1)] .
      ultimately show "sr_counterparty_invoice r = Some b \<and> sr_btc_amount r = sr_btc_amount x
          \<and> decided (sr_state r) \<and> confirmed_by c E' r"
        using old [OF x(1)] confirmed_by_mono [of c E x E' r] E by auto
    next
      show "\<And>x. decided (sr_state x) \<and> confirmed_by c E x \<Longrightarrow> decided (sr_state x) \<and> confirmed_by c E' x"
        using confirmed_by_mono E by blast
    qed
    then show ?thesis by blast
  qed
  have rec: "record_inv c E' (asked (nd_lightning n)) x" if "record_of i (node_put c r n) = Some x" for i x
  proof (cases "i = sr_id r")
    case False
    then have "record_inv c E (asked (nd_lightning n)) x" using that n by (simp add: record_of_put [OF ok] node_inv_def)
    then show ?thesis using E by (rule record_inv_mono) simp
  qed (use that r in \<open>simp add: record_of_put [OF ok]\<close>)
  show ?thesis using ok held asked rec by (simp add: node_inv_def node_put_def put_ok)
qed

text \<open>Changing the Lightning side.\<close>

lemma inv_lightning:
  assumes "node_inv E n" and "asked (nd_lightning n) \<subseteq> asked l"
    and "\<And>i b. held l i = Some b \<Longrightarrow> held (nd_lightning n) i = Some b \<or> backed n i b (\<lambda>_. True)"
    and "\<And>b. b \<in> asked l \<Longrightarrow> b \<in> asked (nd_lightning n) \<or> (\<exists>i. backed n i b (\<lambda>r. decided (sr_state r) \<and> confirmed_by c E r))"
  shows "node_inv E (n\<lparr>nd_lightning := l\<rparr>)"
  using assms by (fastforce simp: node_inv_def backed_def intro: record_inv_mono)

lemma inv_adapter:
  "node_inv E (n\<lparr>nd_adapter := a\<rparr>) \<longleftrightarrow> node_inv E n"
  "node_inv E (n\<lparr>nd_adapter := a, nd_lightning := l\<rparr>) \<longleftrightarrow> node_inv E (n\<lparr>nd_lightning := l\<rparr>)"
  by (simp_all add: node_inv_def backed_def)

lemma inv_evidence: "node_inv E n \<Longrightarrow> E \<subseteq> E' \<Longrightarrow> node_inv E' n"
  unfolding node_inv_def backed_def using confirmed_by_mono [of c E _ E'] record_inv_mono [of c E _ _ E'] by blast

text \<open>The record a method works on.\<close>

lemma inv_record:
  assumes "node_inv E n" and "node_get c i n = Inr r"
  shows "ok (nd_store n)" "record_of i n = Some r" "sr_id r = i" "record_inv c E (asked (nd_lightning n)) r"
  using assms get_id [of "nd_store n" i r] by (auto simp: node_inv_def node_get_def split: option.splits)

text \<open>The record changes in state and attestations only.\<close>

lemma inv_advance:
  assumes "node_inv E n" and "node_get c i n = Inr r" and "E \<subseteq> E'"
    and "r' = r\<lparr>sr_state := st, sr_attestations := sr_attestations r @ as\<rparr>"
    and "decided (sr_state r) \<longrightarrow> decided st" and "st = StQuoted \<longrightarrow> sr_state r = StQuoted"
    and "st \<in> {StPayoutConfirmed, StReleased} \<longrightarrow> confirmed_by c E' r'"
    and "st = StReleased \<longrightarrow> (\<exists>b \<in> asked (nd_lightning n). sr_counterparty_invoice r = Some b)"
  shows "node_inv E' (node_put c r' n)"
  using assms inv_record [OF assms(1,2)] by (intro inv_put [OF assms(1,3)]) (auto simp: record_inv_def)

lemma node_put_adapter: "node_put c r (n\<lparr>nd_adapter := a\<rparr>) = (node_put c r n)\<lparr>nd_adapter := a\<rparr>"
  and node_put_lightning: "node_put c r (n\<lparr>nd_lightning := l\<rparr>) = (node_put c r n)\<lparr>nd_lightning := l\<rparr>"
  and node_put_lightning_same: "nd_lightning (node_put c r n) = nd_lightning n"
  by (simp_all add: node_put_def)

lemma inv_new:
  assumes "node_inv E n" and "record_of i n = None" and "st \<in> {StQuoted, StConditionCreated}"
  shows "node_inv E (node_put c (new_record i st fiat btc cp ben x q rv) n)"
  using assms by (intro inv_put [OF assms(1) order_refl]) (auto simp: record_inv_def new_record_def)

lemma inv_frame: "node_inv E n \<Longrightarrow> held l = held (nd_lightning n) \<Longrightarrow> asked l = asked (nd_lightning n)
    \<Longrightarrow> node_inv E (n\<lparr>nd_lightning := l\<rparr>)"
  by (rule inv_lightning) auto

section \<open>Every method keeps it\<close>

lemma attach_inv:
  assumes n: "node_inv E n"
  shows "node_inv E (snd (attach_invoice c now i b n))"
proof (cases "node_get c i n")
  case (Inr r)
  note r = inv_record [OF n Inr]
  show ?thesis
  proof (cases "quote_is_expired now r \<or> sr_state r \<noteq> StQuoted")
    case True
    then show ?thesis using n Inr by (auto simp: attach_invoice_def node_chains split: sum.splits)
  next
    case quoted: False
    obtain res a where a: "ao_reserve (nc_adapter c) (sr_fiat_amount r) (nd_adapter n) = (res, a)" by fastforce
    obtain out l where l: "lo_accept (nc_lightning c) i (sr_btc_amount r) b (nd_lightning n) = (out, l)" by fastforce
    let ?r = "\<lambda>rv. r\<lparr>sr_state := StConditionCreated, sr_source_reservation := Some rv, sr_counterparty_invoice := Some b\<rparr>"
    have put: "node_inv E (node_put c (?r rv) n)" for rv
      using r quoted by (intro inv_put [OF n order_refl]) (auto simp: record_inv_def decided_def)
    have chain: "transitions (sr_state r) [EvReserveSource, EvReserveDestination, EvCreateCondition] = Inr StConditionCreated"
      using quoted by (simp add: node_chains)
    show ?thesis
    proof (cases "\<exists>rv u. res = Inr rv \<and> out = Inr u")
      case True
      then obtain rv u where "res = Inr rv" "out = Inr u" by blast
      note acc = accept_ok [OF l [unfolded \<open>out = Inr u\<close>]]
      have "backed (node_put c (?r rv) n) i b (\<lambda>_. True)" using acc r by (simp add: backed_def record_of_put)
      then have "node_inv E ((node_put c (?r rv) n)\<lparr>nd_lightning := l\<rparr>)"
        using acc by (intro inv_lightning [OF put]) (auto simp: node_put_lightning_same split: if_splits)
      with \<open>res = Inr rv\<close> \<open>out = Inr u\<close> show ?thesis using Inr quoted chain a l
        by (simp add: attach_invoice_def node_put_adapter node_put_lightning inv_adapter)
    next
      case False
      then show ?thesis using n Inr quoted chain a l accept_error [of i _ b "nd_lightning n"]
        by (auto simp: attach_invoice_def inv_adapter inv_frame split: sum.splits)
    qed
  qed
qed (use n in \<open>simp add: attach_invoice_def\<close>)

lemma create_inv: "node_inv E n \<Longrightarrow> node_inv E (snd (create_settlement_invoice c i btc n))"
  using create_frame [of i btc "nd_lightning n"]
  by (auto simp: create_settlement_invoice_def inv_frame split: prod.split sum.split)

lemma create_store: "nd_store (snd (create_settlement_invoice c i btc n)) = nd_store n"
  by (auto simp: create_settlement_invoice_def split: prod.split sum.split)

lemma prepare_inv:
  assumes n: "node_inv E n"
  shows "node_inv E (snd (prepare_destination c now i fiat btc cp ben x n))"
proof (cases "record_of i n = None \<and> (\<forall>t. x = Some t \<longrightarrow> \<not> past now t)")
  case fresh: True
  obtain res a where a: "ao_reserve (nc_adapter c) fiat (nd_adapter n) = (res, a)" by fastforce
  obtain out m where m: "create_settlement_invoice c i btc (n\<lparr>nd_adapter := a\<rparr>) = (out, m)" by fastforce
  have inv: "node_inv E m"
    using create_inv [of E "n\<lparr>nd_adapter := a\<rparr>" i btc] m n by (simp add: inv_adapter)
  have "record_of i m = None" using create_store [of i btc "n\<lparr>nd_adapter := a\<rparr>"] m fresh by simp
  then have new: "node_inv E (node_put c (new_record i StConditionCreated fiat btc cp ben x None (Some rv)) m)" for rv
    using inv by (simp add: inv_new)
  show ?thesis using fresh a m inv new n
    by (auto simp: prepare_destination_def node_chains inv_adapter split: sum.split option.split)
qed (use n in \<open>auto simp: prepare_destination_def split: option.split\<close>)

text \<open>A method that moves the record to a state that is not decided needs no evidence.\<close>

lemma inv_undecided:
  assumes "node_inv E n" and "node_get c i n = Inr r" and "\<not> decided (sr_state r)"
    and "st \<in> {StPayoutUnknown, StPayoutFailed, StRefunded}"
  shows "node_inv E (node_put c (r\<lparr>sr_state := st\<rparr>) n)"
  using assms by (intro inv_advance [OF assms(1,2) order_refl, where as = "[]" and st = st]) auto

lemma inv_outcome:
  assumes "node_inv E n" and "node_get c i n = Inr r" and "\<not> decided (sr_state r)"
  shows "node_inv (E \<union> rail_evidence i (Inr x)) (node_put c (r\<lparr>sr_state := outcome_state x\<rparr>) n)"
  using assms inv_record(3) [OF assms(1,2)]
  by (intro inv_advance [OF assms(1,2), where as = "[]" and st = "outcome_state x"])
    (cases x; auto simp: confirmed_by_def decided_def rail_evidence_def)+

lemma request_inv:
  assumes n: "node_inv E n" and op: "node_request_payout c i n = (out, n')"
  shows "node_inv (E \<union> rail_evidence i out) n'"
proof (cases "\<exists>r rv. node_get c i n = Inr r \<and> sr_state r = StConditionCreated \<and> sr_source_reservation r = Some rv")
  case True
  then obtain r rv where r: "node_get c i n = Inr r" "sr_state r = StConditionCreated" "sr_source_reservation r = Some rv" by blast
  then have u: "\<not> decided (sr_state r)" by (simp add: decided_def)
  obtain res a where a: "ao_initiate (nc_adapter c) rv (sr_beneficiary r) (sr_payout_key r) (nd_adapter n) = (res, a)" by fastforce
  have step: "(out, n') = (case observe_payout res StPayoutRequested of
      Inl err \<Rightarrow> (Inl err, n\<lparr>nd_adapter := a\<rparr>)
    | Inr (result, t) \<Rightarrow> (result, node_put c (r\<lparr>sr_state := t\<rparr>) (n\<lparr>nd_adapter := a\<rparr>)))"
    using op r a by (simp add: node_request_payout_def node_chains(2) [THEN iffD2])
  have none: "rail_evidence i (Inl err) = {}" for err by (simp add: rail_evidence_def)
  show ?thesis
  proof (cases res)
    case (Inr x)
    then show ?thesis using step inv_outcome [OF n r(1) u, of x] by (simp add: observe_payout_requested inv_adapter node_put_adapter)
  next
    case (Inl err)
    then show ?thesis using step inv_undecided [OF n r(1) u] n
      by (cases err) (simp_all add: observe_payout_requested inv_adapter node_put_adapter none)
  qed
next
  case False
  then have "n' = n \<and> (\<exists>err. out = Inl err)"
    using op by (auto simp: node_request_payout_def node_chains split: sum.splits option.splits)
  then show ?thesis using n by (auto simp: rail_evidence_def)
qed

lemma reconcile_inv:
  assumes n: "node_inv E n" and op: "reconcile_unknown c i n = (out, n')"
  shows "node_inv (E \<union> rail_evidence i out) n'"
proof (cases "\<exists>r. node_get c i n = Inr r \<and> sr_state r = StPayoutUnknown")
  case True
  then obtain r where r: "node_get c i n = Inr r" "sr_state r = StPayoutUnknown" by blast
  then have u: "\<not> decided (sr_state r)" by (simp add: decided_def)
  have "(\<exists>x. out = Inr x \<and> n' = node_put c (r\<lparr>sr_state := outcome_state x\<rparr>) n) \<or> (\<exists>err. out = Inl err \<and> n' = n)"
    using op r by (auto simp: reconcile_unknown_def reconcile_chain split: sum.splits option.splits)
  then show ?thesis using n inv_outcome [OF n r(1) u] by (auto simp: rail_evidence_def [of _ "Inl _"])
next
  case False
  then have "n' = n \<and> (\<exists>err. out = Inl err)" using op by (auto simp: reconcile_unknown_def split: sum.splits)
  then show ?thesis using n by (auto simp: rail_evidence_def)
qed

lemma unknown_inv: "node_inv E n \<Longrightarrow> node_inv E (snd (mark_payout_unknown c i n))"
  using inv_undecided [of E n i]
  by (auto simp: mark_payout_unknown_def node_chains decided_def split: sum.splits)

lemma attested_inv:
  assumes n: "node_inv E n"
  shows "node_inv E (snd (apply_attestation c a n))"
proof (cases "trusted c a")
  case tr: (Inr u)
  show ?thesis
  proof (cases "node_get c (att_settlement_id a) n")
    case (Inr r)
    have keep: "node_inv E (node_put c (r\<lparr>sr_state := st, sr_attestations := sr_attestations r @ [a]\<rparr>) n)"
      if "st \<in> {StPayoutConfirmed, StPayoutFailed}" "\<not> decided (sr_state r)" "st = StPayoutConfirmed \<longrightarrow> att_status a = OutConfirmed" for st
      using that tr inv_record(3) [OF n Inr]
      by (intro inv_advance [OF n Inr order_refl, where as = "[a]" and st = st]) (auto simp: confirmed_by_def)
    show ?thesis using n tr Inr keep
      by (cases "att_status a") (auto simp: apply_attestation_def node_chains decided_def split: sum.splits)
  qed (use n tr in \<open>simp add: apply_attestation_def\<close>)
qed (use n in \<open>simp add: apply_attestation_def\<close>)

lemma recorded_inv:
  assumes n: "node_inv E n"
  shows "node_inv E (snd (record_attestation c a n))"
proof (cases "trusted c a")
  case tr: (Inr u)
  show ?thesis
  proof (cases "node_get c (att_settlement_id a) n")
    case (Inr r)
    note r = inv_record [OF n Inr]
    have keep: "node_inv E (node_put c (r\<lparr>sr_attestations := sr_attestations r @ [a]\<rparr>) n)"
      using r by (intro inv_advance [OF n Inr order_refl, where as = "[a]" and st = "sr_state r"])
        (auto simp: record_inv_def confirmed_by_def)
    have dispute: "node_inv E (node_put c (r\<lparr>sr_attestations := sr_attestations r @ [a], sr_state := StDisputed\<rparr>) n)"
      by (intro inv_advance [OF n Inr order_refl, where as = "[a]" and st = StDisputed]) (auto simp: decided_def)
    show ?thesis using n tr Inr keep dispute
      by (auto simp: record_attestation_def node_chains Let_def split: sum.splits)
  qed (use n tr in \<open>simp add: record_attestation_def\<close>)
qed (use n in \<open>simp add: record_attestation_def\<close>)

lemma node_get_lightning [simp]: "node_get c i (n\<lparr>nd_lightning := l\<rparr>) = node_get c i n"
  by (simp add: node_get_def)

lemma release_inv:
  assumes n: "node_inv E n"
  shows "node_inv E (snd (node_release c i n)) \<and> node_inv E (n\<lparr>nd_lightning := nd_lightning (snd (node_release c i n))\<rparr>)"
proof (cases "\<exists>r. node_get c i n = Inr r \<and> sr_state r = StPayoutConfirmed")
  case True
  then obtain r where r: "node_get c i n = Inr r" "sr_state r = StPayoutConfirmed" by blast
  note inv = inv_record [OF n r(1)]
  obtain res l where l: "lo_release (nc_lightning c) i (nd_lightning n) = (res, l)" by fastforce
  have held: "backed n i b (\<lambda>x. x = r)" if "held (nd_lightning n) i = Some b" for b
    using that n inv(2) unfolding node_inv_def backed_def by force
  have just: "decided (sr_state r) \<and> confirmed_by c E r" using inv(4) r(2) by (simp add: record_inv_def decided_def)
  have paid: "backed n i b (\<lambda>r. decided (sr_state r) \<and> confirmed_by c E r)" if "held (nd_lightning n) i = Some b" for b
    using held [OF that] just by (auto simp: backed_def)
  have m: "node_inv E (n\<lparr>nd_lightning := l\<rparr>)"
  proof (rule inv_lightning [OF n asked_kept [OF l]])
    show "held (nd_lightning n) j = Some b \<or> backed n j b (\<lambda>_. True)" if "held l j = Some b" for j b
      using that release_asks [OF l] by (cases "j = i") auto
    show "b \<in> asked (nd_lightning n) \<or> (\<exists>j. backed n j b (\<lambda>r. decided (sr_state r) \<and> confirmed_by c E r))" if "b \<in> asked l" for b
      using that release_asks [OF l] paid by auto
  qed
  have put: "node_inv E (node_put c (r\<lparr>sr_state := StReleased\<rparr>) (n\<lparr>nd_lightning := l\<rparr>))" if p: "res = Inr p" for p
  proof (rule inv_advance [OF m, where as = "[]" and st = StReleased])
    obtain b where "held (nd_lightning n) i = Some b" "b \<in> asked l" using release_ok [OF l [unfolded p]] by blast
    then show "StReleased = StReleased \<longrightarrow> (\<exists>b \<in> asked (nd_lightning (n\<lparr>nd_lightning := l\<rparr>)). sr_counterparty_invoice r = Some b)"
      using held by (auto simp: backed_def)
  qed (use just r in \<open>simp_all add: decided_def confirmed_by_def\<close>)
  show ?thesis using r l m put by (cases res) (simp_all add: node_release_def node_put_lightning_same node_chains(8) [THEN iffD2])
next
  case False
  then have "snd (node_release c i n) = n" by (auto simp: node_release_def node_chains split: sum.splits)
  then show ?thesis using n by simp
qed

lemma refund_inv:
  assumes n: "node_inv E n"
  shows "node_inv E (snd (node_refund c i n))"
proof (cases "\<exists>r. node_get c i n = Inr r \<and> sr_state r = StPayoutFailed")
  case True
  then obtain r where r: "node_get c i n = Inr r" "sr_state r = StPayoutFailed" by blast
  obtain res l where l: "lo_refund (nc_lightning c) i (nd_lightning n) = (res, l)" by fastforce
  have m: "node_inv E (n\<lparr>nd_lightning := l\<rparr>)"
    using refund_frame [OF l] by (intro inv_lightning [OF n]) (auto split: if_splits)
  have "node_inv E (node_put c (r\<lparr>sr_state := StRefunded\<rparr>) (n\<lparr>nd_lightning := l\<rparr>))"
    using inv_undecided [OF m, of i r StRefunded] r by (simp add: decided_def)
  then show ?thesis using r l m by (cases res) (simp_all add: node_refund_def node_chains(9) [THEN iffD2])
next
  case False
  then have "snd (node_refund c i n) = n" by (auto simp: node_refund_def node_chains split: sum.splits)
  then show ?thesis using n by simp
qed

lemma recover_inv:
  assumes "node_inv E n" and "\<forall>r \<in> set rs. record_of (sr_id r) n = Some r"
  shows "node_inv E (snd (recover_each c rs n))"
  using assms
proof (induction rs arbitrary: n)
  case (Cons r rs)
  show ?case
  proof (cases "\<exists>b. sr_counterparty_invoice r = Some b
      \<and> sr_state r \<in> {StConditionCreated, StPayoutRequested, StPayoutUnknown, StPayoutConfirmed}")
    case True
    then obtain b where b: "sr_counterparty_invoice r = Some b"
      "sr_state r \<in> {StConditionCreated, StPayoutRequested, StPayoutUnknown, StPayoutConfirmed}" by blast
    obtain res l where l: "lo_accept (nc_lightning c) (sr_id r) (sr_btc_amount r) b (nd_lightning n) = (res, l)" by fastforce
    show ?thesis
    proof (cases res)
      case (Inl err)
      then show ?thesis using b l Cons.prems accept_error [OF l [unfolded Inl]] by (simp add: inv_frame)
    next
      case (Inr u)
      note acc = accept_ok [OF l [unfolded Inr]]
      have "backed n (sr_id r) b (\<lambda>_. True)" using acc b Cons.prems by (simp add: backed_def)
      then have "node_inv E (n\<lparr>nd_lightning := l\<rparr>)"
        using acc by (intro inv_lightning [OF Cons.prems(1)]) (auto split: if_splits)
      then show ?thesis using Cons b l Inr by simp
    qed
  next
    case False
    then have "recover_each c (r # rs) n = recover_each c rs n" by (auto split: option.split)
    then show ?thesis using Cons by simp
  qed
qed simp

section \<open>Every run keeps it\<close>

lemma op_inv: "node_op c n e n' \<Longrightarrow> node_inv E n \<Longrightarrow> node_inv (E \<union> e) n'"
proof (induction rule: node_op.induct)
  case (quoted i fiat btc cp x)
  then show ?case by (simp add: begin_with_expiry_def inv_new)
next
  case (from_quote i now q cp)
  then show ?case by (simp add: begin_from_quote_def inv_new split: option.split sum.split)
qed (simp_all add: attach_inv create_inv prepare_inv request_inv attested_inv unknown_inv reconcile_inv release_inv
    refund_inv recorded_inv)

lemma inv_restart:
  assumes "node_inv E (n\<lparr>nd_lightning := l\<rparr>)"
  shows "node_inv E (n\<lparr>nd_lightning := restart l\<rparr>)"
  using inv_lightning [OF assms, of "restart l"] restart_frame [of l] by simp

text \<open>What a method does to the Lightning side is justified before its record is written.\<close>

lemma op_lightning:
  assumes "node_op c n e n'" and n: "node_inv E n"
  shows "node_inv E (n\<lparr>nd_lightning := restart (nd_lightning n')\<rparr>)"
proof (cases "\<exists>i. n' = snd (node_release c i n)")
  case True
  then show ?thesis using release_inv [OF n] inv_restart by blast
next
  case False
  with assms(1) have "asked (nd_lightning n') = asked (nd_lightning n)"
  proof (induction rule: node_op.induct)
    case (attach now i b)
    then show ?case
      by (auto simp: attach_invoice_def node_put_lightning_same split: sum.split prod.split dest: accept_ok accept_error)
  next
    case (invoice i btc)
    then show ?case by (auto simp: create_settlement_invoice_def split: sum.split prod.split dest: create_frame)
  next
    case (prepare now i fiat btc cp ben x)
    then show ?case
      by (auto simp: prepare_destination_def create_settlement_invoice_def node_put_lightning_same
          split: sum.splits prod.splits dest: create_frame)
  next
    case (request i out n')
    then show ?case
      by (auto simp: node_request_payout_def node_put_lightning_same split: sum.splits prod.splits option.splits)
  next
    case (refund i)
    then show ?case by (auto simp: node_refund_def node_put_lightning_same split: sum.split prod.split dest: refund_frame)
  qed (auto simp: begin_with_expiry_def begin_from_quote_def apply_attestation_def mark_payout_unknown_def
      reconcile_unknown_def record_attestation_def node_put_lightning_same Let_def split: sum.splits option.splits if_splits)
  then have "node_inv E (n\<lparr>nd_lightning := restart (nd_lightning n')\<rparr>)"
    using restart_frame [of "nd_lightning n'"] by (intro inv_lightning [OF n]) auto
  then show ?thesis .
qed

lemma run_inv: "node_run c restart n0 E n \<Longrightarrow> node_inv {} n0 \<Longrightarrow> node_inv E n"
proof (induction rule: node_run.induct)
  case (call E n e n')
  then show ?case by (simp add: op_inv)
next
  case (crash E n e n')
  then have "node_inv E (n\<lparr>nd_lightning := restart (nd_lightning n')\<rparr>)" by (simp add: op_lightning)
  moreover have "n'\<lparr>nd_store := nd_store n, nd_lightning := restart (nd_lightning n')\<rparr>
      = n\<lparr>nd_adapter := nd_adapter n', nd_lightning := restart (nd_lightning n')\<rparr>" by simp
  ultimately show ?case by (simp only: inv_adapter)
next
  case (restarted E n)
  let ?n = "n\<lparr>nd_lightning := restart (nd_lightning n)\<rparr>"
  have n: "node_inv E ?n" using restarted inv_restart [where n = n and l = "nd_lightning n"] by simp
  then have "ok (nd_store n)" by (simp add: node_inv_def)
  then show ?case unfolding recover_def by (intro recover_inv [OF n]) (simp add: pending_iff)
qed (simp_all add: inv_adapter)

end

section \<open>The reference daemon\<close>

lemma trusted_peer:
  "trusted c a = Inr () \<Longrightarrow> nc_peer_identity c = Some p
     \<Longrightarrow> att_verify (nc_secp c) a = Inr () \<and> sp_parse_key (nc_secp c) (att_signer a) = Some p"
  by (auto simp: trusted_def split: sum.splits option.splits if_splits)

interpretation settlementd: settlement_node "settlementd_cfg encode ce sp tj key peer"
  "\<lambda>fs. \<not> fs_poisoned fs \<and> records_ok (fs_records fs)" cl_pending pay_requests "cln_amount ce" cln_new
  for encode ce sp tj key peer
  by (simp add: settlement_node_def settlementd_cfg_def journal.settlement_store_axioms cln.restartable_lightning_axioms)

lemma settlementd_paid:
  assumes "node_run (settlementd_cfg encode ce sp tj key peer) cln_new (first_start draw path tmp disk) E n"
  shows "b \<in> pay_requests (nd_lightning n) \<Longrightarrow> \<exists>i r. file_get i (nd_store n) = Some r
      \<and> sr_counterparty_invoice r = Some b \<and> ce_amount ce b = Inr (Some (settle_msat (sr_btc_amount r)))
      \<and> confirmed_by (settlementd_cfg encode ce sp tj key peer) E r"
    and "file_get i (nd_store n) = Some r \<Longrightarrow> record_inv (settlementd_cfg encode ce sp tj key peer) E (pay_requests (nd_lightning n)) r"
proof -
  let ?c = "settlementd_cfg encode ce sp tj key peer"
  have get: "so_get (nc_store ?c) = file_get" by (simp add: settlementd_cfg_def file_ops_def)
  have "settlementd.node_inv encode ce sp tj key peer {} (first_start draw path tmp disk)"
    by (simp add: settlementd.node_inv_def get first_start_def file_get_def get_record_def pay_requests_def)
  note inv = settlementd.run_inv [OF assms this, unfolded settlementd.node_inv_def settlementd.backed_def get]
  have "cln_amount ce b = Some m \<longleftrightarrow> ce_amount ce b = Inr (Some m)" for m by (auto simp: cln_amount_def split: sum.splits)
  then show "b \<in> pay_requests (nd_lightning n) \<Longrightarrow> \<exists>i r. file_get i (nd_store n) = Some r
      \<and> sr_counterparty_invoice r = Some b \<and> ce_amount ce b = Inr (Some (settle_msat (sr_btc_amount r)))
      \<and> confirmed_by ?c E r" using inv by blast
  show "file_get i (nd_store n) = Some r \<Longrightarrow> record_inv ?c E (pay_requests (nd_lightning n)) r" using inv by blast
qed

text \<open>
  C37. The settlement node pays only on evidence. In every run of the reference daemon from its first
  start, with methods in any order and any arguments, a fiat rail and a \<open>lightningd\<close> that answer
  anything, crashes between the effect of a method and its record, and restarts: every invoice that
  \<open>lightningd\<close> was ever asked to pay was attached to a stored settlement, has exactly the agreed amount,
  and the payout of that settlement was confirmed, by the node's own rail or by an attestation for this
  settlement that verifies under the key of the configured peer. Every released settlement has such
  evidence and its invoice was among those asked for.
\<close>

theorem release_justified:
  assumes "node_run (settlementd_cfg encode ce sp tj key peer) cln_new (first_start draw path tmp disk) E n"
  shows "(\<forall>b \<in> pay_requests (nd_lightning n). \<exists>i r. file_get i (nd_store n) = Some r
        \<and> sr_counterparty_invoice r = Some b \<and> ce_amount ce b = Inr (Some (settle_msat (sr_btc_amount r)))
        \<and> confirmed_by (settlementd_cfg encode ce sp tj key peer) E r)
    \<and> (\<forall>i r. file_get i (nd_store n) = Some r \<and> sr_state r = StReleased
        \<longrightarrow> confirmed_by (settlementd_cfg encode ce sp tj key peer) E r
           \<and> (\<exists>b \<in> pay_requests (nd_lightning n). sr_counterparty_invoice r = Some b))"
  using settlementd_paid [OF assms] by (auto simp: record_inv_def)

section \<open>A settlement that is released\<close>

definition sample_id :: settle_id where
  "sample_id = replicate 16 1"

definition paying_cln :: cln_env where
  "paying_cln = \<lparr>ce_reply = (\<lambda>_. Inr (JObj [(''result'',
       JObj [(''bolt11'', JStr ''lnbcrt1''), (''payment_preimage'', JStr (replicate 64 CHR ''0''))])])),
     ce_amount = (\<lambda>_. Inr (Some 1000)), ce_text = (\<lambda>_. [])\<rparr>"

definition sample_cfg :: "(simulated, cln, file_store) node_cfg" where
  "sample_cfg = settlementd_cfg (\<lambda>_. []) paying_cln plain_secp (\<lambda>_. []) [1] [5]"

definition sample_start :: "(simulated, cln, file_store) node" where
  "sample_start = first_start (\<lambda>k. [of_nat k]) ''journal.json'' ''journal.tmp'' (\<lambda>_. None)"

definition sample_attestation :: attestation where
  "sample_attestation = att_sign plain_secp [5] sample_id OutConfirmed (''simulated-rail-'' @ settle_id_text sample_id) 9"

definition sample_attached :: "(simulated, cln, file_store) node" where
  "sample_attached = snd (attach_invoice sample_cfg (Some 7) sample_id ''lnbcrt1''
     (snd (begin_with_expiry sample_cfg sample_id \<lparr>fa_currency = FiatNgn, fa_minor_units = 500\<rparr> (SettleMsats 1000) ''kes'' None
       sample_start)))"

definition sample_released :: "(simulated, cln, file_store) node" where
  "sample_released = snd (node_release sample_cfg sample_id (snd (apply_attestation sample_cfg sample_attestation sample_attached)))"

lemma trusted_signed:
  assumes "ecdsa_ok (nc_secp c)" and "nc_peer_identity c = Some (sp_public (nc_secp c) k)"
  shows "trusted c (att_sign (nc_secp c) k i st ev t) = Inr ()"
proof -
  have "sp_parse_key (nc_secp c) (att_signer (att_sign (nc_secp c) k i st ev t)) = Some (sp_public (nc_secp c) k)"
    using assms(1) by (simp add: att_sign_def ecdsa_ok_def)
  then show ?thesis using assms(2) by (simp add: trusted_def att_sign_verifies [OF assms(1)])
qed

lemmas sample_defs = sample_cfg_def settlementd_cfg_def sample_start_def first_start_def paying_cln_def
  file_ops_def file_put_def file_get_def get_record_def put_record_def save_def good_io_def node_get_def node_put_def
  simulated_ops_def cln_ops_def sim_reserve_def simulated_new_def cln_accept_def

lemma sample_attached_eq:
  "\<exists>r. fs_records (nd_store sample_attached) = [r] \<and> sr_id r = sample_id \<and> sr_state r = StConditionCreated \<and> sr_attestations r = []"
  "\<not> fs_poisoned (nd_store sample_attached)" "cl_pending (nd_lightning sample_attached) = [sample_id \<mapsto> ''lnbcrt1'']"
  "cl_log (nd_lightning sample_attached) = []"
  by (simp_all add: sample_attached_def attach_invoice_def begin_with_expiry_def new_record_def quote_is_expired_def
      node_chains(1) [THEN iffD2] sample_defs Let_def)

lemma sample_preimage: "hex_decode_32 (replicate 64 CHR ''0'') = Some (replicate 32 0)"
  by code_simp

lemma sample_pays:
  "\<exists>p l. lo_release (nc_lightning sample_cfg) sample_id (nd_lightning sample_attached) = (Inr p, l)
     \<and> cl_log l = [(''pay'', JObj [(''bolt11'', JStr ''lnbcrt1'')])]"
  using sample_attached_eq(3,4) sample_preimage
  by (simp add: sample_cfg_def settlementd_cfg_def cln_ops_def cln_release_def cln_call_def paying_cln_def Let_def)

lemma sample_trusted: "trusted sample_cfg sample_attestation = Inr ()"
  using trusted_signed [of sample_cfg "[5]" sample_id OutConfirmed "''simulated-rail-'' @ settle_id_text sample_id" 9] plain_secp_ok
  by (simp add: sample_attestation_def sample_cfg_def settlementd_cfg_def) (simp add: plain_secp_def)

lemma sample_get: "node_get sample_cfg i n = (case get_record i (fs_records (nd_store n)) of None \<Rightarrow> Inl (UnknownSettlement i) | Some r \<Rightarrow> Inr r)"
  by (simp add: node_get_def sample_cfg_def settlementd_cfg_def file_ops_def file_get_def)

lemma sample_put:
  assumes "\<not> fs_poisoned (nd_store n)"
  shows "fs_records (nd_store (node_put sample_cfg r n)) = put_record r (fs_records (nd_store n))"
    "\<not> fs_poisoned (nd_store (node_put sample_cfg r n))" "nd_lightning (node_put sample_cfg r n) = nd_lightning n"
  using assms file_put_good [OF assms, of "\<lambda>_. []" r]
  by (auto simp: node_put_def sample_cfg_def settlementd_cfg_def file_ops_def)

lemma sample_released_eq:
  "cl_log (nd_lightning sample_released) = [(''pay'', JObj [(''bolt11'', JStr ''lnbcrt1'')])]"
  "\<exists>r. fs_records (nd_store sample_released) = [r] \<and> sr_id r = sample_id \<and> sr_state r = StReleased
     \<and> sr_attestations r = [sample_attestation]"
proof -
  obtain r where r: "fs_records (nd_store sample_attached) = [r]" "sr_state r = StConditionCreated" "sr_id r = sample_id" "sr_attestations r = []"
    using sample_attached_eq(1) by blast
  let ?r = "r\<lparr>sr_state := StPayoutConfirmed, sr_attestations := [sample_attestation]\<rparr>"
  let ?n = "node_put sample_cfg ?r sample_attached"
  have a: "att_settlement_id sample_attestation = sample_id" "att_status sample_attestation = OutConfirmed"
    by (simp_all add: sample_attestation_def att_sign_def)
  have 1: "snd (apply_attestation sample_cfg sample_attestation sample_attached) = ?n"
    using r sample_trusted a by (simp add: apply_attestation_def sample_get get_record_def node_chains(4) [THEN iffD2])
  have n: "fs_records (nd_store ?n) = [?r]" "\<not> fs_poisoned (nd_store ?n)" "nd_lightning ?n = nd_lightning sample_attached"
    using sample_put [OF sample_attached_eq(2), of ?r] r by (simp_all add: put_record_def)
  obtain p l where l: "lo_release (nc_lightning sample_cfg) sample_id (nd_lightning sample_attached) = (Inr p, l)"
      "cl_log l = [(''pay'', JObj [(''bolt11'', JStr ''lnbcrt1'')])]"
    using sample_pays by blast
  have 2: "sample_released = node_put sample_cfg (?r\<lparr>sr_state := StReleased\<rparr>) (?n\<lparr>nd_lightning := l\<rparr>)"
    using n l r(3) unfolding sample_released_def 1
    by (simp add: node_release_def sample_get get_record_def node_chains(8) [THEN iffD2])
  show "cl_log (nd_lightning sample_released) = [(''pay'', JObj [(''bolt11'', JStr ''lnbcrt1'')])]"
    "\<exists>r. fs_records (nd_store sample_released) = [r] \<and> sr_id r = sample_id \<and> sr_state r = StReleased
       \<and> sr_attestations r = [sample_attestation]"
    using sample_put [of "?n\<lparr>nd_lightning := l\<rparr>" "?r\<lparr>sr_state := StReleased\<rparr>"] n l(2) r(3) unfolding 2
    by (simp_all add: put_record_def)
qed

lemma sample_run: "node_run sample_cfg cln_new sample_start {} sample_released"
proof -
  have n: "so_get (nc_store sample_cfg) sample_id (nd_store sample_start) = None"
    by (simp add: sample_cfg_def settlementd_cfg_def sample_start_def first_start_def file_ops_def file_get_def get_record_def)
  have "node_run sample_cfg cln_new sample_start ((({} \<union> {}) \<union> {}) \<union> {} \<union> {}) sample_released"
    unfolding sample_released_def sample_attached_def
    by (rule node_run.call, rule node_run.call, rule node_run.call, rule node_run.call, rule node_run.start)
      (rule node_op.quoted [OF n] node_op.attach node_op.attested node_op.release)+
  then show ?thesis by simp
qed

theorem release_justified_witness:
  "\<exists>r. ''lnbcrt1'' \<in> pay_requests (nd_lightning sample_released) \<and> sr_state r = StReleased
     \<and> file_get sample_id (nd_store sample_released) = Some r \<and> confirmed_by sample_cfg {} r"
proof -
  obtain r where r: "file_get sample_id (nd_store sample_released) = Some r" "sr_state r = StReleased"
    using sample_released_eq(2) by (auto simp: file_get_def get_record_def)
  then have "confirmed_by sample_cfg {} r"
    using release_justified [OF sample_run [unfolded sample_cfg_def sample_start_def]] unfolding sample_cfg_def by blast
  then show ?thesis using r sample_released_eq(1) by (auto simp: pay_requests_def)
qed

end
