(* ===== verification/Settle_Api.thy ===== *)
theory Settle_Api
  imports Settle_Safety
begin

text \<open>
  The HTTP surface of the settlement node (legacy/settlement/src/api.rs): the provider's routes, the
  peer's routes and the router. A handler takes the time (\<open>None\<close> for a clock before the epoch), the
  state of the node and, where it calls the counterparty, the state of the peer behind the HTTP client.
  Serde and axum's extractors are outside the model: requests and bodies are the parsed values.
\<close>

section \<open>Texts of errors\<close>

fun state_debug :: "settlement_state \<Rightarrow> string" where
  "state_debug StCreated = ''Created''"
| "state_debug StQuoted = ''Quoted''"
| "state_debug StSourceReserved = ''SourceReserved''"
| "state_debug StDestinationReserved = ''DestinationReserved''"
| "state_debug StConditionCreated = ''SettlementConditionCreated''"
| "state_debug StPayoutRequested = ''PayoutRequested''"
| "state_debug StPayoutConfirmed = ''PayoutConfirmed''"
| "state_debug StPayoutFailed = ''PayoutFailed''"
| "state_debug StPayoutUnknown = ''PayoutUnknown''"
| "state_debug StReleased = ''SettlementReleased''"
| "state_debug StRefunded = ''Refunded''"
| "state_debug StDisputed = ''Disputed''"

fun outcome_debug :: "payout_outcome \<Rightarrow> string" where
  "outcome_debug OutConfirmed = ''Confirmed''"
| "outcome_debug OutFailed = ''Failed''"

fun event_debug :: "settlement_event \<Rightarrow> string" where
  "event_debug EvQuote = ''Quote''"
| "event_debug EvReserveSource = ''ReserveSource''"
| "event_debug EvReserveDestination = ''ReserveDestination''"
| "event_debug EvCreateCondition = ''CreateSettlementCondition''"
| "event_debug EvRequestPayout = ''RequestPayout''"
| "event_debug (EvObservePayout None) = ''ObservePayout(None)''"
| "event_debug (EvObservePayout (Some x)) = ''ObservePayout(Some('' @ outcome_debug x @ ''))''"
| "event_debug (EvReconcileUnknown x) = ''ReconcileUnknown('' @ outcome_debug x @ '')''"
| "event_debug EvRelease = ''ReleaseSettlement''"
| "event_debug EvRefund = ''Refund''"
| "event_debug EvDispute = ''Dispute''"

fun transition_error_text :: "transition_error \<Rightarrow> string" where
  "transition_error_text (TransitionError from event) =
     ''cannot apply '' @ event_debug event @ '' to settlement in state '' @ state_debug from"

fun adapter_error_text :: "adapter_error \<Rightarrow> string" where
  "adapter_error_text (Rejected reason) = ''fiat rail rejected the request: '' @ reason"
| "adapter_error_text Timeout = ''no response was received before the request timed out''"
| "adapter_error_text ReservationNotFound = ''reservation not found''"

fun settle_ln_error_text :: "settle_ln_error \<Rightarrow> string" where
  "settle_ln_error_text InsufficientLiquidity = ''insufficient channel liquidity for this settlement''"
| "settle_ln_error_text PeerUnreachable = ''the counterparty is unreachable''"
| "settle_ln_error_text AmountMismatch = ''invoice amount does not match the expected settlement amount''"
| "settle_ln_error_text (MalformedInvoice why) = ''invoice could not be parsed: '' @ why"
| "settle_ln_error_text NoRecordedInvoice = ''no settlement invoice was recorded for this settlement id''"
| "settle_ln_error_text (LnBackendError why) = ''lightning backend error: '' @ why"

fun quote_error_text :: "quote_error \<Rightarrow> string" where
  "quote_error_text QuoteExpired = ''quote is expired''"
| "quote_error_text QuoteMalformed = ''quote signer or signature is malformed''"
| "quote_error_text QuoteInvalidSignature = ''quote signature is invalid''"
| "quote_error_text QuoteWrongProviders = ''quote's provider identities do not match this corridor''"

fun attestation_error_text :: "attestation_error \<Rightarrow> string" where
  "attestation_error_text AttMalformed = ''attestation signer public key or signature is malformed''"
| "attestation_error_text AttInvalidSignature = ''attestation signature does not verify against its claimed signer''"

fun node_error_text :: "node_error \<Rightarrow> string" where
  "node_error_text (UnknownSettlement i) = ''unknown settlement '' @ settle_id_text i"
| "node_error_text MissingReservation = ''settlement has no recorded source reservation''"
| "node_error_text (NodeTransition err) = transition_error_text err"
| "node_error_text (NodeAdapter err) = ''fiat adapter error: '' @ adapter_error_text err"
| "node_error_text (NodeLightning err) = ''lightning backend error: '' @ settle_ln_error_text err"
| "node_error_text (PayoutRejected why) = ''payout was rejected by the fiat rail: '' @ why"
| "node_error_text PayoutUnknown = ''payout outcome is not yet known; reconcile later''"
| "node_error_text NodeQuoteExpired = ''settlement quote has expired''"
| "node_error_text (NodeQuote err) = ''quote is invalid: '' @ quote_error_text err"
| "node_error_text (NotReconcilable st) = ''settlement is not in a reconcilable state: '' @ state_debug st"
| "node_error_text StillUnknown = ''payout is still unknown; nothing to reconcile yet''"
| "node_error_text (InvalidAttestation err) = ''attestation is invalid: '' @ attestation_error_text err"
| "node_error_text UnexpectedAttestationSigner = ''attestation signer is not this settlement's configured counterparty''"
| "node_error_text ConflictingEvidence = ''conflicting payout evidence was recorded; settlement is now disputed''"

section \<open>Requests, replies and the peer\<close>

text \<open>A status with its message, or the panic of an \<open>expect\<close>.\<close>

datatype settle_api_error = SettleApiError nat string | SettlePanic

definition settle_bad_request :: "string \<Rightarrow> settle_api_error" where
  "settle_bad_request message = SettleApiError 400 message"

definition settle_not_found :: "string \<Rightarrow> settle_api_error" where
  "settle_not_found message = SettleApiError 404 message"

definition settle_internal_error :: "string \<Rightarrow> settle_api_error" where
  "settle_internal_error message = SettleApiError 500 message"

definition parse_settlement_id :: "string \<Rightarrow> settle_api_error + settle_id" where
  "parse_settlement_id raw =
     (case settle_id_from_hex raw of Some i \<Rightarrow> Inr i | None \<Rightarrow> Inl (settle_bad_request ''settlement id is not valid hex''))"

record create_request =
  cs_fiat_amount :: fiat_amount
  cs_destination_amount :: fiat_amount
  cs_btc_amount_msat :: u64
  cs_counterparty :: string
  cs_beneficiary :: string
  cs_quote_expires_at :: "u64 option"

record prepare_request =
  pq_settlement_id :: string
  pq_destination_amount :: fiat_amount
  pq_btc_amount_msat :: u64
  pq_counterparty :: string
  pq_beneficiary :: string
  pq_quote_expires_at :: "u64 option"

record settlement_response =
  rs_settlement_id :: string
  rs_state :: settlement_state

text \<open>
  What the node asks its peer, and the bodies that come back. A body without the field is an absent
  attestation for serde, so an invoice also reads as one.
\<close>

datatype peer_request = PeerPrepare prepare_request | PeerPayout string | PeerReconcile string

datatype peer_body = BodyInvoice string | BodyPayout "attestation option" | BodyOther

fun body_invoice :: "peer_body \<Rightarrow> string option" where
  "body_invoice (BodyInvoice bolt11) = Some bolt11"
| "body_invoice (BodyPayout a) = None"
| "body_invoice BodyOther = None"

fun body_payout :: "peer_body \<Rightarrow> attestation option option" where
  "body_payout (BodyPayout a) = Some a"
| "body_payout (BodyInvoice bolt11) = Some None"
| "body_payout BodyOther = None"

text \<open>The HTTP client: a request fails or gets a status and a body; the texts are those of the libraries.\<close>

record 'p peer_env =
  pe_ask :: "peer_request \<Rightarrow> 'p \<Rightarrow> (string + nat \<times> peer_body) \<times> 'p"
  pe_status_text :: "nat \<Rightarrow> string"
  pe_decode_text :: "peer_body \<Rightarrow> string"

definition is_success :: "nat \<Rightarrow> bool" where
  "is_success status \<longleftrightarrow> 200 \<le> status \<and> status < 300"

section \<open>The provider's routes\<close>

text \<open>The state read back after the node has worked; \<open>expect\<close> panics when there is none.\<close>

definition settlement_now ::
  "('a, 'l, 's) node_cfg \<Rightarrow> string \<Rightarrow> settle_id \<Rightarrow> ('a, 'l, 's) node \<Rightarrow> settle_api_error + settlement_response" where
  "settlement_now c raw i n =
     (case node_state_of c i n of
        Some st \<Rightarrow> Inr \<lparr>rs_settlement_id = raw, rs_state = st\<rparr>
      | None \<Rightarrow> Inl SettlePanic)"

definition or_internal :: "node_error + 'x \<Rightarrow> settle_api_error + 'y \<Rightarrow> settle_api_error + 'y" where
  "or_internal out k = (case out of Inl err \<Rightarrow> Inl (settle_internal_error (node_error_text err)) | Inr _ \<Rightarrow> k)"

definition api_get_settlement ::
  "('a, 'l, 's) node_cfg \<Rightarrow> string \<Rightarrow> ('a, 'l, 's) node \<Rightarrow> settle_api_error + settlement_response" where
  "api_get_settlement c raw n =
     (case parse_settlement_id raw of
        Inl err \<Rightarrow> Inl err
      | Inr i \<Rightarrow>
          (case node_state_of c i n of
             None \<Rightarrow> Inl (settle_not_found ''unknown settlement'')
           | Some st \<Rightarrow> Inr \<lparr>rs_settlement_id = raw, rs_state = st\<rparr>))"

definition api_request_payout ::
  "('a, 'l, 's) node_cfg \<Rightarrow> string \<Rightarrow> ('a, 'l, 's) node \<Rightarrow> (settle_api_error + settlement_response) \<times> ('a, 'l, 's) node" where
  "api_request_payout c raw n =
     (case parse_settlement_id raw of
        Inl err \<Rightarrow> (Inl err, n)
      | Inr i \<Rightarrow> (case node_request_payout c i n of (out, n') \<Rightarrow> (or_internal out (settlement_now c raw i n'), n')))"

definition api_reconcile_payout ::
  "('a, 'l, 's) node_cfg \<Rightarrow> string \<Rightarrow> ('a, 'l, 's) node \<Rightarrow> (settle_api_error + settlement_response) \<times> ('a, 'l, 's) node" where
  "api_reconcile_payout c raw n =
     (case parse_settlement_id raw of
        Inl err \<Rightarrow> (Inl err, n)
      | Inr i \<Rightarrow> (case reconcile_unknown c i n of (out, n') \<Rightarrow> (or_internal out (settlement_now c raw i n'), n')))"

definition api_release_settlement ::
  "('a, 'l, 's) node_cfg \<Rightarrow> string \<Rightarrow> ('a, 'l, 's) node \<Rightarrow> (settle_api_error + settlement_response) \<times> ('a, 'l, 's) node" where
  "api_release_settlement c raw n =
     (case parse_settlement_id raw of
        Inl err \<Rightarrow> (Inl err, n)
      | Inr i \<Rightarrow> (case node_release c i n of (out, n') \<Rightarrow> (or_internal out (settlement_now c raw i n'), n')))"

definition api_refund_settlement ::
  "('a, 'l, 's) node_cfg \<Rightarrow> string \<Rightarrow> ('a, 'l, 's) node \<Rightarrow> (settle_api_error + settlement_response) \<times> ('a, 'l, 's) node" where
  "api_refund_settlement c raw n =
     (case parse_settlement_id raw of
        Inl err \<Rightarrow> (Inl err, n)
      | Inr i \<Rightarrow> (case node_refund c i n of (out, n') \<Rightarrow> (or_internal out (settlement_now c raw i n'), n')))"

text \<open>
  The identifier \<open>i\<close> is the one drawn; \<open>now\<close> is read for the default expiry and \<open>later\<close> when the invoice
  is attached.
\<close>

definition api_create_settlement ::
  "('a, 'l, 's) node_cfg \<Rightarrow> 'p peer_env \<Rightarrow> u64 option \<Rightarrow> u64 option \<Rightarrow> settle_id \<Rightarrow> create_request
   \<Rightarrow> ('a, 'l, 's) node \<Rightarrow> 'p \<Rightarrow> (settle_api_error + settlement_response) \<times> ('a, 'l, 's) node \<times> 'p" where
  "api_create_settlement c pe now later i req n w =
     (let expiry = (case cs_quote_expires_at req of Some x \<Rightarrow> Some x | None \<Rightarrow> map_option (\<lambda>t. t + 300) now);
          n1 = snd (begin_with_expiry c i (cs_fiat_amount req) (SettleMsats (cs_btc_amount_msat req)) (cs_counterparty req) expiry n);
          prepare = \<lparr>pq_settlement_id = settle_id_text i, pq_destination_amount = cs_destination_amount req,
            pq_btc_amount_msat = cs_btc_amount_msat req, pq_counterparty = cs_counterparty req,
            pq_beneficiary = cs_beneficiary req, pq_quote_expires_at = expiry\<rparr>
      in (case pe_ask pe (PeerPrepare prepare) w of
            (Inl err, w') \<Rightarrow> (Inl (settle_internal_error (''requesting invoice from peer: '' @ err)), n1, w')
          | (Inr (status, body), w') \<Rightarrow>
              if \<not> is_success status
              then (Inl (settle_internal_error (''peer rejected invoice request: '' @ pe_status_text pe status)), n1, w')
              else (case body_invoice body of
                None \<Rightarrow> (Inl (settle_internal_error (''parsing peer invoice response: '' @ pe_decode_text pe body)), n1, w')
              | Some bolt11 \<Rightarrow>
                  (case attach_invoice c later i bolt11 n1 of
                     (out, n2) \<Rightarrow> (or_internal out (settlement_now c (settle_id_text i) i n2), n2, w')))))"

text \<open>What both calls of the peer's payout do once an attestation is there.\<close>

definition conclude ::
  "('a, 'l, 's) node_cfg \<Rightarrow> string \<Rightarrow> settle_id \<Rightarrow> (settlement_state option \<Rightarrow> settle_api_error) \<Rightarrow> attestation
   \<Rightarrow> ('a, 'l, 's) node \<Rightarrow> (settle_api_error + settlement_response) \<times> ('a, 'l, 's) node" where
  "conclude c raw i unexpected a n =
     (case apply_attestation c a n of
        (Inl err, n1) \<Rightarrow> (Inl (settle_bad_request (node_error_text err)), n1)
      | (Inr _, n1) \<Rightarrow>
          (case node_state_of c i n1 of
             Some StPayoutConfirmed \<Rightarrow>
               (case node_release c i n1 of (out, n2) \<Rightarrow> (or_internal out (settlement_now c raw i n2), n2))
           | Some StPayoutFailed \<Rightarrow>
               (case node_refund c i n1 of (out, n2) \<Rightarrow> (or_internal out (settlement_now c raw i n2), n2))
           | st \<Rightarrow> (Inl (unexpected st), n1)))"

definition api_reconcile_peer_payout ::
  "('a, 'l, 's) node_cfg \<Rightarrow> 'p peer_env \<Rightarrow> string \<Rightarrow> ('a, 'l, 's) node \<Rightarrow> 'p
   \<Rightarrow> (settle_api_error + settlement_response) \<times> ('a, 'l, 's) node \<times> 'p" where
  "api_reconcile_peer_payout c pe raw n w =
     (case parse_settlement_id raw of
        Inl err \<Rightarrow> (Inl err, n, w)
      | Inr i \<Rightarrow>
          (case pe_ask pe (PeerReconcile (settle_id_text i)) w of
             (Inl err, w') \<Rightarrow> (Inl (settle_internal_error (''reconciling peer payout: '' @ err)), n, w')
           | (Inr (status, body), w') \<Rightarrow>
               if status = 202 then (Inr \<lparr>rs_settlement_id = raw, rs_state = StPayoutUnknown\<rparr>, n, w')
               else if \<not> is_success status
               then (Inl (settle_internal_error (''peer reconciliation failed: '' @ pe_status_text pe status)), n, w')
               else (case body_payout body of
                 None \<Rightarrow> (Inl (settle_internal_error (''parsing peer attestation: '' @ pe_decode_text pe body)), n, w')
               | Some None \<Rightarrow> (Inl (settle_internal_error ''peer omitted payout attestation''), n, w')
               | Some (Some a) \<Rightarrow>
                   (case conclude c raw i (\<lambda>_. settle_internal_error ''unexpected settlement state after reconciliation'') a n of
                      (out, n') \<Rightarrow> (out, n', w')))))"

fun unexpected_payout :: "settlement_state option \<Rightarrow> settle_api_error" where
  "unexpected_payout (Some current) = settle_internal_error (''unexpected payout state: '' @ state_debug current)"
| "unexpected_payout None = settle_not_found ''unknown settlement''"

definition api_settle ::
  "('a, 'l, 's) node_cfg \<Rightarrow> 'p peer_env \<Rightarrow> string \<Rightarrow> ('a, 'l, 's) node \<Rightarrow> 'p
   \<Rightarrow> (settle_api_error + settlement_response) \<times> ('a, 'l, 's) node \<times> 'p" where
  "api_settle c pe raw n w =
     (case parse_settlement_id raw of
        Inl err \<Rightarrow> (Inl err, n, w)
      | Inr i \<Rightarrow>
          (case pe_ask pe (PeerPayout (settle_id_text i)) w of
             (Inl err, w') \<Rightarrow> (Inl (settle_internal_error (''requesting peer payout: '' @ err)), n, w')
           | (Inr (status, body), w') \<Rightarrow>
               if \<not> is_success status
               then (Inl (settle_internal_error (''peer payout failed: '' @ pe_status_text pe status)), n, w')
               else if status = 202
               then (case mark_payout_unknown c i n of
                       (out, n') \<Rightarrow> (or_internal out (settlement_now c raw i n'), n', w'))
               else (case body_payout body of
                 None \<Rightarrow> (Inl (settle_internal_error (''parsing peer attestation: '' @ pe_decode_text pe body)), n, w')
               | Some None \<Rightarrow> (Inl (settle_internal_error ''peer omitted payout attestation''), n, w')
               | Some (Some a) \<Rightarrow>
                   (case conclude c raw i unexpected_payout a n of (out, n') \<Rightarrow> (out, n', w')))))"

section \<open>The peer's routes\<close>

definition api_create_invoice ::
  "('a, 'l, 's) node_cfg \<Rightarrow> string \<Rightarrow> u64 \<Rightarrow> ('a, 'l, 's) node \<Rightarrow> (settle_api_error + string) \<times> ('a, 'l, 's) node" where
  "api_create_invoice c raw btc_amount_msat n =
     (case parse_settlement_id raw of
        Inl err \<Rightarrow> (Inl err, n)
      | Inr i \<Rightarrow>
          (case create_settlement_invoice c i (SettleMsats btc_amount_msat) n of
             (Inl err, n') \<Rightarrow> (Inl (settle_internal_error (node_error_text err)), n')
           | (Inr bolt11, n') \<Rightarrow> (Inr bolt11, n')))"

definition api_prepare_destination ::
  "('a, 'l, 's) node_cfg \<Rightarrow> u64 option \<Rightarrow> prepare_request \<Rightarrow> ('a, 'l, 's) node \<Rightarrow> (settle_api_error + string) \<times> ('a, 'l, 's) node" where
  "api_prepare_destination c now req n =
     (case parse_settlement_id (pq_settlement_id req) of
        Inl err \<Rightarrow> (Inl err, n)
      | Inr i \<Rightarrow>
          (case prepare_destination c now i (pq_destination_amount req) (SettleMsats (pq_btc_amount_msat req))
                  (pq_counterparty req @ '':'' @ pq_beneficiary req) (pq_beneficiary req) (pq_quote_expires_at req) n of
             (Inl err, n') \<Rightarrow> (Inl (settle_bad_request (node_error_text err)), n')
           | (Inr bolt11, n') \<Rightarrow> (Inr bolt11, n')))"

text \<open>The signed answer; a clock before the epoch is an error after the rail has already been asked.\<close>

definition payout_answer ::
  "('a, 'l, 's) node_cfg \<Rightarrow> u64 option \<Rightarrow> settle_id \<Rightarrow> payout_outcome \<Rightarrow> settle_api_error + nat \<times> attestation option" where
  "payout_answer c now i out =
     (case now of
        None \<Rightarrow> Inl (settle_internal_error ''second time provided was later than self'')
      | Some t \<Rightarrow> Inr (200, Some (sign_payout_attestation c i out (''simulated-rail-'' @ settle_id_text i) t)))"

definition api_peer_payout ::
  "('a, 'l, 's) node_cfg \<Rightarrow> u64 option \<Rightarrow> string \<Rightarrow> ('a, 'l, 's) node
   \<Rightarrow> (settle_api_error + nat \<times> attestation option) \<times> ('a, 'l, 's) node" where
  "api_peer_payout c now raw n =
     (case parse_settlement_id raw of
        Inl err \<Rightarrow> (Inl err, n)
      | Inr i \<Rightarrow>
          (case node_request_payout c i n of
             (Inr out, n') \<Rightarrow> (payout_answer c now i out, n')
           | (Inl err, n') \<Rightarrow>
               if err = PayoutUnknown then (Inr (202, None), n')
               else (Inl (settle_bad_request (node_error_text err)), n')))"

definition api_peer_reconcile_payout ::
  "('a, 'l, 's) node_cfg \<Rightarrow> u64 option \<Rightarrow> string \<Rightarrow> ('a, 'l, 's) node
   \<Rightarrow> (settle_api_error + nat \<times> attestation option) \<times> ('a, 'l, 's) node" where
  "api_peer_reconcile_payout c now raw n =
     (case parse_settlement_id raw of
        Inl err \<Rightarrow> (Inl err, n)
      | Inr i \<Rightarrow>
          (case reconcile_unknown c i n of
             (Inr out, n') \<Rightarrow> (payout_answer c now i out, n')
           | (Inl err, n') \<Rightarrow>
               if err = StillUnknown then (Inr (202, None), n')
               else (Inl (settle_bad_request (node_error_text err)), n')))"

definition api_receive_attestation ::
  "('a, 'l, 's) node_cfg \<Rightarrow> attestation \<Rightarrow> ('a, 'l, 's) node \<Rightarrow> (settle_api_error + nat) \<times> ('a, 'l, 's) node" where
  "api_receive_attestation c a n =
     (case record_attestation c a n of
        (Inl err, n') \<Rightarrow> (Inl (settle_bad_request (node_error_text err)), n')
      | (Inr _, n') \<Rightarrow> (Inr 200, n'))"

section \<open>The router\<close>

datatype settle_request =
    ReqCreate create_request | ReqGet string | ReqPayout string | ReqReconcile string | ReqReconcilePeer string
  | ReqRelease string | ReqSettle string | ReqRefund string
  | ReqPeerInvoice string u64 | ReqPeerPrepare prepare_request | ReqPeerPayout string | ReqPeerReconcile string
  | ReqPeerAttestation attestation

datatype settle_reply =
    ReplySettlement settlement_response | ReplyInvoice string | ReplyPayout nat "attestation option" | ReplyStatus nat
  | ReplyError settle_api_error

definition settlement_reply :: "settle_api_error + settlement_response \<Rightarrow> settle_reply" where
  "settlement_reply out = (case out of Inl err \<Rightarrow> ReplyError err | Inr r \<Rightarrow> ReplySettlement r)"

definition invoice_reply :: "settle_api_error + string \<Rightarrow> settle_reply" where
  "invoice_reply out = (case out of Inl err \<Rightarrow> ReplyError err | Inr b \<Rightarrow> ReplyInvoice b)"

definition payout_reply :: "settle_api_error + nat \<times> attestation option \<Rightarrow> settle_reply" where
  "payout_reply out = (case out of Inl err \<Rightarrow> ReplyError err | Inr (status, a) \<Rightarrow> ReplyPayout status a)"

definition status_reply :: "settle_api_error + nat \<Rightarrow> settle_reply" where
  "status_reply out = (case out of Inl err \<Rightarrow> ReplyError err | Inr status \<Rightarrow> ReplyStatus status)"

fun settlement_router ::
  "('a, 'l, 's) node_cfg \<Rightarrow> 'p peer_env \<Rightarrow> u64 option \<Rightarrow> u64 option \<Rightarrow> settle_id \<Rightarrow> settle_request
   \<Rightarrow> ('a, 'l, 's) node \<Rightarrow> 'p \<Rightarrow> settle_reply \<times> ('a, 'l, 's) node \<times> 'p" where
  "settlement_router c pe now later i (ReqCreate req) n w = apfst settlement_reply (api_create_settlement c pe now later i req n w)"
| "settlement_router c pe now later i (ReqGet raw) n w = (settlement_reply (api_get_settlement c raw n), n, w)"
| "settlement_router c pe now later i (ReqPayout raw) n w =
     (case api_request_payout c raw n of (out, n') \<Rightarrow> (settlement_reply out, n', w))"
| "settlement_router c pe now later i (ReqReconcile raw) n w =
     (case api_reconcile_payout c raw n of (out, n') \<Rightarrow> (settlement_reply out, n', w))"
| "settlement_router c pe now later i (ReqReconcilePeer raw) n w = apfst settlement_reply (api_reconcile_peer_payout c pe raw n w)"
| "settlement_router c pe now later i (ReqRelease raw) n w =
     (case api_release_settlement c raw n of (out, n') \<Rightarrow> (settlement_reply out, n', w))"
| "settlement_router c pe now later i (ReqSettle raw) n w = apfst settlement_reply (api_settle c pe raw n w)"
| "settlement_router c pe now later i (ReqRefund raw) n w =
     (case api_refund_settlement c raw n of (out, n') \<Rightarrow> (settlement_reply out, n', w))"
| "settlement_router c pe now later i (ReqPeerInvoice raw amount) n w =
     (case api_create_invoice c raw amount n of (out, n') \<Rightarrow> (invoice_reply out, n', w))"
| "settlement_router c pe now later i (ReqPeerPrepare req) n w =
     (case api_prepare_destination c now req n of (out, n') \<Rightarrow> (invoice_reply out, n', w))"
| "settlement_router c pe now later i (ReqPeerPayout raw) n w =
     (case api_peer_payout c now raw n of (out, n') \<Rightarrow> (payout_reply out, n', w))"
| "settlement_router c pe now later i (ReqPeerReconcile raw) n w =
     (case api_peer_reconcile_payout c now raw n of (out, n') \<Rightarrow> (payout_reply out, n', w))"
| "settlement_router c pe now later i (ReqPeerAttestation a) n w =
     (case api_receive_attestation c a n of (out, n') \<Rightarrow> (status_reply out, n', w))"

section \<open>A node as the peer of another\<close>

fun peer_route :: "peer_request \<Rightarrow> settle_request" where
  "peer_route (PeerPrepare req) = ReqPeerPrepare req"
| "peer_route (PeerPayout raw) = ReqPeerPayout raw"
| "peer_route (PeerReconcile raw) = ReqPeerReconcile raw"

fun reply_http :: "settle_reply \<Rightarrow> string + nat \<times> peer_body" where
  "reply_http (ReplySettlement r) = Inr (200, BodyOther)"
| "reply_http (ReplyInvoice bolt11) = Inr (200, BodyInvoice bolt11)"
| "reply_http (ReplyPayout status a) = Inr (status, BodyPayout a)"
| "reply_http (ReplyStatus status) = Inr (status, BodyOther)"
| "reply_http (ReplyError (SettleApiError status message)) = Inr (status, BodyOther)"
| "reply_http (ReplyError SettlePanic) = Inl ''connection closed''"

text \<open>The peer routes never call their own peer, so its state is the unit.\<close>

definition no_peer :: "unit peer_env" where
  "no_peer = \<lparr>pe_ask = (\<lambda>_ w. (Inl ''unreachable'', w)), pe_status_text = (\<lambda>_. []), pe_decode_text = (\<lambda>_. [])\<rparr>"

definition peer_node ::
  "('a, 'l, 's) node_cfg \<Rightarrow> u64 option \<Rightarrow> (nat \<Rightarrow> string) \<Rightarrow> (peer_body \<Rightarrow> string) \<Rightarrow> ('a, 'l, 's) node peer_env" where
  "peer_node c now status_text decode_text =
     \<lparr>pe_ask = (\<lambda>q n. case settlement_router c no_peer now now [] (peer_route q) n () of (rep, n', _) \<Rightarrow> (reply_http rep, n')),
      pe_status_text = status_text, pe_decode_text = decode_text\<rparr>"

end
