(* ===== verification/Settle_Agreement.thy ===== *)
theory Settle_Agreement
  imports Settle_Api
begin

text \<open>
  Two settlement nodes together. The requests of the router decompose into methods of the node, so what
  holds of every run of methods holds of the API; a node signs a confirmation only when its rail has
  recorded the payout; and so a source that pays over Lightning pays for a payout that was made.
\<close>

section \<open>Requests as runs of methods\<close>

definition node_ops :: "('a, 'l, 's) node_cfg \<Rightarrow> ('a, 'l, 's) node \<Rightarrow> ('a, 'l, 's) node \<Rightarrow> bool" where
  "node_ops c = (\<lambda>n n'. \<exists>e. node_op c n e n')\<^sup>*\<^sup>*"

lemma node_ops_refl: "node_ops c n n"
  by (simp add: node_ops_def)

lemma node_ops_op: "node_op c n e n' \<Longrightarrow> node_ops c n n'"
  unfolding node_ops_def by (rule r_into_rtranclp) blast

lemma node_ops_trans: "node_ops c n n1 \<Longrightarrow> node_ops c n1 n2 \<Longrightarrow> node_ops c n n2"
  by (simp add: node_ops_def)

lemma node_ops_induct [consumes 1, case_names refl step]:
  assumes "node_ops c n n'" and "P n" and "\<And>x e y. P x \<Longrightarrow> node_op c x e y \<Longrightarrow> P y"
  shows "P n'"
  using assms(1) unfolding node_ops_def by (induction rule: rtranclp_induct) (use assms(2,3) in blast)+

lemma node_ops_methods:
  "so_get (nc_store c) i (nd_store n) = None \<Longrightarrow> node_ops c n (snd (begin_with_expiry c i fiat btc cp x n))"
  "node_ops c n (snd (attach_invoice c now i b n))"
  "node_ops c n (snd (create_settlement_invoice c i btc n))"
  "node_ops c n (snd (prepare_destination c now i fiat btc cp ben x n))"
  "node_ops c n (snd (node_request_payout c i n))"
  "node_ops c n (snd (apply_attestation c a n))"
  "node_ops c n (snd (mark_payout_unknown c i n))"
  "node_ops c n (snd (reconcile_unknown c i n))"
  "node_ops c n (snd (node_release c i n))"
  "node_ops c n (snd (node_refund c i n))"
  "node_ops c n (snd (record_attestation c a n))"
  by (rule node_ops_op, rule node_op.intros, (rule prod.collapse [symmetric])?, assumption?)+

lemma node_ops_conclude: "node_ops c n (snd (conclude c raw i unexpected a n))"
proof -
  obtain out n1 where a: "apply_attestation c a n = (out, n1)" by fastforce
  then have "node_ops c n n1" using node_ops_methods(6) [of c n a] by simp
  moreover have "node_ops c n1 (snd (conclude c raw i unexpected a n))"
    using a node_ops_methods(9) [of c n1 i] node_ops_methods(10) [of c n1 i] node_ops_refl [of c n1]
    by (auto simp: conclude_def split: sum.split option.split settlement_state.split prod.split)
  ultimately show ?thesis by (rule node_ops_trans)
qed

lemma node_ops_create:
  assumes "so_get (nc_store c) i (nd_store n) = None"
  shows "node_ops c n (fst (snd (api_create_settlement c pe now later i req n w)))"
proof -
  define expiry where "expiry = (case cs_quote_expires_at req of Some x \<Rightarrow> Some x | None \<Rightarrow> map_option (\<lambda>t. t + 300) now)"
  define n1 where "n1 = snd (begin_with_expiry c i (cs_fiat_amount req) (SettleMsats (cs_btc_amount_msat req))
    (cs_counterparty req) expiry n)"
  have "node_ops c n n1" unfolding n1_def by (rule node_ops_methods(1) [OF assms])
  moreover have "node_ops c n1 (fst (snd (api_create_settlement c pe now later i req n w)))"
    unfolding api_create_settlement_def expiry_def [symmetric] n1_def [symmetric] Let_def
    using node_ops_refl [of c n1] node_ops_methods(2) [of c n1 later i]
    by (auto split: sum.split option.split prod.split) (metis snd_conv)+
  ultimately show ?thesis by (rule node_ops_trans)
qed

lemma node_ops_settle:
  "node_ops c n (fst (snd (api_settle c pe raw n w)))"
  "node_ops c n (fst (snd (api_reconcile_peer_payout c pe raw n w)))"
  using node_ops_refl [of c n] node_ops_conclude [of c n raw] node_ops_methods(7) [of c n]
  by (auto simp: api_settle_def api_reconcile_peer_payout_def split: sum.split option.split prod.split) (metis snd_conv)+

lemma node_ops_handlers:
  "node_ops c n (snd (api_request_payout c raw n))" "node_ops c n (snd (api_reconcile_payout c raw n))"
  "node_ops c n (snd (api_release_settlement c raw n))" "node_ops c n (snd (api_refund_settlement c raw n))"
  "node_ops c n (snd (api_create_invoice c raw btc n))" "node_ops c n (snd (api_prepare_destination c now req n))"
  "node_ops c n (snd (api_peer_payout c now raw n))" "node_ops c n (snd (api_peer_reconcile_payout c now raw n))"
  "node_ops c n (snd (api_receive_attestation c a n))"
proof -
  note ops = node_ops_methods [of c] node_ops_refl [of c n]
  show "node_ops c n (snd (api_request_payout c raw n))" "node_ops c n (snd (api_reconcile_payout c raw n))"
    "node_ops c n (snd (api_release_settlement c raw n))" "node_ops c n (snd (api_refund_settlement c raw n))"
    by (simp_all add: api_request_payout_def api_reconcile_payout_def api_release_settlement_def api_refund_settlement_def
        case_prod_unfold ops split: sum.split)
  show "node_ops c n (snd (api_create_invoice c raw btc n))"
    using ops(3) [of n _ "SettleMsats btc"] ops(12) by (auto simp: api_create_invoice_def split: sum.split prod.split) (metis snd_conv)+
  show "node_ops c n (snd (api_prepare_destination c now req n))"
    using ops(4) [of n now] ops(12) by (auto simp: api_prepare_destination_def split: sum.split prod.split) (metis snd_conv)+
  show "node_ops c n (snd (api_peer_payout c now raw n))"
    using ops(5) [of n] ops(12) by (auto simp: api_peer_payout_def split: sum.split prod.split) (metis snd_conv)+
  show "node_ops c n (snd (api_peer_reconcile_payout c now raw n))"
    using ops(8) [of n] ops(12) by (auto simp: api_peer_reconcile_payout_def split: sum.split prod.split) (metis snd_conv)+
  show "node_ops c n (snd (api_receive_attestation c a n))"
    using ops(11) [of n a] by (auto simp: api_receive_attestation_def split: sum.split prod.split)
qed

lemma router_ops:
  assumes "so_get (nc_store c) i (nd_store n) = None"
  shows "node_ops c n (fst (snd (settlement_router c pe now later i q n w)))"
  by (cases q) (simp_all add: case_prod_unfold node_ops_handlers node_ops_refl node_ops_settle node_ops_create [OF assms])

section \<open>What a node signs\<close>

text \<open>The attestations in a reply.\<close>

fun reply_attestations :: "settle_reply \<Rightarrow> attestation set" where
  "reply_attestations (ReplyPayout status a) = set_option a"
| "reply_attestations _ = {}"

lemma reply_attestations_none [simp]:
  "reply_attestations (settlement_reply x) = {}" "reply_attestations (invoice_reply y) = {}" "reply_attestations (status_reply z) = {}"
  by (simp_all add: settlement_reply_def invoice_reply_def status_reply_def split: sum.split)

text \<open>The rail forgets no outcome it has given.\<close>

definition rail_keeps :: "'a adapter_ops \<Rightarrow> 'a \<Rightarrow> 'a \<Rightarrow> bool" where
  "rail_keeps ao a a' \<longleftrightarrow> (\<forall>k out. ao_query ao k a = Inr (Some out) \<longrightarrow> ao_query ao k a' = Inr (Some out))"

text \<open>
  A run of the API: any request at any time with any peer, work of the rail, crashes inside a method and
  restarts. The set collects the attestations handed out.
\<close>

inductive api_run ::
  "('a, 'l, 's) node_cfg \<Rightarrow> ('l \<Rightarrow> 'l) \<Rightarrow> ('a, 'l, 's) node \<Rightarrow> attestation set \<Rightarrow> ('a, 'l, 's) node \<Rightarrow> bool"
  for c restart n0 where
  start: "api_run c restart n0 {} n0"
| request: "api_run c restart n0 K n \<Longrightarrow> so_get (nc_store c) i (nd_store n) = None
    \<Longrightarrow> settlement_router c pe now later i q n (w :: nat) = (rep, n', w')
    \<Longrightarrow> api_run c restart n0 (K \<union> reply_attestations rep) n'"
| rail: "api_run c restart n0 K n \<Longrightarrow> rail_keeps (nc_adapter c) (nd_adapter n) a
    \<Longrightarrow> api_run c restart n0 K (n\<lparr>nd_adapter := a\<rparr>)"
| crash: "api_run c restart n0 K n \<Longrightarrow> node_op c n e n'
    \<Longrightarrow> api_run c restart n0 K (n'\<lparr>nd_store := nd_store n, nd_lightning := restart (nd_lightning n')\<rparr>)"
| restarted: "api_run c restart n0 K n
    \<Longrightarrow> api_run c restart n0 K (snd (recover c (n\<lparr>nd_lightning := restart (nd_lightning n)\<rparr>)))"

lemma recover_each_keeps:
  "nd_store (snd (recover_each c rs n)) = nd_store n \<and> nd_adapter (snd (recover_each c rs n)) = nd_adapter n"
  by (induction rs arbitrary: n) (auto split: option.split prod.split sum.split)

locale paying_node = fiat_adapter "nc_adapter c" + settlement_store "nc_store c" ok
  for c :: "('a, 'l, 's) node_cfg" and ok
begin

abbreviation rail_of :: "('a, 'l, 's) node \<Rightarrow> ('a, 'l, 's) node \<Rightarrow> bool" where
  "rail_of n n' \<equiv> rail_keeps (nc_adapter c) (nd_adapter n) (nd_adapter n')"

text \<open>A payout is made under the text of its settlement.\<close>

definition keyed :: "('a, 'l, 's) node \<Rightarrow> bool" where
  "keyed n \<longleftrightarrow> ok (nd_store n)
     \<and> (\<forall>i r. so_get (nc_store c) i (nd_store n) = Some r \<longrightarrow> sr_payout_key r = settle_id_text i)"

lemma keyed_put: "keyed n \<Longrightarrow> sr_payout_key r = settle_id_text (sr_id r) \<Longrightarrow> keyed (node_put c r n)"
  by (auto simp: keyed_def node_put_def put_ok get_put)

lemma keyed_parts: "keyed (n\<lparr>nd_adapter := a\<rparr>) = keyed n" "keyed (n\<lparr>nd_lightning := l\<rparr>) = keyed n"
  by (simp_all add: keyed_def)

lemma keyed_new: "keyed n \<Longrightarrow> keyed (node_put c (new_record i st fiat btc cp ben x q rv) n)"
  by (rule keyed_put) (simp_all add: new_record_def)

lemma keyed_record: "keyed n \<Longrightarrow> node_get c i n = Inr r \<Longrightarrow> sr_id r = i \<and> sr_payout_key r = settle_id_text i"
  using get_id [of "nd_store n" i r] by (auto simp: keyed_def node_get_def split: option.splits)

lemma rail_refl: "rail_of n n"
  by (simp add: rail_keeps_def)

lemma rail_trans: "rail_of n n1 \<Longrightarrow> rail_of n1 n2 \<Longrightarrow> rail_of n n2"
  by (simp add: rail_keeps_def)

lemma adapter_put [simp]: "nd_adapter (node_put c r n) = nd_adapter n"
  by (simp add: node_put_def)

lemma rail_reserve: "ao_reserve (nc_adapter c) amount a = (res, a') \<Longrightarrow> rail_keeps (nc_adapter c) a a'"
  by (simp add: rail_keeps_def reserve_keeps)

lemma rail_initiate: "ao_initiate (nc_adapter c) rv b k a = (res, a') \<Longrightarrow> rail_keeps (nc_adapter c) a a'"
  unfolding rail_keeps_def by (blast intro: initiate_keeps)

lemmas keyed_rules = keyed_put keyed_new keyed_parts rail_refl

lemma attach_keyed:
  assumes "keyed n"
  shows "keyed (snd (attach_invoice c now i b n)) \<and> rail_of n (snd (attach_invoice c now i b n))"
  using assms keyed_record [OF assms]
  by (auto simp: attach_invoice_def keyed_rules dest: rail_reserve split: sum.split prod.split)

lemma prepare_keyed:
  assumes "keyed n"
  shows "keyed (snd (prepare_destination c now i fiat btc cp ben x n))
    \<and> rail_of n (snd (prepare_destination c now i fiat btc cp ben x n))"
  using assms
  by (auto simp: prepare_destination_def create_settlement_invoice_def keyed_rules dest: rail_reserve
      split: sum.splits prod.splits)

lemma request_keyed:
  assumes "keyed n" and "node_request_payout c i n = (out, n')"
  shows "keyed n' \<and> rail_of n n'
    \<and> (out = Inr x \<longrightarrow> ao_query (nc_adapter c) (settle_id_text i) (nd_adapter n') = Inr (Some x))"
proof (cases "\<exists>r rv. node_get c i n = Inr r \<and> sr_state r = StConditionCreated \<and> sr_source_reservation r = Some rv")
  case True
  then obtain r rv where r: "node_get c i n = Inr r" "sr_state r = StConditionCreated" "sr_source_reservation r = Some rv" by blast
  obtain res a where a: "ao_initiate (nc_adapter c) rv (sr_beneficiary r) (sr_payout_key r) (nd_adapter n) = (res, a)" by fastforce
  have step: "(out, n') = (case observe_payout res StPayoutRequested of
      Inl err \<Rightarrow> (Inl err, n\<lparr>nd_adapter := a\<rparr>)
    | Inr (result, t) \<Rightarrow> (result, node_put c (r\<lparr>sr_state := t\<rparr>) (n\<lparr>nd_adapter := a\<rparr>)))"
    using assms(2) r a by (simp add: node_request_payout_def node_chains(2) [THEN iffD2])
  show ?thesis
    using step assms(1) keyed_record [OF assms(1) r(1)] rail_initiate [OF a] initiate_recorded a
    by (auto simp: observe_payout_requested keyed_rules split: sum.splits adapter_error.splits)
next
  case False
  then have "n' = n \<and> (\<exists>err. out = Inl err)"
    using assms(2) by (auto simp: node_request_payout_def node_chains split: sum.splits option.splits)
  then show ?thesis using assms(1) rail_refl by auto
qed

lemma reconcile_keyed:
  assumes "keyed n" and "reconcile_unknown c i n = (out, n')"
  shows "keyed n' \<and> rail_of n n'
    \<and> (out = Inr x \<longrightarrow> ao_query (nc_adapter c) (settle_id_text i) (nd_adapter n') = Inr (Some x))"
  using assms keyed_record [OF assms(1)]
  by (auto simp: reconcile_unknown_def keyed_rules split: sum.splits option.splits if_splits)

lemma op_keyed:
  assumes "node_op c n e n'" and n: "keyed n"
  shows "keyed n' \<and> rail_of n n'"
  using assms(1)
proof cases
  case (request i out)
  then show ?thesis using request_keyed [OF n] by blast
next
  case (reconcile i out)
  then show ?thesis using reconcile_keyed [OF n] by blast
qed (use n keyed_record [OF n] in \<open>auto simp: begin_with_expiry_def begin_from_quote_def attach_keyed prepare_keyed
    create_settlement_invoice_def apply_attestation_def mark_payout_unknown_def node_release_def node_refund_def
    record_attestation_def Let_def keyed_rules split: option.split sum.split prod.split\<close>)

lemma ops_keyed: "node_ops c n n' \<Longrightarrow> keyed n \<Longrightarrow> keyed n' \<and> rail_of n n'"
  by (induction rule: node_ops_induct) (use op_keyed rail_refl rail_trans in blast)+

text \<open>An attestation that leaves the node is the signature on an outcome the rail holds.\<close>

definition on_record :: "('a, 'l, 's) node \<Rightarrow> attestation \<Rightarrow> bool" where
  "on_record n a \<longleftrightarrow> ao_query (nc_adapter c) (settle_id_text (att_settlement_id a)) (nd_adapter n) = Inr (Some (att_status a))"

lemma answer_on_record:
  assumes "ao_query (nc_adapter c) (settle_id_text i) (nd_adapter n) = Inr (Some x)" and "payout_answer c now i x = Inr (status, Some a)"
  shows "on_record n a"
  using assms by (auto simp: payout_answer_def sign_payout_attestation_def att_sign_def on_record_def split: option.splits)

lemma reply_on_record:
  assumes "keyed n" and "settlement_router c pe now later i q n w = (rep, n', w')" and "a \<in> reply_attestations rep"
  shows "on_record n' a"
proof (cases q)
  case (ReqPeerPayout raw)
  then show ?thesis using assms request_keyed [OF assms(1)]
    by (auto simp: api_peer_payout_def payout_reply_def split: prod.splits sum.splits if_splits) (metis answer_on_record)+
next
  case (ReqPeerReconcile raw)
  then show ?thesis using assms reconcile_keyed [OF assms(1)]
    by (auto simp: api_peer_reconcile_payout_def payout_reply_def split: prod.splits sum.splits if_splits) (metis answer_on_record)+
qed (use assms in \<open>auto simp: apfst_def map_prod_def split: prod.splits\<close>)

lemma run_on_record: "api_run c restart n0 K n \<Longrightarrow> keyed n0 \<Longrightarrow> keyed n \<and> (\<forall>a \<in> K. on_record n a)"
proof (induction rule: api_run.induct)
  case (request K n i pe now later q w rep n' w')
  then have "node_ops c n n'" using router_ops [of c i n pe now later q w] by simp
  then have "keyed n' \<and> rail_of n n'" using ops_keyed request by blast
  moreover have "on_record n' a" if "on_record n a" for a
    using that \<open>keyed n' \<and> rail_of n n'\<close> by (simp add: on_record_def rail_keeps_def)
  ultimately show ?case using request reply_on_record [of n pe now later i q w rep n' w'] by blast
next
  case (rail K n a)
  then show ?case by (auto simp: keyed_parts on_record_def rail_keeps_def)
next
  case (crash K n e n')
  then have "keyed n" "rail_of n n'" using op_keyed by blast+
  moreover have "on_record n' a" if "on_record n a" for a using that \<open>rail_of n n'\<close> by (simp add: on_record_def rail_keeps_def)
  ultimately show ?case using crash by (simp add: keyed_def on_record_def)
next
  case (restarted K n)
  let ?n = "n\<lparr>nd_lightning := restart (nd_lightning n)\<rparr>"
  obtain m where m: "m = snd (recover c ?n)" by simp
  then have "nd_store m = nd_store n \<and> nd_adapter m = nd_adapter n"
    using recover_each_keeps [of c "so_pending (nc_store c) (nd_store n)" ?n] by (simp add: recover_def)
  then have "keyed m = keyed n" "\<And>a. on_record m a = on_record n a" by (simp_all add: keyed_def on_record_def)
  then show ?case using restarted.IH restarted.prems unfolding m [symmetric] by blast
qed simp

end

interpretation payer: paying_node "settlementd_cfg encode ce sp tj key peer" "\<lambda>fs. \<not> fs_poisoned fs \<and> records_ok (fs_records fs)"
  for encode ce sp tj key peer
  by (simp add: paying_node_def settlementd_cfg_def simulated.fiat_adapter_axioms journal.settlement_store_axioms)

lemma keyed_first_start: "payer.keyed encode ce sp tj key peer (first_start draw path tmp disk)"
  unfolding payer.keyed_def
  by (simp add: settlementd_cfg_def file_ops_def file_get_def get_record_def first_start_def)

section \<open>Agreement of two nodes\<close>

text \<open>
  C38. When the source pays, the destination has paid out. Take a source daemon and a destination daemon
  that know each other's keys, each in any run from its first start (any requests, crashes and restarts,
  and on the destination's side a rail that keeps the outcomes it gave). Assume only that signatures
  cannot be forged: an attestation recorded at the source that verifies under the destination's key was
  handed out by the destination. Then every invoice the source ever asked \<open>lightningd\<close> to pay was
  attached to a settlement of exactly that amount whose payout is confirmed on the destination's rail
  under the text of its identifier, or was confirmed by the source's own rail.
\<close>

theorem settlement_agreement:
  assumes source: "node_run (settlementd_cfg enc1 ce1 sp tj key1 (sp_public sp key2)) cln_new (first_start draw1 path1 tmp1 disk1) E n1"
    and destination: "api_run (settlementd_cfg enc2 ce2 sp tj key2 (sp_public sp key1)) cln_new (first_start draw2 path2 tmp2 disk2) K n2"
    and unforgeable: "\<forall>i r a. file_get i (nd_store n1) = Some r \<and> a \<in> set (sr_attestations r) \<and> att_verify sp a = Inr ()
        \<and> sp_parse_key sp (att_signer a) = Some (sp_public sp key2) \<longrightarrow> a \<in> K"
  shows "\<forall>b \<in> pay_requests (nd_lightning n1). \<exists>i r. file_get i (nd_store n1) = Some r
    \<and> sr_counterparty_invoice r = Some b \<and> ce_amount ce1 b = Inr (Some (settle_msat (sr_btc_amount r)))
    \<and> (i \<in> E \<or> sim_payouts (nd_adapter n2) (settle_id_text i) = Some OutConfirmed)"
proof
  let ?c = "settlementd_cfg enc1 ce1 sp tj key1 (sp_public sp key2)"
  fix b assume "b \<in> pay_requests (nd_lightning n1)"
  then obtain i r where r: "file_get i (nd_store n1) = Some r" "sr_counterparty_invoice r = Some b"
      "ce_amount ce1 b = Inr (Some (settle_msat (sr_btc_amount r)))" "confirmed_by ?c E r"
    using settlementd_paid [OF source] by blast
  have id: "sr_id r = i" using r(1) get_record_Some by (auto simp: file_get_def)
  have "i \<in> E \<or> sim_payouts (nd_adapter n2) (settle_id_text i) = Some OutConfirmed"
  proof (cases "i \<in> E")
    case False
    then obtain a where a: "a \<in> set (sr_attestations r)" "trusted ?c a = Inr ()" "att_settlement_id a = i" "att_status a = OutConfirmed"
      using r(4) id by (auto simp: confirmed_by_def)
    then have "a \<in> K" using unforgeable r(1) trusted_peer [OF a(2)] by (simp add: settlementd_cfg_def)
    then have "payer.on_record enc2 ce2 sp tj key2 (sp_public sp key1) n2 a"
      using payer.run_on_record [OF destination] keyed_first_start by blast
    then show ?thesis using a unfolding payer.on_record_def by (simp add: settlementd_cfg_def simulated_ops_def sim_query_def)
  qed simp
  then show "\<exists>i r. file_get i (nd_store n1) = Some r \<and> sr_counterparty_invoice r = Some b
      \<and> ce_amount ce1 b = Inr (Some (settle_msat (sr_btc_amount r)))
      \<and> (i \<in> E \<or> sim_payouts (nd_adapter n2) (settle_id_text i) = Some OutConfirmed)" using r by blast
qed

section \<open>A destination that pays out\<close>

definition sample_dest_cfg :: "(simulated, cln, file_store) node_cfg" where
  "sample_dest_cfg = settlementd_cfg (\<lambda>_. []) paying_cln plain_secp (\<lambda>_. []) [5] [1]"

definition sample_prepare :: prepare_request where
  "sample_prepare = \<lparr>pq_settlement_id = settle_id_text sample_id, pq_destination_amount = \<lparr>fa_currency = FiatKes, fa_minor_units = 90\<rparr>,
     pq_btc_amount_msat = 1000, pq_counterparty = ''ngn'', pq_beneficiary = ''254700'', pq_quote_expires_at = None\<rparr>"

definition sample_prepared :: "(simulated, cln, file_store) node" where
  "sample_prepared = snd (api_prepare_destination sample_dest_cfg (Some 7) sample_prepare sample_start)"

definition sample_paid_out :: "(simulated, cln, file_store) node" where
  "sample_paid_out = snd (api_peer_payout sample_dest_cfg (Some 9) (settle_id_text sample_id) sample_prepared)"

lemma sample_parse: "parse_settlement_id (settle_id_text sample_id) = Inr sample_id"
  using settle_id_roundtrip [of sample_id] by (simp add: parse_settlement_id_def sample_id_def)

lemma sample_prepared_eq:
  "\<exists>r. fs_records (nd_store sample_prepared) = [r] \<and> sr_id r = sample_id \<and> sr_state r = StConditionCreated
     \<and> sr_source_reservation r = Some [0] \<and> sr_payout_key r = settle_id_text sample_id"
  "\<not> fs_poisoned (nd_store sample_prepared)"
  "sim_reservations (nd_adapter sample_prepared) [0] \<noteq> None" "sim_payouts (nd_adapter sample_prepared) = Map.empty"
  "sim_behaviors (nd_adapter sample_prepared) = Map.empty"
  by (simp_all add: sample_prepared_def api_prepare_destination_def sample_prepare_def sample_parse prepare_destination_def
      create_settlement_invoice_def new_record_def cln_create_def cln_call_def node_chains(11) sample_dest_cfg_def sample_defs Let_def)

lemma sample_payout:
  "\<exists>n. node_request_payout sample_dest_cfg sample_id sample_prepared = (Inr OutConfirmed, n)
     \<and> node_state_of sample_dest_cfg sample_id n = Some StPayoutConfirmed"
proof -
  obtain r where r: "fs_records (nd_store sample_prepared) = [r]" "sr_id r = sample_id" "sr_state r = StConditionCreated"
      "sr_source_reservation r = Some [0]"
    using sample_prepared_eq(1) by blast
  then show ?thesis using sample_prepared_eq(2-5)
    by (auto simp: node_request_payout_def node_chains(2) [THEN iffD2] observe_payout_requested sim_initiate_def
        sample_dest_cfg_def node_state_of_def sample_defs Let_def)
qed

lemma sample_dest_run: "api_run sample_dest_cfg cln_new sample_start {sample_attestation} sample_paid_out"
proof -
  let ?pe = "\<lparr>pe_ask = (\<lambda>_ w. (Inl [], w)), pe_status_text = (\<lambda>_. []), pe_decode_text = (\<lambda>_. [])\<rparr> :: nat peer_env"
  have ne: "sample_id \<noteq> []" by (simp add: sample_id_def)
  have fresh: "so_get (nc_store sample_dest_cfg) [] (nd_store n) = None" if "\<forall>r \<in> set (fs_records (nd_store n)). sr_id r \<noteq> []" for n
    using that by (simp add: sample_dest_cfg_def settlementd_cfg_def file_ops_def file_get_def get_record_def find_None_iff)
  obtain b where b: "api_prepare_destination sample_dest_cfg (Some 7) sample_prepare sample_start = (Inr b, sample_prepared)"
    unfolding sample_prepared_def
    by (simp add: api_prepare_destination_def sample_prepare_def sample_parse prepare_destination_def
      create_settlement_invoice_def new_record_def cln_create_def cln_call_def node_chains(11) sample_dest_cfg_def sample_defs Let_def)
  have "api_run sample_dest_cfg cln_new sample_start ({} \<union> reply_attestations (ReplyInvoice b)) sample_prepared"
    by (rule api_run.request [OF api_run.start fresh, where pe = ?pe and q = "ReqPeerPrepare sample_prepare" and now = "Some 7"])
      (simp_all add: b invoice_reply_def, simp add: sample_start_def first_start_def)
  then have 1: "api_run sample_dest_cfg cln_new sample_start {} sample_prepared" by simp
  have a: "payout_answer sample_dest_cfg (Some 9) sample_id OutConfirmed = Inr (200, Some sample_attestation)"
    by (simp add: payout_answer_def sign_payout_attestation_def sample_attestation_def sample_dest_cfg_def settlementd_cfg_def)
  have p: "api_peer_payout sample_dest_cfg (Some 9) (settle_id_text sample_id) sample_prepared
      = (Inr (200, Some sample_attestation), sample_paid_out)"
    unfolding sample_paid_out_def using sample_payout by (auto simp: api_peer_payout_def sample_parse a)
  have "api_run sample_dest_cfg cln_new sample_start ({} \<union> reply_attestations (ReplyPayout 200 (Some sample_attestation))) sample_paid_out"
    by (rule api_run.request [OF 1 fresh, where pe = ?pe and q = "ReqPeerPayout (settle_id_text sample_id)" and now = "Some 9"])
      (use sample_prepared_eq(1) ne in \<open>auto simp: p payout_reply_def\<close>)
  then show ?thesis by simp
qed

theorem settlement_agreement_witness:
  "''lnbcrt1'' \<in> pay_requests (nd_lightning sample_released)
   \<and> sim_payouts (nd_adapter sample_paid_out) (settle_id_text sample_id) = Some OutConfirmed"
proof -
  have pub: "sp_public plain_secp k = k" for k by (simp add: plain_secp_def)
  have only: "i = sample_id \<and> sr_attestations r = [sample_attestation]" if "file_get i (nd_store sample_released) = Some r" for i r
    using that sample_released_eq(2) by (auto simp: file_get_def get_record_def split: if_splits)
  have paid: "''lnbcrt1'' \<in> pay_requests (nd_lightning sample_released)" using sample_released_eq(1) by (simp add: pay_requests_def)
  have "\<forall>b \<in> pay_requests (nd_lightning sample_released). \<exists>i r. file_get i (nd_store sample_released) = Some r
    \<and> sr_counterparty_invoice r = Some b \<and> ce_amount paying_cln b = Inr (Some (settle_msat (sr_btc_amount r)))
    \<and> (i \<in> {} \<or> sim_payouts (nd_adapter sample_paid_out) (settle_id_text i) = Some OutConfirmed)"
    by (rule settlement_agreement [where sp = plain_secp and ?key1.0 = "[1]" and ?key2.0 = "[5]", unfolded pub,
          OF sample_run [unfolded sample_cfg_def sample_start_def] sample_dest_run [unfolded sample_dest_cfg_def sample_start_def]])
      (use only in auto)
  then show ?thesis using paid only by blast
qed

end
