(* ===== verification/Settle_Live.thy ===== *)
theory Settle_Live
  imports Settle_Agreement
begin

text \<open>
  Progress of two settlement nodes over a network that delivers: a prepared settlement is concluded by
  one call of \<open>settle\<close>, or by \<open>settle\<close> and \<open>reconcile-peer\<close> after a timeout of the rail, unless the answer
  of the destination was not a signed outcome; then no further call concludes it.
\<close>

section \<open>What the source does with an answer\<close>

context settlement_node
begin

lemma get_node_put:
  "ok (nd_store n) \<Longrightarrow> node_get c (sr_id r) (node_put c r n) = Inr r"
  "ok (nd_store n) \<Longrightarrow> node_state_of c (sr_id r) (node_put c r n) = Some (sr_state r)"
  "ok (nd_store n) \<Longrightarrow> ok (nd_store (node_put c r n))"
  by (simp_all add: node_get_def node_state_of_def node_put_def get_put put_ok)

lemma apply_confirmed:
  assumes "ok (nd_store n)" and "node_get c i n = Inr r" and "sr_state r \<in> {StConditionCreated, StPayoutUnknown}"
    and "trusted c a = Inr ()" and "att_settlement_id a = i" and "att_status a = x"
  shows "apply_attestation c a n
    = (Inr (), node_put c (r\<lparr>sr_state := outcome_state x, sr_attestations := sr_attestations r @ [a]\<rparr>) n)"
  using assms by (cases x) (auto simp: apply_attestation_def node_chains(4,5) [THEN iffD2] reconcile_chain)

lemma conclude_confirmed:
  assumes ok: "ok (nd_store n)" and get: "node_get c i n = Inr r" and id: "sr_id r = i"
    and st: "sr_state r \<in> {StConditionCreated, StPayoutUnknown}"
    and a: "trusted c a = Inr ()" "att_settlement_id a = i" "att_status a = OutConfirmed"
    and pay: "lo_release (nc_lightning c) i (nd_lightning n) = (Inr p, l)"
  shows "\<exists>n'. conclude c raw i unexpected a n = (Inr \<lparr>rs_settlement_id = raw, rs_state = StReleased\<rparr>, n')
    \<and> nd_lightning n' = l \<and> node_state_of c i n' = Some StReleased"
proof -
  let ?r = "r\<lparr>sr_state := StPayoutConfirmed, sr_attestations := sr_attestations r @ [a]\<rparr>"
  let ?n = "node_put c ?r n" and ?s = "?r\<lparr>sr_state := StReleased\<rparr>"
  have 1: "apply_attestation c a n = (Inr (), ?n)" using apply_confirmed [OF ok get st a] by simp
  have 2: "node_get c i ?n = Inr ?r" "node_state_of c i ?n = Some StPayoutConfirmed" "ok (nd_store ?n)" "nd_lightning ?n = nd_lightning n"
    using get_node_put [OF ok, of ?r] id by (simp_all add: node_put_lightning_same)
  have 3: "node_release c i ?n = (Inr p, node_put c ?s (?n\<lparr>nd_lightning := l\<rparr>))"
    using 2 pay by (simp add: node_release_def node_chains(8) [THEN iffD2])
  have 4: "node_state_of c i (node_put c ?s (?n\<lparr>nd_lightning := l\<rparr>)) = Some StReleased"
    using get_node_put(2) [of "?n\<lparr>nd_lightning := l\<rparr>" ?s] 2(3) id by simp
  show ?thesis using 1 2(2) 3 4
    by (simp add: conclude_def or_internal_def settlement_now_def node_put_lightning_same)
qed

lemma mark_unknown:
  assumes "ok (nd_store n)" and "node_get c i n = Inr r" and "sr_id r = i" and "sr_state r = StConditionCreated"
  shows "mark_payout_unknown c i n = (Inr (), node_put c (r\<lparr>sr_state := StPayoutUnknown\<rparr>) n)"
    and "node_get c i (node_put c (r\<lparr>sr_state := StPayoutUnknown\<rparr>) n) = Inr (r\<lparr>sr_state := StPayoutUnknown\<rparr>)"
  using assms get_node_put(1) [of n "r\<lparr>sr_state := StPayoutUnknown\<rparr>"]
  by (simp_all add: mark_payout_unknown_def node_chains(3) [THEN iffD2])

end

section \<open>What the destination answers\<close>

abbreviation signed_outcome :: "('a, 'l, 's) node_cfg \<Rightarrow> settle_id \<Rightarrow> payout_outcome \<Rightarrow> u64 \<Rightarrow> attestation" where
  "signed_outcome c i x t \<equiv> sign_payout_attestation c i x (''simulated-rail-'' @ settle_id_text i) t"

lemma ask_payout:
  assumes "length i = 16" and "node_request_payout c i n = (out, n')"
  shows "pe_ask (peer_node c (Some t) stx dtx) (PeerPayout (settle_id_text i)) n =
    (Inr (case out of Inr x \<Rightarrow> (200, BodyPayout (Some (signed_outcome c i x t)))
          | Inl err \<Rightarrow> if err = PayoutUnknown then (202, BodyPayout None) else (400, BodyOther)), n')"
  using assms settle_id_roundtrip [OF assms(1)]
  by (auto simp: peer_node_def api_peer_payout_def parse_settlement_id_def payout_answer_def payout_reply_def
      settle_bad_request_def split: sum.split)

lemma ask_reconcile:
  assumes "length i = 16" and "reconcile_unknown c i n = (out, n')"
  shows "pe_ask (peer_node c (Some t) stx dtx) (PeerReconcile (settle_id_text i)) n =
    (Inr (case out of Inr x \<Rightarrow> (200, BodyPayout (Some (signed_outcome c i x t)))
          | Inl err \<Rightarrow> if err = StillUnknown then (202, BodyPayout None) else (400, BodyOther)), n')"
  using assms settle_id_roundtrip [OF assms(1)]
  by (auto simp: peer_node_def api_peer_reconcile_payout_def parse_settlement_id_def payout_answer_def payout_reply_def
      settle_bad_request_def split: sum.split)

context paying_node
begin

lemma put_get:
  "ok (nd_store n) \<Longrightarrow> node_get c (sr_id r) (node_put c r n) = Inr r"
  "ok (nd_store n) \<Longrightarrow> node_state_of c (sr_id r) (node_put c r n) = Some (sr_state r)"
  by (simp_all add: node_get_def node_state_of_def node_put_def get_put)

lemma request_effect:
  assumes "node_get c i n = Inr r" and "sr_state r = StConditionCreated" and "sr_source_reservation r = Some rv"
    and "ao_initiate (nc_adapter c) rv (sr_beneficiary r) (sr_payout_key r) (nd_adapter n) = (res, a)"
  shows "res = Inr x \<Longrightarrow> node_request_payout c i n = (Inr x, node_put c (r\<lparr>sr_state := outcome_state x\<rparr>) (n\<lparr>nd_adapter := a\<rparr>))"
    and "res = Inl Timeout \<Longrightarrow>
      node_request_payout c i n = (Inl PayoutUnknown, node_put c (r\<lparr>sr_state := StPayoutUnknown\<rparr>) (n\<lparr>nd_adapter := a\<rparr>))"
  using assms by (simp_all add: node_request_payout_def node_chains(2) [THEN iffD2] observe_payout_requested)

lemma reconcile_effect:
  assumes "node_get c i n = Inr r" and "sr_state r = StPayoutUnknown"
    and "ao_query (nc_adapter c) (sr_payout_key r) (nd_adapter n) = Inr (Some x)"
  shows "reconcile_unknown c i n = (Inr x, node_put c (r\<lparr>sr_state := outcome_state x\<rparr>) n)"
  using assms by (simp add: reconcile_unknown_def reconcile_chain)

end

section \<open>A prepared settlement is concluded\<close>

text \<open>
  The source is ready to pay, and the destination to be asked: its rail knows the reservation, has no
  outcome yet and will not reject the payout.
\<close>

definition source_ready :: "(simulated, cln, file_store) node_cfg \<Rightarrow> settle_id \<Rightarrow> (simulated, cln, file_store) node \<Rightarrow> bool" where
  "source_ready c i n \<longleftrightarrow> \<not> fs_poisoned (nd_store n) \<and> records_ok (fs_records (nd_store n))
     \<and> node_state_of c i n = Some StConditionCreated
     \<and> (\<exists>p l. lo_release (nc_lightning c) i (nd_lightning n) = (Inr p, l))"

definition destination_ready :: "(simulated, cln, file_store) node_cfg \<Rightarrow> settle_id \<Rightarrow> (simulated, cln, file_store) node \<Rightarrow> bool" where
  "destination_ready c i n \<longleftrightarrow> \<not> fs_poisoned (nd_store n) \<and> records_ok (fs_records (nd_store n))
     \<and> (\<exists>r rv. file_get i (nd_store n) = Some r \<and> sr_state r = StConditionCreated \<and> sr_source_reservation r = Some rv
          \<and> sim_reservations (nd_adapter n) rv \<noteq> None \<and> sim_payouts (nd_adapter n) (sr_payout_key r) = None
          \<and> (\<forall>why. sim_behaviors (nd_adapter n) (sr_payout_key r) \<noteq> Some (SimRejected why)))"

lemma destination_answers:
  assumes "destination_ready c i n" and c: "c = settlementd_cfg encode ce sp tj key peer"
  shows "(\<exists>n'. node_request_payout c i n = (Inr OutConfirmed, n') \<and> node_state_of c i n' = Some StPayoutConfirmed)
    \<or> (\<exists>n' n''. node_request_payout c i n = (Inl PayoutUnknown, n') \<and> reconcile_unknown c i n' = (Inr OutConfirmed, n'')
         \<and> node_state_of c i n'' = Some StPayoutConfirmed)"
proof -
  obtain r rv where r: "file_get i (nd_store n) = Some r" "sr_state r = StConditionCreated" "sr_source_reservation r = Some rv"
      "sim_reservations (nd_adapter n) rv \<noteq> None" "sim_payouts (nd_adapter n) (sr_payout_key r) = None"
      "\<And>why. sim_behaviors (nd_adapter n) (sr_payout_key r) \<noteq> Some (SimRejected why)"
    and ok: "\<not> fs_poisoned (nd_store n) \<and> records_ok (fs_records (nd_store n))"
    using assms(1) by (auto simp: destination_ready_def)
  have get: "node_get c i n = Inr r" using r(1) by (simp add: c settlementd_cfg_def node_get_def file_ops_def)
  have id: "sr_id r = i" using r(1) get_record_Some by (auto simp: file_get_def)
  obtain res a where a: "ao_initiate (nc_adapter c) rv (sr_beneficiary r) (sr_payout_key r) (nd_adapter n) = (res, a)" by fastforce
  have rail: "sim_payouts a (sr_payout_key r) = Some OutConfirmed \<and> (res = Inr OutConfirmed \<or> res = Inl Timeout)"
    using a r(4-6) unfolding c
    by (auto simp: settlementd_cfg_def simulated_ops_def sim_initiate_def split: option.splits payout_behavior.splits)
  note put = payer.put_get [where encode = encode and ce = ce and sp = sp and tj = tj and key = key and peer = peer, folded c]
  note req = payer.request_effect [where encode = encode and ce = ce and sp = sp and tj = tj and key = key and peer = peer, folded c,
      OF get r(2,3) a]
  show ?thesis
  proof (cases "res = Inr OutConfirmed")
    case True
    then show ?thesis using req(1) put(2) [of "n\<lparr>nd_adapter := a\<rparr>" "r\<lparr>sr_state := StPayoutConfirmed\<rparr>"] ok id by simp
  next
    case False
    let ?n = "n\<lparr>nd_adapter := a\<rparr>" and ?r = "r\<lparr>sr_state := StPayoutUnknown\<rparr>"
    let ?n' = "node_put c ?r ?n"
    have n': "node_request_payout c i n = (Inl PayoutUnknown, ?n')" using False rail req(2) by simp
    have g: "node_get c i ?n' = Inr ?r" using put(1) [of ?n ?r] ok id by simp
    have ok': "\<not> fs_poisoned (nd_store ?n') \<and> records_ok (fs_records (nd_store ?n'))"
      using journal.put_ok [of "nd_store n" encode ?r] ok by (simp add: node_put_def c settlementd_cfg_def)
    have "reconcile_unknown c i ?n' = (Inr OutConfirmed, node_put c (?r\<lparr>sr_state := StPayoutConfirmed\<rparr>) ?n')"
      using payer.reconcile_effect [where encode = encode and ce = ce and sp = sp and tj = tj and key = key and peer = peer,
          folded c, OF g, of OutConfirmed] rail
      by (simp add: node_put_def c settlementd_cfg_def simulated_ops_def sim_query_def)
    moreover have "node_state_of c i (node_put c (?r\<lparr>sr_state := StPayoutConfirmed\<rparr>) ?n') = Some StPayoutConfirmed"
      using put(2) [of ?n' "?r\<lparr>sr_state := StPayoutConfirmed\<rparr>"] ok' id by simp
    ultimately show ?thesis using n' by blast
  qed
qed

text \<open>Both sides agree: the source released, having asked for the invoice it held, and the destination confirmed.\<close>

definition concluded ::
  "(simulated, cln, file_store) node_cfg \<Rightarrow> (simulated, cln, file_store) node_cfg \<Rightarrow> settle_id \<Rightarrow> string option
   \<Rightarrow> (settle_api_error + settlement_response) \<times> (simulated, cln, file_store) node \<times> (simulated, cln, file_store) node \<Rightarrow> bool" where
  "concluded c1 c2 i invoice result =
     (case result of (out, m1, m2) \<Rightarrow>
        out = Inr \<lparr>rs_settlement_id = settle_id_text i, rs_state = StReleased\<rparr>
        \<and> node_state_of c1 i m1 = Some StReleased \<and> node_state_of c2 i m2 = Some StPayoutConfirmed
        \<and> (\<exists>b \<in> pay_requests (nd_lightning m1). invoice = Some b))"

lemma source_concludes:
  assumes "c1 = settlementd_cfg enc1 ce1 sp tj key1 (sp_public sp key2)" and "c2 = settlementd_cfg enc2 ce2 sp tj key2 (sp_public sp key1)"
    and "ecdsa_ok sp" and ok: "\<not> fs_poisoned (nd_store n1) \<and> records_ok (fs_records (nd_store n1))"
    and get: "node_get c1 i n1 = Inr r" and "sr_id r = i" and "sr_state r \<in> {StConditionCreated, StPayoutUnknown}"
    and pay: "lo_release (nc_lightning c1) i (nd_lightning n1) = (Inr p, l)"
    and "node_state_of c2 i m2 = Some StPayoutConfirmed"
  shows "\<exists>out m1. conclude c1 (settle_id_text i) i unexpected (signed_outcome c2 i OutConfirmed t) n1 = (out, m1)
    \<and> concluded c1 c2 i (cl_pending (nd_lightning n1) i) (out, m1, m2)"
proof -
  let ?a = "signed_outcome c2 i OutConfirmed t"
  have tr: "trusted c1 ?a = Inr ()"
    using trusted_signed [of c1 key2 i OutConfirmed "''simulated-rail-'' @ settle_id_text i" t] assms(1-3)
    by (simp add: sign_payout_attestation_def settlementd_cfg_def)
  have a: "att_settlement_id ?a = i" "att_status ?a = OutConfirmed" by (simp_all add: sign_payout_attestation_def att_sign_def)
  obtain m1 where m1: "conclude c1 (settle_id_text i) i unexpected ?a n1
      = (Inr \<lparr>rs_settlement_id = settle_id_text i, rs_state = StReleased\<rparr>, m1)" "nd_lightning m1 = l" "node_state_of c1 i m1 = Some StReleased"
    using settlementd.conclude_confirmed [where encode = enc1 and ce = ce1 and sp = sp and tj = tj and key = key1
        and peer = "sp_public sp key2", folded assms(1), OF ok get assms(6,7) tr a pay] by blast
  moreover have "\<exists>b \<in> pay_requests l. cl_pending (nd_lightning n1) i = Some b"
    using cln.release_ok [of ce1 i "nd_lightning n1" p l] pay by (auto simp: assms(1) settlementd_cfg_def)
  ultimately show ?thesis using assms(9) by (simp add: concluded_def)
qed

text \<open>After a timeout the source has recorded that the outcome is unknown and still holds the invoice.\<close>

lemma settle_unknown:
  assumes c1: "c1 = settlementd_cfg enc1 ce1 sp tj key1 peer" and len: "length i = 16"
    and n1: "\<not> fs_poisoned (nd_store n1) \<and> records_ok (fs_records (nd_store n1))" "node_get c1 i n1 = Inr r"
      "sr_id r = i" "sr_state r = StConditionCreated"
    and n2: "node_request_payout c2 i n2 = (Inl PayoutUnknown, m2)"
  shows "\<exists>m1. api_settle c1 (peer_node c2 (Some t) stx dtx) (settle_id_text i) n1 n2
        = (Inr \<lparr>rs_settlement_id = settle_id_text i, rs_state = StPayoutUnknown\<rparr>, m1, m2)
      \<and> \<not> fs_poisoned (nd_store m1) \<and> records_ok (fs_records (nd_store m1)) \<and> nd_lightning m1 = nd_lightning n1
      \<and> node_get c1 i m1 = Inr (r\<lparr>sr_state := StPayoutUnknown\<rparr>)"
proof -
  let ?r = "r\<lparr>sr_state := StPayoutUnknown\<rparr>"
  let ?m1 = "node_put c1 ?r n1"
  note mark = settlementd.mark_unknown [where encode = enc1 and ce = ce1 and sp = sp and tj = tj and key = key1
      and peer = peer, folded c1, OF n1]
  have ok: "\<not> fs_poisoned (nd_store ?m1) \<and> records_ok (fs_records (nd_store ?m1))"
    using journal.put_ok [of "nd_store n1" enc1 ?r] n1(1) by (simp add: node_put_def c1 settlementd_cfg_def)
  have "settlement_now c1 (settle_id_text i) i ?m1 = Inr \<lparr>rs_settlement_id = settle_id_text i, rs_state = StPayoutUnknown\<rparr>"
    using mark(2) by (auto simp: settlement_now_def node_state_of_def node_get_def split: option.splits)
  then have "api_settle c1 (peer_node c2 (Some t) stx dtx) (settle_id_text i) n1 n2
      = (Inr \<lparr>rs_settlement_id = settle_id_text i, rs_state = StPayoutUnknown\<rparr>, ?m1, m2)"
    using ask_payout [OF len n2, of t stx dtx] settle_id_roundtrip [OF len] mark(1)
    by (simp add: api_settle_def parse_settlement_id_def is_success_def or_internal_def)
  then show ?thesis using ok mark(2) by (simp add: node_put_def)
qed

text \<open>
  C39. A prepared settlement is concluded. Let source and destination know each other's keys, the source
  hold a prepared settlement whose invoice \<open>lightningd\<close> pays, the destination's rail not reject the
  payout, and the network deliver. Then \<open>settle\<close> at the source ends with the settlement released there,
  its invoice asked for, and the payout confirmed at the destination; or, when the rail timed out, it
  answers that the outcome is unknown and one call of \<open>reconcile-peer\<close> ends that way.
\<close>

theorem settle_concludes:
  assumes c1: "c1 = settlementd_cfg enc1 ce1 sp tj key1 (sp_public sp key2)"
    and c2: "c2 = settlementd_cfg enc2 ce2 sp tj key2 (sp_public sp key1)"
    and "ecdsa_ok sp" and len: "length i = 16" and source: "source_ready c1 i n1" and dest: "destination_ready c2 i n2"
    and pe: "pe = peer_node c2 (Some t) stx dtx"
  shows "concluded c1 c2 i (cl_pending (nd_lightning n1) i) (api_settle c1 pe (settle_id_text i) n1 n2)
    \<or> (\<exists>m1 m2. api_settle c1 pe (settle_id_text i) n1 n2
           = (Inr \<lparr>rs_settlement_id = settle_id_text i, rs_state = StPayoutUnknown\<rparr>, m1, m2)
         \<and> concluded c1 c2 i (cl_pending (nd_lightning n1) i) (api_reconcile_peer_payout c1 pe (settle_id_text i) m1 m2))"
proof -
  obtain r p l where n1: "\<not> fs_poisoned (nd_store n1) \<and> records_ok (fs_records (nd_store n1))" "node_get c1 i n1 = Inr r"
      "sr_state r = StConditionCreated" "lo_release (nc_lightning c1) i (nd_lightning n1) = (Inr p, l)"
    using source by (auto simp: source_ready_def node_state_of_def node_get_def)
  have id: "sr_id r = i"
    using n1(2) get_record_Some by (auto simp: c1 settlementd_cfg_def node_get_def file_ops_def file_get_def split: option.splits)
  have raw: "parse_settlement_id (settle_id_text i) = Inr i"
    using settle_id_roundtrip [OF len] by (simp add: parse_settlement_id_def)
  note concl = source_concludes [OF c1 c2 assms(3)]
  from destination_answers [OF dest c2] show ?thesis
  proof (elim disjE exE conjE)
    fix m2 assume m2: "node_request_payout c2 i n2 = (Inr OutConfirmed, m2)" "node_state_of c2 i m2 = Some StPayoutConfirmed"
    obtain out m1 where "conclude c1 (settle_id_text i) i unexpected_payout (signed_outcome c2 i OutConfirmed t) n1 = (out, m1)"
        "concluded c1 c2 i (cl_pending (nd_lightning n1) i) (out, m1, m2)"
      using concl [OF n1(1,2) id _ n1(4) m2(2)] n1(3) by blast
    then show ?thesis using ask_payout [OF len m2(1), of t stx dtx] raw by (simp add: api_settle_def pe is_success_def)
  next
    fix m2 k2 assume m2: "node_request_payout c2 i n2 = (Inl PayoutUnknown, m2)" "reconcile_unknown c2 i m2 = (Inr OutConfirmed, k2)"
      "node_state_of c2 i k2 = Some StPayoutConfirmed"
    obtain m1 where m1: "api_settle c1 pe (settle_id_text i) n1 n2
          = (Inr \<lparr>rs_settlement_id = settle_id_text i, rs_state = StPayoutUnknown\<rparr>, m1, m2)"
        "\<not> fs_poisoned (nd_store m1) \<and> records_ok (fs_records (nd_store m1))" "nd_lightning m1 = nd_lightning n1"
        "node_get c1 i m1 = Inr (r\<lparr>sr_state := StPayoutUnknown\<rparr>)"
      using settle_unknown [OF c1 len n1(1,2) id n1(3) m2(1), of t stx dtx] pe by blast
    obtain out k1 where "conclude c1 (settle_id_text i) i (\<lambda>_. settle_internal_error ''unexpected settlement state after reconciliation'')
          (signed_outcome c2 i OutConfirmed t) m1 = (out, k1)"
        "concluded c1 c2 i (cl_pending (nd_lightning n1) i) (out, k1, k2)"
      using concl [OF m1(2,4) _ _ _ m2(3)] n1(4) id by (simp only: m1(3)) fastforce
    then have "concluded c1 c2 i (cl_pending (nd_lightning n1) i) (api_reconcile_peer_payout c1 pe (settle_id_text i) m1 m2)"
      using ask_reconcile [OF len m2(2), of t stx dtx] raw by (simp add: api_reconcile_peer_payout_def pe is_success_def)
    then show ?thesis using m1(1) by blast
  qed
qed

lemma sample_source_ready: "source_ready sample_cfg sample_id sample_attached"
proof -
  obtain r where r: "fs_records (nd_store sample_attached) = [r]" "sr_id r = sample_id" "sr_state r = StConditionCreated"
    using sample_attached_eq(1) by blast
  then have "node_state_of sample_cfg sample_id sample_attached = Some StConditionCreated"
    by (simp add: node_state_of_def sample_cfg_def settlementd_cfg_def file_ops_def file_get_def get_record_def)
  moreover have "\<exists>p l. lo_release (nc_lightning sample_cfg) sample_id (nd_lightning sample_attached) = (Inr p, l)"
    using sample_pays by blast
  ultimately show ?thesis using r sample_attached_eq(2) by (simp add: source_ready_def)
qed

lemma sample_destination_ready: "destination_ready sample_dest_cfg sample_id sample_prepared"
  using sample_prepared_eq by (auto simp: destination_ready_def file_get_def get_record_def)

theorem settle_concludes_witness:
  "\<exists>pe. concluded sample_cfg sample_dest_cfg sample_id (Some ''lnbcrt1'')
       (api_settle sample_cfg pe (settle_id_text sample_id) sample_attached sample_prepared)
   \<or> (\<exists>m1 m2. api_settle sample_cfg pe (settle_id_text sample_id) sample_attached sample_prepared
         = (Inr \<lparr>rs_settlement_id = settle_id_text sample_id, rs_state = StPayoutUnknown\<rparr>, m1, m2)
       \<and> concluded sample_cfg sample_dest_cfg sample_id (Some ''lnbcrt1'')
           (api_reconcile_peer_payout sample_cfg pe (settle_id_text sample_id) m1 m2))"
proof -
  have pub: "sp_public plain_secp k = k" for k by (simp add: plain_secp_def)
  have len: "length sample_id = 16" by (simp add: sample_id_def)
  have held: "cl_pending (nd_lightning sample_attached) sample_id = Some ''lnbcrt1''" using sample_attached_eq(3) by simp
  have c1: "sample_cfg = settlementd_cfg (\<lambda>_. []) paying_cln plain_secp (\<lambda>_. []) [1] (sp_public plain_secp [5])"
    and c2: "sample_dest_cfg = settlementd_cfg (\<lambda>_. []) paying_cln plain_secp (\<lambda>_. []) [5] (sp_public plain_secp [1])"
    by (simp_all add: sample_cfg_def sample_dest_cfg_def pub)
  show ?thesis
    using settle_concludes [OF c1 c2 plain_secp_ok len sample_source_ready sample_destination_ready refl] unfolding held by blast
qed

section \<open>A decided payout is answered once\<close>

lemma decided_refused:
  assumes "node_state_of c i n = Some st" and "st \<in> {StPayoutConfirmed, StPayoutFailed}"
  shows "node_request_payout c i n = (Inl (NodeTransition (TransitionError st EvRequestPayout)), n)"
    and "reconcile_unknown c i n = (Inl (NotReconcilable st), n)"
  using assms
  by (auto simp: node_state_of_def node_request_payout_def reconcile_unknown_def node_get_def transitions_def step_on_def)

text \<open>
  C40. The destination gives its signed outcome once. When its payout is confirmed or failed, whether or
  not the reply that carried the outcome reached the source, every later call of \<open>settle\<close> or
  \<open>reconcile-peer\<close> at the source fails and changes neither node; and a payout the rail rejects is never
  answered with an attestation, so the first call fails at the source too. The source's settlement then
  stays where it was, and its reservation and invoice with it, although the documentation of
  \<open>request_payout\<close> says that a duplicate request replays the outcome.
\<close>

theorem decided_payout_unanswered:
  assumes "length i = 16" and "pe = peer_node c2 (Some t) stx dtx"
    and "node_state_of c2 i n2 = Some st" and "st \<in> {StPayoutConfirmed, StPayoutFailed}"
  shows "api_settle c1 pe (settle_id_text i) n1 n2
        = (Inl (settle_internal_error (''peer payout failed: '' @ stx 400)), n1, n2)
    \<and> api_reconcile_peer_payout c1 pe (settle_id_text i) n1 n2
        = (Inl (settle_internal_error (''peer reconciliation failed: '' @ stx 400)), n1, n2)
    \<and> (\<forall>m why. node_request_payout c2 i m = (Inl (PayoutRejected why), n2) \<longrightarrow>
         api_settle c1 pe (settle_id_text i) n1 m = (Inl (settle_internal_error (''peer payout failed: '' @ stx 400)), n1, n2))"
proof -
  have raw: "parse_settlement_id (settle_id_text i) = Inr i"
    using settle_id_roundtrip [OF assms(1)] by (simp add: parse_settlement_id_def)
  have stx: "pe_status_text pe = stx" by (simp add: assms(2) peer_node_def)
  have refused: "api_settle c1 pe (settle_id_text i) n1 m = (Inl (settle_internal_error (''peer payout failed: '' @ stx 400)), n1, m')"
    if "node_request_payout c2 i m = (Inl err, m')" "err \<noteq> PayoutUnknown" for m m' err
    using ask_payout [OF assms(1) that(1), of t stx dtx] that(2) raw stx by (simp add: api_settle_def is_success_def assms(2))
  have "api_reconcile_peer_payout c1 pe (settle_id_text i) n1 n2
      = (Inl (settle_internal_error (''peer reconciliation failed: '' @ stx 400)), n1, n2)"
    using ask_reconcile [OF assms(1) decided_refused(2) [OF assms(3,4)], of t stx dtx] raw stx
    by (simp add: api_reconcile_peer_payout_def is_success_def assms(2))
  then show ?thesis using refused [OF decided_refused(1) [OF assms(3,4)]] refused by simp
qed

theorem decided_payout_unanswered_witness:
  "\<exists>n2. node_request_payout sample_dest_cfg sample_id sample_prepared = (Inr OutConfirmed, n2)
     \<and> api_settle sample_cfg (peer_node sample_dest_cfg (Some 9) (\<lambda>_. []) (\<lambda>_. [])) (settle_id_text sample_id) sample_attached n2
       = (Inl (settle_internal_error ''peer payout failed: ''), sample_attached, n2)"
proof -
  have len: "length sample_id = 16" by (simp add: sample_id_def)
  obtain n2 where n2: "node_request_payout sample_dest_cfg sample_id sample_prepared = (Inr OutConfirmed, n2)"
      "node_state_of sample_dest_cfg sample_id n2 = Some StPayoutConfirmed"
    using sample_payout by blast
  then show ?thesis using decided_payout_unanswered [OF len refl n2(2), where t = 9 and stx = "\<lambda>_. []" and dtx = "\<lambda>_. []" and ?c1.0 = sample_cfg and ?n1.0 = sample_attached] by auto
qed

end
