(* ===== verification/Daemon_Config.thy ===== *)
theory Daemon_Config
  imports Core_Ids Url_Guard
begin

text \<open>
  \<open>crates/safrod/src/config.rs\<close>: the configuration of the daemon, read from the environment through
  the function \<open>get\<close>. The parser behind \<open>str::parse::<SocketAddr>\<close> is modelled on the readers of
  \<open>Url_Guard\<close>; the text of a \<open>ParseIntError\<close> is the argument \<open>int_err\<close>, and the \<open>url\<close> crate's parser is
  an argument of \<open>rpc_host_port\<close>. A configuration that loads meets \<open>config_ok\<close>.
\<close>

section \<open>Errors\<close>

datatype config_error =
    CMissing string
  | CInvalid string string
  | CUnsafe string

fun config_error_text :: "config_error \<Rightarrow> string" where
  "config_error_text (CMissing name) = name @ '' is required''"
| "config_error_text (CInvalid name reason) = name @ '' is invalid: '' @ reason"
| "config_error_text (CUnsafe why) = ''refusing to start: '' @ why"

text \<open>The \<open>Display\<close> form of a core error.\<close>

fun core_error_text :: "core_error \<Rightarrow> string" where
  "core_error_text (InvalidAmount why) = ''invalid amount: '' @ why"
| "core_error_text (UnknownNetwork name) = ''unknown network: '' @ name"
| "core_error_text (NetworkMismatch what expected found) =
     what @ '' is for '' @ found @ '', but this node runs on '' @ expected"
| "core_error_text (IllegalTransition s t) = ''illegal state transition '' @ s @ '' -> '' @ t"
| "core_error_text InvalidId = ''invalid identifier''"
| "core_error_text InvalidApiKey = ''invalid api key''"
| "core_error_text (UnknownScope s) = ''unknown scope: '' @ s"

text \<open>The operator \<open>?\<close>, and an early return unless a condition holds.\<close>

definition and_then :: "'e + 'a \<Rightarrow> ('a \<Rightarrow> 'e + 'b) \<Rightarrow> 'e + 'b" where
  "and_then r k = (case r of Inl err \<Rightarrow> Inl err | Inr a \<Rightarrow> k a)"

definition ensure :: "bool \<Rightarrow> 'e \<Rightarrow> 'e + 'b \<Rightarrow> 'e + 'b" where
  "ensure b err k = (if b then k else Inl err)"

lemma and_then_simps [simp]: "and_then (Inl err) k = Inl err" "and_then (Inr a) k = k a"
  by (simp_all add: and_then_def)

lemma ensure_simps [simp]: "ensure True err k = k" "ensure False err k = Inl err"
  by (simp_all add: ensure_def)

lemma and_then_Inr: "and_then r k = Inr b \<longleftrightarrow> (\<exists>a. r = Inr a \<and> k a = Inr b)"
  by (cases r) simp_all

lemma ensure_Inr: "ensure c err k = Inr b \<longleftrightarrow> c \<and> k = Inr b"
  by (cases c) simp_all

section \<open>Socket addresses (core::net)\<close>

text \<open>\<open>[\<close> address, an optional scope, \<open>]\<close> and a port; a port has any number of digits and is below 65536.\<close>

definition read_given_char :: "char \<Rightarrow> string \<Rightarrow> string option" where
  "read_given_char c s = (case s of [] \<Rightarrow> None | x # xs \<Rightarrow> if x = c then Some xs else None)"

definition read_port :: "string \<Rightarrow> (nat \<times> string) option" where
  "read_port s = Option.bind (read_given_char CHR '':'' s) (\<lambda>r. read_number 10 (length r) True 65536 r)"

definition read_scope_id :: "string \<Rightarrow> (nat \<times> string) option" where
  "read_scope_id s = Option.bind (read_given_char CHR ''%'' s) (\<lambda>r. read_number 10 (length r) True (2 ^ 32) r)"

definition read_socket_addr_v4 :: "string \<Rightarrow> (sock_addr \<times> string) option" where
  "read_socket_addr_v4 s = do {
     (ip, s1) \<leftarrow> read_ipv4_addr s;
     (port, s2) \<leftarrow> read_port s1;
     Some (\<lparr>sa_ip = V4 ip, sa_port = of_nat port\<rparr>, s2)
   }"

definition read_socket_addr_v6 :: "string \<Rightarrow> (sock_addr \<times> string) option" where
  "read_socket_addr_v6 s = do {
     s1 \<leftarrow> read_given_char CHR ''['' s;
     (ip, s2) \<leftarrow> read_ipv6_addr s1;
     s3 \<leftarrow> read_given_char CHR '']'' (case read_scope_id s2 of Some (_, r) \<Rightarrow> r | None \<Rightarrow> s2);
     (port, s4) \<leftarrow> read_port s3;
     Some (\<lparr>sa_ip = V6 ip, sa_port = of_nat port\<rparr>, s4)
   }"

definition parse_socket_addr :: "string \<Rightarrow> string + sock_addr" where
  "parse_socket_addr s =
     (case (case read_socket_addr_v4 s of Some a \<Rightarrow> Some a | None \<Rightarrow> read_socket_addr_v6 s) of
        Some (a, rest) \<Rightarrow> if rest = [] then Inr a else Inl ''invalid socket address syntax''
      | None \<Rightarrow> Inl ''invalid socket address syntax'')"

fun ip_is_loopback :: "ip_addr \<Rightarrow> bool" where
  "ip_is_loopback (V4 a) \<longleftrightarrow> v4_is_loopback a"
| "ip_is_loopback (V6 a) \<longleftrightarrow> v6_is_loopback a"

section \<open>config.rs\<close>

datatype lightning_kind = KindLdk | KindMock

record config =
  cf_network :: network
  cf_bind :: sock_addr
  cf_database_url :: string
  cf_admin_token :: "string option"
  cf_enable_dev_endpoints :: bool
  cf_webhook_allow_private :: bool
  cf_required_confirmations :: int
  cf_watch_interval :: u64
  cf_lightning :: lightning_kind
  cf_bitcoin_rpc_url :: "string option"
  cf_bitcoin_rpc_user :: string
  cf_bitcoin_rpc_password :: string
  cf_ldk_storage_dir :: string
  cf_ldk_listen :: string
  cf_ldk_alias :: string

type_synonym environment = "string \<Rightarrow> string option"

definition unwrap_or :: "string \<Rightarrow> string option \<Rightarrow> string" where
  "unwrap_or dflt v = (case v of Some s \<Rightarrow> s | None \<Rightarrow> dflt)"

definition non_empty :: "string option \<Rightarrow> string option" where
  "non_empty v = (case v of Some s \<Rightarrow> if s = [] then None else Some s | None \<Rightarrow> None)"

text \<open>\<open>parse::<T>\<close>, the parser of \<open>T\<close> with the text of its error being an argument.\<close>

definition cfg_parse ::
  "(string \<Rightarrow> string + 'a) \<Rightarrow> environment \<Rightarrow> string \<Rightarrow> string \<Rightarrow> config_error + 'a" where
  "cfg_parse from_str get name dflt =
     (case from_str (unwrap_or dflt (get name)) of
        Inl reason \<Rightarrow> Inl (CInvalid name reason)
      | Inr v \<Rightarrow> Inr v)"

definition cfg_flag :: "environment \<Rightarrow> string \<Rightarrow> config_error + bool" where
  "cfg_flag get name =
     (case get name of
        None \<Rightarrow> Inr False
      | Some v \<Rightarrow>
          if v = [] \<or> v = ''false'' \<or> v = ''0'' then Inr False
          else if v = ''true'' \<or> v = ''1'' then Inr True
          else Inl (CInvalid name (''expected true or false, got '' @ v)))"

definition parse_network :: "string \<Rightarrow> string + network" where
  "parse_network s = map_sum core_error_text id (network_from_str s)"

definition parse_i32 :: "(string \<Rightarrow> string) \<Rightarrow> string \<Rightarrow> string + int" where
  "parse_i32 int_err s = (case parse_signed 32 s of Some i \<Rightarrow> Inr i | None \<Rightarrow> Inl (int_err s))"

definition parse_secs :: "(string \<Rightarrow> string) \<Rightarrow> string \<Rightarrow> string + u64" where
  "parse_secs int_err s = (case parse_u64 s of Some i \<Rightarrow> Inr i | None \<Rightarrow> Inl (int_err s))"

definition lightning_of :: "environment \<Rightarrow> config_error + lightning_kind" where
  "lightning_of get =
     (case get ''SAFROD_LIGHTNING_BACKEND'' of
        None \<Rightarrow> Inr KindLdk
      | Some v \<Rightarrow>
          if v = ''ldk'' then Inr KindLdk
          else if v = ''mock'' then Inr KindMock
          else Inl (CInvalid ''SAFROD_LIGHTNING_BACKEND'' (''expected ldk or mock, got '' @ v)))"

definition config_load :: "(string \<Rightarrow> string) \<Rightarrow> environment \<Rightarrow> config_error + config" where
  "config_load int_err get =
     and_then (cfg_parse parse_network get ''SAFROD_NETWORK'' ''regtest'') (\<lambda>network.
     ensure (is_supported network)
       (CUnsafe ''mainnet is not supported: Safrod is an unaudited prototype'') (
     and_then (cfg_parse parse_socket_addr get ''SAFROD_BIND'' ''127.0.0.1:8080'') (\<lambda>bind_addr.
     and_then (if ip_is_loopback (sa_ip bind_addr) then Inr True
               else cfg_flag get ''SAFROD_ALLOW_PUBLIC_BIND'') (\<lambda>bindable.
     ensure bindable
       (CUnsafe (''SAFROD_BIND is not a loopback address; set SAFROD_ALLOW_PUBLIC_BIND=true only ''
         @ ''behind a firewall or a published-to-localhost container port'')) (
     and_then (case get ''SAFROD_DATABASE_URL'' of
                 Some u \<Rightarrow> Inr u
               | None \<Rightarrow> Inl (CMissing ''SAFROD_DATABASE_URL'')) (\<lambda>database_url.
     let admin_token = non_empty (get ''SAFROD_ADMIN_TOKEN'') in
     ensure (case admin_token of Some token \<Rightarrow> 24 \<le> length token | None \<Rightarrow> True)
       (CInvalid ''SAFROD_ADMIN_TOKEN'' ''must be at least 24 characters'') (
     and_then (cfg_flag get ''SAFROD_ENABLE_DEV_ENDPOINTS'') (\<lambda>enable_dev_endpoints.
     ensure (\<not> (enable_dev_endpoints \<and> network \<noteq> Regtest))
       (CUnsafe ''dev endpoints are only allowed on regtest'') (
     and_then (lightning_of get) (\<lambda>lightning.
     and_then (cfg_parse (parse_i32 int_err) get ''SAFROD_REQUIRED_CONFIRMATIONS'' ''3'') (\<lambda>required_confirmations.
     ensure (1 \<le> required_confirmations \<and> required_confirmations \<le> 100)
       (CInvalid ''SAFROD_REQUIRED_CONFIRMATIONS'' ''must be between 1 and 100'') (
     and_then (cfg_parse (parse_secs int_err) get ''SAFROD_WATCH_INTERVAL_SECS'' ''2'') (\<lambda>watch_secs.
     and_then (cfg_flag get ''SAFROD_WEBHOOK_ALLOW_PRIVATE'') (\<lambda>webhook_allow_private.
     let config =
       \<lparr>cf_network = network, cf_bind = bind_addr, cf_database_url = database_url,
        cf_admin_token = admin_token, cf_enable_dev_endpoints = enable_dev_endpoints,
        cf_webhook_allow_private = webhook_allow_private,
        cf_required_confirmations = required_confirmations, cf_watch_interval = max watch_secs 1,
        cf_lightning = lightning,
        cf_bitcoin_rpc_url = non_empty (get ''SAFROD_BITCOIN_RPC_URL''),
        cf_bitcoin_rpc_user = unwrap_or [] (get ''SAFROD_BITCOIN_RPC_USER''),
        cf_bitcoin_rpc_password = unwrap_or [] (get ''SAFROD_BITCOIN_RPC_PASSWORD''),
        cf_ldk_storage_dir = unwrap_or ''./data/ldk'' (get ''SAFROD_LDK_STORAGE_DIR''),
        cf_ldk_listen = unwrap_or ''0.0.0.0:9735'' (get ''SAFROD_LDK_LISTEN''),
        cf_ldk_alias = unwrap_or ''safrod'' (get ''SAFROD_LDK_ALIAS'')\<rparr>
     in ensure (\<not> (cf_lightning config = KindLdk \<and> cf_bitcoin_rpc_url config = None))
          (CMissing ''SAFROD_BITCOIN_RPC_URL'') (
        ensure (\<not> (cf_lightning config = KindMock \<and> network \<noteq> Regtest))
          (CUnsafe ''the mock Lightning backend is regtest-only'') (
        Inr config))))))))))))))))"

text \<open>\<open>url_parts\<close> is the parser of the \<open>url\<close> crate: the host and the explicit port, or the text of its error.\<close>

definition rpc_host_port ::
  "(string \<Rightarrow> string + string option \<times> u16 option) \<Rightarrow> config \<Rightarrow> config_error + string \<times> u16" where
  "rpc_host_port url_parts config =
     (case cf_bitcoin_rpc_url config of
        None \<Rightarrow> Inl (CMissing ''SAFROD_BITCOIN_RPC_URL'')
      | Some url \<Rightarrow>
          (case url_parts url of
             Inl e \<Rightarrow> Inl (CInvalid ''SAFROD_BITCOIN_RPC_URL'' e)
           | Inr (host, port) \<Rightarrow>
               (case host of
                  None \<Rightarrow> Inl (CInvalid ''SAFROD_BITCOIN_RPC_URL'' ''missing host'')
                | Some h \<Rightarrow> Inr (h, case port of Some p \<Rightarrow> p | None \<Rightarrow> 18443))))"

section \<open>A configuration that loads is safe\<close>

definition config_ok :: "environment \<Rightarrow> config \<Rightarrow> bool" where
  "config_ok get c \<longleftrightarrow>
     is_supported (cf_network c)
   \<and> (ip_is_loopback (sa_ip (cf_bind c)) \<or> cfg_flag get ''SAFROD_ALLOW_PUBLIC_BIND'' = Inr True)
   \<and> (\<forall>t. cf_admin_token c = Some t \<longrightarrow> 24 \<le> length t)
   \<and> (cf_enable_dev_endpoints c \<longrightarrow> cf_network c = Regtest)
   \<and> (cf_lightning c = KindMock \<longrightarrow> cf_network c = Regtest)
   \<and> (cf_lightning c = KindLdk \<longrightarrow> cf_bitcoin_rpc_url c \<noteq> None)
   \<and> cf_bitcoin_rpc_url c \<noteq> Some []
   \<and> 1 \<le> cf_required_confirmations c \<and> cf_required_confirmations c \<le> 100
   \<and> 1 \<le> cf_watch_interval c"

lemma non_empty_ne [simp]: "non_empty v \<noteq> Some []"
  by (simp add: non_empty_def split: option.split)

lemma config_load_ok:
  assumes "config_load int_err get = Inr c"
  shows "config_ok get c"
  using assms unfolding config_load_def config_ok_def Let_def and_then_Inr ensure_Inr
  by (elim exE conjE, simp only: sum.inject, hypsubst, intro conjI) (simp_all split: if_splits option.splits)

lemma config_load_admin:
  assumes "config_load int_err get = Inr c"
  shows "cf_admin_token c = non_empty (get ''SAFROD_ADMIN_TOKEN'')"
  using assms unfolding config_load_def Let_def and_then_Inr ensure_Inr
  by (elim exE conjE, simp only: sum.inject, hypsubst) simp

end
