(* ===== verification/Settle_Main.thy ===== *)
theory Settle_Main
  imports Settle_Safety Daemon_Config
begin

text \<open>
  The configuration and the start of the settlement daemon (legacy/settlement/src/config.rs, main.rs).
  Reading files, the TOML and JSON parsers, the key parsers of \<open>secp256k1\<close>, the lock file and the socket
  are the fields of \<open>settle_world\<close>. A start that succeeds resumes the settlements of the journal.
\<close>

section \<open>config.rs\<close>

record raw_node_config =
  rw_identity_key_hex :: string
  rw_peer_identity_key_hex :: string
  rw_listen_addr :: string
  rw_currency :: fiat_currency
  rw_peer_addr :: string
  rw_lightning_rpc_socket :: string
  rw_settlement_store_path :: string

record settle_config =
  sc_identity_key :: "u8 list"
  sc_peer_identity :: "u8 list"
  sc_listen_addr :: sock_addr
  sc_currency :: fiat_currency
  sc_peer_addr :: string
  sc_lightning_rpc_socket :: string
  sc_settlement_store_path :: string

datatype settle_config_error =
    ScIo string
  | ScParse string
  | ScInvalidKey
  | ScInvalidPeerKey
  | ScInvalidAddr string

fun settle_config_error_text :: "settle_config_error \<Rightarrow> string" where
  "settle_config_error_text (ScIo e) = ''failed to read config file: '' @ e"
| "settle_config_error_text (ScParse e) = ''failed to parse config file: '' @ e"
| "settle_config_error_text ScInvalidKey = ''identity_key_hex is not a valid secp256k1 secret key''"
| "settle_config_error_text ScInvalidPeerKey = ''peer_identity_key_hex is not a valid secp256k1 public key''"
| "settle_config_error_text (ScInvalidAddr a) = ''listen_addr is not a valid socket address: '' @ a"

record settle_world =
  sw_read_file :: "string \<Rightarrow> string + string"
  sw_toml :: "string \<Rightarrow> string + raw_node_config"
  sw_secret_key :: "string \<Rightarrow> u8 list option"
  sw_public_key :: "string \<Rightarrow> u8 list option"
  sw_lock :: "string \<Rightarrow> string + unit"
  sw_decode :: "string \<Rightarrow> settlement_record list option"
  sw_encode :: "settlement_record list \<Rightarrow> string"
  sw_tmp :: "string \<Rightarrow> string"
  sw_lightningd :: "string \<Rightarrow> cln_env"
  sw_secp :: secp
  sw_terms_json :: "quote_terms \<Rightarrow> string"
  sw_draw :: "nat \<Rightarrow> settle_id"
  sw_bind :: "sock_addr \<Rightarrow> string + unit"

definition ok_or :: "'e \<Rightarrow> 'a option \<Rightarrow> 'e + 'a" where
  "ok_or err v = (case v of Some a \<Rightarrow> Inr a | None \<Rightarrow> Inl err)"

definition settle_config_load :: "settle_world \<Rightarrow> string \<Rightarrow> settle_config_error + settle_config" where
  "settle_config_load w path =
     and_then (map_sum ScIo id (sw_read_file w path)) (\<lambda>contents.
     and_then (map_sum ScParse id (sw_toml w contents)) (\<lambda>raw.
     and_then (ok_or ScInvalidKey (sw_secret_key w (rw_identity_key_hex raw))) (\<lambda>identity_key.
     and_then (ok_or ScInvalidPeerKey (sw_public_key w (rw_peer_identity_key_hex raw))) (\<lambda>peer_identity.
     and_then (map_sum (\<lambda>_. ScInvalidAddr (rw_listen_addr raw)) id (parse_socket_addr (rw_listen_addr raw))) (\<lambda>listen_addr.
     Inr \<lparr>sc_identity_key = identity_key, sc_peer_identity = peer_identity, sc_listen_addr = listen_addr,
          sc_currency = rw_currency raw, sc_peer_addr = rw_peer_addr raw,
          sc_lightning_rpc_socket = rw_lightning_rpc_socket raw,
          sc_settlement_store_path = rw_settlement_store_path raw\<rparr>)))))"

section \<open>main.rs\<close>

record settlementd =
  sd_cfg :: "(simulated, cln, file_store) node_cfg"
  sd_node :: "(simulated, cln, file_store) node"
  sd_peer_addr :: string

text \<open>
  \<open>main\<close> on its first argument and the files; an \<open>Inl\<close> is the message before the process exits. The
  text of an error of \<open>recover\<close> is left out.
\<close>

definition started_node :: "settle_world \<Rightarrow> file_store \<Rightarrow> (simulated, cln, file_store) node" where
  "started_node w store =
     \<lparr>nd_adapter = simulated_new (sw_draw w),
      nd_lightning = \<lparr>cl_pending = Map.empty, cl_next_id = 1, cl_log = []\<rparr>, nd_store = store\<rparr>"

definition cfg_of :: "settle_world \<Rightarrow> settle_config \<Rightarrow> (simulated, cln, file_store) node_cfg" where
  "cfg_of w config =
     settlementd_cfg (sw_encode w) (sw_lightningd w (sc_lightning_rpc_socket config)) (sw_secp w)
       (sw_terms_json w) (sc_identity_key config) (sc_peer_identity config)"

definition open_store :: "settle_world \<Rightarrow> settle_config \<Rightarrow> disk \<Rightarrow> string + file_store" where
  "open_store w config disk =
     (let path = sc_settlement_store_path config
      in and_then (sw_lock w path) (\<lambda>_. file_open (sw_decode w) path (sw_tmp w path) disk))"

definition settlementd_serve :: "settle_world \<Rightarrow> settle_config \<Rightarrow> file_store \<Rightarrow> string + settlementd" where
  "settlementd_serve w config store =
     (case recover (cfg_of w config) (started_node w store) of
        (Inl err, _) \<Rightarrow> Inl ''failed to recover pending settlements''
      | (Inr _, node) \<Rightarrow>
          (case sw_bind w (sc_listen_addr config) of
             Inl e \<Rightarrow> Inl (''failed to bind: '' @ e)
           | Inr _ \<Rightarrow> Inr \<lparr>sd_cfg = cfg_of w config, sd_node = node, sd_peer_addr = sc_peer_addr config\<rparr>))"

definition settlementd_main :: "settle_world \<Rightarrow> string option \<Rightarrow> disk \<Rightarrow> string + settlementd" where
  "settlementd_main w arg disk =
     (let config_path = unwrap_or ''config.toml'' arg
      in and_then (map_sum (\<lambda>e. ''failed to load config from '' @ config_path @ '': '' @ settle_config_error_text e) id
                    (settle_config_load w config_path)) (\<lambda>config.
         and_then (map_sum (\<lambda>e. ''failed to open settlement store: '' @ e) id (open_store w config disk)) (\<lambda>store.
         settlementd_serve w config store)))"

section \<open>A restart resumes the settlements\<close>

lemma map_sum_Inr: "map_sum f id x = Inr b \<longleftrightarrow> x = Inr b"
  by (cases x) auto

definition resumable :: "settlement_state \<Rightarrow> bool" where
  "resumable st \<longleftrightarrow> st \<in> {StConditionCreated, StPayoutRequested, StPayoutUnknown, StPayoutConfirmed}"

lemma resumable_open: "resumable st \<Longrightarrow> \<not> closed st"
  by (cases st) (simp_all add: resumable_def closed_def)

lemma cln_accept_Inr:
  "cln_accept ce i m b l = (Inr u, l') \<longleftrightarrow>
     ce_amount ce b = Inr (Some (settle_msat m)) \<and> l' = l\<lparr>cl_pending := (cl_pending l)(i \<mapsto> b)\<rparr>"
  by (auto simp: cln_accept_def split: sum.splits option.splits if_splits)

lemma recover_each_accepts:
  assumes "recover_each c rs n = (Inr (), n')" and "nc_lightning c = cln_ops ce" and "distinct (map sr_id rs)"
  shows "(\<forall>r \<in> set rs. resumable (sr_state r) \<longrightarrow> (\<forall>b. sr_counterparty_invoice r = Some b \<longrightarrow>
            cl_pending (nd_lightning n') (sr_id r) = Some b))
    \<and> (\<forall>i. i \<notin> sr_id ` set rs \<longrightarrow> cl_pending (nd_lightning n') i = cl_pending (nd_lightning n) i)
    \<and> nd_store n' = nd_store n \<and> cl_log (nd_lightning n') = cl_log (nd_lightning n)"
  using assms(1,3)
proof (induction rs arbitrary: n)
  case (Cons r rs)
  show ?case
  proof (cases "\<exists>b. sr_counterparty_invoice r = Some b \<and> resumable (sr_state r)")
    case True
    then obtain b where b: "sr_counterparty_invoice r = Some b" "resumable (sr_state r)" by blast
    define n1 where "n1 = n\<lparr>nd_lightning := (nd_lightning n)\<lparr>cl_pending := (cl_pending (nd_lightning n))(sr_id r \<mapsto> b)\<rparr>\<rparr>"
    have "recover_each c rs n1 = (Inr (), n')"
      using Cons.prems(1) b assms(2) unfolding n1_def resumable_def
      by (auto simp: cln_ops_def cln_accept_Inr split: prod.splits sum.splits)
    from Cons.IH [OF this] Cons.prems(2) b show ?thesis by (auto simp: n1_def)
  next
    case False
    then have "recover_each c rs n = (Inr (), n')"
      using Cons.prems(1) by (auto simp: resumable_def split: option.splits if_splits)
    from Cons.IH [OF this] Cons.prems(2) False show ?thesis by auto
  qed
qed simp

text \<open>
  A start of the settlement daemon resumes exactly the settlements of its journal. When \<open>main\<close>
  reaches the point where it serves, the stored records are those the journal decodes to (none when there
  is no journal), nothing was asked of \<open>lightningd\<close>, and every settlement that still waits for its
  release has its invoice accepted again.
\<close>

theorem settlementd_resumes:
  assumes "settlementd_main w arg disk = Inr sd"
    and "\<forall>t rs. sw_decode w t = Some rs \<longrightarrow> records_ok rs"
  shows "\<exists>path. (case disk path of
       None \<Rightarrow> fs_records (nd_store (sd_node sd)) = []
     | Some t \<Rightarrow> sw_decode w t = Some (fs_records (nd_store (sd_node sd))))
    \<and> cl_log (nd_lightning (sd_node sd)) = []
    \<and> (\<forall>r \<in> set (fs_records (nd_store (sd_node sd))). resumable (sr_state r) \<longrightarrow>
         (\<forall>b. sr_counterparty_invoice r = Some b \<longrightarrow> cl_pending (nd_lightning (sd_node sd)) (sr_id r) = Some b))"
proof -
  obtain config store where o: "open_store w config disk = Inr store" "settlementd_serve w config store = Inr sd"
    using assms(1) by (auto simp: settlementd_main_def Let_def and_then_Inr map_sum_Inr)
  then obtain node where c: "recover (cfg_of w config) (started_node w store) = (Inr (), node)" "sd_node sd = node"
      "file_open (sw_decode w) (sc_settlement_store_path config)
        (sw_tmp w (sc_settlement_store_path config)) disk = Inr store"
    by (auto simp: and_then_Inr open_store_def settlementd_serve_def Let_def split: prod.splits sum.splits)
  let ?path = "sc_settlement_store_path config"
  have j: "case disk ?path of None \<Rightarrow> fs_records store = [] | Some t \<Rightarrow> sw_decode w t = Some (fs_records store)"
    using c(3) by (auto simp: file_open_def split: option.splits)
  then have "records_ok (fs_records store)" using assms(2) by (auto split: option.splits)
  then have "distinct (map sr_id (pending_records (fs_records store)))"
    by (simp add: pending_records_def distinct_map_filter)
  moreover have cfg: "nc_lightning (cfg_of w config) = cln_ops (sw_lightningd w (sc_lightning_rpc_socket config))"
      "so_pending (nc_store (cfg_of w config)) (nd_store (started_node w store)) = pending_records (fs_records store)"
    by (simp_all add: cfg_of_def settlementd_cfg_def file_ops_def file_pending_def started_node_def)
  ultimately have r: "\<forall>r \<in> set (pending_records (fs_records store)). resumable (sr_state r) \<longrightarrow>
         (\<forall>b. sr_counterparty_invoice r = Some b \<longrightarrow> cl_pending (nd_lightning node) (sr_id r) = Some b)"
      "nd_store node = store" "cl_log (nd_lightning node) = []"
    using recover_each_accepts [OF c(1) [unfolded recover_def] cfg(1)] by (simp_all add: started_node_def)
  have "cl_pending (nd_lightning node) (sr_id r) = Some b"
    if "r \<in> set (fs_records store)" "resumable (sr_state r)" "sr_counterparty_invoice r = Some b" for r b
    using r(1) that resumable_open [OF that(2)] by (simp add: pending_records_def)
  then show ?thesis using j r(2,3) c(2) by auto
qed

end
