(* ===== verification/Ldk_Backend.thy ===== *)
theory Ldk_Backend
  imports Lightning_Backend Core_Apikey
begin

text \<open>
  \<open>crates/safrod-lightning/src/ldk.rs\<close>: the adapter from the trait \<open>LightningBackend\<close> to LDK Node.
  The node, its invoices and its builder are a third-party library: their calls are the fields of
  the records \<open>ldk_ops\<close> and \<open>ldk_builder\<close>, over a type \<open>'n\<close> of node states (the clock the node reads
  included) and a type \<open>'i\<close> of invoices. What the adapter relies on is the predicate \<open>ldk_ok\<close>, the
  documented behaviour of the payment store. The adapter is shown to meet the contract
  \<open>lightning_backend\<close> of its callers.
\<close>

section \<open>What the adapter calls\<close>

text \<open>\<open>NodeError\<close>: the variants the adapter tells apart, the others by their text.\<close>

datatype ldk_error =
    LdkNotRunning
  | LdkDuplicatePayment
  | LdkInsufficientFunds
  | LdkPaymentSendingFailed
  | LdkOtherError string

datatype ldk_direction = Inbound | Outbound

text \<open>\<open>PaymentKind\<close>: a BOLT11 payment carries its preimage once known.\<close>

datatype ldk_payment_kind = KindBolt11 "u8 list option" | KindOther

datatype ldk_payment_status = LdkPending | LdkSucceeded | LdkFailed

record ldk_details =
  lkd_direction :: ldk_direction
  lkd_kind :: ldk_payment_kind
  lkd_status :: ldk_payment_status
  lkd_fee_paid_msat :: "u64 option"

record ldk_channel =
  lkc_channel_id :: string
  lkc_counterparty_node_id :: string
  lkc_channel_value_sats :: u64
  lkc_outbound_capacity_msat :: u64
  lkc_inbound_capacity_msat :: u64
  lkc_is_channel_ready :: bool
  lkc_is_usable :: bool

record ldk_balances =
  lkb_total_onchain_balance_sats :: u64
  lkb_spendable_onchain_balance_sats :: u64
  lkb_total_lightning_balance_sats :: u64

text \<open>
  \<open>Event\<close>: the variants the adapter reads, with the \<open>Display\<close> or \<open>Debug\<close> text of the fields that it
  only prints; any other variant is its \<open>Debug\<close> text.
\<close>

datatype ldk_event =
    LdkPaymentReceived "u8 list" u64
  | LdkPaymentSuccessful "u8 list" "u8 list option" "u64 option"
  | LdkPaymentFailed "u8 list option" "string option"
  | LdkChannelReady string
  | LdkChannelClosed string "string option"
  | LdkOtherEvent string

record ('n, 'i) ldk_ops =
  lx_best_height :: "'n \<Rightarrow> u32"
  lx_is_running :: "'n \<Rightarrow> bool"
  lx_node_id :: "'n \<Rightarrow> string"
  lx_listening_addresses :: "'n \<Rightarrow> string list option"
  lx_description_new :: "string \<Rightarrow> string + string"
  lx_receive :: "'n \<Rightarrow> u64 \<Rightarrow> string \<Rightarrow> u32 \<Rightarrow> (ldk_error + 'i) \<times> 'n"
  lx_send :: "'n \<Rightarrow> 'i \<Rightarrow> (ldk_error + u8 list) \<times> 'n"
  lx_send_using_amount :: "'n \<Rightarrow> 'i \<Rightarrow> u64 \<Rightarrow> (ldk_error + u8 list) \<times> 'n"
  lx_payment :: "'n \<Rightarrow> u8 list \<Rightarrow> ldk_details option"
  lx_new_address :: "'n \<Rightarrow> (ldk_error + string) \<times> 'n"
  lx_public_key :: "string \<Rightarrow> u8 list option"
  lx_socket_address :: "string \<Rightarrow> string option"
  lx_open_channel :: "'n \<Rightarrow> u8 list \<Rightarrow> string \<Rightarrow> u64 \<Rightarrow> u64 option \<Rightarrow> (ldk_error + string) \<times> 'n"
  lx_list_channels :: "'n \<Rightarrow> ldk_channel list"
  lx_list_balances :: "'n \<Rightarrow> ldk_balances"
  lx_invoice_from_str :: "string \<Rightarrow> string + 'i"
  lx_invoice_text :: "'i \<Rightarrow> string"
  lx_invoice_hash :: "'i \<Rightarrow> u8 list"
  lx_invoice_amount :: "'i \<Rightarrow> u64 option"
  lx_invoice_expires_at :: "'i \<Rightarrow> u64 option"
  lx_invoice_created_at :: "'i \<Rightarrow> u64"
  lx_invoice_is_expired :: "'n \<Rightarrow> 'i \<Rightarrow> bool"

section \<open>Errors and events\<close>

fun node_err :: "ldk_error \<Rightarrow> lightning_error" where
  "node_err LdkNotRunning = LnNotRunning"
| "node_err LdkDuplicatePayment = LnDuplicatePayment"
| "node_err LdkInsufficientFunds = LnNoRoute"
| "node_err LdkPaymentSendingFailed = LnNoRoute"
| "node_err (LdkOtherError other) = LnNode other"

fun map_event :: "(u8 list \<Rightarrow> string) \<Rightarrow> ldk_event \<Rightarrow> node_event" where
  "map_event enc (LdkPaymentReceived payment_hash amount_msat) = PaymentReceived (enc payment_hash) amount_msat"
| "map_event enc (LdkPaymentSuccessful payment_hash payment_preimage fee_paid_msat) =
     PaymentSuccessful (enc payment_hash) (map_option enc payment_preimage) fee_paid_msat"
| "map_event enc (LdkPaymentFailed payment_hash reason) =
     PaymentFailed (map_option enc payment_hash) (case reason of Some r \<Rightarrow> r | None \<Rightarrow> ''unknown'')"
| "map_event enc (LdkChannelReady channel_id) = ChannelReady channel_id"
| "map_event enc (LdkChannelClosed channel_id reason) =
     ChannelClosed channel_id (case reason of Some r \<Rightarrow> r | None \<Rightarrow> ''unknown'')"
| "map_event enc (LdkOtherEvent other) = OtherEvent (take_chars 80 other)"

section \<open>The methods of the trait\<close>

definition ldk_info :: "('n, 'i) ldk_ops \<Rightarrow> network \<Rightarrow> 'n \<Rightarrow> node_info" where
  "ldk_info lx network n =
     \<lparr>nif_node_id = lx_node_id lx n, nif_network = network_as_str network,
      nif_listening_addresses = (case lx_listening_addresses lx n of Some as \<Rightarrow> as | None \<Rightarrow> []),
      nif_best_block_height = lx_best_height lx n, nif_running = lx_is_running lx n\<rparr>"

definition ldk_create_invoice ::
  "(u8 list \<Rightarrow> string) \<Rightarrow> ('n, 'i) ldk_ops \<Rightarrow> 'n \<Rightarrow> ln_new_invoice
   \<Rightarrow> (lightning_error + created_invoice) \<times> 'n" where
  "ldk_create_invoice enc lx n request =
     (case lx_description_new lx (lni_description request) of
        Inl e \<Rightarrow> (Inl (LnInvalidInvoice e), n)
      | Inr description \<Rightarrow>
          (case lx_receive lx n (lni_amount_msat request) description (lni_expiry_secs request) of
             (Inl e, n') \<Rightarrow> (Inl (node_err e), n')
           | (Inr invoice, n') \<Rightarrow>
               (Inr \<lparr>ci_bolt11 = lx_invoice_text lx invoice,
                     ci_payment_hash = enc (lx_invoice_hash lx invoice),
                     ci_expires_at_unix =
                       (case lx_invoice_expires_at lx invoice of
                          Some secs \<Rightarrow> secs
                        | None \<Rightarrow> lx_invoice_created_at lx invoice + ucast (lni_expiry_secs request))\<rparr>, n')))"

text \<open>The text in \<open>other => InvalidInvoice(other.to_string())\<close> is the \<open>Display\<close> form of the core error.\<close>

definition parse_for_network ::
  "(core_error \<Rightarrow> string) \<Rightarrow> (u8 list \<Rightarrow> string) \<Rightarrow> ('n, 'i) ldk_ops \<Rightarrow> network \<Rightarrow> 'n \<Rightarrow> string
   \<Rightarrow> lightning_error + parsed_invoice" where
  "parse_for_network show_err enc lx network n bolt11 =
     (let trimmed = trim bolt11
      in case check_invoice_prefix network trimmed of
           Inl (NetworkMismatch _ expected found) \<Rightarrow> Inl (LnNetworkMismatch expected found)
         | Inl other \<Rightarrow> Inl (LnInvalidInvoice (show_err other))
         | Inr _ \<Rightarrow>
             (case lx_invoice_from_str lx trimmed of
                Inl e \<Rightarrow> Inl (LnInvalidInvoice e)
              | Inr invoice \<Rightarrow>
                  if lx_invoice_is_expired lx n invoice then Inl LnInvoiceExpired
                  else Inr \<lparr>pi_payment_hash = enc (lx_invoice_hash lx invoice),
                            pi_amount_msat = lx_invoice_amount lx invoice\<rparr>))"

definition ldk_send_payment ::
  "(core_error \<Rightarrow> string) \<Rightarrow> (u8 list \<Rightarrow> string) \<Rightarrow> ('n, 'i) ldk_ops \<Rightarrow> network \<Rightarrow> 'n \<Rightarrow> string
   \<Rightarrow> u64 option \<Rightarrow> (lightning_error + string) \<times> 'n" where
  "ldk_send_payment show_err enc lx network n bolt11 amount_msat =
     (case parse_for_network show_err enc lx network n bolt11 of
        Inl err \<Rightarrow> (Inl err, n)
      | Inr parsed \<Rightarrow>
          (case lx_invoice_from_str lx (trim bolt11) of
             Inl e \<Rightarrow> (Inl (LnInvalidInvoice e), n)
           | Inr invoice \<Rightarrow>
               (case (pi_amount_msat parsed, amount_msat) of
                  (Some _, _) \<Rightarrow> apfst (map_sum node_err enc) (lx_send lx n invoice)
                | (None, Some msats) \<Rightarrow> apfst (map_sum node_err enc) (lx_send_using_amount lx n invoice msats)
                | (None, None) \<Rightarrow> (Inl LnAmountRequired, n))))"

fun node_status :: "ldk_payment_status \<Rightarrow> node_payment_status" where
  "node_status LdkPending = NodePending"
| "node_status LdkSucceeded = NodeSucceeded"
| "node_status LdkFailed = NodeFailed"

definition ldk_payment ::
  "(u8 list \<Rightarrow> string) \<Rightarrow> (string \<Rightarrow> u8 list option) \<Rightarrow> ('n, 'i) ldk_ops \<Rightarrow> 'n \<Rightarrow> string \<Rightarrow> node_payment option" where
  "ldk_payment enc dec lx n payment_hash =
     (case dec payment_hash of
        None \<Rightarrow> None
      | Some bytes \<Rightarrow>
          if length bytes \<noteq> 32 then None
          else
            (case lx_payment lx n bytes of
               None \<Rightarrow> None
             | Some details \<Rightarrow>
                 if lkd_direction details \<noteq> Outbound then None
                 else Some \<lparr>nop_status = node_status (lkd_status details),
                            nop_preimage = (case lkd_kind details of
                                              KindBolt11 preimage \<Rightarrow> map_option enc preimage
                                            | KindOther \<Rightarrow> None),
                            nop_fee_msat = lkd_fee_paid_msat details\<rparr>))"

definition ldk_new_onchain_address :: "('n, 'i) ldk_ops \<Rightarrow> 'n \<Rightarrow> (lightning_error + string) \<times> 'n" where
  "ldk_new_onchain_address lx n = apfst (map_sum node_err id) (lx_new_address lx n)"

definition ldk_open_channel ::
  "('n, 'i) ldk_ops \<Rightarrow> 'n \<Rightarrow> string \<Rightarrow> string \<Rightarrow> u64 \<Rightarrow> u64 option \<Rightarrow> (lightning_error + string) \<times> 'n" where
  "ldk_open_channel lx n peer_node_id peer_address capacity_sat push_msat =
     (case lx_public_key lx peer_node_id of
        None \<Rightarrow> (Inl (LnNode ''invalid peer node id''), n)
      | Some node_id \<Rightarrow>
          (case lx_socket_address lx peer_address of
             None \<Rightarrow> (Inl (LnNode ''invalid peer address''), n)
           | Some address \<Rightarrow>
               apfst (map_sum node_err id) (lx_open_channel lx n node_id address capacity_sat push_msat)))"

definition channel_of :: "ldk_channel \<Rightarrow> channel_info" where
  "channel_of c =
     \<lparr>chn_channel_id = lkc_channel_id c, chn_peer_node_id = lkc_counterparty_node_id c,
      chn_capacity_sat = lkc_channel_value_sats c, chn_outbound_capacity_msat = lkc_outbound_capacity_msat c,
      chn_inbound_capacity_msat = lkc_inbound_capacity_msat c, chn_is_ready = lkc_is_channel_ready c,
      chn_is_usable = lkc_is_usable c\<rparr>"

definition ldk_channels :: "('n, 'i) ldk_ops \<Rightarrow> 'n \<Rightarrow> channel_info list" where
  "ldk_channels lx n = map channel_of (lx_list_channels lx n)"

text \<open>The sums are those of a release build: they wrap.\<close>

definition ldk_balances_of :: "('n, 'i) ldk_ops \<Rightarrow> 'n \<Rightarrow> node_balances" where
  "ldk_balances_of lx n =
     (let balances = lx_list_balances lx n; channels = lx_list_channels lx n
      in \<lparr>nob_onchain_total_sat = lkb_total_onchain_balance_sats balances,
          nob_onchain_spendable_sat = lkb_spendable_onchain_balance_sats balances,
          nob_lightning_total_sat = lkb_total_lightning_balance_sats balances,
          nob_outbound_capacity_msat = sum_list (map lkc_outbound_capacity_msat channels),
          nob_inbound_capacity_msat = sum_list (map lkc_inbound_capacity_msat channels)\<rparr>)"

definition ldk_backend ::
  "(core_error \<Rightarrow> string) \<Rightarrow> (u8 list \<Rightarrow> string) \<Rightarrow> (string \<Rightarrow> u8 list option) \<Rightarrow> ('n, 'i) ldk_ops \<Rightarrow> network
   \<Rightarrow> 'n backend" where
  "ldk_backend show_err enc dec lx network =
     \<lparr>be_info = ldk_info lx network, be_create_invoice = ldk_create_invoice enc lx,
      be_parse_invoice = parse_for_network show_err enc lx network,
      be_send_payment = ldk_send_payment show_err enc lx network,
      be_payment = ldk_payment enc dec lx, be_new_onchain_address = ldk_new_onchain_address lx,
      be_open_channel = ldk_open_channel lx, be_channels = ldk_channels lx, be_balances = ldk_balances_of lx\<rparr>"

section \<open>Start, stop and the event queue\<close>

datatype btc_network = BtcRegtest | BtcSignet | BtcTestnet | BtcBitcoin

record ldk_config =
  lcf_network :: network
  lcf_storage_dir :: string
  lcf_listen :: string
  lcf_alias :: string
  lcf_rpc_host :: string
  lcf_rpc_port :: u16
  lcf_rpc_user :: string
  lcf_rpc_password :: string

text \<open>
  \<open>Builder\<close> and the calls on a running node that are not in the trait, over a type \<open>'b\<close> of builders.
  The log level is that of the file log; the queue shows its first event until it is acknowledged.
\<close>

datatype log_level = LogGossip | LogTrace | LogDebug | LogInfo | LogWarn | LogError

record ('b, 'n) ldk_runtime =
  lb_new :: 'b
  lb_set_network :: "btc_network \<Rightarrow> 'b \<Rightarrow> 'b"
  lb_set_filesystem_logger :: "string option \<Rightarrow> log_level option \<Rightarrow> 'b \<Rightarrow> 'b"
  lb_set_storage_dir_path :: "string \<Rightarrow> 'b \<Rightarrow> 'b"
  lb_set_chain_source_bitcoind_rpc :: "string \<Rightarrow> u16 \<Rightarrow> string \<Rightarrow> string \<Rightarrow> 'b \<Rightarrow> 'b"
  lb_socket_address :: "string \<Rightarrow> string option"
  lb_set_listening_addresses :: "string list \<Rightarrow> 'b \<Rightarrow> string + 'b"
  lb_set_node_alias :: "string \<Rightarrow> 'b \<Rightarrow> string + 'b"
  lb_build :: "'b \<Rightarrow> string + 'n"
  lb_start :: "'n \<Rightarrow> ldk_error + 'n"
  lb_next_event :: "'n \<Rightarrow> ldk_event option"
  lb_event_handled :: "'n \<Rightarrow> (ldk_error + unit) \<times> 'n"
  lb_stop :: "'n \<Rightarrow> (ldk_error + unit) \<times> 'n"

fun btc_network_of :: "network \<Rightarrow> btc_network" where
  "btc_network_of Regtest = BtcRegtest"
| "btc_network_of Signet = BtcSignet"
| "btc_network_of Testnet = BtcTestnet"
| "btc_network_of Bitcoin = BtcBitcoin"

text \<open>\<open>LdkBackend::start\<close>: the running node and the network the backend is for.\<close>

definition ldk_start :: "('b, 'n) ldk_runtime \<Rightarrow> ldk_config \<Rightarrow> lightning_error + 'n \<times> network" where
  "ldk_start rt config =
     (case lb_socket_address rt (lcf_listen config) of
        None \<Rightarrow> Inl (LnNode (''bad listen address '' @ lcf_listen config))
      | Some listen \<Rightarrow>
          let builder = lb_new rt;
              builder = lb_set_network rt (btc_network_of (lcf_network config)) builder;
              builder = lb_set_filesystem_logger rt None (Some LogInfo) builder;
              builder = lb_set_storage_dir_path rt (lcf_storage_dir config) builder;
              builder = lb_set_chain_source_bitcoind_rpc rt (lcf_rpc_host config) (lcf_rpc_port config)
                          (lcf_rpc_user config) (lcf_rpc_password config) builder
          in (case lb_set_listening_addresses rt [listen] builder of
                Inl e \<Rightarrow> Inl (LnNode e)
              | Inr builder \<Rightarrow>
                  (case lb_set_node_alias rt (lcf_alias config) builder of
                     Inl e \<Rightarrow> Inl (LnNode e)
                   | Inr builder \<Rightarrow>
                       (case lb_build rt builder of
                          Inl e \<Rightarrow> Inl (LnNode e)
                        | Inr node \<Rightarrow>
                            (case lb_start rt node of
                               Inl e \<Rightarrow> Inl (node_err e)
                             | Inr node \<Rightarrow> Inr (node, lcf_network config))))))"

text \<open>\<open>next_event\<close> waits while the queue is empty, which is \<open>None\<close> here.\<close>

definition ldk_next_event :: "(u8 list \<Rightarrow> string) \<Rightarrow> ('b, 'n) ldk_runtime \<Rightarrow> 'n \<Rightarrow> node_event option" where
  "ldk_next_event enc rt n = map_option (map_event enc) (lb_next_event rt n)"

definition ldk_event_handled :: "('b, 'n) ldk_runtime \<Rightarrow> 'n \<Rightarrow> (lightning_error + unit) \<times> 'n" where
  "ldk_event_handled rt n = apfst (map_sum node_err id) (lb_event_handled rt n)"

definition ldk_stop :: "('b, 'n) ldk_runtime \<Rightarrow> 'n \<Rightarrow> (lightning_error + unit) \<times> 'n" where
  "ldk_stop rt n = apfst (map_sum node_err id) (lb_stop rt n)"

section \<open>The documented payment store\<close>

text \<open>
  The store of LDK Node has one entry per payment, and the entry of a BOLT11 payment is under its
  hash. A send is refused while the entry is pending or succeeded; an accepted one leaves a pending
  outbound entry; a refused one leaves the store alone, or records the attempt as failed. Other
  calls may add inbound entries, and no outbound ones.
\<close>

definition send_ok :: "('n, 'i) ldk_ops \<Rightarrow> ('n \<Rightarrow> 'i \<Rightarrow> (ldk_error + u8 list) \<times> 'n) \<Rightarrow> bool" where
  "send_ok lx snd_call \<longleftrightarrow>
     (\<forall>n i id n'. snd_call n i = (Inr id, n') \<longrightarrow>
        id = lx_invoice_hash lx i
        \<and> (\<forall>d. lx_payment lx n id = Some d \<longrightarrow> lkd_status d = LdkFailed)
        \<and> (\<exists>d. lx_payment lx n' id = Some d \<and> lkd_direction d = Outbound \<and> lkd_status d = LdkPending)
        \<and> (\<forall>j. j \<noteq> id \<longrightarrow> lx_payment lx n' j = lx_payment lx n j))
   \<and> (\<forall>n i e n' j. snd_call n i = (Inl e, n') \<longrightarrow>
        lx_payment lx n' j = lx_payment lx n j
        \<or> (\<forall>d. lx_payment lx n j = Some d \<longrightarrow> lkd_status d = LdkFailed)
          \<and> (\<exists>d. lx_payment lx n' j = Some d \<and> lkd_status d = LdkFailed))"

definition outbound :: "ldk_details option \<Rightarrow> ldk_details option" where
  "outbound r = (case r of Some d \<Rightarrow> if lkd_direction d = Outbound then Some d else None | None \<Rightarrow> None)"

definition same_outbound :: "('n, 'i) ldk_ops \<Rightarrow> 'n \<Rightarrow> 'n \<Rightarrow> bool" where
  "same_outbound lx n n' \<longleftrightarrow> (\<forall>j. outbound (lx_payment lx n' j) = outbound (lx_payment lx n j))"

definition ldk_ok :: "('n, 'i) ldk_ops \<Rightarrow> bool" where
  "ldk_ok lx \<longleftrightarrow>
     (\<forall>i. length (lx_invoice_hash lx i) = 32)
   \<and> send_ok lx (lx_send lx) \<and> (\<forall>m. send_ok lx (\<lambda>n i. lx_send_using_amount lx n i m))
   \<and> (\<forall>n m d s. same_outbound lx n (snd (lx_receive lx n m d s)))
   \<and> (\<forall>n. same_outbound lx n (snd (lx_new_address lx n)))
   \<and> (\<forall>n k ad c p. same_outbound lx n (snd (lx_open_channel lx n k ad c p)))"

section \<open>The adapter meets the contract\<close>

text \<open>The record a caller sees is a view of the outbound entry.\<close>

definition payment_view :: "(u8 list \<Rightarrow> string) \<Rightarrow> ldk_details \<Rightarrow> node_payment" where
  "payment_view enc d =
     \<lparr>nop_status = node_status (lkd_status d),
      nop_preimage = (case lkd_kind d of KindBolt11 preimage \<Rightarrow> map_option enc preimage | KindOther \<Rightarrow> None),
      nop_fee_msat = lkd_fee_paid_msat d\<rparr>"

lemma ldk_payment_view:
  "ldk_payment enc dec lx n h =
     (case dec h of
        None \<Rightarrow> None
      | Some bs \<Rightarrow> if length bs \<noteq> 32 then None else map_option (payment_view enc) (outbound (lx_payment lx n bs)))"
  by (auto simp: ldk_payment_def outbound_def payment_view_def split: option.splits)

lemma node_status_failed [simp]: "node_status st = NodeFailed \<longleftrightarrow> st = LdkFailed"
  by (cases st) simp_all

lemma view_status [simp]: "nop_status (payment_view enc d) = node_status (lkd_status d)"
  by (simp add: payment_view_def)

lemma same_outbound_payment:
  "same_outbound lx n n' \<Longrightarrow> ldk_payment enc dec lx n' h = ldk_payment enc dec lx n h"
  by (simp add: ldk_payment_view same_outbound_def split: option.splits)

lemma outbound_Some: "outbound r = Some d \<longleftrightarrow> r = Some d \<and> lkd_direction d = Outbound"
  by (auto simp: outbound_def split: option.splits if_splits)

text \<open>A send that reaches the node is one of its two calls, on the invoice that was checked.\<close>

definition asked :: "('n, 'i) ldk_ops \<Rightarrow> 'i \<Rightarrow> u64 option \<Rightarrow> 'n \<Rightarrow> (ldk_error + u8 list) \<times> 'n" where
  "asked lx i a n =
     (case lx_invoice_amount lx i of
        Some _ \<Rightarrow> lx_send lx n i
      | None \<Rightarrow> lx_send_using_amount lx n i (the a))"

lemma parse_for_network_Inr:
  "parse_for_network show_err enc lx network n b = Inr p \<longleftrightarrow>
     (\<exists>i. check_invoice_prefix network (trim b) = Inr () \<and> lx_invoice_from_str lx (trim b) = Inr i
        \<and> \<not> lx_invoice_is_expired lx n i
        \<and> p = \<lparr>pi_payment_hash = enc (lx_invoice_hash lx i), pi_amount_msat = lx_invoice_amount lx i\<rparr>)"
  by (auto simp: parse_for_network_def Let_def split: sum.splits core_error.splits if_splits)

lemma ldk_send_cases:
  assumes "ldk_send_payment show_err enc lx network n b a = (res, n')"
  obtains (refused) err where "res = Inl err" and "n' = n"
  | (sent) i r where "parse_for_network show_err enc lx network n b
         = Inr \<lparr>pi_payment_hash = enc (lx_invoice_hash lx i), pi_amount_msat = lx_invoice_amount lx i\<rparr>"
      and "lx_invoice_from_str lx (trim b) = Inr i" and "lx_invoice_amount lx i = None \<longrightarrow> a \<noteq> None"
      and "asked lx i a n = (r, n')" and "res = map_sum node_err enc r"
proof (cases "parse_for_network show_err enc lx network n b")
  case (Inl err)
  then show ?thesis using assms refused by (auto simp: ldk_send_payment_def)
next
  case (Inr p)
  then obtain i where i: "lx_invoice_from_str lx (trim b) = Inr i"
      "p = \<lparr>pi_payment_hash = enc (lx_invoice_hash lx i), pi_amount_msat = lx_invoice_amount lx i\<rparr>"
    by (auto simp: parse_for_network_Inr)
  show ?thesis
  proof (cases "lx_invoice_amount lx i = None \<and> a = None")
    case True
    then show ?thesis using assms Inr i refused by (auto simp: ldk_send_payment_def)
  next
    case False
    obtain r n1 where r: "asked lx i a n = (r, n1)" by fastforce
    then have "ldk_send_payment show_err enc lx network n b a = (map_sum node_err enc r, n1)"
      using False Inr i by (auto simp: ldk_send_payment_def asked_def split: option.splits)
    then have e: "res = map_sum node_err enc r" "n1 = n'" using assms by simp_all
    show ?thesis by (rule sent [OF _ i(1) _ r [unfolded e(2)] e(1)]) (use Inr i(2) False in auto)
  qed
qed

lemma asked_ok: "ldk_ok lx \<Longrightarrow> send_ok lx (\<lambda>n i. asked lx i a n)"
  unfolding ldk_ok_def asked_def send_ok_def by (simp split: option.split)

lemma ldk_payment_enc:
  assumes "hex_codec enc dec" and "ldk_ok lx"
  shows "ldk_payment enc dec lx n (enc (lx_invoice_hash lx i))
         = map_option (payment_view enc) (outbound (lx_payment lx n (lx_invoice_hash lx i)))"
  using assms(2) hex_codec.dec_enc [OF assms(1)] by (simp add: ldk_payment_view ldk_ok_def)

text \<open>One entry of the store, before and after a call on the invoice: what a caller sees of it.\<close>

lemma asked_accepted:
  assumes "hex_codec enc dec" and "ldk_ok lx" and "asked lx i a n = (Inr pid, n')"
  shows "pid = lx_invoice_hash lx i"
    and "ldk_payment enc dec lx n (enc pid) = Some np \<Longrightarrow> nop_status np = NodeFailed"
    and "\<exists>np. ldk_payment enc dec lx n' (enc pid) = Some np \<and> nop_status np = NodePending"
    and "ldk_payment enc dec lx n' h = ldk_payment enc dec lx n h
         \<or> ldk_payment enc dec lx n' h = ldk_payment enc dec lx n' (enc pid)"
proof -
  have s: "pid = lx_invoice_hash lx i"
      "\<forall>d. lx_payment lx n pid = Some d \<longrightarrow> lkd_status d = LdkFailed"
      "\<exists>d. lx_payment lx n' pid = Some d \<and> lkd_direction d = Outbound \<and> lkd_status d = LdkPending"
      "\<forall>j. j \<noteq> pid \<longrightarrow> lx_payment lx n' j = lx_payment lx n j"
    using asked_ok [OF assms(2), of a] assms(3) by (auto simp: send_ok_def)
  show "pid = lx_invoice_hash lx i" by (rule s(1))
  note e = ldk_payment_enc [OF assms(1,2), of _ i, folded s(1)]
  show "ldk_payment enc dec lx n (enc pid) = Some np \<Longrightarrow> nop_status np = NodeFailed"
    using s(2) by (auto simp: e outbound_Some)
  show "\<exists>np. ldk_payment enc dec lx n' (enc pid) = Some np \<and> nop_status np = NodePending"
    using s(3) by (auto simp: e outbound_def)
  show "ldk_payment enc dec lx n' h = ldk_payment enc dec lx n h
      \<or> ldk_payment enc dec lx n' h = ldk_payment enc dec lx n' (enc pid)"
  proof (cases "dec h = Some pid")
    case True
    then show ?thesis using hex_codec.dec_enc [OF assms(1)] by (simp add: ldk_payment_view)
  next
    case False
    then show ?thesis using s(4) by (auto simp: ldk_payment_view split: option.split)
  qed
qed

lemma asked_keeps:
  assumes "ldk_ok lx" and "asked lx i a n = (res, n')"
    and "ldk_payment enc dec lx n h = Some np" and "nop_status np \<noteq> NodeFailed"
  shows "ldk_payment enc dec lx n' h = Some np"
proof -
  obtain bs d where d: "dec h = Some bs" "length bs = 32" "lx_payment lx n bs = Some d"
      "lkd_status d \<noteq> LdkFailed"
    using assms(3,4) by (auto simp: ldk_payment_view outbound_Some split: option.splits if_splits)
  have "lx_payment lx n' bs = lx_payment lx n bs"
  proof (cases res)
    case (Inl e)
    then show ?thesis using asked_ok [OF assms(1), of a] assms(2) d(3,4) unfolding send_ok_def by blast
  next
    case (Inr pid)
    then have "bs \<noteq> pid \<and> (bs \<noteq> pid \<longrightarrow> lx_payment lx n' bs = lx_payment lx n bs)"
      using asked_ok [OF assms(1), of a] assms(2) d(3,4) unfolding send_ok_def by blast
    then show ?thesis by blast
  qed
  then show ?thesis using assms(3) d(1,2) by (simp add: ldk_payment_view)
qed

lemma asked_refused:
  assumes "ldk_ok lx" and "asked lx i a n = (Inl err, n')"
    and "ldk_payment enc dec lx n' h = Some np" and "nop_status np \<noteq> NodeFailed"
  shows "ldk_payment enc dec lx n h = Some np"
proof -
  obtain bs d where d: "dec h = Some bs" "length bs = 32" "lx_payment lx n' bs = Some d"
      "lkd_status d \<noteq> LdkFailed"
    using assms(3,4) by (auto simp: ldk_payment_view outbound_Some split: option.splits if_splits)
  have "lx_payment lx n' bs = lx_payment lx n bs"
    using asked_ok [OF assms(1), of a] assms(2) d(3,4) unfolding send_ok_def by (metis option.inject)
  then show ?thesis using assms(3) d(1,2) by (simp add: ldk_payment_view)
qed

lemma ldk_quiet_calls:
  assumes "ldk_ok lx"
  shows "ldk_create_invoice enc lx n r = (res, n') \<Longrightarrow> same_outbound lx n n'"
    and "ldk_new_onchain_address lx n = (res', n') \<Longrightarrow> same_outbound lx n n'"
    and "ldk_open_channel lx n k ad cap push = (res', n') \<Longrightarrow> same_outbound lx n n'"
proof -
  have r: "same_outbound lx n (snd (lx_receive lx n m d s))"
      "same_outbound lx n (snd (lx_new_address lx n))"
      "same_outbound lx n (snd (lx_open_channel lx n key addr c p))" "same_outbound lx n n"
    for m d s key addr c p
    using assms by (simp_all add: ldk_ok_def same_outbound_def)
  show "ldk_create_invoice enc lx n r = (res, n') \<Longrightarrow> same_outbound lx n n'"
    using r(1) [of "lni_amount_msat r" _ "lni_expiry_secs r"] r(4)
    by (auto simp: ldk_create_invoice_def split: sum.splits prod.splits) (metis snd_conv)+
  show "ldk_new_onchain_address lx n = (res', n') \<Longrightarrow> same_outbound lx n n'"
    using r(2) by (cases "lx_new_address lx n") (simp add: ldk_new_onchain_address_def)
  show "ldk_open_channel lx n k ad cap push = (res', n') \<Longrightarrow> same_outbound lx n n'"
    using r(3) r(4)
    by (auto simp: ldk_open_channel_def apfst_def map_prod_def split: option.splits prod.splits) (metis snd_conv)
qed

lemma ldk_backend_sel [simp]:
  "be_create_invoice (ldk_backend show_err enc dec lx network) = ldk_create_invoice enc lx"
  "be_parse_invoice (ldk_backend show_err enc dec lx network) = parse_for_network show_err enc lx network"
  "be_send_payment (ldk_backend show_err enc dec lx network) = ldk_send_payment show_err enc lx network"
  "be_payment (ldk_backend show_err enc dec lx network) = ldk_payment enc dec lx"
  "be_new_onchain_address (ldk_backend show_err enc dec lx network) = ldk_new_onchain_address lx"
  "be_open_channel (ldk_backend show_err enc dec lx network) = ldk_open_channel lx"
  by (simp_all add: ldk_backend_def)

lemma ldk_lightning_backend:
  assumes c: "hex_codec enc dec" and ok: "ldk_ok lx"
  shows "lightning_backend (ldk_backend show_err enc dec lx network)"
proof (unfold_locales, unfold ldk_backend_sel)
  fix n b a h n'
  assume s: "ldk_send_payment show_err enc lx network n b a = (Inr h, n')"
  obtain i pid where i: "parse_for_network show_err enc lx network n b
        = Inr \<lparr>pi_payment_hash = enc (lx_invoice_hash lx i), pi_amount_msat = lx_invoice_amount lx i\<rparr>"
      "asked lx i a n = (Inr pid, n')" "h = enc pid"
    using s
  proof (cases rule: ldk_send_cases)
    case (sent i r)
    then show ?thesis using that by (cases r) auto
  qed simp
  note acc = asked_accepted [OF c ok i(2)]
  show "(\<exists>p. parse_for_network show_err enc lx network n b = Inr p \<and> pi_payment_hash p = h)
      \<and> (\<forall>np. ldk_payment enc dec lx n h = Some np \<longrightarrow> nop_status np = NodeFailed)
      \<and> (\<exists>np. ldk_payment enc dec lx n' h = Some np \<and> nop_status np = NodePending)"
    using acc(1-3) i(1,3) by auto
  show "ldk_payment enc dec lx n' h' = ldk_payment enc dec lx n h'
      \<or> ldk_payment enc dec lx n' h' = ldk_payment enc dec lx n' h" for h'
    using acc(4) i(3) by simp
next
  fix n b a res n' h np
  assume "ldk_send_payment show_err enc lx network n b a = (res, n')"
    and "ldk_payment enc dec lx n h = Some np" "nop_status np \<noteq> NodeFailed"
  then show "ldk_payment enc dec lx n' h = Some np"
    by (elim ldk_send_cases) (simp, meson asked_keeps ok)
next
  fix n b a err n' h np
  assume s: "ldk_send_payment show_err enc lx network n b a = (Inl err, n')"
    and "ldk_payment enc dec lx n' h = Some np" "nop_status np \<noteq> NodeFailed"
  from s show "ldk_payment enc dec lx n h = Some np"
  proof (cases rule: ldk_send_cases)
    case (sent i r)
    then obtain e where "asked lx i a n = (Inl e, n')" by (cases r) auto
    then show ?thesis using asked_refused [OF ok] \<open>ldk_payment enc dec lx n' h = Some np\<close> \<open>nop_status np \<noteq> NodeFailed\<close>
      by blast
  qed (use \<open>ldk_payment enc dec lx n' h = Some np\<close> in simp)
qed (use ldk_quiet_calls [OF ok] same_outbound_payment in metis)+

text \<open>A node in memory, with the 32 first bytes of the text as the hash of an invoice.\<close>

definition pending_entry :: ldk_details where
  "pending_entry = \<lparr>lkd_direction = Outbound, lkd_kind = KindBolt11 None, lkd_status = LdkPending,
     lkd_fee_paid_msat = None\<rparr>"

definition sample_hash :: "u8 list \<Rightarrow> u8 list" where
  "sample_hash bs = take 32 (bs @ replicate 32 0)"

definition sample_send ::
  "(u8 list \<rightharpoonup> ldk_details) \<Rightarrow> u8 list \<Rightarrow> (ldk_error + u8 list) \<times> (u8 list \<rightharpoonup> ldk_details)" where
  "sample_send n i =
     (case n (sample_hash i) of
        Some d \<Rightarrow> if lkd_status d = LdkFailed then (Inr (sample_hash i), n(sample_hash i \<mapsto> pending_entry))
                  else (Inl LdkDuplicatePayment, n)
      | None \<Rightarrow> (Inr (sample_hash i), n(sample_hash i \<mapsto> pending_entry)))"

definition sample_ldk :: "(u8 list \<rightharpoonup> ldk_details, u8 list) ldk_ops" where
  "sample_ldk =
     \<lparr>lx_best_height = (\<lambda>_. 101), lx_is_running = (\<lambda>_. True), lx_node_id = (\<lambda>_. ''02ab''),
      lx_listening_addresses = (\<lambda>_. None), lx_description_new = Inr,
      lx_receive = (\<lambda>n m d s. (Inr [ucast m], n)), lx_send = sample_send,
      lx_send_using_amount = (\<lambda>n i _. sample_send n i), lx_payment = (\<lambda>n. n),
      lx_new_address = (\<lambda>n. (Inl (LdkOtherError ''no wallet''), n)), lx_public_key = (\<lambda>_. None),
      lx_socket_address = (\<lambda>_. None), lx_open_channel = (\<lambda>n _ _ _ _. (Inl LdkInsufficientFunds, n)),
      lx_list_channels = (\<lambda>_. []), lx_list_balances = (\<lambda>_. \<lparr>lkb_total_onchain_balance_sats = 0,
        lkb_spendable_onchain_balance_sats = 0, lkb_total_lightning_balance_sats = 0\<rparr>),
      lx_invoice_from_str = (\<lambda>s. Inr (map (\<lambda>c. word_of_nat (code c)) s)),
      lx_invoice_text = (\<lambda>_. ''lnbcrt1''), lx_invoice_hash = sample_hash,
      lx_invoice_amount = (\<lambda>_. None), lx_invoice_expires_at = (\<lambda>_. None),
      lx_invoice_created_at = (\<lambda>_. 0), lx_invoice_is_expired = (\<lambda>_ _. False)\<rparr>"

lemma sample_ldk_ok: "ldk_ok sample_ldk"
  by (auto simp: ldk_ok_def sample_ldk_def send_ok_def sample_send_def same_outbound_def sample_hash_def
      pending_entry_def split: option.splits if_splits)

text \<open>
  C5. The LDK adapter meets the contract its callers rely on. Given that the payment store of LDK
  Node behaves as documented (one entry per payment hash, no second send while an entry is pending
  or succeeded) and a hex codec, \<open>LdkBackend\<close> is an instance of the interface the engine is verified
  against; an invoice whose record is pending or succeeded is refused when it is sent again, and
  its record stays; and an accepted send was of an unexpired invoice of the configured network, asked
  of the node with the invoice's own amount, or with the caller's amount exactly when the invoice
  has none, and returns the payment hash of that invoice.
\<close>

theorem ldk_meets_contract:
  assumes "hex_codec enc dec" and "ldk_ok lx"
  shows "lightning_backend (ldk_backend show_err enc dec lx network)
    \<and> (\<forall>n b a h np p. ldk_payment enc dec lx n h = Some np \<longrightarrow> nop_status np \<noteq> NodeFailed \<longrightarrow>
         parse_for_network show_err enc lx network n b = Inr p \<longrightarrow> pi_payment_hash p = h \<longrightarrow>
         (\<exists>err n'. ldk_send_payment show_err enc lx network n b a = (Inl err, n')
            \<and> ldk_payment enc dec lx n' h = Some np))
    \<and> (\<forall>n b a h n'. ldk_send_payment show_err enc lx network n b a = (Inr h, n') \<longrightarrow>
         (\<exists>i. check_invoice_prefix network (trim b) = Inr () \<and> lx_invoice_from_str lx (trim b) = Inr i
            \<and> \<not> lx_invoice_is_expired lx n i \<and> h = enc (lx_invoice_hash lx i)
            \<and> (case lx_invoice_amount lx i of
                 Some _ \<Rightarrow> lx_send lx n i = (Inr (lx_invoice_hash lx i), n')
               | None \<Rightarrow> \<exists>m. a = Some m \<and> lx_send_using_amount lx n i m = (Inr (lx_invoice_hash lx i), n'))))"
proof (intro conjI allI impI)
  let ?be = "ldk_backend show_err enc dec lx network"
  show be: "lightning_backend ?be" by (rule ldk_lightning_backend [OF assms])
  fix n b a h np p
  assume live: "ldk_payment enc dec lx n h = Some np" "nop_status np \<noteq> NodeFailed"
    and "parse_for_network show_err enc lx network n b = Inr p" "pi_payment_hash p = h"
  then obtain err n' where "ldk_send_payment show_err enc lx network n b a = (Inl err, n')"
    using lightning_backend.second_send_refused [OF be, of n h np b p a] by auto
  then show "\<exists>err n'. ldk_send_payment show_err enc lx network n b a = (Inl err, n')
      \<and> ldk_payment enc dec lx n' h = Some np"
    using lightning_backend.send_keeps [OF be, of n b a _ _ h np] live by auto
next
  fix n b a h n'
  assume "ldk_send_payment show_err enc lx network n b a = (Inr h, n')"
  then show "\<exists>i. check_invoice_prefix network (trim b) = Inr () \<and> lx_invoice_from_str lx (trim b) = Inr i
      \<and> \<not> lx_invoice_is_expired lx n i \<and> h = enc (lx_invoice_hash lx i)
      \<and> (case lx_invoice_amount lx i of
           Some _ \<Rightarrow> lx_send lx n i = (Inr (lx_invoice_hash lx i), n')
         | None \<Rightarrow> \<exists>m. a = Some m \<and> lx_send_using_amount lx n i m = (Inr (lx_invoice_hash lx i), n'))"
  proof (cases rule: ldk_send_cases)
    case (sent i r)
    then obtain pid where r: "asked lx i a n = (Inr pid, n')" "h = enc pid" by (cases r) auto
    then have "pid = lx_invoice_hash lx i" by (metis asked_accepted(1) assms)
    then show ?thesis using sent(1-3) r by (auto simp: parse_for_network_Inr asked_def split: option.splits)
  qed simp
qed

theorem ldk_meets_contract_witness:
  "lightning_backend (ldk_backend (\<lambda>_. []) bytes_hex hex_bytes sample_ldk Regtest)
   \<and> (\<exists>h n1 err n2. ldk_send_payment (\<lambda>_. []) bytes_hex sample_ldk Regtest Map.empty ''lnbcrt1u1pabc'' (Some 5) = (Inr h, n1)
       \<and> ldk_send_payment (\<lambda>_. []) bytes_hex sample_ldk Regtest n1 ''lnbcrt1u1pabc'' (Some 5) = (Inl err, n2))"
proof -
  let ?send = "ldk_send_payment (\<lambda>_. []) bytes_hex sample_ldk Regtest"
  let ?parse = "parse_for_network (\<lambda>_. []) bytes_hex sample_ldk Regtest"
  let ?b = "''lnbcrt1u1pabc''"
  note c = ldk_meets_contract [OF plain_hex.hex_codec_axioms sample_ldk_ok, of "\<lambda>_. []" Regtest]
  have t: "trim ?b = ?b" by (rule trim_graphic) (simp add: graphic_def code_def)
  have "check_invoice_prefix Regtest ?b = Inr ()"
    by (simp add: check_invoice_prefix_def t invoice_for_def starts_with_def is_ascii_digit_def code_def
        to_ascii_lowercase_def to_lower_def)
  moreover define i where "i = map (\<lambda>c. word_of_nat (code c) :: u8) ?b"
  moreover define p where "p = \<lparr>pi_payment_hash = bytes_hex (sample_hash i), pi_amount_msat = None\<rparr>"
  ultimately have i: "lx_invoice_from_str sample_ldk ?b = Inr i" "\<And>n. ?parse n ?b = Inr p"
      "pi_amount_msat p = None" "pi_payment_hash p = bytes_hex (sample_hash i)"
    by (simp_all add: parse_for_network_def t sample_ldk_def)
  then obtain n1 where n1: "?send Map.empty ?b (Some 5) = (Inr (bytes_hex (sample_hash i)), n1)"
    by (simp add: ldk_send_payment_def t) (simp add: sample_ldk_def sample_send_def)
  obtain np where np: "ldk_payment bytes_hex hex_bytes sample_ldk n1 (bytes_hex (sample_hash i)) = Some np"
      "nop_status np \<noteq> NodeFailed"
    using lightning_backend.send_accepted [OF conjunct1 [OF c], of Map.empty ?b "Some 5"] n1 by auto
  have "\<exists>err n2. ?send n1 ?b (Some 5) = (Inl err, n2)"
    using c [THEN conjunct2, THEN conjunct1, rule_format, OF np i(2,4)] by blast
  then show ?thesis using c [THEN conjunct1] n1 by blast
qed

end
