(* ===== verification/Daemon_Main.thy ===== *)
theory Daemon_Main
  imports Daemon_Config Ldk_Backend Engine Api_Handler Webhook_Deliver
begin

text \<open>
  \<open>crates/safrod/src/main.rs\<close>: how \<open>run\<close> puts the daemon together. The node is a trait object: either
  the mock or the LDK node, a sum with the dispatch of the calls. Connecting to the database, its
  migrations, the file system, binding the socket and the third-party functions of the components
  are the fields of \<open>daemon_world\<close>; the background tasks are listed, and modelled in their own
  theories. What is shown of a daemon that starts is \<open>daemon_starts_safe\<close>.
\<close>

lemma sum_map_Inr: "map_sum f g x = Inr b \<longleftrightarrow> (\<exists>a. x = Inr a \<and> b = g a)"
  by (cases x) auto

section \<open>The node behind \<open>dyn LightningBackend\<close>\<close>

datatype 'n node_kind = MockNode mock_state | LdkNode 'n

fun on_kind :: "(mock_state \<Rightarrow> 'r \<times> mock_state) \<Rightarrow> ('n \<Rightarrow> 'r \<times> 'n) \<Rightarrow> 'n node_kind \<Rightarrow> 'r \<times> 'n node_kind" where
  "on_kind f g (MockNode s) = apsnd MockNode (f s)"
| "on_kind f g (LdkNode n) = apsnd LdkNode (g n)"

definition dyn_backend :: "mock_state backend \<Rightarrow> 'n backend \<Rightarrow> 'n node_kind backend" where
  "dyn_backend mb lb =
     \<lparr>be_info = case_node_kind (be_info mb) (be_info lb),
      be_create_invoice = (\<lambda>n r. on_kind (\<lambda>s. be_create_invoice mb s r) (\<lambda>s. be_create_invoice lb s r) n),
      be_parse_invoice = case_node_kind (be_parse_invoice mb) (be_parse_invoice lb),
      be_send_payment = (\<lambda>n b a. on_kind (\<lambda>s. be_send_payment mb s b a) (\<lambda>s. be_send_payment lb s b a) n),
      be_payment = case_node_kind (be_payment mb) (be_payment lb),
      be_new_onchain_address = on_kind (be_new_onchain_address mb) (be_new_onchain_address lb),
      be_open_channel = (\<lambda>n i ad cap push. on_kind (\<lambda>s. be_open_channel mb s i ad cap push)
        (\<lambda>s. be_open_channel lb s i ad cap push) n),
      be_channels = case_node_kind (be_channels mb) (be_channels lb),
      be_balances = case_node_kind (be_balances mb) (be_balances lb)\<rparr>"

lemma on_kind_mock: "on_kind f g (MockNode s) = (r, n') \<longleftrightarrow> (\<exists>s'. f s = (r, s') \<and> n' = MockNode s')"
  by (cases "f s") auto

lemma on_kind_ldk: "on_kind f g (LdkNode s) = (r, n') \<longleftrightarrow> (\<exists>s'. g s = (r, s') \<and> n' = LdkNode s')"
  by (cases "g s") auto

lemma dyn_backend_sel [simp]:
  "be_create_invoice (dyn_backend mb lb) n r = on_kind (\<lambda>s. be_create_invoice mb s r) (\<lambda>s. be_create_invoice lb s r) n"
  "be_parse_invoice (dyn_backend mb lb) (MockNode s) = be_parse_invoice mb s"
  "be_parse_invoice (dyn_backend mb lb) (LdkNode t) = be_parse_invoice lb t"
  "be_send_payment (dyn_backend mb lb) n b a = on_kind (\<lambda>s. be_send_payment mb s b a) (\<lambda>s. be_send_payment lb s b a) n"
  "be_payment (dyn_backend mb lb) (MockNode s) = be_payment mb s"
  "be_payment (dyn_backend mb lb) (LdkNode t) = be_payment lb t"
  "be_new_onchain_address (dyn_backend mb lb) n = on_kind (be_new_onchain_address mb) (be_new_onchain_address lb) n"
  "be_open_channel (dyn_backend mb lb) n i ad cap push = on_kind (\<lambda>s. be_open_channel mb s i ad cap push)
        (\<lambda>s. be_open_channel lb s i ad cap push) n"
  by (simp_all add: dyn_backend_def)

text \<open>Dispatch keeps the contract.\<close>

lemma dyn_lightning_backend:
  fixes lb :: "'n backend"
  assumes mb: "lightning_backend mb" and lb: "lightning_backend lb"
  shows "lightning_backend (dyn_backend mb lb)"
proof
  note m = lightning_backend.send_accepted [OF mb] lightning_backend.send_frame [OF mb]
    lightning_backend.send_keeps [OF mb] lightning_backend.send_refused [OF mb]
    lightning_backend.create_frame [OF mb] lightning_backend.address_frame [OF mb]
    lightning_backend.channel_frame [OF mb]
  note l = lightning_backend.send_accepted [OF lb] lightning_backend.send_frame [OF lb]
    lightning_backend.send_keeps [OF lb] lightning_backend.send_refused [OF lb]
    lightning_backend.create_frame [OF lb] lightning_backend.address_frame [OF lb]
    lightning_backend.channel_frame [OF lb]
  fix n n' :: "'n node_kind" and b a h h' np res err r i ad cap push and res' :: "lightning_error + created_invoice"
  let ?be = "dyn_backend mb lb"
  show "be_send_payment ?be n b a = (Inr h, n') \<Longrightarrow>
      (\<exists>p. be_parse_invoice ?be n b = Inr p \<and> pi_payment_hash p = h)
      \<and> (\<forall>np. be_payment ?be n h = Some np \<longrightarrow> nop_status np = NodeFailed)
      \<and> (\<exists>np. be_payment ?be n' h = Some np \<and> nop_status np = NodePending)"
    by (cases n) (use m(1) l(1) in \<open>auto simp: on_kind_mock on_kind_ldk simp del: on_kind.simps\<close>)
  show "be_send_payment ?be n b a = (Inr h, n') \<Longrightarrow>
      be_payment ?be n' h' = be_payment ?be n h' \<or> be_payment ?be n' h' = be_payment ?be n' h"
  proof (cases n)
    case (MockNode s)
    then show "be_send_payment ?be n b a = (Inr h, n') \<Longrightarrow> ?thesis"
      using m(2) [of s b a h _ h'] by (auto simp: on_kind_mock simp del: on_kind.simps)
  next
    case (LdkNode s)
    then show "be_send_payment ?be n b a = (Inr h, n') \<Longrightarrow> ?thesis"
      using l(2) [of s b a h _ h'] by (auto simp: on_kind_ldk simp del: on_kind.simps)
  qed
  show "be_send_payment ?be n b a = (res, n') \<Longrightarrow> be_payment ?be n h' = Some np \<Longrightarrow>
      nop_status np \<noteq> NodeFailed \<Longrightarrow> be_payment ?be n' h' = Some np"
    by (cases n) (use m(3) l(3) in \<open>auto simp: on_kind_mock on_kind_ldk simp del: on_kind.simps\<close>)
  show "be_send_payment ?be n b a = (Inl err, n') \<Longrightarrow> be_payment ?be n' h' = Some np \<Longrightarrow>
      nop_status np \<noteq> NodeFailed \<Longrightarrow> be_payment ?be n h' = Some np"
    by (cases n) (use m(4) l(4) in \<open>auto simp: on_kind_mock on_kind_ldk simp del: on_kind.simps\<close>)
  show "be_create_invoice ?be n r = (res', n') \<Longrightarrow> be_payment ?be n' h' = be_payment ?be n h'"
    by (cases n) (use m(5) l(5) in \<open>auto simp: on_kind_mock on_kind_ldk simp del: on_kind.simps\<close>)
  show "be_new_onchain_address ?be n = (res, n') \<Longrightarrow> be_payment ?be n' h' = be_payment ?be n h'"
    by (cases n) (use m(6) l(6) in \<open>auto simp: on_kind_mock on_kind_ldk simp del: on_kind.simps\<close>)
  show "be_open_channel ?be n i ad cap push = (res, n') \<Longrightarrow> be_payment ?be n' h' = be_payment ?be n h'"
    by (cases n) (use m(7) l(7) in \<open>auto simp: on_kind_mock on_kind_ldk simp del: on_kind.simps\<close>)
qed

section \<open>main.rs\<close>

datatype daemon_error =
    DConfig config_error
  | DDatabase string
  | DHttpClient string
  | DIo string
  | DLightning lightning_error

record ('b, 'n, 'i) daemon_world =
  dw_int_err :: "string \<Rightarrow> string"
  dw_connect :: "string \<Rightarrow> string + db"
  dw_migrate :: "db \<Rightarrow> string + db"
  dw_http_client :: "string + unit"
  dw_url_parts :: "string \<Rightarrow> string + string option \<times> u16 option"
  dw_create_private_dir :: "string \<Rightarrow> string + unit"
  dw_runtime :: "('b, 'n) ldk_runtime"
  dw_ldk :: "('n, 'i) ldk_ops"
  dw_bind :: "sock_addr \<Rightarrow> string + unit"
  dw_bitcoind :: bitcoind
  dw_sha256 :: "string \<Rightarrow> u8 list"
  dw_json_text :: "json \<Rightarrow> string"
  dw_hex :: "u8 list \<Rightarrow> string"
  dw_unhex :: "string \<Rightarrow> u8 list option"
  dw_url_parse :: "string \<Rightarrow> url option"
  dw_timestamp :: "int \<Rightarrow> instant option"

text \<open>The background tasks, with what each is given.\<close>

datatype daemon_task =
    PumpNodeEvents
  | ExpireInvoices
  | DeliverWebhooks delivery_config
  | WatchChain bitcoin_rpc u64

record 'n running =
  rn_server :: "'n node_kind server"
  rn_app :: "'n node_kind app"
  rn_tasks :: "daemon_task list"
  rn_addr :: sock_addr

definition api_config_of :: "config \<Rightarrow> api_config" where
  "api_config_of config =
     \<lparr>cfg_network = cf_network config, cfg_admin_token = cf_admin_token config,
      cfg_webhook_allow_private = cf_webhook_allow_private config,
      cfg_default_confirmations = cf_required_confirmations config,
      cfg_enable_dev_endpoints = cf_enable_dev_endpoints config\<rparr>"

definition rpc_of :: "('b, 'n, 'i) daemon_world \<Rightarrow> config \<Rightarrow> daemon_error + bitcoin_rpc option" where
  "rpc_of w config =
     (case cf_bitcoin_rpc_url config of
        None \<Rightarrow> Inr None
      | Some url \<Rightarrow>
          and_then (map_sum DHttpClient id (dw_http_client w)) (\<lambda>_.
          Inr (Some (rpc_new url (cf_bitcoin_rpc_user config) (cf_bitcoin_rpc_password config)))))"

definition ldk_config_of :: "config \<Rightarrow> string \<Rightarrow> u16 \<Rightarrow> ldk_config" where
  "ldk_config_of config rpc_host rpc_port =
     \<lparr>lcf_network = cf_network config, lcf_storage_dir = cf_ldk_storage_dir config,
      lcf_listen = cf_ldk_listen config, lcf_alias = cf_ldk_alias config, lcf_rpc_host = rpc_host,
      lcf_rpc_port = rpc_port, lcf_rpc_user = cf_bitcoin_rpc_user config,
      lcf_rpc_password = cf_bitcoin_rpc_password config\<rparr>"

text \<open>The backend is a value of the node and of the network it was started for.\<close>

definition start_lightning ::
  "('b, 'n, 'i) daemon_world \<Rightarrow> config \<Rightarrow> daemon_error + 'n node_kind \<times> network" where
  "start_lightning w config =
     (case cf_lightning config of
        KindMock \<Rightarrow> Inr (MockNode mock_new, cf_network config)
      | KindLdk \<Rightarrow>
          and_then (map_sum DConfig id (rpc_host_port (dw_url_parts w) config)) (\<lambda>(rpc_host, rpc_port).
          and_then (map_sum DIo id (dw_create_private_dir w (cf_ldk_storage_dir config))) (\<lambda>_.
          map_sum DLightning (\<lambda>(n, network). (LdkNode n, network))
            (ldk_start (dw_runtime w) (ldk_config_of config rpc_host rpc_port)))))"

definition backend_for :: "('b, 'n, 'i) daemon_world \<Rightarrow> network \<Rightarrow> 'n node_kind backend" where
  "backend_for w network =
     dyn_backend (mock_backend core_error_text)
       (ldk_backend core_error_text (dw_hex w) (dw_unhex w) (dw_ldk w) network)"

definition server_of ::
  "('b, 'n, 'i) daemon_world \<Rightarrow> config \<Rightarrow> bitcoin_rpc option \<Rightarrow> network \<Rightarrow> 'n node_kind server" where
  "server_of w config rpc network =
     \<lparr>sv_backend = backend_for w network, sv_config = api_config_of config, sv_rpc = rpc,
      sv_bitcoind = dw_bitcoind w, sv_sha256 = dw_sha256 w, sv_json_text = dw_json_text w,
      sv_hex = dw_hex w, sv_url_parse = dw_url_parse w, sv_timestamp = dw_timestamp w\<rparr>"

definition tasks_of :: "config \<Rightarrow> bitcoin_rpc option \<Rightarrow> daemon_task list" where
  "tasks_of config rpc =
     (case cf_lightning config of KindLdk \<Rightarrow> [PumpNodeEvents] | KindMock \<Rightarrow> [])
     @ [ExpireInvoices, DeliverWebhooks (default_config\<lparr>dc_allow_private := cf_webhook_allow_private config\<rparr>)]
     @ (case rpc of Some r \<Rightarrow> [WatchChain r (cf_watch_interval config)] | None \<Rightarrow> [])"

text \<open>
  \<open>run\<close>, to the point where the API is served: a failed reconciliation is only logged.
\<close>

definition daemon_run ::
  "('b, 'n, 'i) daemon_world \<Rightarrow> environment \<Rightarrow> env \<Rightarrow> daemon_error + 'n running" where
  "daemon_run w get e =
     and_then (map_sum DConfig id (config_load (dw_int_err w) get)) (\<lambda>config.
     and_then (map_sum DDatabase id (dw_connect w (cf_database_url config))) (\<lambda>db0.
     and_then (map_sum DDatabase id (dw_migrate w db0)) (\<lambda>d.
     and_then (rpc_of w config) (\<lambda>rpc.
     and_then (start_lightning w config) (\<lambda>(node, network).
     let sv = server_of w config rpc network;
         (changed, state) = reconcile_all (sv_backend sv) e \<lparr>app_db = d, app_node = node\<rparr>
     in and_then (map_sum DIo id (dw_bind w (cf_bind config))) (\<lambda>_.
        Inr \<lparr>rn_server = sv, rn_app = state, rn_tasks = tasks_of config rpc, rn_addr = cf_bind config\<rparr>))))))"

section \<open>A daemon that starts is safe\<close>

lemma reconcile_list_node: "reconcile_list be e ps k s = (res, s') \<Longrightarrow> app_node s' = app_node s"
  by (induction ps arbitrary: k s)
    (auto split: prod.splits sum.splits dest: reconcile_payment_steps [THEN conjunct2])

text \<open>What a successful start went through.\<close>

lemma daemon_run_Inr:
  assumes "daemon_run w get e = Inr rn"
  obtains config d rpc node network state res where "config_load (dw_int_err w) get = Inr config"
    and "rpc_of w config = Inr rpc"
    and "start_lightning w config = Inr (node, network)"
    and "reconcile_all (backend_for w network) e \<lparr>app_db = d, app_node = node\<rparr> = (res, state)"
    and "rn = \<lparr>rn_server = server_of w config rpc network, rn_app = state, rn_tasks = tasks_of config rpc,
      rn_addr = cf_bind config\<rparr>"
proof -
  obtain config db0 d rpc ns where c: "config_load (dw_int_err w) get = Inr config" "rpc_of w config = Inr rpc"
      "start_lightning w config = Inr ns"
      "(case ns of (node, network) \<Rightarrow>
         let sv = server_of w config rpc network;
             (changed, state) = reconcile_all (sv_backend sv) e \<lparr>app_db = d, app_node = node\<rparr>
         in and_then (map_sum DIo id (dw_bind w (cf_bind config))) (\<lambda>_.
            Inr \<lparr>rn_server = sv, rn_app = state, rn_tasks = tasks_of config rpc, rn_addr = cf_bind config\<rparr>)) = Inr rn"
    using assms unfolding daemon_run_def and_then_Inr by (auto simp: sum_map_Inr)
  obtain node network where ns: "ns = (node, network)" by fastforce
  obtain res state where "reconcile_all (backend_for w network) e \<lparr>app_db = d, app_node = node\<rparr> = (res, state)"
    by fastforce
  then show ?thesis using that [OF c(1,2)] c(3,4) ns by (auto simp: Let_def and_then_Inr server_of_def)
qed

lemma ldk_start_network: "ldk_start rt lc = Inr (n, network) \<Longrightarrow> network = lcf_network lc"
  by (auto simp: ldk_start_def Let_def split: option.splits sum.splits)

lemma start_lightning_Inr:
  assumes "start_lightning w config = Inr (node, network)"
  shows "network = cf_network config"
    and "node = MockNode mock_new \<and> cf_lightning config = KindMock
         \<or> (\<exists>n. node = LdkNode n) \<and> cf_lightning config = KindLdk"
  using assms by (auto simp: start_lightning_def and_then_Inr sum_map_Inr ldk_config_of_def
      split: lightning_kind.splits dest!: ldk_start_network)

lemma require_admin_Inr:
  "require_admin sha256 c headers = Inr () \<longleftrightarrow>
     (\<exists>t p. cfg_admin_token c = Some t \<and> headers ''x-admin-token'' = Some (Some p) \<and> sha256 t = sha256 p)"
  by (auto simp: require_admin_def split: option.splits)

text \<open>
  C4. A daemon that starts is configured safely. Whatever the environment, when \<open>run\<close> reaches the
  point where it serves the API: the network is not mainnet; the socket is a loopback address unless
  a public one was asked for; the development endpoints are off and the node is a real one unless
  the network is regtest; the deposits wait for 1 to 100 confirmations; a request passes the admin
  check only with a header whose digest is that of a configured token of at least 24 bytes; the
  node events are pumped exactly when there is a real node; starting, with its reconciliation,
  leaves a fresh mock node as it was; and the node behind the API meets the contract of the engine,
  when LDK Node behaves as documented.
\<close>

theorem daemon_starts_safe:
  assumes "daemon_run w get e = Inr rn"
    and "hex_codec (dw_hex w) (dw_unhex w)" and "ldk_ok (dw_ldk w)"
  shows "cfg_network (sv_config (rn_server rn)) \<noteq> Bitcoin
    \<and> (ip_is_loopback (sa_ip (rn_addr rn)) \<or> get ''SAFROD_ALLOW_PUBLIC_BIND'' \<in> {Some ''true'', Some ''1''})
    \<and> (cfg_network (sv_config (rn_server rn)) \<noteq> Regtest \<longrightarrow>
         \<not> cfg_enable_dev_endpoints (sv_config (rn_server rn)) \<and> (\<exists>n. app_node (rn_app rn) = LdkNode n))
    \<and> 1 \<le> cfg_default_confirmations (sv_config (rn_server rn))
    \<and> cfg_default_confirmations (sv_config (rn_server rn)) \<le> 100
    \<and> (\<forall>headers. require_admin (sv_sha256 (rn_server rn)) (sv_config (rn_server rn)) headers = Inr () \<longrightarrow>
         (\<exists>t p. get ''SAFROD_ADMIN_TOKEN'' = Some t \<and> 24 \<le> length t
            \<and> headers ''x-admin-token'' = Some (Some p) \<and> dw_sha256 w t = dw_sha256 w p))
    \<and> (PumpNodeEvents \<in> set (rn_tasks rn) \<longleftrightarrow> (\<exists>n. app_node (rn_app rn) = LdkNode n))
    \<and> (\<forall>m. app_node (rn_app rn) = MockNode m \<longrightarrow> m = mock_new)
    \<and> lightning_backend (sv_backend (rn_server rn))"
proof -
  obtain config d rpc node network state res where r: "config_load (dw_int_err w) get = Inr config"
      "start_lightning w config = Inr (node, network)"
      "reconcile_all (backend_for w network) e \<lparr>app_db = d, app_node = node\<rparr> = (res, state)"
      "rn = \<lparr>rn_server = server_of w config rpc network, rn_app = state, rn_tasks = tasks_of config rpc,
        rn_addr = cf_bind config\<rparr>"
    using assms(1) by (rule daemon_run_Inr)
  have node: "app_node state = node" using r(3) reconcile_list_node by (fastforce simp: reconcile_all_def)
  have "lightning_backend (backend_for w network)"
    unfolding backend_for_def
    by (intro dyn_lightning_backend ldk_lightning_backend assms(2,3) mock.lightning_backend_axioms)
  moreover have "cf_admin_token config = non_empty (get ''SAFROD_ADMIN_TOKEN'')"
    using config_load_admin [OF r(1)] .
  moreover have "cfg_flag get name = Inr True \<Longrightarrow> get name \<in> {Some ''true'', Some ''1''}" for name
    by (auto simp: cfg_flag_def split: option.splits if_splits)
  moreover have "PumpNodeEvents \<in> set (tasks_of config rpc) \<longleftrightarrow> cf_lightning config = KindLdk"
    by (auto simp: tasks_of_def split: lightning_kind.splits option.splits)
  ultimately show ?thesis
    using config_load_ok [OF r(1)] start_lightning_Inr [OF r(2)] node
    by (auto simp: r(4) server_of_def api_config_of_def config_ok_def is_supported_def require_admin_Inr
        non_empty_def split: option.splits if_splits)
qed

text \<open>A start with the mock node, the defaults and a token of 24 bytes.\<close>

definition sample_vars :: environment where
  "sample_vars = map_of [(''SAFROD_DATABASE_URL'', ''postgres''), (''SAFROD_LIGHTNING_BACKEND'', ''mock''),
     (''SAFROD_ADMIN_TOKEN'', replicate 24 CHR ''a'')]"

definition sample_world :: "(unit, u8 list \<rightharpoonup> ldk_details, u8 list) daemon_world" where
  "sample_world =
     \<lparr>dw_int_err = (\<lambda>_. ''invalid digit''), dw_connect = (\<lambda>_. Inr empty_db), dw_migrate = Inr,
      dw_http_client = Inr (), dw_url_parts = (\<lambda>_. Inl ''relative URL''), dw_create_private_dir = (\<lambda>_. Inr ()),
      dw_runtime = \<lparr>lb_new = (), lb_set_network = (\<lambda>_ b. b), lb_set_filesystem_logger = (\<lambda>_ _ b. b),
        lb_set_storage_dir_path = (\<lambda>_ b. b), lb_set_chain_source_bitcoind_rpc = (\<lambda>_ _ _ _ b. b),
        lb_socket_address = Some, lb_set_listening_addresses = (\<lambda>_ b. Inr b), lb_set_node_alias = (\<lambda>_ b. Inr b),
        lb_build = (\<lambda>_. Inr Map.empty), lb_start = Inr, lb_next_event = (\<lambda>_. None),
        lb_event_handled = (\<lambda>n. (Inr (), n)), lb_stop = (\<lambda>n. (Inr (), n))\<rparr>,
      dw_ldk = sample_ldk, dw_bind = (\<lambda>_. Inr ()), dw_bitcoind = idle_bitcoind,
      dw_sha256 = (\<lambda>s. [of_nat (length s)]), dw_json_text = (\<lambda>_. ''{}''), dw_hex = bytes_hex,
      dw_unhex = hex_bytes, dw_url_parse = (\<lambda>_. None), dw_timestamp = Some\<rparr>"

lemma sample_config:
  "\<exists>c. config_load int_err sample_vars = Inr c \<and> cf_lightning c = KindMock \<and> cf_bitcoin_rpc_url c = None"
proof -
  have "parse_socket_addr ''127.0.0.1:8080'' = Inr \<lparr>sa_ip = V4 (Ipv4 127 0 0 1), sa_port = 8080\<rparr>"
    by (simp add: parse_socket_addr_def read_socket_addr_v4_def read_ipv4_addr_def read_octet_def read_port_def
        read_separator_def read_given_char_def read_number_def to_digit_def hex_val_def is_ascii_digit_def code_def
        starts_with_def)
  moreover have "parse_network ''regtest'' = Inr Regtest"
    by (simp add: parse_network_def network_from_str_def to_ascii_lowercase_def to_lower_def code_def)
  moreover have "parse_signed 32 ''3'' = Some 3" "parse_u64 ''2'' = Some 2"
    by (simp_all add: parse_signed_def parse_u64_def parse_unsigned_def is_ascii_digit_def digit_val_def code_def)
  ultimately show ?thesis
    by (simp add: config_load_def sample_vars_def cfg_parse_def cfg_flag_def unwrap_or_def non_empty_def
        lightning_of_def parse_i32_def parse_secs_def is_supported_def Let_def)
qed

theorem daemon_starts_safe_witness:
  "\<exists>rn. daemon_run sample_world sample_vars sample_env = Inr rn
     \<and> cfg_network (sv_config (rn_server rn)) \<noteq> Bitcoin \<and> app_node (rn_app rn) = MockNode mock_new"
proof -
  obtain c where c: "config_load (dw_int_err sample_world) sample_vars = Inr c" "cf_lightning c = KindMock"
      "cf_bitcoin_rpc_url c = None"
    using sample_config by blast
  obtain res state where s: "reconcile_all (backend_for sample_world (cf_network c)) sample_env
      \<lparr>app_db = empty_db, app_node = MockNode mock_new\<rparr> = (res, state)" by fastforce
  then have n: "app_node state = MockNode mock_new"
    using reconcile_list_node by (fastforce simp: reconcile_all_def)
  obtain rn where rn: "daemon_run sample_world sample_vars sample_env = Inr rn" "rn_app rn = state"
    using c s by (simp add: daemon_run_def rpc_of_def start_lightning_def server_of_def)
      (simp add: sample_world_def)
  have "ldk_ok (dw_ldk sample_world)" "hex_codec (dw_hex sample_world) (dw_unhex sample_world)"
    using sample_ldk_ok plain_hex.hex_codec_axioms by (simp_all add: sample_world_def)
  then show ?thesis using daemon_starts_safe [OF rn(1)] rn n by blast
qed

end
