(* ===== verification/Daemon_Tasks.thy ===== *)
theory Daemon_Tasks
  imports Engine Ldk_Backend
begin

text \<open>
  \<open>crates/safrod/src/tasks.rs\<close>: the loop that applies node events and acknowledges them, and the loop
  that expires invoices. Each try to apply an event meets the database in one of three ways: the
  handler runs, the database is not reached, or the handler commits and its answer is lost. Other
  tasks change the database between the tries. Retrying has no limit in the code, so the loop is a
  partial function; that it ends is \<open>pumped_event_acknowledged\<close>.
\<close>

section \<open>pump_node_events\<close>

datatype db_answer = Reached env | Unreached | CommitLost env

fun event_attempt :: "db_answer \<Rightarrow> node_event \<Rightarrow> db \<Rightarrow> (event_error + unit) \<times> db" where
  "event_attempt (Reached e) event d = handle_node_event e event d"
| "event_attempt Unreached event d = (Inl (Transient (SDatabase ''no connection'')), d)"
| "event_attempt (CommitLost e) event d =
     (Inl (Transient (SDatabase ''no connection'')), snd (handle_node_event e event d))"

text \<open>
  What the loop meets at its \<open>k\<close>-th try: how the database answers, what other tasks did to it since
  the last try, and whether the stop signal comes while it sleeps after a failure.
\<close>

record pump_world =
  pw_attempt :: "nat \<Rightarrow> db_answer"
  pw_between :: "nat \<Rightarrow> db \<Rightarrow> db"
  pw_stop :: "nat \<Rightarrow> bool"

datatype applied = EventHandled | EventDropped | StopAsked

text \<open>The inner loop, from the \<open>k\<close>-th try on.\<close>

partial_function (option) apply_event ::
  "pump_world \<Rightarrow> node_event \<Rightarrow> nat \<Rightarrow> db \<Rightarrow> (applied \<times> nat \<times> db) option" where
  "apply_event w event k d =
     (case event_attempt (pw_attempt w k) event (pw_between w k d) of
        (Inr _, d') \<Rightarrow> Some (EventHandled, Suc k, d')
      | (Inl err, d') \<Rightarrow>
          (case err of
             Permanent reason \<Rightarrow> Some (EventDropped, Suc k, d')
           | Transient reason \<Rightarrow>
               if pw_stop w k then Some (StopAsked, Suc k, d') else apply_event w event (Suc k) d'))"

text \<open>
  One round of the outer loop: whether it goes on, the number of the next try, the node and the
  database. There is no answer when the node has no event or the inner loop does not end.
\<close>

definition pump_round ::
  "(u8 list \<Rightarrow> string) \<Rightarrow> ('b, 'n) ldk_runtime \<Rightarrow> pump_world \<Rightarrow> nat \<Rightarrow> 'n \<Rightarrow> db
   \<Rightarrow> (bool \<times> nat \<times> 'n \<times> db) option" where
  "pump_round enc rt w k n d =
     (case ldk_next_event enc rt n of
        None \<Rightarrow> None
      | Some event \<Rightarrow>
          (case apply_event w event k d of
             None \<Rightarrow> None
           | Some (StopAsked, k', d') \<Rightarrow> Some (False, k', n, d')
           | Some (_, k', d') \<Rightarrow> Some (True, k', snd (ldk_event_handled rt n), d')))"

section \<open>expire_invoices\<close>

text \<open>One pass per element; a pass that fails is logged and changes nothing.\<close>

definition expire_pass :: "db_answer \<Rightarrow> db \<Rightarrow> db" where
  "expire_pass a d =
     (case a of
        Unreached \<Rightarrow> d
      | Reached e \<Rightarrow> (case expire_invoices e d of Inl _ \<Rightarrow> d | Inr (_, d') \<Rightarrow> d')
      | CommitLost e \<Rightarrow> (case expire_invoices e d of Inl _ \<Rightarrow> d | Inr (_, d') \<Rightarrow> d'))"

definition expire_invoices_task :: "db_answer list \<Rightarrow> db \<Rightarrow> db" where
  "expire_invoices_task passes d = fold expire_pass passes d"

section \<open>A handler that runs decides the event\<close>

text \<open>
  Amounts that fit the signed column. A larger one, beyond the bitcoin supply, is refused by the storage
  with an error that the inner loop of the pump takes for a passing one.
\<close>

fun event_in_range :: "node_event \<Rightarrow> bool" where
  "event_in_range (PaymentReceived h amount) \<longleftrightarrow> unat amount < 2 ^ 63"
| "event_in_range (PaymentSuccessful h p fee) \<longleftrightarrow> (\<forall>f. fee = Some f \<longrightarrow> unat f < 2 ^ 63)"
| "event_in_range _ \<longleftrightarrow> True"

definition permanent_error :: "storage_error \<Rightarrow> bool" where
  "permanent_error err \<longleftrightarrow> (\<exists>p. classify err = Permanent p)"

lemma permanent_error_simps [simp]:
  "permanent_error SNotFound" "permanent_error (SIllegalTransition s t)"
  by (simp_all add: permanent_error_def)

lemma emit_not_Inl:
  "events_fresh e d \<Longrightarrow> p \<in> set (map prj_id (t_projects d)) \<Longrightarrow> emit e p kind res data sim d \<noteq> Inl err"
  by (metis emit_total sum.distinct(1))

lemma mark_paid_error:
  assumes ok: "schema_ok d" and fresh: "events_fresh e d" and amt: "unat amt < 2 ^ 63"
    and m: "mark_invoice_paid e key h amt d = Inl err"
  shows "permanent_error err"
proof -
  obtain b d1 where c: "claim_node_event key ''payment_received''
      (JObj [(''payment_hash'', JStr h), (''amount_msat'', JInt (uint amt))]) d = (b, d1)" by fastforce
  then have d1: "t_invoices d1 = t_invoices d" "t_projects d1 = t_projects d"
      "\<And>ts. events_fresh e (d1\<lparr>t_invoices := ts\<rparr>)"
    using fresh by (auto simp: claim_node_event_def events_fresh_def split: if_splits)
  show ?thesis
  proof (cases "select_one (\<lambda>r. inv_payment_hash r = h) (t_invoices d)")
    case None
    then show ?thesis using m c d1 by (auto simp: mark_invoice_paid_def split: if_splits)
  next
    case (Some r)
    then have r: "r \<in> set (t_invoices d)" using select_one_Some by fast
    have "emit e (inv_project_id (pay_row e amount r)) kind res data sim (d1\<lparr>t_invoices := ts\<rparr>) \<noteq> Inl err'"
      for amount kind res data sim ts err'
      using ok r d1 by (intro emit_not_Inl) (auto simp: schema_ok_def invoices_table_def pay_row_def)
    then show ?thesis using m c d1 Some amt
      by (auto simp: mark_invoice_paid_def Let_def to_i64_def split: if_splits sum.splits prod.splits)
  qed
qed

lemma transition_error:
  assumes ok: "schema_ok d" and fresh: "events_fresh e d" and fee: "fee_column res = Inr fee"
    and t: "transition_payment e (Some key) pid next res d = Inl err"
  shows "permanent_error err"
proof (cases "select_one (\<lambda>r. pay_id r = pid) (t_payments d)")
  case None
  then show ?thesis using t by (simp add: transition_payment_def)
next
  case (Some r)
  then have r: "r \<in> set (t_payments d)" using select_one_Some by fast
  obtain b d1 where c: "claim_node_event key ''payment_outcome''
      (JObj [(''payment_id'', JStr pid), (''status'', JStr (payment_as_str next))]) d = (b, d1)" by fastforce
  then have d1: "t_payments d1 = t_payments d" "t_projects d1 = t_projects d"
      "\<And>ts. events_fresh e (d1\<lparr>t_payments := ts\<rparr>)"
    using fresh by (auto simp: claim_node_event_def events_fresh_def split: if_splits)
  have "emit e (pay_project_id (resolve_row e next fee res r)) kind i data sim (d1\<lparr>t_payments := ts\<rparr>) \<noteq> Inl err'"
    for kind i data sim ts err'
    using ok r d1 by (intro emit_not_Inl) (auto simp: schema_ok_def payments_table_def resolve_row_def)
  then show ?thesis using t c d1 Some fee
    by (auto simp: transition_payment_def Let_def split: if_splits sum.splits prod.splits)
qed

text \<open>An event that fails leaves the database alone.\<close>

lemma handle_error_keeps: "handle_node_event e ev d = (Inl err, d') \<Longrightarrow> d' = d"
  by (auto simp: handle_node_event_def settle_event_def split: node_event.splits sum.splits option.splits)

lemma settle_event_decides:
  assumes "schema_ok d" and "events_fresh e d" and "fee_column res = Inr fee"
  shows "fst (settle_event e tag h next res d) = Inr () \<or> (\<exists>p. fst (settle_event e tag h next res d) = Inl (Permanent p))"
  using assms transition_error [OF assms]
  by (auto simp: settle_event_def permanent_error_def split: option.splits sum.splits)

lemma handle_node_event_decides:
  assumes "schema_ok d" and "events_fresh e d" and "event_in_range ev"
  shows "fst (handle_node_event e ev d) = Inr () \<or> (\<exists>p. fst (handle_node_event e ev d) = Inl (Permanent p))"
proof (cases ev)
  case (PaymentReceived h amt)
  then show ?thesis using mark_paid_error [OF assms(1,2), of amt] assms(3)
    by (auto simp: handle_node_event_def permanent_error_def split: sum.splits)
next
  case (PaymentSuccessful h pre fee)
  then obtain f where "fee_column (no_resolution\<lparr>rs_fee_msat := fee, rs_preimage := pre\<rparr>) = Inr f"
    using assms(3) by atomize_elim (auto simp: fee_column_def no_resolution_def to_i64_def split: option.splits)
  from settle_event_decides [OF assms(1,2) this] show ?thesis
    by (simp add: handle_node_event_def PaymentSuccessful)
next
  case (PaymentFailed hash reason)
  have "fee_column (no_resolution\<lparr>rs_failure_reason := Some reason\<rparr>) = Inr None"
    by (simp add: fee_column_def no_resolution_def)
  then show ?thesis using settle_event_decides [OF assms(1,2)] PaymentFailed
    by (auto simp: handle_node_event_def split: option.splits)
qed (simp_all add: handle_node_event_def)

section \<open>Retrying ends\<close>

text \<open>The database the \<open>k\<close>-th try meets, when every earlier one failed and the loop was not stopped.\<close>

primrec db_at_try :: "pump_world \<Rightarrow> node_event \<Rightarrow> db \<Rightarrow> nat \<Rightarrow> db" where
  "db_at_try w ev d 0 = pw_between w 0 d"
| "db_at_try w ev d (Suc k) = pw_between w (Suc k) (snd (event_attempt (pw_attempt w k) ev (db_at_try w ev d k)))"

lemma event_attempt_schema: "schema_ok d \<Longrightarrow> schema_ok (snd (event_attempt a ev d))"
  by (cases a) (auto dest: handle_node_event_keeps [OF _ surjective_pairing])

lemma db_at_try_schema:
  assumes "schema_ok d" and "\<forall>k x. schema_ok x \<longrightarrow> schema_ok (pw_between w k x)"
  shows "schema_ok (db_at_try w ev d k)"
  using assms by (induction k) (simp_all add: event_attempt_schema)

text \<open>What the answer of a try that ends the loop is.\<close>

definition try_decided :: "applied \<Rightarrow> event_error + unit \<Rightarrow> bool" where
  "try_decided out r \<longleftrightarrow> out = EventHandled \<and> r = Inr () \<or> out = EventDropped \<and> (\<exists>p. r = Inl (Permanent p))"

lemma apply_event_ends:
  assumes last: "\<exists>out. try_decided out (fst (event_attempt (pw_attempt w j) ev (db_at_try w ev d j)))"
    and stop: "\<forall>i<j. \<not> pw_stop w i"
    and "k \<le> j" and "pw_between w k dk = db_at_try w ev d k"
  shows "\<exists>m out. k \<le> m \<and> m \<le> j \<and> try_decided out (fst (event_attempt (pw_attempt w m) ev (db_at_try w ev d m)))
     \<and> apply_event w ev k dk = Some (out, Suc m, snd (event_attempt (pw_attempt w m) ev (db_at_try w ev d m)))"
  using assms(3,4)
proof (induction arbitrary: dk rule: inc_induct)
  case base
  then show ?case using last
    by (cases "event_attempt (pw_attempt w j) ev (db_at_try w ev d j)")
      (auto simp: apply_event.simps [of w ev j dk] try_decided_def)
next
  case (step k)
  obtain r d' where a: "event_attempt (pw_attempt w k) ev (db_at_try w ev d k) = (r, d')" by fastforce
  show ?case
  proof (cases "\<exists>out. try_decided out r")
    case True
    then obtain out where "try_decided out r" ..
    then show ?thesis using a step.hyps step.prems
      by (intro exI [of _ k] exI [of _ out]) (auto simp: apply_event.simps [of w ev k dk] try_decided_def)
  next
    case False
    then obtain t where "r = Inl (Transient t)" unfolding try_decided_def by (metis event_error.exhaust obj_sumE old.unit.exhaust)
    then have "apply_event w ev k dk = apply_event w ev (Suc k) d'"
      using a step.hyps step.prems stop by (simp add: apply_event.simps [of w ev k dk])
    moreover have "pw_between w (Suc k) d' = db_at_try w ev d (Suc k)" using a by simp
    ultimately show ?thesis using step.IH by fastforce
  qed
qed

text \<open>
  C6. The event pump gets through an outage. However often the database is unreachable, or commits
  and loses its answer, and whatever other tasks do to it meanwhile: when at some try the handler
  does run with fresh identifiers and the daemon was not asked to stop before, the loop, which has no
  limit, ends by that try; the event was then applied, or cannot be applied to the database as it
  is, which is the only way it is dropped; and it is acknowledged to the node only after that. The
  amount or fee of the event is assumed to be below \<open>2 ^ 63\<close> millisatoshis, the range of the column and far
  above the bitcoin supply (\<open>event_in_range\<close>).
\<close>

theorem pumped_event_acknowledged:
  assumes "ldk_next_event enc rt n = Some ev" and "event_in_range ev"
    and "schema_ok d" and "\<forall>k x. schema_ok x \<longrightarrow> schema_ok (pw_between w k x)"
    and "pw_attempt w j = Reached e" and "events_fresh e (db_at_try w ev d j)"
    and "\<forall>i<j. \<not> pw_stop w i"
  shows "\<exists>k\<le>j. \<exists>e' d' r. pw_attempt w k = Reached e' \<and> handle_node_event e' ev (db_at_try w ev d k) = (r, d')
    \<and> (r = Inr () \<or> (\<exists>p. r = Inl (Permanent p)) \<and> d' = db_at_try w ev d k)
    \<and> pump_round enc rt w 0 n d = Some (True, Suc k, snd (ldk_event_handled rt n), d')"
proof -
  have "\<exists>out. try_decided out (fst (event_attempt (pw_attempt w j) ev (db_at_try w ev d j)))"
    using handle_node_event_decides [OF db_at_try_schema [OF assms(3,4)] assms(6,2)] assms(5)
    by (auto simp: try_decided_def)
  then obtain k out where k: "k \<le> j" "try_decided out (fst (event_attempt (pw_attempt w k) ev (db_at_try w ev d k)))"
      "apply_event w ev 0 d = Some (out, Suc k, snd (event_attempt (pw_attempt w k) ev (db_at_try w ev d k)))"
    using apply_event_ends [OF _ assms(7), of ev d 0 d] by auto
  then obtain e' where e': "pw_attempt w k = Reached e'" by (cases "pw_attempt w k") (auto simp: try_decided_def)
  obtain r d' where h: "handle_node_event e' ev (db_at_try w ev d k) = (r, d')" by fastforce
  have "pump_round enc rt w 0 n d = Some (True, Suc k, snd (ldk_event_handled rt n), d')"
    using k(2,3) assms(1) e' h by (auto simp: pump_round_def try_decided_def)
  moreover have "r = Inr () \<or> (\<exists>p. r = Inl (Permanent p)) \<and> d' = db_at_try w ev d k"
    using k(2) e' h handle_error_keeps [of e' ev "db_at_try w ev d k" _ d'] by (auto simp: try_decided_def)
  ultimately show ?thesis using k(1) e' h by blast
qed

text \<open>An event queue of one, a first try that does not reach the database and a second whose answer is lost.\<close>

lemma mark_paid_fresh:
  assumes "mark_invoice_paid e key h amt d = Inr (out, d')" and "events_fresh e d"
  shows "events_fresh e d'"
  using assms(1)
proof (cases rule: mark_invoice_paid_cases)
  case (paid d1 current amount ev pl)
  then show ?thesis using emitted_fresh [OF emit_Inr [OF paid(7)]] assms(2)
    by (auto simp: claim_node_event_def events_fresh_def split: if_splits)
qed (use assms(2) in simp)

definition one_event :: "(unit, ldk_event list) ldk_runtime" where
  "one_event =
     \<lparr>lb_new = (), lb_set_network = (\<lambda>_ b. b), lb_set_filesystem_logger = (\<lambda>_ _ b. b),
      lb_set_storage_dir_path = (\<lambda>_ b. b), lb_set_chain_source_bitcoind_rpc = (\<lambda>_ _ _ _ b. b),
      lb_socket_address = Some, lb_set_listening_addresses = (\<lambda>_ b. Inr b), lb_set_node_alias = (\<lambda>_ b. Inr b),
      lb_build = (\<lambda>_. Inr []), lb_start = Inr, lb_next_event = (\<lambda>q. case q of [] \<Rightarrow> None | ev # _ \<Rightarrow> Some ev),
      lb_event_handled = (\<lambda>q. (Inr (), tl q)), lb_stop = (\<lambda>q. (Inr (), q))\<rparr>"

definition outage :: pump_world where
  "outage = \<lparr>pw_attempt = (\<lambda>k. if k = 0 then Unreached else if k = 1 then CommitLost sample_env else Reached sample_env),
     pw_between = (\<lambda>_ d. d), pw_stop = (\<lambda>_. False)\<rparr>"

theorem pumped_event_acknowledged_witness:
  "\<exists>d'. pump_round (\<lambda>_. ''h'') one_event outage 0 [LdkPaymentReceived [1] 5000, LdkOtherEvent ''x''] sample_invoices
        = Some (True, 3, [LdkOtherEvent ''x''], d')
     \<and> (\<exists>r \<in> set (t_invoices d'). inv_payment_hash r = ''h'' \<and> inv_status r = ''paid'')"
proof -
  let ?ev = "PaymentReceived ''h'' 5000"
  have ev: "ldk_next_event (\<lambda>_. ''h'') one_event [LdkPaymentReceived [1] 5000, LdkOtherEvent ''x''] = Some ?ev"
    by (simp add: ldk_next_event_def one_event_def)
  obtain d1 where m: "mark_invoice_paid sample_env ''recv:h'' (inv_payment_hash sample_invoice) 5000 sample_invoices
      = Inr (Some (pay_row sample_env 5000 sample_invoice), d1)"
    using mark_paid_total [OF sample_invoices_ok, of sample_invoice "''recv:h''" 5000 5000]
    by (auto simp: sample_invoices_def sample_invoice_def sample_db_def empty_db_def to_i64_def)
  note ok = mark_paid_op.op_schema [OF sample_invoices_ok(1) m]
  note again = mark_paid_again [OF sample_invoices_ok(1) m ok evolves_refl]
  have h: "snd (handle_node_event sample_env ?ev sample_invoices) = d1"
    using m by (simp add: handle_node_event_def sample_invoice_def)
  have h1: "handle_node_event e ?ev d1 = (Inr (), d1)" for e
    using again by (simp add: handle_node_event_def)
  have try2: "db_at_try outage ?ev sample_invoices 2 = d1"
    by (simp add: outage_def numeral_2_eq_2 h)
  have fresh: "events_fresh sample_env (db_at_try outage ?ev sample_invoices 2)"
    unfolding try2 by (rule mark_paid_fresh [OF m sample_invoices_ok(2)])
  have w: "pw_attempt outage 2 = Reached sample_env" "\<forall>k x. schema_ok x \<longrightarrow> schema_ok (pw_between outage k x)"
      "\<forall>i<2. \<not> pw_stop outage i" "event_in_range ?ev"
    by (simp_all add: outage_def)
  obtain k e' d' r where k: "k \<le> 2" "pw_attempt outage k = Reached e'"
      "handle_node_event e' ?ev (db_at_try outage ?ev sample_invoices k) = (r, d')"
      "pump_round (\<lambda>_. ''h'') one_event outage 0 [LdkPaymentReceived [1] 5000, LdkOtherEvent ''x''] sample_invoices
        = Some (True, Suc k, snd (ldk_event_handled one_event [LdkPaymentReceived [1] 5000, LdkOtherEvent ''x'']), d')"
    using pumped_event_acknowledged [OF ev w(4) sample_invoices_ok(1) w(2) w(1) fresh w(3)] by blast
  have "k = 2" using k(1,2) by (simp add: outage_def split: if_splits)
  then have "d' = d1" using k(3) try2 h1 by simp
  then show ?thesis using k(4) \<open>k = 2\<close> again
    by (auto simp: ldk_event_handled_def one_event_def pay_row_def sample_invoice_def intro!: bexI)
qed

section \<open>A receipt that comes after the expiry\<close>

lemma emit_expired_node_events: "emit_expired e rs d = Inr d' \<Longrightarrow> t_node_events d' = t_node_events d"
proof (induction rs arbitrary: d)
  case (Cons r rs)
  then obtain ev d1 where "emit e (inv_project_id r) ''invoice.expired'' (inv_id r)
      (invoice_event_data r) False d = Inr (ev, d1)" "emit_expired e rs d1 = Inr d'"
    by (auto split: sum.splits)
  with Cons.IH show ?case by (auto simp: emitted_def dest!: emit_Inr)
qed simp

lemma expire_pass_total:
  assumes "schema_ok d" and "events_fresh e d"
  shows "\<exists>d'. expire_invoices e d = Inr (length (filter (overdue e) (t_invoices d)), d')
     \<and> t_invoices d' = update_where (overdue e) (expire_row e) (t_invoices d) \<and> t_node_events d' = t_node_events d"
proof -
  let ?d1 = "d\<lparr>t_invoices := update_where (overdue e) (expire_row e) (t_invoices d)\<rparr>"
  let ?rs = "map (expire_row e) (filter (overdue e) (t_invoices d))"
  have "\<And>r. r \<in> set ?rs \<Longrightarrow> inv_project_id r \<in> project_ids ?d1"
    using assms(1) by (auto simp: schema_ok_def invoices_table_def expire_row_def)
  moreover have "events_fresh e ?d1" using assms(2) by (simp add: events_fresh_def)
  ultimately obtain d' where "emit_expired e ?rs ?d1 = Inr d'" using emit_expired_total by blast
  then show ?thesis
    using emit_expired_events [of e ?rs ?d1 d'] emit_expired_node_events [of e ?rs ?d1 d']
    by (simp add: expire_invoices_def Let_def)
qed

lemma mark_paid_expired:
  assumes "schema_ok d" and "r \<in> set (t_invoices d)" and "inv_status r = ''expired''"
    and "key \<notin> nev_dedupe_key ` set (t_node_events d)"
  shows "mark_invoice_paid e key (inv_payment_hash r) amount d = Inl (SIllegalTransition ''expired'' ''paid'')"
proof -
  have "select_one (\<lambda>x. inv_payment_hash x = inv_payment_hash r) (t_invoices d) = Some r"
    using assms(1,2) by (intro select_one_unique) (auto simp: schema_ok_def invoices_table_def)
  then show ?thesis using assms(3,4)
    by (simp add: mark_invoice_paid_def claim_node_event_def Let_def invoice_from_str_def)
qed

text \<open>
  C7. A receipt that is handled late is lost. When the expiry pass runs on an overdue open invoice
  before the pump applies the event that says it was paid (the payment may have come in time, while the
  daemon or its database was down), the event is dropped and acknowledged to the node, and the
  database is as the pass left it: the invoice is expired, and stays expired in every later database,
  although the node has the money.
\<close>

theorem late_receipt_lost:
  assumes "ldk_next_event enc rt n = Some (PaymentReceived (inv_payment_hash r) amount)"
    and "schema_ok d" and "events_fresh ex d" and "r \<in> set (t_invoices d)" and "overdue ex r"
    and "''recv:'' @ inv_payment_hash r \<notin> nev_dedupe_key ` set (t_node_events d)"
    and "pw_between w 0 = expire_pass (Reached ex)" and "pw_attempt w 0 = Reached e"
  shows "pump_round enc rt w 0 n d = Some (True, 1, snd (ldk_event_handled rt n), expire_pass (Reached ex) d)
    \<and> apply_event w (PaymentReceived (inv_payment_hash r) amount) 0 d = Some (EventDropped, 1, expire_pass (Reached ex) d)
    \<and> (\<forall>d2. evolves (expire_pass (Reached ex) d) d2 \<longrightarrow> expire_row ex r \<in> set (t_invoices d2))"
proof -
  obtain d' where d': "expire_invoices ex d = Inr (length (filter (overdue ex) (t_invoices d)), d')"
      "t_invoices d' = update_where (overdue ex) (expire_row ex) (t_invoices d)" "t_node_events d' = t_node_events d"
    using expire_pass_total [OF assms(2,3)] by blast
  then have pass: "expire_pass (Reached ex) d = d'" by (simp add: expire_pass_def)
  have r': "expire_row ex r \<in> set (t_invoices d')" "inv_status (expire_row ex r) = ''expired''"
    using assms(4,5) d'(2) by (auto simp: set_update_where expire_row_def)
  have "mark_invoice_paid e (''recv:'' @ inv_payment_hash r) (inv_payment_hash r) amount d'
      = Inl (SIllegalTransition ''expired'' ''paid'')"
    using mark_paid_expired [OF expire_op.op_schema [OF assms(2) d'(1)] r', of "''recv:'' @ inv_payment_hash r" e amount]
      assms(6) d'(3) by (simp add: expire_row_def)
  then have a: "apply_event w (PaymentReceived (inv_payment_hash r) amount) 0 d = Some (EventDropped, 1, d')"
    using assms(7,8) pass by (simp add: apply_event.simps [of w _ 0 d] handle_node_event_def)
  have "expire_row ex r \<in> set (t_invoices d2)" if ev: "evolves d' d2" for d2
  proof -
    obtain x where "x \<in> set (t_invoices d2)" "invoice_le (expire_row ex r) x"
      using grows_mem [OF _ r'(1)] ev unfolding evolves_def by blast
    then show ?thesis using r'(2) by (auto simp: invoice_le_def)
  qed
  then show ?thesis using a assms(1) pass by (simp add: pump_round_def)
qed

theorem late_receipt_lost_witness:
  "\<exists>d'. pump_round (\<lambda>_. ''h'') one_event (outage\<lparr>pw_attempt := (\<lambda>_. Reached sample_env),
          pw_between := (\<lambda>_. expire_pass (Reached sample_env))\<rparr>) 0 [LdkPaymentReceived [1] 5000] sample_invoices
        = Some (True, 1, [], d') \<and> (\<exists>x \<in> set (t_invoices d'). inv_payment_hash x = ''h'' \<and> inv_status x = ''expired'')"
proof -
  let ?w = "outage\<lparr>pw_attempt := (\<lambda>_. Reached sample_env), pw_between := (\<lambda>_. expire_pass (Reached sample_env))\<rparr>"
  have h: "ldk_next_event (\<lambda>_. ''h'') one_event [LdkPaymentReceived [1] 5000]
      = Some (PaymentReceived (inv_payment_hash sample_invoice) 5000)"
    by (simp add: ldk_next_event_def one_event_def sample_invoice_def)
  have r: "sample_invoice \<in> set (t_invoices sample_invoices)" "overdue sample_env sample_invoice"
      "''recv:'' @ inv_payment_hash sample_invoice \<notin> nev_dedupe_key ` set (t_node_events sample_invoices)"
    by (simp_all add: sample_invoices_def overdue_def sample_invoice_def sample_env_def sample_db_def empty_db_def)
  have w: "pw_between ?w 0 = expire_pass (Reached sample_env)" "pw_attempt ?w 0 = Reached sample_env" by simp_all
  have "snd (ldk_event_handled one_event [LdkPaymentReceived [1] 5000]) = []"
    by (simp add: ldk_event_handled_def one_event_def)
  moreover have "inv_payment_hash (expire_row sample_env sample_invoice) = ''h''"
      "inv_status (expire_row sample_env sample_invoice) = ''expired''"
    by (simp_all add: expire_row_def sample_invoice_def)
  ultimately show ?thesis
    using late_receipt_lost [OF h sample_invoices_ok r w] evolves_refl by (auto intro!: bexI)
qed

end
