(* ===== verification/Spec2Isabelle.thy ===== *)
theory Spec2Isabelle
  imports Engine_World Sandbox_Calc Storage_Webhooks Storage_Onchain Storage_Projects Storage_Sandbox Core_Webhook
    Api_Http Api_Outbox Api_Confined Settle_Live Settle_Main Daemon_Main Daemon_Tasks
begin

text \<open>
  A verification development for Safrod, a payment backend for Bitcoin and Lightning with simulated
  fiat, and for the settlement node under \<open>legacy/settlement\<close>.

  \<^bold>\<open>The program.\<close> The daemon (\<open>crates/safrod\<close>) reads its configuration, opens a PostgreSQL database
  (\<open>crates/safrod-storage\<close>), starts a Lightning node (\<open>crates/safrod-lightning\<close>), reconciles what a
  previous run left open and serves a REST API (\<open>crates/safrod-api\<close>). The API asks the payment engine
  (\<open>engine.rs\<close>) to send payments; background tasks pump the events of the node into the database, expire
  invoices, deliver signed webhooks (\<open>crates/safrod-webhooks\<close>) and watch the chain
  (\<open>crates/safrod-bitcoin\<close>). All of them meet in the database: each operation is one transaction, emits
  events and webhook deliveries with the change it makes, and is repeatable under an idempotency key or
  a de-duplication key. A settlement node pairs a Lightning payment with a fiat payout made by its peer.

  \<^bold>\<open>How the code is modelled.\<close> Functions keep their names where HOL allows it. A struct is a record, an enum
  a datatype, \<open>Result\<close> a sum with the error on the left, \<open>Option\<close> an option, \<open>u8\<close> to \<open>u64\<close> are words and a
  signed column an \<open>int\<close> with its range checks; \<open>String\<close> is its list of bytes. A table is the list of its rows in
  the order they were inserted, and \<open>schema_ok\<close> are the constraints of the migration. A transaction is a
  function from the database to an error, or an answer and the next database; time, random bytes and
  generated identifiers come with the argument \<open>env\<close>. Third-party code is an argument or a record of
  functions (LDK Node, \<open>bitcoind\<close>, \<open>lightningd\<close>, HTTP, the resolver, SHA-256, HMAC, secp256k1, the codecs of
  JSON, TOML, hexadecimal and URLs); what is relied on is a named predicate or locale: \<open>ldk_ok\<close>,
  \<open>hex_codec\<close>, \<open>events_fresh\<close> (identifiers drawn are new), \<open>rail_keeps\<close>.

  \<^bold>\<open>Theories.\<close>
  \<^item> \<open>Safrod_Prelude\<close>: integers, strings, tables, and the lemmas all components share.
  \<^item> \<open>Core_Base\<close>, \<open>Core_State\<close>, \<open>Core_Ids\<close>, \<open>Core_Apikey\<close>, \<open>Core_Webhook\<close> (\<open>safrod-core\<close>): amounts, status
    machines, identifiers and networks, keys, webhook signatures. Locales: \<open>text_enum\<close> and its extensions for
    the enumerations, the status machines, \<open>hex_codec\<close>.
  \<^item> \<open>Storage_Db\<close>, \<open>Storage_Schema\<close> and \<open>Storage_Projects\<close>, \<open>Storage_Payments\<close>, \<open>Storage_Invoices\<close>,
    \<open>Storage_Onchain\<close>, \<open>Storage_Webhooks\<close>, \<open>Storage_Sandbox\<close> (\<open>safrod-storage\<close>): the tables with the outbox,
    the schema invariant and the order \<open>evolves\<close> of databases, and every query. The locale \<open>db_op\<close> is what each
    operation promises (the schema is kept, the database only moves forward); it is interpreted on every
    operation that writes.
  \<^item> \<open>Sandbox_Calc\<close> (\<open>safrod-sandbox\<close>): quotes in 128-bit arithmetic.
  \<^item> \<open>Lightning_Backend\<close> (\<open>lib.rs\<close>, \<open>mock.rs\<close>) and \<open>Ldk_Backend\<close> (\<open>ldk.rs\<close>): the node as a record of operations
    with its contract \<open>lightning_backend\<close>, which the mock meets, and the adapter to LDK Node when \<open>ldk_ok\<close>.
  \<^item> \<open>Engine\<close> (\<open>engine.rs\<close>) and \<open>Engine_World\<close>: the payment engine, first as functions, then as tasks whose atomic
    parts interleave with each other, with all other transactions and with crashes.
  \<^item> \<open>Url_Guard\<close>, \<open>Webhook_Deliver\<close> (\<open>safrod-webhooks\<close>): the guard on webhook addresses with the address parser of
    the standard library, and the delivery worker.
  \<^item> \<open>Bitcoin_Rpc\<close>, \<open>Bitcoin_Watcher\<close> (\<open>safrod-bitcoin\<close>): the client with its decimal amounts, and the watcher.
  \<^item> \<open>Api_Base\<close>, \<open>Api_Handler\<close>, \<open>Routes_Lightning\<close>, \<open>Routes_Sandbox\<close>, \<open>Routes_Account\<close>, \<open>Routes_Admin\<close>,
    \<open>Api_Router\<close>, \<open>Api_Http\<close> (\<open>safrod-api\<close>): errors, authentication and paging, the combinators of the
    handlers, every handler, the router with the runs of the whole gateway, and around it the middleware, the
    documentation pages and the table of registered routes. \<open>Api_Store\<close>: the gateway reaches the tables through the
    transactions of storage only. \<open>Api_Outbox\<close>: what this gives for the events. \<open>Api_Isolation\<close> and
    \<open>Api_Confined\<close>: what a tenant's requests see of the others (nothing) and change of them (nothing).
  \<^item> \<open>Daemon_Config\<close>, \<open>Daemon_Main\<close>, \<open>Daemon_Tasks\<close> (\<open>crates/safrod\<close>): the configuration, start-up with the node
    as a trait object, the event pump and the expiry task.
  \<^item> \<open>Settle_Base\<close>, \<open>Settle_Sign\<close>, \<open>Settle_Store\<close>, \<open>Settle_Rails\<close>, \<open>Settle_Node\<close>, \<open>Settle_Api\<close>, \<open>Settle_Main\<close>
    (\<open>legacy/settlement/src\<close>): state machine and amounts, attestations and quotes, the journal, the fiat and
    Lightning rails with their contracts, the methods of the node, its HTTP surface and its start.
    \<open>Settle_Safety\<close>, \<open>Settle_Agreement\<close> and \<open>Settle_Live\<close> hold what follows of one node and of two.

  \<^bold>\<open>What is shown.\<close>
  \<^item> Payments: in every interleaving with crashes the node is asked to send at most once per payment and per
    idempotency key, after the payment left \<open>created\<close> (\<open>payment_dispatched_once\<close>); a retry answers from the record
    (\<open>send_payment_replay\<close>); reconciliation follows the node (\<open>reconcile_follows_node\<close>); a step of a payment is
    legal, done once and announced once (\<open>transition_payment_exact\<close>).
  \<^item> Events: over every run of the gateway the events of final outcomes are exactly the final payments, invoices and
    payouts, each announced once (\<open>outbox_exact\<close>).
  \<^item> Receipts: an invoice is credited once (\<open>mark_invoice_paid_once\<close>), redelivered events change nothing
    (\<open>node_event_redelivery\<close>), an outage ends with the event applied and acknowledged
    (\<open>pumped_event_acknowledged\<close>), expiry is exact (\<open>expire_invoices_exact\<close>), and the one way a receipt is lost
    (\<open>late_receipt_lost\<close>).
  \<^item> Simulated money is conserved (\<open>sandbox_conservation\<close>), reserved once (\<open>reserve_payout_once\<close>), priced exactly
    (\<open>quote_exact\<close>); the Bitcoin leg is sent only after the simulated destination confirmed (\<open>bitcoin_leg_gated\<close>),
    and the requests that lose one below a satoshi (\<open>settlement_lost\<close>).
  \<^item> Chain: amounts are read exactly (\<open>btc_to_sats_exact\<close>), observations and whole passes are idempotent
    (\<open>record_observation_idempotent\<close>, \<open>scan_once_idempotent\<close>), and the output that blocks every pass
    (\<open>zero_output_stops_scan\<close>).
  \<^item> Access: a request is authorised exactly with a live key of the scope (\<open>authorize_sound\<close>, \<open>api_key_lifecycle\<close>), no
    request without a paying scope makes the node pay (\<open>money_needs_scope\<close>), what a key reads depends on the rows of
    its own project alone (\<open>tenant_isolation\<close>), what belongs to a project changes only by its own key or the admin
    token (\<open>tenant_writes\<close>), pages list everything once, the first included (\<open>list_payments_paging\<close>), identifiers, generated ones
    among them, and amounts parse exactly (\<open>id_parse_canonical\<close>, \<open>accepted_amount_converts\<close>), and over every run of the gateway the schema holds
    and the records only move forward (\<open>gateway_history\<close>). Every response names its request
    (\<open>responses_identified\<close>), and the requests of the model are exactly the registered routes
    (\<open>routes_registered\<close>).
  \<^item> Webhooks: only public addresses are called (\<open>is_public_ip_blocks\<close>, \<open>request_guarded_and_signed\<close>), signatures verify
    and only they do (\<open>signature_verifies\<close>, \<open>verify_sound\<close>), leases are exclusive while they last
    (\<open>claim_lease_exclusive\<close>) and every attempt is settled as its answer says (\<open>deliver_due_settles\<close>).
  \<^item> The daemon: what starts is safely configured (\<open>daemon_starts_safe\<close>), and the LDK adapter meets the contract of
    the engine (\<open>ldk_meets_contract\<close>).
  \<^item> Settlement: exactly the intended histories (\<open>settlement_histories\<close>), attestations bind what they say
    (\<open>attestation_binds\<close>), the journal is old or new after any failure (\<open>journal_atomic\<close>), a node pays only on
    evidence (\<open>release_justified\<close>), two nodes agree (\<open>settlement_agreement\<close>), a settlement concludes over a network
    that delivers (\<open>settle_concludes\<close>), and when it cannot (\<open>decided_payout_unanswered\<close>).

  \<^bold>\<open>Loops and bounds.\<close> Loops over rows, events and requests are structural recursion and need no fuel; the
  handlers and queries are total functions. The readers of addresses and numbers recurse on the text. The
  retry loop of the event pump has no limit in the code and is a partial function; that it ends is proved
  from a try that reaches the database. The background loops are sequences of passes of any length.
  Arithmetic is that of a release build: it wraps where the code does not check.

  \<^bold>\<open>Not modelled.\<close> Logging, the asynchronous runtime and signal handling, HTTP framing with the limit on bodies,
  the matching of paths (axum), the derives of serde, the connection pool, and the tests. The isolation of
  PostgreSQL is taken as serialisable for each operation. A
  database outage is modelled where the code retries (the event pump); elsewhere a failed call answers an
  error and changes nothing.
\<close>

end
